(* ===== verification/Prelude.thy ===== *)
theory Prelude
  imports Complex_Main "HOL-Library.Word" "HOL-Library.Product_Lexorder"
begin

text \<open>
  Shared vocabulary of the development: the result type of contract code and the lemma
  collections that take it apart, machine integers with their wrap-around, and the plain data
  of the eosio library that the contracts read and write (names, symbols, assets, permission
  levels).
\<close>

named_theorems res_simps \<open>equations that decide when a guarded computation succeeds\<close>
named_theorems wrap_simps \<open>unfolding of the machine integer operations\<close>

section \<open>Results\<close>

text \<open>
  An action either aborts, and the chain rolls the whole transaction back, or returns a value.
  \<open>Assert m\<close> is a failed \<open>check( c, m )\<close>; \<open>MissingAuth\<close> a failed \<open>require_auth\<close>;
  \<open>NoRow m\<close> a failed table lookup; \<open>Undefined m\<close> a step whose behaviour C++ does not define
  (an end iterator that is read, a division by zero, a conversion out of range).
\<close>

type_synonym name = "64 word"

datatype error =
    Assert string
  | MissingAuth name
  | NoRow string
  | Undefined string

type_synonym 'a res = "error + 'a"

fun rbind :: "'e + 'a \<Rightarrow> ('a \<Rightarrow> 'e + 'b) \<Rightarrow> 'e + 'b" where
  "rbind (Inl e) f = Inl e"
| "rbind (Inr x) f = f x"

definition guard_res :: "bool \<Rightarrow> 'e \<Rightarrow> 'e + 'a \<Rightarrow> 'e + 'a" where
  "guard_res c e k = (if c then k else Inl e)"

definition check :: "bool \<Rightarrow> string \<Rightarrow> 'a res \<Rightarrow> 'a res" where
  "check c m k = guard_res c (Assert m) k"

fun rget :: "'e \<Rightarrow> 'a option \<Rightarrow> 'e + 'a" where
  "rget e None = Inl e"
| "rget e (Some x) = Inr x"

text \<open>A loop over a vector whose body may abort.\<close>

fun rfold :: "('a \<Rightarrow> 's \<Rightarrow> 'e + 's) \<Rightarrow> 'a list \<Rightarrow> 's \<Rightarrow> 'e + 's" where
  "rfold f [] s = Inr s"
| "rfold f (x # xs) s = rbind (f x s) (rfold f xs)"

lemma rbind_Inr_iff [res_simps]: "rbind m f = Inr y \<longleftrightarrow> (\<exists>x. m = Inr x \<and> f x = Inr y)"
  by (cases m) auto

lemma rbind_Inl_iff: "rbind m f = Inl e \<longleftrightarrow> m = Inl e \<or> (\<exists>x. m = Inr x \<and> f x = Inl e)"
  by (cases m) auto

lemma guard_Inr_iff [res_simps]: "guard_res c e k = Inr y \<longleftrightarrow> c \<and> k = Inr y"
  by (simp add: guard_res_def)

lemma check_Inr_iff [res_simps]: "check c m k = Inr y \<longleftrightarrow> c \<and> k = Inr y"
  by (simp add: check_def res_simps)

lemma rget_Inr_iff [res_simps]: "rget e x = Inr y \<longleftrightarrow> x = Some y"
  by (cases x) auto

lemma guard_True [simp]: "guard_res True e k = k"
  and guard_False [simp]: "guard_res False e k = Inl e"
  by (simp_all add: guard_res_def)

lemma check_True [simp]: "check True m k = k"
  and check_False [simp]: "check False m k = Inl (Assert m)"
  by (simp_all add: check_def)

lemma check_cong [cong]: "c = c' \<Longrightarrow> (c' \<Longrightarrow> k = k') \<Longrightarrow> check c m k = check c' m k'"
  by (simp add: check_def guard_res_def)

lemma rbind_assoc: "rbind (rbind m f) g = rbind m (\<lambda>x. rbind (f x) g)"
  by (cases m) auto

lemma rbind_fundef_cong [fundef_cong]:
  "m = m' \<Longrightarrow> (\<And>x. m' = Inr x \<Longrightarrow> f x = f' x) \<Longrightarrow> rbind m f = rbind m' f'"
  by (cases m') auto

lemma rfold_append: "rfold f (xs @ ys) s = rbind (rfold f xs s) (rfold f ys)"
proof (induction xs arbitrary: s)
  case (Cons x xs)
  then have "rfold f (xs @ ys) = (\<lambda>s. rbind (rfold f xs s) (rfold f ys))" by (rule ext)
  then show ?case by (simp add: rbind_assoc)
qed simp

text \<open>A loop keeps what its body keeps.\<close>

lemma rfold_inv:
  assumes "rfold f xs s = Inr s'" and "P s"
    and "\<And>x s s'. x \<in> set xs \<Longrightarrow> P s \<Longrightarrow> f x s = Inr s' \<Longrightarrow> P s'"
  shows "P s'"
  using assms by (induction xs arbitrary: s) (auto simp: res_simps)

text \<open>
  \<open>ensures m P\<close>: if \<open>m\<close> succeeds, its value satisfies \<open>P\<close>. The rules follow the syntax of contract
  code, so that a property of a handler is split into the ends of its branches.
\<close>

definition ensures :: "'e + 'a \<Rightarrow> ('a \<Rightarrow> bool) \<Rightarrow> bool" where
  "ensures m P \<longleftrightarrow> (\<forall>x. m = Inr x \<longrightarrow> P x)"

named_theorems ensures_intros \<open>rules for the success of guarded computations\<close>

lemma ensuresD: "ensures m P \<Longrightarrow> m = Inr x \<Longrightarrow> P x"
  by (simp add: ensures_def)

lemma ensuresI: "(\<And>x. m = Inr x \<Longrightarrow> P x) \<Longrightarrow> ensures m P"
  by (simp add: ensures_def)

lemma ensures_base [ensures_intros]:
  "ensures (Inl e) P" "P x \<Longrightarrow> ensures (Inr x) P"
  "(c \<Longrightarrow> ensures k P) \<Longrightarrow> ensures (check c m k) P"
  "(c \<Longrightarrow> ensures k P) \<Longrightarrow> ensures (guard_res c e k) P"
  "(\<And>x. m' = Inr x \<Longrightarrow> ensures (f x) P) \<Longrightarrow> ensures (rbind m' f) P"
  by (auto simp: ensures_def res_simps)

lemma ensures_cases [ensures_intros]:
  "(c \<Longrightarrow> ensures a P) \<Longrightarrow> (\<not> c \<Longrightarrow> ensures b P) \<Longrightarrow> ensures (if c then a else b) P"
  "(\<And>x. x = t \<Longrightarrow> ensures (g x) P) \<Longrightarrow> ensures (let x = t in g x) P"
  "(\<And>x y. q = (x, y) \<Longrightarrow> ensures (h x y) P) \<Longrightarrow> ensures (case q of (x, y) \<Rightarrow> h x y) P"
  "(opt = None \<Longrightarrow> ensures a P) \<Longrightarrow> (\<And>x. opt = Some x \<Longrightarrow> ensures (g x) P) \<Longrightarrow>
     ensures (case opt of None \<Rightarrow> a | Some x \<Rightarrow> g x) P"
  by (auto simp: ensures_def split: option.split prod.split)

text \<open>A called function's own specification, and a loop's invariant.\<close>

lemma ensures_call: "ensures m Q \<Longrightarrow> (\<And>x. Q x \<Longrightarrow> ensures (f x) P) \<Longrightarrow> ensures (rbind m f) P"
  by (auto simp: ensures_def res_simps)

lemma ensures_mono: "ensures m Q \<Longrightarrow> (\<And>x. Q x \<Longrightarrow> P x) \<Longrightarrow> ensures m P"
  by (auto simp: ensures_def)

lemma ensures_rfold:
  assumes "P s" and "\<And>x s. x \<in> set xs \<Longrightarrow> P s \<Longrightarrow> ensures (f x s) P"
  shows "ensures (rfold f xs s) P"
  using assms rfold_inv [of f xs s _ P] by (auto simp: ensures_def)

section \<open>Machine integers\<close>

text \<open>
  \<open>int64_t\<close> and the unsigned types are integers with the wrap-around of every operation
  written out (\<open>wrap64\<close>, \<open>u64\<close>, \<dots>); the contracts run as WebAssembly, whose integers wrap.
  \<open>cdiv\<close> is C++'s division, which rounds towards zero.
\<close>

type_synonym i64 = int
type_synonym uint = int

definition wrap64 :: "int \<Rightarrow> int" where
  "wrap64 x = (x + 2 ^ 63) mod 2 ^ 64 - 2 ^ 63"

definition in64 :: "int \<Rightarrow> bool" where
  "in64 x \<longleftrightarrow> - (2 ^ 63) \<le> x \<and> x < 2 ^ 63"

definition u128 :: "int \<Rightarrow> int" where "u128 x = x mod 2 ^ 128"
definition u64 :: "int \<Rightarrow> int" where "u64 x = x mod 2 ^ 64"
definition u32 :: "int \<Rightarrow> int" where "u32 x = x mod 2 ^ 32"
definition u16 :: "int \<Rightarrow> int" where "u16 x = x mod 2 ^ 16"

definition cdiv :: "int \<Rightarrow> int \<Rightarrow> int" where
  "cdiv a b = sgn a * sgn b * (\<bar>a\<bar> div \<bar>b\<bar>)"

lemma wrap64_id: "in64 x \<Longrightarrow> wrap64 x = x"
  by (simp add: in64_def wrap64_def)

lemma wrap_small: "- (2 ^ 63) \<le> x \<Longrightarrow> x < 2 ^ 63 \<Longrightarrow> wrap64 x = x"
  by (simp add: wrap64_id in64_def)

lemma in64_wrap64 [simp]: "in64 (wrap64 x)"
  by (simp add: in64_def wrap64_def)

lemma wrap64_word: "wrap64 x = sint (word_of_int x :: 64 word)"
  by (simp add: wrap64_def sint_sbintrunc' signed_take_bit_eq_take_bit_shift take_bit_eq_mod)

lemma cdiv_nonneg: "0 \<le> a \<Longrightarrow> 0 \<le> b \<Longrightarrow> cdiv a b = a div b"
  by (auto simp: cdiv_def sgn_if)

lemma u64_id: "0 \<le> x \<Longrightarrow> x < 2 ^ 64 \<Longrightarrow> u64 x = x"
  by (simp add: u64_def)

lemma u128_id: "0 \<le> x \<Longrightarrow> x < 2 ^ 128 \<Longrightarrow> u128 x = x"
  by (simp add: u128_def)

section \<open>Names, symbols, assets, permissions\<close>

text \<open>
  \<open>eosio::name\<close> wraps the \<open>uint64_t\<close> \<open>value\<close>; its order is the order of the values and the
  empty name is 0, which is what \<open>bool(name)\<close> tests. A \<open>symbol\<close> is a symbol code and a
  precision, an \<open>asset\<close> a signed amount of a symbol.
\<close>

record symbol =
  sym_code :: "64 word"
  sym_precision :: "8 word"

record asset =
  amount :: i64
  symb :: symbol

record permission_level =
  actor :: name
  permission :: name

definition mk_asset :: "i64 \<Rightarrow> symbol \<Rightarrow> asset" where
  "mk_asset a y = \<lparr>amount = a, symb = y\<rparr>"

definition name_set :: "name \<Rightarrow> bool" where
  "name_set n \<longleftrightarrow> n \<noteq> 0"

lemma mk_asset_simps [simp]: "amount (mk_asset a y) = a" "symb (mk_asset a y) = y"
  by (simp_all add: mk_asset_def)

lemma mk_asset_id [simp]: "mk_asset (amount q) (symb q) = q"
  by (cases q) (simp add: mk_asset_def)

lemma mk_asset_eq_iff: "mk_asset a y = q \<longleftrightarrow> amount q = a \<and> symb q = y"
  by (cases q) (auto simp: mk_asset_def)

end
