(* ===== verification/Tables.thy ===== *)
theory Tables
  imports Prelude
begin

text \<open>
  The contracts keep their state in \<open>eosio::multi_index\<close> tables: rows with a primary key, found,
  emplaced, modified and erased by key and visited in key order. A table is modelled by its
  contents, a list of rows with strictly increasing keys; a table with a scope is keyed by the
  pair of scope and primary key. The locale \<open>table_spec\<close> is the interface the components rely on
  and \<open>tab\<close> its interpretation on this representation.
\<close>

section \<open>The interface\<close>

locale table_spec =
  fixes get :: "'t \<Rightarrow> 'k \<Rightarrow> 'r option"
    and put :: "'k \<Rightarrow> 'r \<Rightarrow> 't \<Rightarrow> 't"
    and del :: "'k \<Rightarrow> 't \<Rightarrow> 't"
    and empty :: "'t"
    and total :: "('k \<Rightarrow> 'r \<Rightarrow> int) \<Rightarrow> 't \<Rightarrow> int"
  assumes get_empty: "get empty k = None"
    and get_put: "get (put k r t) j = (if j = k then Some r else get t j)"
    and get_del: "get (del k t) j = (if j = k then None else get t j)"
    and get_ext: "(\<And>j. get t j = get u j) \<Longrightarrow> t = u"
    and total_empty: "total f empty = 0"
    and total_put: "get t k = None \<Longrightarrow> total f (put k r t) = total f t + f k r"
    and total_nonneg: "(\<And>j q. get t j = Some q \<Longrightarrow> 0 \<le> f j q) \<Longrightarrow> 0 \<le> total f t"
begin

lemma put_put: "put k r (put k q t) = put k r t"
  by (rule get_ext) (simp add: get_put)

lemma put_del: "put k r (del k t) = put k r t"
  by (rule get_ext) (simp add: get_put get_del)

lemma del_put: "del k (put k r t) = del k t"
  by (rule get_ext) (simp add: get_put get_del)

lemma put_get: "get t k = Some r \<Longrightarrow> put k r t = t"
  by (rule get_ext) (simp add: get_put)

lemma del_absent: "get t k = None \<Longrightarrow> del k t = t"
  by (rule get_ext) (simp add: get_del)

lemma put_commute: "j \<noteq> k \<Longrightarrow> put j q (put k r t) = put k r (put j q t)"
  by (rule get_ext) (simp add: get_put)

lemma total_del: "get t k = Some r \<Longrightarrow> total f (del k t) = total f t - f k r"
  using total_put [of "del k t" k f r] by (simp add: get_del put_del put_get)

lemma total_update: "get t k = Some q \<Longrightarrow> total f (put k r t) = total f t - f k q + f k r"
  using total_put [of "del k t" k f r] by (simp add: get_del put_del total_del)

lemma total_le_row:
  assumes "\<And>j q. get t j = Some q \<Longrightarrow> 0 \<le> f j q" and "get t k = Some r"
  shows "f k r \<le> total f t"
proof -
  have "0 \<le> total f (del k t)"
    by (rule total_nonneg) (simp add: get_del assms(1) split: if_splits)
  with assms(2) show ?thesis by (simp add: total_del)
qed

end

section \<open>Sorted row lists\<close>

fun ins_row :: "'k::linorder \<Rightarrow> 'r \<Rightarrow> ('k \<times> 'r) list \<Rightarrow> ('k \<times> 'r) list" where
  "ins_row k r [] = [(k, r)]"
| "ins_row k r ((j, q) # xs) =
     (if k < j then (k, r) # (j, q) # xs
      else if k = j then (k, r) # xs
      else (j, q) # ins_row k r xs)"

lemma set_ins_row: "fst ` set (ins_row k r xs) = insert k (fst ` set xs)"
  by (induction k r xs rule: ins_row.induct) auto

lemma sorted_ins_row:
  "sorted_wrt (<) (map fst xs) \<Longrightarrow> sorted_wrt (<) (map fst (ins_row k r xs))"
proof (induction k r xs rule: ins_row.induct)
  case (2 k r j q xs)
  have "\<forall>y \<in> fst ` set (ins_row k r xs). j < y" if "j < k"
    using 2(2) that by (auto simp: set_ins_row)
  with 2 show ?case by auto
qed simp

lemma map_of_ins_row: "map_of (ins_row k r xs) j = (if j = k then Some r else map_of xs j)"
  by (induction k r xs rule: ins_row.induct) auto

lemma sum_ins_row:
  "map_of xs k = None \<Longrightarrow>
   sum_list (map (\<lambda>(j, q). f j q) (ins_row k r xs)) = f k r + (sum_list (map (\<lambda>(j, q). f j q) xs) :: int)"
  by (induction k r xs rule: ins_row.induct) (auto split: if_splits)

lemma map_of_filter_ne: "map_of (filter (\<lambda>(j, q). j \<noteq> k) xs) j = (if j = k then None else map_of xs j)"
  by (induction xs) auto

lemma strict_sorted_distinct: "sorted_wrt (<) (ks :: 'k::linorder list) \<Longrightarrow> distinct ks"
  by (simp add: strict_sorted_iff)

lemma map_of_eq_imp_eq:
  fixes xs ys :: "('k::linorder \<times> 'r) list"
  assumes xs: "sorted_wrt (<) (map fst xs)" and ys: "sorted_wrt (<) (map fst ys)"
    and eq: "map_of xs = map_of ys"
  shows "xs = ys"
proof -
  have d: "distinct (map fst xs)" "distinct (map fst ys)"
    using xs ys by (simp_all add: strict_sorted_distinct)
  have s: "set xs = set ys" using eq by (simp add: map_of_inject_set [OF d])
  have "inj_on fst (set xs \<union> set ys)" using d(1) s by (simp add: distinct_map)
  then show ?thesis
    by (rule map_sorted_distinct_set_unique)
      (use xs ys d s in \<open>simp_all add: strict_sorted_iff\<close>)
qed

section \<open>Tables\<close>

typedef (overloaded) ('k::linorder, 'r) table = "{xs :: ('k \<times> 'r) list. sorted_wrt (<) (map fst xs)}"
  morphisms t_list Table
  by (rule exI [of _ "[]"]) simp

setup_lifting type_definition_table

lift_definition t_empty :: "('k::linorder, 'r) table" is "[]"
  by simp

lift_definition t_get :: "('k::linorder, 'r) table \<Rightarrow> 'k \<Rightarrow> 'r option" is map_of .

lift_definition t_set :: "'k::linorder \<Rightarrow> 'r \<Rightarrow> ('k, 'r) table \<Rightarrow> ('k, 'r) table" is ins_row
  by (rule sorted_ins_row)

lift_definition t_del :: "'k::linorder \<Rightarrow> ('k, 'r) table \<Rightarrow> ('k, 'r) table"
  is "\<lambda>k. filter (\<lambda>(j, q). j \<noteq> k)"
  by (simp add: filter_map [symmetric] sorted_wrt_map sorted_wrt_filter)

definition t_sum :: "('k::linorder \<Rightarrow> 'r \<Rightarrow> int) \<Rightarrow> ('k, 'r) table \<Rightarrow> int" where
  "t_sum f t = sum_list (map (\<lambda>(k, r). f k r) (t_list t))"

text \<open>
  \<open>emplace\<close> of a key that is already present aborts; \<open>modify\<close> replaces the row that an earlier
  \<open>find\<close> returned.
\<close>

definition t_emplace :: "'k::linorder \<Rightarrow> 'r \<Rightarrow> ('k, 'r) table \<Rightarrow> ('k, 'r) table res" where
  "t_emplace k r t =
     guard_res (t_get t k = None) (NoRow ''uniqueness constraint violated'') (Inr (t_set k r t))"

definition t_has :: "('k::linorder, 'r) table \<Rightarrow> 'k \<Rightarrow> bool" where
  "t_has t k \<longleftrightarrow> t_get t k \<noteq> None"

definition t_modify :: "'k::linorder \<Rightarrow> ('r \<Rightarrow> 'r) \<Rightarrow> ('k, 'r) table \<Rightarrow> ('k, 'r) table" where
  "t_modify k f t = (case t_get t k of None \<Rightarrow> t | Some r \<Rightarrow> t_set k (f r) t)"

lemma t_get_empty [simp]: "t_get t_empty k = None"
  by transfer simp

lemma t_get_set [simp]: "t_get (t_set k r t) j = (if j = k then Some r else t_get t j)"
  by transfer (simp add: map_of_ins_row)

lemma t_get_del [simp]: "t_get (t_del k t) j = (if j = k then None else t_get t j)"
  by transfer (simp add: map_of_filter_ne)

lemma t_has_empty [simp]: "\<not> t_has t_empty k"
  by (simp add: t_has_def)

lemma t_has_set [simp]: "t_has (t_set k r t) j \<longleftrightarrow> j = k \<or> t_has t j"
  by (simp add: t_has_def)

lemma t_has_del [simp]: "t_has (t_del k t) j \<longleftrightarrow> j \<noteq> k \<and> t_has t j"
  by (simp add: t_has_def)

lemma t_hasI: "t_get t k = Some r \<Longrightarrow> t_has t k"
  by (simp add: t_has_def)

lemma t_get_None_iff: "t_get t k = None \<longleftrightarrow> \<not> t_has t k"
  by (simp add: t_has_def)

lemma t_ext: "(\<And>k. t_get t k = t_get u k) \<Longrightarrow> t = u"
  by transfer (blast intro: map_of_eq_imp_eq)

lemma t_list_empty [simp]: "t_list t_empty = []"
  by transfer simp

lemma t_list_set [simp]: "t_list (t_set k r t) = ins_row k r (t_list t)"
  by transfer simp

lemma t_get_iff_list: "t_get t k = Some r \<longleftrightarrow> (k, r) \<in> set (t_list t)"
  by transfer (simp add: strict_sorted_distinct)

lemma t_list_sorted: "sorted_wrt (<) (map fst (t_list t))"
  by transfer simp

lemma distinct_t_list: "distinct (t_list t)"
  using strict_sorted_distinct [OF t_list_sorted [of t]] by (simp add: distinct_map)

lemma t_sum_empty [simp]: "t_sum f t_empty = 0"
  by (simp add: t_sum_def)

lemma t_sum_set_new: "t_get t k = None \<Longrightarrow> t_sum f (t_set k r t) = t_sum f t + f k r"
  by (simp add: t_sum_def sum_ins_row t_get.rep_eq)

lemma t_sum_nonneg: "(\<And>j q. t_get t j = Some q \<Longrightarrow> 0 \<le> f j q) \<Longrightarrow> 0 \<le> t_sum f t"
  by (auto simp: t_sum_def t_get_iff_list intro!: sum_list_nonneg)

interpretation tab: table_spec t_get t_set t_del t_empty t_sum
  by unfold_locales (auto simp: t_sum_set_new intro: t_ext t_sum_nonneg)

lemmas t_sum_del = tab.total_del
lemmas t_sum_update = tab.total_update

lemma t_sum_set:
  "t_sum f (t_set k r t) = t_sum f t + f k r - (case t_get t k of None \<Rightarrow> 0 | Some q \<Rightarrow> f k q)"
  by (auto simp: t_sum_set_new t_sum_update split: option.split)

lemma t_sum_cong: "(\<And>j q. t_get t j = Some q \<Longrightarrow> f j q = g j q) \<Longrightarrow> t_sum f t = t_sum g t"
  by (auto simp: t_sum_def t_get_iff_list intro!: arg_cong [where f = sum_list])

lemma t_emplace_Inr_iff [res_simps]: "t_emplace k r t = Inr u \<longleftrightarrow> t_get t k = None \<and> u = t_set k r t"
  by (auto simp: t_emplace_def res_simps)

lemma t_get_modify [simp]:
  "t_get (t_modify k f t) j = (if j = k then map_option f (t_get t k) else t_get t j)"
  by (simp add: t_modify_def split: option.split)

lemma t_modify_Some: "t_get t k = Some r \<Longrightarrow> t_modify k f t = t_set k (f r) t"
  by (simp add: t_modify_def)

section \<open>Secondary indices\<close>

text \<open>
  A secondary index lists the rows in the order of a key computed from the row; equal keys keep
  the primary order. The order is a parameter because some keys are floating point numbers.
\<close>

fun ins_by :: "('a \<Rightarrow> 'a \<Rightarrow> bool) \<Rightarrow> 'a \<Rightarrow> 'a list \<Rightarrow> 'a list" where
  "ins_by lt x [] = [x]"
| "ins_by lt x (y # ys) = (if lt y x then y # ins_by lt x ys else x # y # ys)"

definition sort_by :: "('a \<Rightarrow> 'a \<Rightarrow> bool) \<Rightarrow> 'a list \<Rightarrow> 'a list" where
  "sort_by lt xs = foldr (ins_by lt) xs []"

definition t_index :: "('r \<Rightarrow> 'r \<Rightarrow> bool) \<Rightarrow> ('k::linorder, 'r) table \<Rightarrow> 'r list" where
  "t_index lt t = sort_by lt (map snd (t_list t))"

lemma set_ins_by [simp]: "set (ins_by lt x xs) = insert x (set xs)"
  by (induction xs) auto

lemma set_sort_by [simp]: "set (sort_by lt xs) = set xs"
  unfolding sort_by_def by (induction xs) auto

lemma length_ins_by [simp]: "length (ins_by lt x xs) = Suc (length xs)"
  by (induction xs) auto

lemma length_sort_by [simp]: "length (sort_by lt xs) = length xs"
  unfolding sort_by_def by (induction xs) auto

lemma set_t_index: "r \<in> set (t_index lt t) \<longleftrightarrow> (\<exists>k. t_get t k = Some r)"
  by (auto simp: t_index_def t_get_iff_list image_iff) (metis snd_conv)

end
