(* ===== verification/Chain.thy ===== *)
theory Chain
  imports Tables
begin

text \<open>
  What a contract sees of the chain. The eosio library and the host's intrinsics are not part of
  the repository: one record \<open>env\<close> holds the functions the contracts call, and \<open>asset_laws\<close> states
  the documented behaviour of asset arithmetic the contracts rely on. An action appends the
  notifications, inline actions and deferred transactions it sends to an outbox. \<open>run\<close> executes
  actions one after the other with the chain's roll-back of an aborted one, and the locale
  \<open>action_system\<close> lifts an invariant of single actions to runs.
\<close>

section \<open>The environment of an action\<close>

record env =
  self_acct :: name
  has_auth :: "name \<Rightarrow> bool"
  has_perm :: "permission_level \<Rightarrow> bool"
  is_account :: "name \<Rightarrow> bool"
  current_time :: i64
  lit :: "string \<Rightarrow> name"
  symbol_valid :: "symbol \<Rightarrow> bool"
  asset_valid :: "asset \<Rightarrow> bool"
  asset_plus :: "asset \<Rightarrow> asset \<Rightarrow> asset res"
  asset_minus :: "asset \<Rightarrow> asset \<Rightarrow> asset res"
  asset_le :: "asset \<Rightarrow> asset \<Rightarrow> bool res"
  asset_new :: "i64 \<Rightarrow> symbol \<Rightarrow> asset res"
  time_sec :: "i64 \<Rightarrow> uint"
  block_slot :: "i64 \<Rightarrow> uint"

text \<open>
  \<open>lit\<close> is the \<open>_n\<close> literal of a name, \<open>time_sec\<close> the conversion of a time point (microseconds) to
  \<open>time_point_sec\<close> and \<open>block_slot\<close> its conversion to the slot of a \<open>block_timestamp\<close>.
\<close>

definition require_auth :: "'z env_scheme \<Rightarrow> name \<Rightarrow> 'a res \<Rightarrow> 'a res" where
  "require_auth E n k = guard_res (has_auth E n) (MissingAuth n) k"

definition require_perm :: "'z env_scheme \<Rightarrow> permission_level \<Rightarrow> 'a res \<Rightarrow> 'a res" where
  "require_perm E p k = guard_res (has_perm E p) (MissingAuth (actor p)) k"

lemma require_auth_Inr_iff [res_simps]: "require_auth E n k = Inr y \<longleftrightarrow> has_auth E n \<and> k = Inr y"
  by (simp add: require_auth_def res_simps)

lemma require_perm_Inr_iff [res_simps]: "require_perm E p k = Inr y \<longleftrightarrow> has_perm E p \<and> k = Inr y"
  by (simp add: require_perm_def res_simps)

lemma ensures_auth [ensures_intros]:
  "(has_auth E n \<Longrightarrow> ensures k P) \<Longrightarrow> ensures (require_auth E n k) P"
  "(has_perm E p \<Longrightarrow> ensures k P) \<Longrightarrow> ensures (require_perm E p k) P"
  by (auto simp: ensures_def res_simps)

lemma require_auth_denied: "\<not> has_auth E n \<Longrightarrow> require_auth E n k = Inl (MissingAuth n)"
  by (simp add: require_auth_def)

section \<open>Documented behaviour of asset arithmetic\<close>

text \<open>
  \<open>asset::operator+=\<close> and \<open>-=\<close> require equal symbols and abort when the result leaves
  \<open>[-max_amount, max_amount]\<close>, with \<open>max_amount = 2^62 - 1\<close>; a valid asset lies in that range.
  \<open>asset_le\<close> is \<open>operator<=\<close>, which requires equal symbols, and \<open>asset_new\<close> the constructor, which
  requires the range and a valid symbol.
\<close>

definition max_amount :: int where
  "max_amount = 2 ^ 62 - 1"

definition asset_op_laws :: "(asset \<Rightarrow> asset \<Rightarrow> asset res) \<Rightarrow> (int \<Rightarrow> int \<Rightarrow> int) \<Rightarrow> bool" where
  "asset_op_laws f g \<longleftrightarrow>
     (\<forall>a b c. f a b = Inr c \<longrightarrow>
        symb b = symb a \<and> c = mk_asset (g (amount a) (amount b)) (symb a) \<and> \<bar>amount c\<bar> \<le> max_amount) \<and>
     (\<forall>a b. symb b = symb a \<longrightarrow> \<bar>g (amount a) (amount b)\<bar> \<le> max_amount \<longrightarrow> (\<exists>c. f a b = Inr c))"

definition asset_laws :: "'z env_scheme \<Rightarrow> bool" where
  "asset_laws E \<longleftrightarrow>
     asset_op_laws (asset_plus E) (+) \<and> asset_op_laws (asset_minus E) (-) \<and>
     (\<forall>q. asset_valid E q \<longrightarrow> \<bar>amount q\<bar> \<le> max_amount) \<and>
     (\<forall>a b c. asset_le E a b = Inr c \<longleftrightarrow> symb a = symb b \<and> c = (amount a \<le> amount b)) \<and>
     (\<forall>n y q. asset_new E n y = Inr q \<longleftrightarrow> symbol_valid E y \<and> \<bar>n\<bar> \<le> max_amount \<and> q = mk_asset n y)"

lemma asset_op_laws_Inr:
  assumes "asset_op_laws f g"
  shows "f a b = Inr c \<longleftrightarrow>
    symb b = symb a \<and> \<bar>g (amount a) (amount b)\<bar> \<le> max_amount \<and> c = mk_asset (g (amount a) (amount b)) (symb a)"
  using assms unfolding asset_op_laws_def by (metis mk_asset_simps(1))

lemma asset_plus_iff:
  "asset_laws E \<Longrightarrow> asset_plus E a b = Inr c \<longleftrightarrow>
     symb b = symb a \<and> \<bar>amount a + amount b\<bar> \<le> max_amount \<and> c = mk_asset (amount a + amount b) (symb a)"
  unfolding asset_laws_def by (blast dest: asset_op_laws_Inr)

lemma asset_minus_iff:
  "asset_laws E \<Longrightarrow> asset_minus E a b = Inr c \<longleftrightarrow>
     symb b = symb a \<and> \<bar>amount a - amount b\<bar> \<le> max_amount \<and> c = mk_asset (amount a - amount b) (symb a)"
  unfolding asset_laws_def by (blast dest: asset_op_laws_Inr)

lemma asset_valid_range: "asset_laws E \<Longrightarrow> asset_valid E q \<Longrightarrow> \<bar>amount q\<bar> \<le> max_amount"
  by (simp add: asset_laws_def)

lemma asset_le_iff:
  "asset_laws E \<Longrightarrow> asset_le E a b = Inr c \<longleftrightarrow> symb a = symb b \<and> c = (amount a \<le> amount b)"
  by (simp add: asset_laws_def)

lemma asset_new_iff:
  "asset_laws E \<Longrightarrow> asset_new E n y = Inr q \<longleftrightarrow> symbol_valid E y \<and> \<bar>n\<bar> \<le> max_amount \<and> q = mk_asset n y"
  by (simp add: asset_laws_def)

lemmas asset_iffs = asset_plus_iff asset_minus_iff asset_le_iff asset_new_iff

section \<open>Effects\<close>

type_synonym bytes = "8 word list"

datatype call =
    TokenTransfer name name asset string
  | TokenIssue name asset string
  | TokenOpen name symbol name
  | RegistryOntransfer name name asset
  | RegistryClaim name name i64
  | RexBuyResult asset
  | RexSellResult asset
  | RexOrderResult name asset
  | RexRentResult asset

datatype deferred =
    DeferRefund name
  | DeferBidRefund name name
  | DeferRaw bytes

datatype effect =
    Notify name
  | Inline name "permission_level list" call
  | SendDeferred int name int deferred
  | CancelDeferred int

definition at_perm :: "'z env_scheme \<Rightarrow> name \<Rightarrow> string \<Rightarrow> permission_level" where
  "at_perm E n p = \<lparr>actor = n, permission = lit E p\<rparr>"

definition at_active :: "'z env_scheme \<Rightarrow> name \<Rightarrow> permission_level" where
  "at_active E n = at_perm E n ''active''"

section \<open>Runs of actions\<close>

text \<open>
  \<open>exec e a s\<close> is one action \<open>a\<close> in environment \<open>e\<close>. An aborted action leaves the state as it was.
\<close>

fun run :: "('e \<Rightarrow> 'a \<Rightarrow> 's \<Rightarrow> 's res) \<Rightarrow> ('e \<times> 'a) list \<Rightarrow> 's \<Rightarrow> 's" where
  "run exec [] s = s"
| "run exec ((e, a) # xs) s = (case exec e a s of Inl _ \<Rightarrow> run exec xs s | Inr s' \<Rightarrow> run exec xs s')"

inductive reachable :: "('e \<Rightarrow> 'a \<Rightarrow> 's \<Rightarrow> 's res) \<Rightarrow> ('e \<Rightarrow> bool) \<Rightarrow> 's \<Rightarrow> 's \<Rightarrow> bool"
  for exec :: "'e \<Rightarrow> 'a \<Rightarrow> 's \<Rightarrow> 's res" and ok :: "'e \<Rightarrow> bool" and s0 :: 's where
  reach_init: "reachable exec ok s0 s0"
| reach_step: "reachable exec ok s0 s \<Longrightarrow> ok e \<Longrightarrow> exec e a s = Inr s' \<Longrightarrow> reachable exec ok s0 s'"

lemma reach_one: "exec E a c = Inr c' \<Longrightarrow> ok E \<Longrightarrow> reachable exec ok c c'"
  by (rule reach_step [OF reach_init])

locale action_system =
  fixes exec :: "'e \<Rightarrow> 'a \<Rightarrow> 's \<Rightarrow> 's res"
    and ok :: "'e \<Rightarrow> bool"
    and inv :: "'s \<Rightarrow> bool"
  assumes exec_inv: "ok e \<Longrightarrow> inv s \<Longrightarrow> exec e a s = Inr s' \<Longrightarrow> inv s'"
begin

lemma run_inv:
  assumes "\<forall>(e, a) \<in> set xs. ok e" and "inv s"
  shows "inv (run exec xs s)"
  using assms
proof (induction xs arbitrary: s)
  case (Cons x xs)
  obtain e a where x: "x = (e, a)" by (cases x)
  show ?case
  proof (cases "exec e a s")
    case (Inr s')
    with Cons.prems x have "inv s'" by (auto intro: exec_inv)
    with Cons x Inr show ?thesis by simp
  qed (use Cons x in simp)
qed simp

lemma reachable_inv: "reachable exec ok s0 s \<Longrightarrow> inv s0 \<Longrightarrow> inv s"
  by (induction rule: reachable.induct) (auto intro: exec_inv)

end

lemma run_reachable:
  assumes "\<forall>(e, a) \<in> set xs. ok e" and "reachable exec ok s0 s"
  shows "reachable exec ok s0 (run exec xs s)"
  using assms
proof (induction xs arbitrary: s)
  case (Cons x xs)
  obtain e a where x: "x = (e, a)" by (cases x)
  show ?case
  proof (cases "exec e a s")
    case (Inr s')
    with Cons.prems x have "reachable exec ok s0 s'" by (auto intro: reach_step)
    with Cons x Inr show ?thesis by simp
  qed (use Cons x in simp)
qed simp

section \<open>A reference environment\<close>

text \<open>
  A concrete environment with the documented asset arithmetic. It shows that \<open>asset_laws\<close> can hold,
  and the witnesses evaluate the contracts in it.
\<close>

definition ref_op :: "(int \<Rightarrow> int \<Rightarrow> int) \<Rightarrow> asset \<Rightarrow> asset \<Rightarrow> asset res" where
  "ref_op g a b =
     (if symb a = symb b \<and> \<bar>g (amount a) (amount b)\<bar> \<le> max_amount
      then Inr (mk_asset (g (amount a) (amount b)) (symb a))
      else Inl (Assert ''asset arithmetic''))"

fun ref_lit :: "string \<Rightarrow> name" where
  "ref_lit [] = 0"
| "ref_lit (c # cs) = word_of_int (int (of_char c)) + 257 * ref_lit cs"

definition ref_env :: "name \<Rightarrow> name list \<Rightarrow> i64 \<Rightarrow> env" where
  "ref_env me auths t =
     \<lparr>self_acct = me, has_auth = (\<lambda>n. n \<in> set auths), has_perm = (\<lambda>p. actor p \<in> set auths),
      is_account = (\<lambda>n. n \<noteq> 0), current_time = t, lit = ref_lit,
      symbol_valid = (\<lambda>y. sym_code y \<noteq> 0),
      asset_valid = (\<lambda>q. \<bar>amount q\<bar> \<le> max_amount),
      asset_plus = ref_op (+), asset_minus = ref_op (-),
      asset_le = (\<lambda>a b. check (symb a = symb b) ''asset comparison'' (Inr (amount a \<le> amount b))),
      asset_new = (\<lambda>n y. check (sym_code y \<noteq> 0 \<and> \<bar>n\<bar> \<le> max_amount) ''asset'' (Inr (mk_asset n y))),
      time_sec = (\<lambda>u. u32 (cdiv u 1000000)),
      block_slot = (\<lambda>u. u32 (cdiv (cdiv u 1000 - 946684800000) 500))\<rparr>"

lemma ref_op_laws: "asset_op_laws (ref_op g) g"
  by (auto simp: asset_op_laws_def ref_op_def split: if_splits)

lemma ref_env_laws [simp]: "asset_laws (ref_env me auths t)"
  by (auto simp: asset_laws_def ref_env_def ref_op_laws res_simps)

lemma ref_env_simps [simp]:
  "self_acct (ref_env me auths t) = me"
  "has_auth (ref_env me auths t) n \<longleftrightarrow> n \<in> set auths"
  "has_perm (ref_env me auths t) p \<longleftrightarrow> actor p \<in> set auths"
  "is_account (ref_env me auths t) n \<longleftrightarrow> n \<noteq> 0"
  "current_time (ref_env me auths t) = t"
  "lit (ref_env me auths t) = ref_lit"
  "symbol_valid (ref_env me auths t) y \<longleftrightarrow> sym_code y \<noteq> 0"
  "asset_valid (ref_env me auths t) q \<longleftrightarrow> \<bar>amount q\<bar> \<le> max_amount"
  "asset_plus (ref_env me auths t) = ref_op (+)"
  "asset_minus (ref_env me auths t) = ref_op (-)"
  "asset_le (ref_env me auths t) a b = check (symb a = symb b) ''asset comparison'' (Inr (amount a \<le> amount b))"
  "asset_new (ref_env me auths t) i y = check (sym_code y \<noteq> 0 \<and> \<bar>i\<bar> \<le> max_amount) ''asset'' (Inr (mk_asset i y))"
  "time_sec (ref_env me auths t) u = u32 (cdiv u 1000000)"
  "block_slot (ref_env me auths t) u = u32 (cdiv (cdiv u 1000 - 946684800000) 500)"
  by (simp_all add: ref_env_def)

end
