(* ===== verification/Ledgers.thy ===== *)
theory Ledgers
  imports Chain
begin

text \<open>
  The interface of a set of accounts with a balance each: the token contract's balances and the
  system contract's REX funds both provide it. The laws say what a successful debit or credit does;
  the clients' facts (a transfer conserves the total, a debit is covered by the total) are proved
  here once.
\<close>

locale ledger =
  fixes bal :: "'s \<Rightarrow> 'k \<Rightarrow> int"
    and total :: "'s \<Rightarrow> int"
    and debit :: "'k \<Rightarrow> int \<Rightarrow> 's \<Rightarrow> 's res"
    and credit :: "'k \<Rightarrow> int \<Rightarrow> 's \<Rightarrow> 's res"
    and inv :: "'s \<Rightarrow> bool"
  assumes bal_nonneg: "inv s \<Longrightarrow> 0 \<le> bal s k"
    and bal_le_total: "inv s \<Longrightarrow> bal s k \<le> total s"
    and debit_spec: "inv s \<Longrightarrow> 0 < n \<Longrightarrow> debit k n s = Inr s' \<Longrightarrow>
      n \<le> bal s k \<and> bal s' = (bal s)(k := bal s k - n) \<and> total s' = total s - n \<and> inv s'"
    and credit_spec: "inv s \<Longrightarrow> 0 < n \<Longrightarrow> credit k n s = Inr s' \<Longrightarrow>
      bal s' = (bal s)(k := bal s k + n) \<and> total s' = total s + n \<and> inv s'"
begin

lemma debit_overdrawn: "inv s \<Longrightarrow> bal s k < n \<Longrightarrow> \<exists>e. debit k n s = Inl e"
  using debit_spec [of s n k] bal_nonneg [of s k] by (cases "debit k n s") force+

lemma debit_le_total: "inv s \<Longrightarrow> 0 < n \<Longrightarrow> debit k n s = Inr s' \<Longrightarrow> n \<le> total s"
  using debit_spec bal_le_total by (meson order_trans)

lemma move_spec:
  assumes "inv s" and "0 < n" and "rbind (debit a n s) (credit b n) = Inr s'"
  shows "n \<le> bal s a" and "total s' = total s" and "inv s'"
    and "bal s' = (bal s)(a := bal s a - n, b := (if a = b then bal s a else bal s b + n))"
proof -
  obtain s1 where d: "debit a n s = Inr s1" and c: "credit b n s1 = Inr s'"
    using assms(3) by (auto simp: res_simps)
  have s1: "n \<le> bal s a" "bal s1 = (bal s)(a := bal s a - n)" "total s1 = total s - n" "inv s1"
    using debit_spec [OF assms(1,2) d] by auto
  have s': "bal s' = (bal s1)(b := bal s1 b + n)" "total s' = total s1 + n" "inv s'"
    using credit_spec [OF s1(4) assms(2) c] by auto
  show "n \<le> bal s a" "total s' = total s" "inv s'" using s1 s' by simp_all
  show "bal s' = (bal s)(a := bal s a - n, b := (if a = b then bal s a else bal s b + n))"
    using s1(2) s'(1) by (auto simp: fun_eq_iff)
qed

lemma move_other: "inv s \<Longrightarrow> 0 < n \<Longrightarrow> rbind (debit a n s) (credit b n) = Inr s' \<Longrightarrow>
    k \<noteq> a \<Longrightarrow> k \<noteq> b \<Longrightarrow> bal s' k = bal s k"
  using move_spec(4) by (metis fun_upd_other)

end

end
