(* ===== verification/Token.thy ===== *)
theory Token
  imports Ledgers
begin

text \<open>
  The token contract, \<open>contracts/eosio.token\<close>: its two tables, its seven actions in the order of
  \<open>eosio.token.cpp\<close>, the accounting invariant they keep, and the abstract ledger they implement.
\<close>

section \<open>State\<close>

text \<open>
  Table \<open>stat\<close> has the symbol code as scope and key; table \<open>accounts\<close> has the owner as scope and
  the symbol code as key. A balance row records who pays for its RAM.
\<close>

record currency_stats =
  st_supply :: asset
  st_max_supply :: asset
  st_issuer :: name

record account =
  balance :: asset
  payer :: name

record token_state =
  stats :: "(64 word, currency_stats) table"
  accounts :: "(name \<times> 64 word, account) table"
  tok_out :: "effect list"

definition token_init :: token_state where
  "token_init = \<lparr>stats = t_empty, accounts = t_empty, tok_out = []\<rparr>"

definition tok_emit :: "effect \<Rightarrow> token_state \<Rightarrow> token_state" where
  "tok_emit e s = s\<lparr>tok_out := tok_out s @ [e]\<rparr>"

definition get_supply :: "64 word \<Rightarrow> token_state \<Rightarrow> asset res" where
  "get_supply code s = rbind (rget (NoRow ''unable to find key'') (t_get (stats s) code)) (\<lambda>st. Inr (st_supply st))"

definition get_balance :: "name \<Rightarrow> 64 word \<Rightarrow> token_state \<Rightarrow> asset res" where
  "get_balance owner code s =
     rbind (rget (NoRow ''unable to find key'') (t_get (accounts s) (owner, code))) (\<lambda>ac. Inr (balance ac))"

section \<open>Actions\<close>

definition create :: "env \<Rightarrow> name \<Rightarrow> asset \<Rightarrow> token_state \<Rightarrow> token_state res" where
  "create E isr maximum_supply s =
     require_auth E (self_acct E) (
     let y = symb maximum_supply in
     check (symbol_valid E y) ''invalid symbol name'' (
     check (asset_valid E maximum_supply) ''invalid supply'' (
     check (amount maximum_supply > 0) ''max-supply must be positive'' (
     check (t_get (stats s) (sym_code y) = None) ''token with symbol already exists'' (
     rbind (t_emplace (sym_code y)
              \<lparr>st_supply = mk_asset 0 y, st_max_supply = maximum_supply, st_issuer = isr\<rparr> (stats s))
       (\<lambda>t. Inr (s\<lparr>stats := t\<rparr>)))))))"

definition sub_balance :: "env \<Rightarrow> name \<Rightarrow> asset \<Rightarrow> token_state \<Rightarrow> token_state res" where
  "sub_balance E owner v s =
     (let k = (owner, sym_code (symb v)) in
     rbind (rget (NoRow ''no balance object found'') (t_get (accounts s) k)) (\<lambda>from.
     check (amount v \<le> amount (balance from)) ''overdrawn balance'' (
     rbind (asset_minus E (balance from) v) (\<lambda>b.
     Inr (s\<lparr>accounts := t_set k \<lparr>balance = b, payer = owner\<rparr> (accounts s)\<rparr>)))))"

definition add_balance :: "env \<Rightarrow> name \<Rightarrow> asset \<Rightarrow> name \<Rightarrow> token_state \<Rightarrow> token_state res" where
  "add_balance E owner v ram_payer s =
     (let k = (owner, sym_code (symb v)) in
     case t_get (accounts s) k of
       None \<Rightarrow> Inr (s\<lparr>accounts := t_set k \<lparr>balance = v, payer = ram_payer\<rparr> (accounts s)\<rparr>)
     | Some to \<Rightarrow>
         rbind (asset_plus E (balance to) v) (\<lambda>b.
         Inr (s\<lparr>accounts := t_set k (to\<lparr>balance := b\<rparr>) (accounts s)\<rparr>)))"

definition issue :: "env \<Rightarrow> name \<Rightarrow> asset \<Rightarrow> string \<Rightarrow> token_state \<Rightarrow> token_state res" where
  "issue E to quantity memo s =
     (let y = symb quantity in
     check (symbol_valid E y) ''invalid symbol name'' (
     check (length memo \<le> 256) ''memo has more than 256 bytes'' (
     rbind (rget (Assert ''token with symbol does not exist, create token before issue'')
              (t_get (stats s) (sym_code y))) (\<lambda>st.
     require_auth E (st_issuer st) (
     check (asset_valid E quantity) ''invalid quantity'' (
     check (amount quantity > 0) ''must issue positive quantity'' (
     check (symb quantity = symb (st_supply st)) ''symbol precision mismatch'' (
     check (amount quantity \<le> wrap64 (amount (st_max_supply st) - amount (st_supply st)))
       ''quantity exceeds available supply'' (
     rbind (asset_plus E (st_supply st) quantity) (\<lambda>sup.
     rbind (add_balance E (st_issuer st) quantity (st_issuer st)
              (s\<lparr>stats := t_set (sym_code y) (st\<lparr>st_supply := sup\<rparr>) (stats s)\<rparr>)) (\<lambda>s1.
     Inr (if to \<noteq> st_issuer st
          then tok_emit (Inline (self_acct E) [at_active E (st_issuer st)]
                           (TokenTransfer (st_issuer st) to quantity memo)) s1
          else s1))))))))))))"

definition retire :: "env \<Rightarrow> asset \<Rightarrow> string \<Rightarrow> token_state \<Rightarrow> token_state res" where
  "retire E quantity memo s =
     (let y = symb quantity in
     check (symbol_valid E y) ''invalid symbol name'' (
     check (length memo \<le> 256) ''memo has more than 256 bytes'' (
     rbind (rget (Assert ''token with symbol does not exist'') (t_get (stats s) (sym_code y))) (\<lambda>st.
     require_auth E (st_issuer st) (
     check (asset_valid E quantity) ''invalid quantity'' (
     check (amount quantity > 0) ''must retire positive quantity'' (
     check (symb quantity = symb (st_supply st)) ''symbol precision mismatch'' (
     rbind (asset_minus E (st_supply st) quantity) (\<lambda>sup.
     sub_balance E (st_issuer st) quantity
       (s\<lparr>stats := t_set (sym_code y) (st\<lparr>st_supply := sup\<rparr>) (stats s)\<rparr>))))))))))"

definition burn :: "env \<Rightarrow> asset \<Rightarrow> string \<Rightarrow> token_state \<Rightarrow> token_state res" where
  "burn E quantity memo s =
     (let y = symb quantity in
     check (symbol_valid E y) ''invalid symbol name'' (
     check (length memo \<le> 256) ''memo has more than 256 bytes'' (
     rbind (rget (Assert ''token with symbol does not exist'') (t_get (stats s) (sym_code y))) (\<lambda>st.
     require_auth E (st_issuer st) (
     check (asset_valid E quantity) ''invalid quantity'' (
     check (amount quantity > 0) ''must burn positive quantity'' (
     check (symb quantity = symb (st_supply st)) ''symbol precision mismatch'' (
     rbind (asset_minus E (st_max_supply st) quantity) (\<lambda>mx.
     sub_balance E (st_issuer st) quantity
       (s\<lparr>stats := t_set (sym_code y) (st\<lparr>st_max_supply := mx\<rparr>) (stats s)\<rparr>))))))))))"

definition transfer :: "env \<Rightarrow> name \<Rightarrow> name \<Rightarrow> asset \<Rightarrow> string \<Rightarrow> token_state \<Rightarrow> token_state res" where
  "transfer E from to quantity memo s =
     check (from \<noteq> to) ''cannot transfer to self'' (
     require_auth E from (
     check (is_account E to) ''to account does not exist'' (
     rbind (rget (NoRow ''unable to find key'') (t_get (stats s) (sym_code (symb quantity)))) (\<lambda>st.
     let s1 = tok_emit (Notify to) (tok_emit (Notify from) s) in
     check (asset_valid E quantity) ''invalid quantity'' (
     check (amount quantity > 0) ''must transfer positive quantity'' (
     check (symb quantity = symb (st_supply st)) ''symbol precision mismatch'' (
     check (length memo \<le> 256) ''memo has more than 256 bytes'' (
     let pay = (if has_auth E to then to else from) in
     rbind (sub_balance E from quantity s1) (\<lambda>s2.
     add_balance E to quantity pay s2)))))))))"

definition open_acct :: "env \<Rightarrow> name \<Rightarrow> symbol \<Rightarrow> name \<Rightarrow> token_state \<Rightarrow> token_state res" where
  "open_acct E owner y ram_payer s =
     require_auth E ram_payer (
     check (is_account E owner) ''owner account does not exist'' (
     rbind (rget (Assert ''symbol does not exist'') (t_get (stats s) (sym_code y))) (\<lambda>st.
     check (symb (st_supply st) = y) ''symbol precision mismatch'' (
     case t_get (accounts s) (owner, sym_code y) of
       None \<Rightarrow> Inr (s\<lparr>accounts :=
                 t_set (owner, sym_code y) \<lparr>balance = mk_asset 0 y, payer = ram_payer\<rparr> (accounts s)\<rparr>)
     | Some _ \<Rightarrow> Inr s))))"

definition close_acct :: "env \<Rightarrow> name \<Rightarrow> symbol \<Rightarrow> token_state \<Rightarrow> token_state res" where
  "close_acct E owner y s =
     require_auth E owner (
     rbind (rget (Assert ''Balance row already deleted or never existed. Action won't have any effect.'')
              (t_get (accounts s) (owner, sym_code y))) (\<lambda>it.
     check (amount (balance it) = 0) ''Cannot close because the balance is not zero.'' (
     Inr (s\<lparr>accounts := t_del (owner, sym_code y) (accounts s)\<rparr>))))"

section \<open>Dispatch\<close>

datatype token_action =
    Create name asset
  | Issue name asset string
  | Transfer name name asset string
  | Open name symbol name
  | Close name symbol
  | Retire asset string
  | Burn asset string

fun token_exec :: "env \<Rightarrow> token_action \<Rightarrow> token_state \<Rightarrow> token_state res" where
  "token_exec E (Create i q) s = create E i q s"
| "token_exec E (Issue to q m) s = issue E to q m s"
| "token_exec E (Transfer f t q m) s = transfer E f t q m s"
| "token_exec E (Open ow y p) s = open_acct E ow y p s"
| "token_exec E (Close ow y) s = close_acct E ow y s"
| "token_exec E (Retire q m) s = retire E q m s"
| "token_exec E (Burn q m) s = burn E q m s"

end
