(* ===== verification/TokenLaws.thy ===== *)
theory TokenLaws
  imports Token
begin

text \<open>
  Correctness of the token contract. \<open>bal_of\<close> and \<open>circ\<close> are the balance of an owner and the sum of
  all balances of a symbol code; the balances form a \<open>ledger\<close>. \<open>token_inv\<close> ties the balances to the
  two supply figures of the symbol and every action keeps it.
\<close>

section \<open>Balances as a ledger\<close>

definition bal_of :: "64 word \<Rightarrow> token_state \<Rightarrow> name \<Rightarrow> int" where
  "bal_of code s owner =
     (case t_get (accounts s) (owner, code) of None \<Rightarrow> 0 | Some a \<Rightarrow> amount (balance a))"

definition circ :: "64 word \<Rightarrow> token_state \<Rightarrow> int" where
  "circ code s = t_sum (\<lambda>(ow, c) a. if c = code then amount (balance a) else 0) (accounts s)"

definition acct_inv :: "symbol \<Rightarrow> token_state \<Rightarrow> bool" where
  "acct_inv y s \<longleftrightarrow> (\<forall>owner a. t_get (accounts s) (owner, sym_code y) = Some a \<longrightarrow>
     symb (balance a) = y \<and> 0 \<le> amount (balance a))"

lemma circ_set [simp]:
  "circ code (s\<lparr>accounts := t_set (ow, c) a (accounts s)\<rparr>) =
     circ code s + (if c = code then amount (balance a) - bal_of code s ow else 0)"
  by (simp add: circ_def bal_of_def t_sum_set split: option.split)

lemma circ_del [simp]:
  "circ code (s\<lparr>accounts := t_del (ow, c) (accounts s)\<rparr>) = circ code s - (if c = code then bal_of code s ow else 0)"
  by (cases "t_get (accounts s) (ow, c)")
    (auto simp: circ_def bal_of_def t_sum_del tab.del_absent)

lemma bal_of_set [simp]:
  "bal_of code (s\<lparr>accounts := t_set (ow, c) a (accounts s)\<rparr>) =
     (if c = code then (bal_of code s)(ow := amount (balance a)) else bal_of code s)"
  by (auto simp: bal_of_def fun_eq_iff)

lemma frame_simps [simp]:
  "bal_of code (s\<lparr>stats := t\<rparr>) = bal_of code s" "circ code (s\<lparr>stats := t\<rparr>) = circ code s"
  "bal_of code (tok_emit e s) = bal_of code s" "circ code (tok_emit e s) = circ code s"
  "acct_inv y (s\<lparr>stats := t\<rparr>) = acct_inv y s" "acct_inv y (tok_emit e s) = acct_inv y s"
  "stats (tok_emit e s) = stats s" "accounts (tok_emit e s) = accounts s"
  "bal_of code (s\<lparr>tok_out := x\<rparr>) = bal_of code s" "circ code (s\<lparr>tok_out := x\<rparr>) = circ code s"
  "acct_inv y (s\<lparr>tok_out := x\<rparr>) = acct_inv y s"
  by (simp_all add: bal_of_def circ_def acct_inv_def tok_emit_def fun_eq_iff)

lemma acct_inv_nonneg: "acct_inv y s \<Longrightarrow> 0 \<le> bal_of (sym_code y) s ow"
  by (auto simp: acct_inv_def bal_of_def split: option.split)

lemma acct_inv_le_circ:
  assumes "acct_inv y s"
  shows "bal_of (sym_code y) s ow \<le> circ (sym_code y) s"
proof -
  let ?f = "\<lambda>(ow, c) a. if c = sym_code y then amount (balance a) else 0"
  have nonneg: "0 \<le> ?f k a" if "t_get (accounts s) k = Some a" for k a
    using assms that by (cases k) (auto simp: acct_inv_def)
  show ?thesis
    using tab.total_le_row [of "accounts s" ?f "(ow, sym_code y)"] tab.total_nonneg [of "accounts s" ?f] nonneg
    by (auto simp: bal_of_def circ_def split: option.split)
qed

lemma sub_balance_Inr_iff:
  "asset_laws E \<Longrightarrow> sub_balance E ow v s = Inr s' \<longleftrightarrow>
   (\<exists>a. t_get (accounts s) (ow, sym_code (symb v)) = Some a \<and> amount v \<le> amount (balance a) \<and>
        symb v = symb (balance a) \<and> \<bar>amount (balance a) - amount v\<bar> \<le> max_amount \<and>
        s' = s\<lparr>accounts := t_set (ow, sym_code (symb v))
                 \<lparr>balance = mk_asset (amount (balance a) - amount v) (symb v), payer = ow\<rparr> (accounts s)\<rparr>)"
  by (auto simp: sub_balance_def Let_def res_simps asset_minus_iff)

lemma add_balance_Inr_iff:
  "asset_laws E \<Longrightarrow> add_balance E ow v p s = Inr s' \<longleftrightarrow>
   (let k = (ow, sym_code (symb v)) in
    case t_get (accounts s) k of
      None \<Rightarrow> s' = s\<lparr>accounts := t_set k \<lparr>balance = v, payer = p\<rparr> (accounts s)\<rparr>
    | Some a \<Rightarrow> symb v = symb (balance a) \<and> \<bar>amount (balance a) + amount v\<bar> \<le> max_amount \<and>
        s' = s\<lparr>accounts := t_set k (a\<lparr>balance := mk_asset (amount (balance a) + amount v) (symb v)\<rparr>) (accounts s)\<rparr>)"
  by (auto simp: add_balance_def Let_def res_simps asset_plus_iff split: option.split)

interpretation tok: ledger "bal_of (sym_code y)" "circ (sym_code y)"
  "\<lambda>ow n. sub_balance E ow (mk_asset n y)" "\<lambda>ow n. add_balance E ow (mk_asset n y) p"
  "\<lambda>s. asset_laws E \<and> acct_inv y s" for E y p
proof (unfold_locales, goal_cases)
  case (3 s n k s')
  then obtain a where a: "t_get (accounts s) (k, sym_code y) = Some a" "n \<le> amount (balance a)"
    and s': "s' = s\<lparr>accounts := t_set (k, sym_code y)
                 \<lparr>balance = mk_asset (amount (balance a) - n) y, payer = k\<rparr> (accounts s)\<rparr>"
    by (auto simp: sub_balance_Inr_iff)
  then have "bal_of (sym_code y) s k = amount (balance a)" by (simp add: bal_of_def)
  with 3 a s' show ?case by (auto simp: acct_inv_def)
next
  case (4 s n k s')
  then show ?case
    by (auto simp: add_balance_Inr_iff Let_def acct_inv_def bal_of_def split: option.splits)
qed (auto simp: acct_inv_nonneg acct_inv_le_circ)

section \<open>The accounting invariant\<close>

text \<open>
  For every symbol with a stat row: all balances carry that symbol and are not negative, and their
  sum exceeds neither the supply nor the maximum supply. The sum may fall below the supply, because
  \<open>burn\<close> lowers the maximum supply and a balance but not the supply.
\<close>

definition stat_ok :: "64 word \<Rightarrow> currency_stats \<Rightarrow> token_state \<Rightarrow> bool" where
  "stat_ok code st s \<longleftrightarrow>
     sym_code (symb (st_supply st)) = code \<and> symb (st_max_supply st) = symb (st_supply st) \<and>
     circ code s \<le> amount (st_supply st) \<and> circ code s \<le> amount (st_max_supply st) \<and>
     amount (st_supply st) \<le> max_amount \<and> amount (st_max_supply st) \<le> max_amount"

definition token_inv :: "token_state \<Rightarrow> bool" where
  "token_inv s \<longleftrightarrow>
     (\<forall>code st. t_get (stats s) code = Some st \<longrightarrow> stat_ok code st s \<and> acct_inv (symb (st_supply st)) s) \<and>
     (\<forall>ow code a. t_get (accounts s) (ow, code) = Some a \<longrightarrow> t_get (stats s) code \<noteq> None)"

lemma circ_nonneg: "acct_inv y s \<Longrightarrow> 0 \<le> circ (sym_code y) s"
  using acct_inv_nonneg [of y s 0] acct_inv_le_circ [of y s 0] by linarith

lemma token_invD:
  assumes "token_inv s" and "t_get (stats s) code = Some st"
  shows "stat_ok code st s" and "acct_inv (symb (st_supply st)) s" and "0 \<le> circ code s"
proof -
  show 1: "stat_ok code st s" and 2: "acct_inv (symb (st_supply st)) s"
    using assms by (auto simp: token_inv_def)
  show "0 \<le> circ code s" using circ_nonneg [OF 2] 1 by (simp add: stat_ok_def)
qed

lemma circ_no_stat: "token_inv s \<Longrightarrow> t_get (stats s) code = None \<Longrightarrow> circ code s = 0"
proof -
  assume inv: "token_inv s" and none: "t_get (stats s) code = None"
  have "circ code s = t_sum (\<lambda>_ _. 0) (accounts s)"
    unfolding circ_def
  proof (rule t_sum_cong)
    fix k a assume a: "t_get (accounts s) k = Some a"
    obtain ow c where k: "k = (ow, c)" by (cases k)
    with inv none a have "c \<noteq> code" unfolding token_inv_def by blast
    with k show "(case k of (ow, c) \<Rightarrow> \<lambda>a. if c = code then amount (balance a) else 0) a = 0" by simp
  qed
  then show ?thesis by (simp add: t_sum_def sum_list_0 case_prod_unfold)
qed

text \<open>
  One symbol's row and one owner's balance change together in every action; the remaining symbols
  are untouched. This is the shape of all preservation proofs.
\<close>

lemma token_inv_update:
  assumes inv: "token_inv s" and st: "t_get (stats s) code = Some st"
    and s': "stats s' = t_set code st' (stats s)"
    and ok: "stat_ok code st' s'" "acct_inv (symb (st_supply st')) s'"
    and sy: "symb (st_supply st') = symb (st_supply st)"
    and same: "\<And>c k. c \<noteq> code \<Longrightarrow> t_get (accounts s') (k, c) = t_get (accounts s) (k, c)"
    and circ: "\<And>c. c \<noteq> code \<Longrightarrow> circ c s' = circ c s"
  shows "token_inv s'"
proof -
  have rows: "stat_ok c st1 s' \<and> acct_inv (symb (st_supply st1)) s'"
    if c: "t_get (stats s') c = Some st1" for c st1
  proof (cases "c = code")
    case True
    with c s' ok show ?thesis by simp
  next
    case False
    with c s' have g: "t_get (stats s) c = Some st1" by simp
    note D = token_invD [OF inv g]
    have "sym_code (symb (st_supply st1)) \<noteq> code" using D(1) False by (simp add: stat_ok_def)
    with D False circ same show ?thesis by (simp add: stat_ok_def acct_inv_def)
  qed
  have "t_get (stats s') c \<noteq> None" if "t_get (accounts s') (ow, c) = Some a" for ow c a
    using that inv same [of c ow] s' by (cases "c = code") (fastforce simp: token_inv_def)+
  with rows show ?thesis by (auto simp: token_inv_def)
qed

section \<open>Every action keeps the invariant\<close>

text \<open>What a debit or a credit of a valid quantity does to the state, for an owner of the symbol.\<close>

lemma sub_balance_spec:
  assumes "asset_laws E" "acct_inv (symb q) s" "0 < amount q" "sub_balance E ow q s = Inr s'"
  defines "c \<equiv> sym_code (symb q)"
  shows "amount q \<le> bal_of c s ow" "bal_of c s' = (bal_of c s)(ow := bal_of c s ow - amount q)"
    "circ c s' = circ c s - amount q" "acct_inv (symb q) s'" "stats s' = stats s"
    "\<And>d k. d \<noteq> c \<Longrightarrow> t_get (accounts s') (k, d) = t_get (accounts s) (k, d)"
    "\<And>d. d \<noteq> c \<Longrightarrow> circ d s' = circ d s" "tok_out s' = tok_out s"
proof -
  have e: "sub_balance E ow (mk_asset (amount q) (symb q)) s = Inr s'" using assms(4) by simp
  show "amount q \<le> bal_of c s ow" "bal_of c s' = (bal_of c s)(ow := bal_of c s ow - amount q)"
    "circ c s' = circ c s - amount q" "acct_inv (symb q) s'"
    using tok.debit_spec [OF _ assms(3) e] assms(1,2) by (auto simp: c_def)
  show "stats s' = stats s" "tok_out s' = tok_out s"
    "\<And>d k. d \<noteq> c \<Longrightarrow> t_get (accounts s') (k, d) = t_get (accounts s) (k, d)"
    "\<And>d. d \<noteq> c \<Longrightarrow> circ d s' = circ d s"
    using assms(4) by (auto simp: sub_balance_Inr_iff [OF assms(1)] c_def)
qed

lemma add_balance_spec:
  assumes "asset_laws E" "acct_inv (symb q) s" "0 < amount q" "add_balance E ow q p s = Inr s'"
  defines "c \<equiv> sym_code (symb q)"
  shows "bal_of c s' = (bal_of c s)(ow := bal_of c s ow + amount q)"
    "circ c s' = circ c s + amount q" "acct_inv (symb q) s'" "stats s' = stats s"
    "\<And>d k. d \<noteq> c \<Longrightarrow> t_get (accounts s') (k, d) = t_get (accounts s) (k, d)"
    "\<And>d. d \<noteq> c \<Longrightarrow> circ d s' = circ d s" "tok_out s' = tok_out s"
proof -
  have e: "add_balance E ow (mk_asset (amount q) (symb q)) p s = Inr s'" using assms(4) by simp
  show "bal_of c s' = (bal_of c s)(ow := bal_of c s ow + amount q)"
    "circ c s' = circ c s + amount q" "acct_inv (symb q) s'"
    using tok.credit_spec [OF _ assms(3) e] assms(1,2) by (auto simp: c_def)
  show "stats s' = stats s" "tok_out s' = tok_out s"
    "\<And>d k. d \<noteq> c \<Longrightarrow> t_get (accounts s') (k, d) = t_get (accounts s) (k, d)"
    "\<And>d. d \<noteq> c \<Longrightarrow> circ d s' = circ d s"
    using assms(4) by (auto simp: add_balance_Inr_iff [OF assms(1)] Let_def c_def split: option.splits)
qed

lemma create_inv:
  assumes "asset_laws E" "token_inv s" "create E i q s = Inr s'"
  shows "token_inv s'"
proof -
  let ?c = "sym_code (symb q)"
  let ?st = "\<lparr>st_supply = mk_asset 0 (symb q), st_max_supply = q, st_issuer = i\<rparr>"
  have none: "t_get (stats s) ?c = None" and q: "0 < amount q" "\<bar>amount q\<bar> \<le> max_amount"
    and s': "s' = s\<lparr>stats := t_set ?c ?st (stats s)\<rparr>"
    using assms(1,3) by (auto simp: create_def Let_def res_simps dest: asset_valid_range)
  have noacc: "t_get (accounts s) (ow, ?c) = None" for ow
    using assms(2) none by (cases "t_get (accounts s) (ow, ?c)") (fastforce simp: token_inv_def)+
  have "stat_ok ?c ?st s'" using circ_no_stat [OF assms(2) none] q by (simp add: stat_ok_def s')
  moreover have "acct_inv (symb q) s'" by (simp add: acct_inv_def s' noacc)
  ultimately show ?thesis
    using assms(2) by (fastforce simp: token_inv_def s' stat_ok_def)
qed

lemma supply_headroom:
  assumes "token_inv s" "t_get (stats s) code = Some st"
  shows "wrap64 (amount (st_max_supply st) - amount (st_supply st)) = amount (st_max_supply st) - amount (st_supply st)"
  using token_invD [OF assms] by (intro wrap64_id) (auto simp: stat_ok_def in64_def max_amount_def)

text \<open>What a successful \<open>issue\<close>, \<open>retire\<close>, \<open>burn\<close> and \<open>transfer\<close> has checked and done.\<close>

lemma issue_Inr:
  assumes "asset_laws E" "token_inv s" "issue E to q m s = Inr s'"
  obtains st s1 where "t_get (stats s) (sym_code (symb q)) = Some st"
    "has_auth E (st_issuer st)" "0 < amount q" "symb q = symb (st_supply st)" "length m \<le> 256"
    "amount q \<le> amount (st_max_supply st) - amount (st_supply st)"
    "add_balance E (st_issuer st) q (st_issuer st)
       (s\<lparr>stats := t_set (sym_code (symb q))
                     (st\<lparr>st_supply := mk_asset (amount (st_supply st) + amount q) (symb q)\<rparr>) (stats s)\<rparr>) = Inr s1"
    "s' = (if to \<noteq> st_issuer st
           then tok_emit (Inline (self_acct E) [at_active E (st_issuer st)]
                            (TokenTransfer (st_issuer st) to q m)) s1 else s1)"
proof -
  obtain st where st: "t_get (stats s) (sym_code (symb q)) = Some st"
    using assms(3) by (auto simp: issue_def Let_def res_simps)
  show thesis
    using assms(3) st supply_headroom [OF assms(2) st]
    by (auto simp: issue_def Let_def res_simps asset_plus_iff [OF assms(1)] intro!: that [OF st])
qed

lemma retire_Inr:
  assumes "asset_laws E" "retire E q m s = Inr s'"
  obtains st where "t_get (stats s) (sym_code (symb q)) = Some st"
    "has_auth E (st_issuer st)" "0 < amount q" "symb q = symb (st_supply st)"
    "sub_balance E (st_issuer st) q
       (s\<lparr>stats := t_set (sym_code (symb q))
                     (st\<lparr>st_supply := mk_asset (amount (st_supply st) - amount q) (symb q)\<rparr>) (stats s)\<rparr>) = Inr s'"
  using assms by (auto simp: retire_def Let_def res_simps asset_minus_iff intro!: that)

lemma burn_Inr:
  assumes "asset_laws E" "token_inv s" "burn E q m s = Inr s'"
  obtains st where "t_get (stats s) (sym_code (symb q)) = Some st"
    "has_auth E (st_issuer st)" "0 < amount q" "symb q = symb (st_supply st)"
    "sub_balance E (st_issuer st) q
       (s\<lparr>stats := t_set (sym_code (symb q))
                     (st\<lparr>st_max_supply := mk_asset (amount (st_max_supply st) - amount q) (symb q)\<rparr>) (stats s)\<rparr>) = Inr s'"
  using assms by (auto simp: burn_def Let_def res_simps asset_minus_iff intro!: that)

lemma transfer_Inr:
  assumes "transfer E from to q m s = Inr s'"
  obtains st s1 p where "t_get (stats s) (sym_code (symb q)) = Some st" "from \<noteq> to" "has_auth E from"
    "is_account E to" "0 < amount q" "symb q = symb (st_supply st)" "length m \<le> 256"
    "sub_balance E from q (tok_emit (Notify to) (tok_emit (Notify from) s)) = Inr s1"
    "p = (if has_auth E to then to else from)" "add_balance E to q p s1 = Inr s'"
  using assms by (auto simp: transfer_def Let_def res_simps intro!: that)

lemma issue_inv:
  assumes "asset_laws E" "token_inv s" "issue E to q m s = Inr s'"
  shows "token_inv s'"
proof -
  obtain st s1 where st: "t_get (stats s) (sym_code (symb q)) = Some st" and q: "0 < amount q"
    and y: "symb q = symb (st_supply st)"
    and room: "amount q \<le> amount (st_max_supply st) - amount (st_supply st)"
    and add: "add_balance E (st_issuer st) q (st_issuer st)
       (s\<lparr>stats := t_set (sym_code (symb q))
                     (st\<lparr>st_supply := mk_asset (amount (st_supply st) + amount q) (symb q)\<rparr>) (stats s)\<rparr>) = Inr s1"
    and s': "s' = (if to \<noteq> st_issuer st
           then tok_emit (Inline (self_acct E) [at_active E (st_issuer st)]
                            (TokenTransfer (st_issuer st) to q m)) s1 else s1)"
    using assms by (rule issue_Inr)
  note D = token_invD [OF assms(2) st]
  have sp: "acct_inv (symb q) (s\<lparr>stats := t_set (sym_code (symb q))
      (st\<lparr>st_supply := mk_asset (amount (st_supply st) + amount q) (symb q)\<rparr>) (stats s)\<rparr>)"
    using D(2) y by simp
  note A = add_balance_spec [OF assms(1) sp q add]
  have "token_inv s1"
    by (rule token_inv_update [OF assms(2) st, where st' = "st\<lparr>st_supply := mk_asset (amount (st_supply st) + amount q) (symb q)\<rparr>"])
      (use A D y q room in \<open>auto simp: stat_ok_def\<close>)
  then show ?thesis by (simp add: s' token_inv_def stat_ok_def)
qed

lemma retire_inv:
  assumes "asset_laws E" "token_inv s" "retire E q m s = Inr s'"
  shows "token_inv s'"
proof -
  obtain st where st: "t_get (stats s) (sym_code (symb q)) = Some st" and q: "0 < amount q"
    and y: "symb q = symb (st_supply st)"
    and sub: "sub_balance E (st_issuer st) q
       (s\<lparr>stats := t_set (sym_code (symb q))
                     (st\<lparr>st_supply := mk_asset (amount (st_supply st) - amount q) (symb q)\<rparr>) (stats s)\<rparr>) = Inr s'"
    using assms(1,3) by (rule retire_Inr)
  note D = token_invD [OF assms(2) st]
  have sp: "acct_inv (symb q) (s\<lparr>stats := t_set (sym_code (symb q))
      (st\<lparr>st_supply := mk_asset (amount (st_supply st) - amount q) (symb q)\<rparr>) (stats s)\<rparr>)"
    using D(2) y by simp
  note A = sub_balance_spec [OF assms(1) sp q sub]
  show ?thesis
    by (rule token_inv_update [OF assms(2) st, where st' = "st\<lparr>st_supply := mk_asset (amount (st_supply st) - amount q) (symb q)\<rparr>"])
      (use A D y q in \<open>auto simp: stat_ok_def\<close>)
qed

lemma burn_inv:
  assumes "asset_laws E" "token_inv s" "burn E q m s = Inr s'"
  shows "token_inv s'"
proof -
  obtain st where st: "t_get (stats s) (sym_code (symb q)) = Some st" and q: "0 < amount q"
    and y: "symb q = symb (st_supply st)"
    and sub: "sub_balance E (st_issuer st) q
       (s\<lparr>stats := t_set (sym_code (symb q))
                     (st\<lparr>st_max_supply := mk_asset (amount (st_max_supply st) - amount q) (symb q)\<rparr>) (stats s)\<rparr>) = Inr s'"
    using assms by (rule burn_Inr)
  note D = token_invD [OF assms(2) st]
  have sp: "acct_inv (symb q) (s\<lparr>stats := t_set (sym_code (symb q))
      (st\<lparr>st_max_supply := mk_asset (amount (st_max_supply st) - amount q) (symb q)\<rparr>) (stats s)\<rparr>)"
    using D(2) y by simp
  note A = sub_balance_spec [OF assms(1) sp q sub]
  show ?thesis
    by (rule token_inv_update [OF assms(2) st, where st' = "st\<lparr>st_max_supply := mk_asset (amount (st_max_supply st) - amount q) (symb q)\<rparr>"])
      (use A D y q in \<open>auto simp: stat_ok_def\<close>)
qed

text \<open>A transfer is a debit followed by a credit of the symbol's ledger.\<close>

lemma transfer_spec:
  assumes "asset_laws E" "token_inv s" "transfer E from to q m s = Inr s'"
  defines "c \<equiv> sym_code (symb q)"
  shows "amount q \<le> bal_of c s from"
    "bal_of c s' = (bal_of c s)(from := bal_of c s from - amount q, to := bal_of c s to + amount q)"
    "circ c s' = circ c s" "acct_inv (symb q) s'" "stats s' = stats s"
    "\<And>d k. d \<noteq> c \<Longrightarrow> t_get (accounts s') (k, d) = t_get (accounts s) (k, d)"
    "\<And>d. d \<noteq> c \<Longrightarrow> circ d s' = circ d s" "tok_out s' = tok_out s @ [Notify from, Notify to]"
proof -
  obtain st s1 p where st: "t_get (stats s) (sym_code (symb q)) = Some st" and ne: "from \<noteq> to"
    and q: "0 < amount q" and y: "symb q = symb (st_supply st)"
    and sub: "sub_balance E from q (tok_emit (Notify to) (tok_emit (Notify from) s)) = Inr s1"
    and add: "add_balance E to q p s1 = Inr s'"
    using assms(3) by (rule transfer_Inr)
  have sp: "acct_inv (symb q) (tok_emit (Notify to) (tok_emit (Notify from) s))"
    using token_invD(2) [OF assms(2) st] y by simp
  note A = sub_balance_spec [OF assms(1) sp q sub]
  note B = add_balance_spec [OF assms(1) A(4) q add]
  show "amount q \<le> bal_of c s from" using A(1) by (simp add: c_def)
  show "bal_of c s' = (bal_of c s)(from := bal_of c s from - amount q, to := bal_of c s to + amount q)"
    using A(2) B(1) ne by (simp add: c_def fun_eq_iff)
  show "circ c s' = circ c s" "acct_inv (symb q) s'" "stats s' = stats s"
    "\<And>d k. d \<noteq> c \<Longrightarrow> t_get (accounts s') (k, d) = t_get (accounts s) (k, d)"
    "\<And>d. d \<noteq> c \<Longrightarrow> circ d s' = circ d s" "tok_out s' = tok_out s @ [Notify from, Notify to]"
    using A B by (auto simp: c_def tok_emit_def)
qed

lemma transfer_inv:
  assumes "asset_laws E" "token_inv s" "transfer E from to q m s = Inr s'"
  shows "token_inv s'"
proof -
  obtain st where st: "t_get (stats s) (sym_code (symb q)) = Some st" and y: "symb q = symb (st_supply st)"
    using assms(3) by (rule transfer_Inr)
  note D = token_invD [OF assms(2) st] and T = transfer_spec [OF assms]
  have "t_set (sym_code (symb q)) st (stats s) = stats s" using st by (rule tab.put_get)
  then show ?thesis
    using T D y by (intro token_inv_update [OF assms(2) st, where st' = st]) (auto simp: stat_ok_def)
qed

text \<open>Opening adds an empty balance, closing removes one: neither changes a balance or a sum.\<close>

lemma open_acct_Inr:
  assumes "open_acct E ow y p s = Inr s'"
  obtains st where "t_get (stats s) (sym_code y) = Some st" "symb (st_supply st) = y" "has_auth E p"
    "s' = (if t_get (accounts s) (ow, sym_code y) = None
           then s\<lparr>accounts := t_set (ow, sym_code y) \<lparr>balance = mk_asset 0 y, payer = p\<rparr> (accounts s)\<rparr>
           else s)"
  using assms by (auto simp: open_acct_def res_simps split: option.splits intro!: that)

lemma close_acct_Inr:
  assumes "close_acct E ow y s = Inr s'"
  obtains a where "t_get (accounts s) (ow, sym_code y) = Some a" "amount (balance a) = 0" "has_auth E ow"
    "s' = s\<lparr>accounts := t_del (ow, sym_code y) (accounts s)\<rparr>"
  using assms by (auto simp: close_acct_def res_simps intro!: that)

lemma open_close_bal:
  "open_acct E ow y p s = Inr s' \<Longrightarrow> bal_of c s' = bal_of c s \<and> circ c s' = circ c s \<and> stats s' = stats s"
  "close_acct E ow y s = Inr s' \<Longrightarrow> bal_of c s' = bal_of c s \<and> circ c s' = circ c s \<and> stats s' = stats s"
  by (erule open_acct_Inr, force simp: bal_of_def fun_eq_iff split: if_splits)
    (erule close_acct_Inr, force simp: bal_of_def fun_eq_iff)

lemma open_inv:
  assumes "token_inv s" "open_acct E ow y p s = Inr s'"
  shows "token_inv s'"
proof -
  obtain st where st: "t_get (stats s) (sym_code y) = Some st" and y: "symb (st_supply st) = y"
    and s': "s' = (if t_get (accounts s) (ow, sym_code y) = None
           then s\<lparr>accounts := t_set (ow, sym_code y) \<lparr>balance = mk_asset 0 y, payer = p\<rparr> (accounts s)\<rparr>
           else s)"
    using assms(2) by (rule open_acct_Inr)
  note D = token_invD [OF assms(1) st] and B = open_close_bal(1) [OF assms(2)]
  have "t_set (sym_code y) st (stats s) = stats s" using st by (rule tab.put_get)
  then show ?thesis
    by (intro token_inv_update [OF assms(1) st, where st' = st])
      (use D y B in \<open>auto simp: s' stat_ok_def acct_inv_def\<close>)
qed

lemma close_inv:
  assumes "token_inv s" "close_acct E ow y s = Inr s'"
  shows "token_inv s'"
proof -
  obtain a where a: "t_get (accounts s) (ow, sym_code y) = Some a" and z: "amount (balance a) = 0"
    and s': "s' = s\<lparr>accounts := t_del (ow, sym_code y) (accounts s)\<rparr>"
    using assms(2) by (rule close_acct_Inr)
  obtain st where st: "t_get (stats s) (sym_code y) = Some st"
    using assms(1) a by (cases "t_get (stats s) (sym_code y)") (fastforce simp: token_inv_def)+
  note D = token_invD [OF assms(1) st]
  have "t_set (sym_code y) st (stats s) = stats s" using st by (rule tab.put_get)
  moreover have "bal_of (sym_code y) s ow = 0" using a z by (simp add: bal_of_def)
  ultimately show ?thesis
    by (intro token_inv_update [OF assms(1) st, where st' = st])
      (use D in \<open>auto simp: s' stat_ok_def acct_inv_def\<close>)
qed

lemma token_exec_inv: "asset_laws E \<Longrightarrow> token_inv s \<Longrightarrow> token_exec E a s = Inr s' \<Longrightarrow> token_inv s'"
  by (cases a) (auto intro: create_inv issue_inv transfer_inv open_inv close_inv retire_inv burn_inv)

lemma token_init_inv: "token_inv token_init"
  by (simp add: token_inv_def token_init_def)

interpretation token_sys: action_system token_exec asset_laws token_inv
  by unfold_locales (rule token_exec_inv)

section \<open>When a transfer succeeds\<close>

text \<open>The credit of a transfer cannot overflow, because the sum of all balances cannot.\<close>

lemma transfer_enough:
  assumes "asset_laws E" "token_inv s" and st: "t_get (stats s) (sym_code (symb q)) = Some st"
    and "from \<noteq> to" "has_auth E from" "is_account E to" "symb q = symb (st_supply st)" "asset_valid E q"
    "0 < amount q" "length m \<le> 256" "amount q \<le> bal_of (sym_code (symb q)) s from"
  shows "\<exists>s'. transfer E from to q m s = Inr s'"
proof -
  let ?c = "sym_code (symb q)"
  let ?s0 = "tok_emit (Notify to) (tok_emit (Notify from) s)"
  note D = token_invD [OF assms(2) st]
  obtain a where a: "t_get (accounts s) (from, ?c) = Some a"
    using assms(9,11) by (cases "t_get (accounts s) (from, ?c)") (auto simp: bal_of_def)
  have ai: "acct_inv (symb q) ?s0" using D(2) assms(7) by simp
  have le: "bal_of ?c s from \<le> circ ?c s" "bal_of ?c s to \<le> circ ?c s" "circ ?c s \<le> max_amount"
    using acct_inv_le_circ [of "symb q" s] D ai by (auto simp: stat_ok_def)
  obtain s1 where s1: "sub_balance E from q ?s0 = Inr s1"
    using a assms(9,11) le ai
    by (auto simp: sub_balance_Inr_iff [OF assms(1)] bal_of_def acct_inv_def)
  note A = sub_balance_spec [OF assms(1) ai assms(9) s1]
  have "bal_of ?c s1 to + amount q \<le> max_amount" "0 \<le> bal_of ?c s1 to"
    using A(2,3) le acct_inv_le_circ [OF A(4), of to] acct_inv_nonneg [OF A(4), of to] by auto
  then have "\<exists>s2. add_balance E to q p s1 = Inr s2" for p
    using A(4) assms(9)
    by (cases "t_get (accounts s1) (to, ?c)")
      (auto simp: add_balance_Inr_iff [OF assms(1)] Let_def bal_of_def acct_inv_def)
  then show ?thesis
    using assms st s1 by (auto simp: transfer_def Let_def res_simps)
qed

end
