(* ===== verification/TokenProps.thy ===== *)
theory TokenProps
  imports TokenLaws
begin

text \<open>
  The properties of the token contract, with the inline transfer of \<open>issue\<close> executed and with the
  abstract ledger the contract refines.
\<close>

section \<open>Inline actions of the token contract\<close>

text \<open>An inline action runs with the permissions it was sent with, after the action that sent it.\<close>

definition inline_env :: "env \<Rightarrow> permission_level list \<Rightarrow> env" where
  "inline_env E ps = E\<lparr>has_auth := (\<lambda>n. n \<in> actor ` set ps), has_perm := (\<lambda>p. p \<in> set ps)\<rparr>"

fun token_inline :: "env \<Rightarrow> effect \<Rightarrow> token_state \<Rightarrow> token_state res" where
  "token_inline E (Inline code ps (TokenTransfer f t q m)) s = transfer (inline_env E ps) f t q m s"
| "token_inline E (Inline code ps (TokenIssue t q m)) s = issue (inline_env E ps) t q m s"
| "token_inline E (Inline code ps (TokenOpen ow y p)) s = open_acct (inline_env E ps) ow y p s"
| "token_inline E _ s = Inr s"

definition issue_tx :: "env \<Rightarrow> name \<Rightarrow> asset \<Rightarrow> string \<Rightarrow> token_state \<Rightarrow> token_state res" where
  "issue_tx E to q m s =
     rbind (issue E to q m (s\<lparr>tok_out := []\<rparr>)) (\<lambda>s1. rfold (token_inline E) (tok_out s1) (s1\<lparr>tok_out := []\<rparr>))"

lemma inline_env_laws [simp]: "asset_laws (inline_env E ps) \<longleftrightarrow> asset_laws E"
  by (simp add: inline_env_def asset_laws_def)

lemma token_inline_inv:
  "asset_laws E \<Longrightarrow> token_inv s \<Longrightarrow> token_inline E e s = Inr s' \<Longrightarrow> token_inv s'"
  by (induction E e s rule: token_inline.induct)
    (auto intro: transfer_inv [OF inline_env_laws [THEN iffD2]] issue_inv [OF inline_env_laws [THEN iffD2]] open_inv)

lemma token_inv_out [simp]: "token_inv (s\<lparr>tok_out := x\<rparr>) \<longleftrightarrow> token_inv s"
  by (simp add: token_inv_def stat_ok_def)

section \<open>The abstract ledger\<close>

record ledger_abs =
  la_bal :: "name \<Rightarrow> 64 word \<Rightarrow> int"
  la_supply :: "64 word \<Rightarrow> int"
  la_cap :: "64 word \<Rightarrow> int"

inductive ledger_step :: "ledger_abs \<Rightarrow> ledger_abs \<Rightarrow> bool" where
  skip: "ledger_step l l"
| declare_cap: "la_supply l c = 0 \<Longrightarrow> la_cap l c = 0 \<Longrightarrow> 0 < n \<Longrightarrow>
    ledger_step l (l\<lparr>la_cap := (la_cap l)(c := n)\<rparr>)"
| move: "from \<noteq> to \<Longrightarrow> 0 < n \<Longrightarrow> n \<le> la_bal l from c \<Longrightarrow>
    ledger_step l (l\<lparr>la_bal := (la_bal l)(from := (la_bal l from)(c := la_bal l from c - n),
                                          to := (la_bal l to)(c := la_bal l to c + n))\<rparr>)"
| mint: "0 < n \<Longrightarrow> n \<le> la_cap l c - la_supply l c \<Longrightarrow>
    ledger_step l (l\<lparr>la_bal := (la_bal l)(ow := (la_bal l ow)(c := la_bal l ow c + n)),
                     la_supply := (la_supply l)(c := la_supply l c + n)\<rparr>)"
| redeem: "0 < n \<Longrightarrow> n \<le> la_bal l ow c \<Longrightarrow>
    ledger_step l (l\<lparr>la_bal := (la_bal l)(ow := (la_bal l ow)(c := la_bal l ow c - n)),
                     la_supply := (la_supply l)(c := la_supply l c - n)\<rparr>)"
| destroy: "0 < n \<Longrightarrow> n \<le> la_bal l ow c \<Longrightarrow>
    ledger_step l (l\<lparr>la_bal := (la_bal l)(ow := (la_bal l ow)(c := la_bal l ow c - n)),
                     la_cap := (la_cap l)(c := la_cap l c - n)\<rparr>)"

definition ledger_of :: "token_state \<Rightarrow> ledger_abs" where
  "ledger_of s =
     \<lparr>la_bal = (\<lambda>ow c. bal_of c s ow),
      la_supply = (\<lambda>c. case t_get (stats s) c of None \<Rightarrow> 0 | Some st \<Rightarrow> amount (st_supply st)),
      la_cap = (\<lambda>c. case t_get (stats s) c of None \<Rightarrow> 0 | Some st \<Rightarrow> amount (st_max_supply st))\<rparr>"

lemma bal_of_upd:
  assumes "\<And>d k. d \<noteq> c \<Longrightarrow> t_get (accounts s') (k, d) = t_get (accounts s) (k, d)"
    and "bal_of c s' = f"
  shows "(\<lambda>ow d. bal_of d s' ow) = (\<lambda>ow. (\<lambda>d. bal_of d s ow)(c := f ow))"
proof (intro ext)
  fix ow d
  show "bal_of d s' ow = ((\<lambda>d. bal_of d s ow)(c := f ow)) d"
    using assms(1) [of d ow] assms(2) by (cases "d = c") (auto simp: bal_of_def)
qed

lemma ledger_of_transfer:
  assumes "asset_laws E" "token_inv s" "transfer E from to q m s = Inr s'"
  shows "ledger_step (ledger_of s) (ledger_of s')"
proof -
  note T = transfer_spec [OF assms]
  have ft: "from \<noteq> to" "0 < amount q" using assms(3) by (auto elim: transfer_Inr)
  let ?c = "sym_code (symb q)"
  let ?l = "ledger_of s"
  have "ledger_of s' = ?l\<lparr>la_bal := (la_bal ?l)
      (from := (la_bal ?l from)(?c := la_bal ?l from ?c - amount q),
       to := (la_bal ?l to)(?c := la_bal ?l to ?c + amount q))\<rparr>"
    using ft T(5) bal_of_upd [OF T(6) T(2)] by (auto simp: ledger_of_def fun_eq_iff)
  then show ?thesis
    using ledger_step.move [OF ft, of ?l ?c] T(1) by (simp add: ledger_of_def)
qed

lemma ledger_of_issue:
  assumes "asset_laws E" "token_inv s" "issue E to q m s = Inr s'"
  shows "ledger_step (ledger_of s) (ledger_of s')"
proof -
  let ?c = "sym_code (symb q)"
  let ?l = "ledger_of s"
  obtain st s1 where st: "t_get (stats s) ?c = Some st" and q: "0 < amount q"
    and y: "symb q = symb (st_supply st)"
    and room: "amount q \<le> amount (st_max_supply st) - amount (st_supply st)"
    and add: "add_balance E (st_issuer st) q (st_issuer st)
       (s\<lparr>stats := t_set ?c (st\<lparr>st_supply := mk_asset (amount (st_supply st) + amount q) (symb q)\<rparr>) (stats s)\<rparr>) = Inr s1"
    and s': "s' = (if to \<noteq> st_issuer st
           then tok_emit (Inline (self_acct E) [at_active E (st_issuer st)]
                            (TokenTransfer (st_issuer st) to q m)) s1 else s1)"
    using assms by (rule issue_Inr)
  have sp: "acct_inv (symb q) (s\<lparr>stats := t_set ?c
      (st\<lparr>st_supply := mk_asset (amount (st_supply st) + amount q) (symb q)\<rparr>) (stats s)\<rparr>)"
    using token_invD(2) [OF assms(2) st] y by simp
  note A = add_balance_spec [OF assms(1) sp q add]
  have "ledger_of s' = ?l\<lparr>la_bal := (la_bal ?l)
      (st_issuer st := (la_bal ?l (st_issuer st))(?c := la_bal ?l (st_issuer st) ?c + amount q)),
      la_supply := (la_supply ?l)(?c := la_supply ?l ?c + amount q)\<rparr>"
    using bal_of_upd [of ?c s1 s, OF _ A(1)] A(4,5) st by (auto simp: ledger_of_def fun_eq_iff s')
  then show ?thesis
    using ledger_step.mint [OF q, of ?l ?c] room st by (simp add: ledger_of_def)
qed

lemma ledger_of_retire:
  assumes "asset_laws E" "token_inv s" "retire E q m s = Inr s'"
  shows "ledger_step (ledger_of s) (ledger_of s')"
proof -
  let ?c = "sym_code (symb q)"
  let ?l = "ledger_of s"
  obtain st where st: "t_get (stats s) ?c = Some st" and q: "0 < amount q"
    and y: "symb q = symb (st_supply st)"
    and sub: "sub_balance E (st_issuer st) q
       (s\<lparr>stats := t_set ?c (st\<lparr>st_supply := mk_asset (amount (st_supply st) - amount q) (symb q)\<rparr>) (stats s)\<rparr>) = Inr s'"
    using assms(1,3) by (rule retire_Inr)
  have sp: "acct_inv (symb q) (s\<lparr>stats := t_set ?c
      (st\<lparr>st_supply := mk_asset (amount (st_supply st) - amount q) (symb q)\<rparr>) (stats s)\<rparr>)"
    using token_invD(2) [OF assms(2) st] y by simp
  note A = sub_balance_spec [OF assms(1) sp q sub]
  have "ledger_of s' = ?l\<lparr>la_bal := (la_bal ?l)
      (st_issuer st := (la_bal ?l (st_issuer st))(?c := la_bal ?l (st_issuer st) ?c - amount q)),
      la_supply := (la_supply ?l)(?c := la_supply ?l ?c - amount q)\<rparr>"
    using bal_of_upd [of ?c s' s, OF _ A(2)] A(5,6) st by (auto simp: ledger_of_def fun_eq_iff)
  then show ?thesis
    using ledger_step.redeem [OF q, of ?l "st_issuer st" ?c] A(1) by (simp add: ledger_of_def)
qed

lemma ledger_of_burn:
  assumes "asset_laws E" "token_inv s" "burn E q m s = Inr s'"
  shows "ledger_step (ledger_of s) (ledger_of s')"
proof -
  let ?c = "sym_code (symb q)"
  let ?l = "ledger_of s"
  obtain st where st: "t_get (stats s) ?c = Some st" and q: "0 < amount q"
    and y: "symb q = symb (st_supply st)"
    and sub: "sub_balance E (st_issuer st) q
       (s\<lparr>stats := t_set ?c (st\<lparr>st_max_supply := mk_asset (amount (st_max_supply st) - amount q) (symb q)\<rparr>) (stats s)\<rparr>) = Inr s'"
    using assms by (rule burn_Inr)
  have sp: "acct_inv (symb q) (s\<lparr>stats := t_set ?c
      (st\<lparr>st_max_supply := mk_asset (amount (st_max_supply st) - amount q) (symb q)\<rparr>) (stats s)\<rparr>)"
    using token_invD(2) [OF assms(2) st] y by simp
  note A = sub_balance_spec [OF assms(1) sp q sub]
  have "ledger_of s' = ?l\<lparr>la_bal := (la_bal ?l)
      (st_issuer st := (la_bal ?l (st_issuer st))(?c := la_bal ?l (st_issuer st) ?c - amount q)),
      la_cap := (la_cap ?l)(?c := la_cap ?l ?c - amount q)\<rparr>"
    using bal_of_upd [of ?c s' s, OF _ A(2)] A(5,6) st by (auto simp: ledger_of_def fun_eq_iff)
  then show ?thesis
    using ledger_step.destroy [OF q, of ?l "st_issuer st" ?c] A(1) by (simp add: ledger_of_def)
qed

lemma ledger_of_create:
  assumes "asset_laws E" "token_inv s" "create E i q s = Inr s'"
  shows "ledger_step (ledger_of s) (ledger_of s')"
proof -
  let ?c = "sym_code (symb q)"
  let ?l = "ledger_of s"
  have c: "t_get (stats s) ?c = None" "0 < amount q"
    "s' = s\<lparr>stats := t_set ?c \<lparr>st_supply = mk_asset 0 (symb q), st_max_supply = q, st_issuer = i\<rparr> (stats s)\<rparr>"
    using assms(3) by (auto simp: create_def Let_def res_simps)
  then have "ledger_of s' = ?l\<lparr>la_cap := (la_cap ?l)(?c := amount q)\<rparr>"
    by (auto simp: ledger_of_def fun_eq_iff)
  then show ?thesis
    using ledger_step.declare_cap [of ?l ?c "amount q"] c by (simp add: ledger_of_def)
qed

section \<open>Properties\<close>

text \<open>
  C4. In every state the token contract can reach by successful actions, and for every symbol it
  has created, the balances are not negative, their sum exceeds neither the supply nor the maximum
  supply, and both figures stay in the range of a valid asset.
\<close>

theorem token_solvent:
  assumes "reachable token_exec asset_laws token_init s" and "t_get (stats s) code = Some st"
  shows "0 \<le> bal_of code s ow \<and> bal_of code s ow \<le> circ code s \<and>
    circ code s \<le> amount (st_supply st) \<and> circ code s \<le> amount (st_max_supply st) \<and>
    amount (st_supply st) \<le> max_amount \<and> amount (st_max_supply st) \<le> max_amount"
proof -
  have "token_inv s" using token_sys.reachable_inv [OF assms(1) token_init_inv] .
  note D = token_invD [OF this assms(2)]
  then show ?thesis
    using acct_inv_nonneg [OF D(2), of ow] acct_inv_le_circ [OF D(2), of ow] by (simp add: stat_ok_def)
qed

definition demo_sym :: symbol where
  "demo_sym = \<lparr>sym_code = 5, sym_precision = 4\<rparr>"

definition demo_token :: token_state where
  "demo_token = token_init
     \<lparr>stats := t_set 5 \<lparr>st_supply = mk_asset 0 demo_sym, st_max_supply = mk_asset 100 demo_sym,
                        st_issuer = 7\<rparr> t_empty\<rparr>"

definition demo_issued :: token_state where
  "demo_issued = demo_token
     \<lparr>stats := t_set 5 \<lparr>st_supply = mk_asset 60 demo_sym, st_max_supply = mk_asset 100 demo_sym,
                        st_issuer = 7\<rparr> t_empty,
      accounts := t_set (7, 5) \<lparr>balance = mk_asset 60 demo_sym, payer = 7\<rparr> t_empty\<rparr>"

lemma demo_reachable:
  "reachable token_exec asset_laws token_init demo_token"
  "reachable token_exec asset_laws token_init demo_issued"
proof -
  have "token_exec (ref_env 1 [1] 0) (Create 7 (mk_asset 100 demo_sym)) token_init = Inr demo_token"
    by (simp add: create_def Let_def token_init_def demo_token_def demo_sym_def
        max_amount_def require_auth_def t_emplace_def)
  then show 1: "reachable token_exec asset_laws token_init demo_token"
    by (rule reach_step [where exec = token_exec and ok = asset_laws, OF reach_init ref_env_laws])
  have "token_exec (ref_env 1 [7] 0) (Issue 7 (mk_asset 60 demo_sym) []) demo_token = Inr demo_issued"
    by (simp add: issue_def Let_def token_init_def demo_token_def demo_issued_def demo_sym_def
        max_amount_def require_auth_def add_balance_def ref_op_def wrap64_def tab.put_put)
  then show "reachable token_exec asset_laws token_init demo_issued"
    by (rule reach_step [where exec = token_exec and ok = asset_laws, OF 1 ref_env_laws])
qed

theorem token_solvent_witness: "circ 5 demo_issued \<le> 60 \<and> 0 \<le> bal_of 5 demo_issued 7"
  using token_solvent [OF demo_reachable(2), of 5 _ 7] by (simp add: demo_issued_def)

text \<open>
  C16. Refinement: every successful action of the token contract is a step of the abstract ledger
  (declare a cap, mint within it, move, redeem, destroy) between the abstractions of the states.
\<close>

theorem token_refines_ledger:
  assumes "asset_laws E" and "token_inv s" and "token_exec E a s = Inr s'"
  shows "ledger_step (ledger_of s) (ledger_of s')"
proof -
  have oc: "ledger_step (ledger_of s) (ledger_of s')"
    if "\<And>c. bal_of c s' = bal_of c s \<and> circ c s' = circ c s \<and> stats s' = stats s"
    using that ledger_step.skip [of "ledger_of s"] by (simp add: ledger_of_def)
  show ?thesis
    using assms(3)
    by (cases a) (simp_all add: ledger_of_create [OF assms(1,2)] ledger_of_issue [OF assms(1,2)]
        ledger_of_transfer [OF assms(1,2)] ledger_of_retire [OF assms(1,2)] ledger_of_burn [OF assms(1,2)]
        oc open_close_bal)
qed

lemma demo_inv [simp]: "token_inv demo_token" "token_inv demo_issued"
  using token_sys.reachable_inv [OF demo_reachable(1) token_init_inv]
    token_sys.reachable_inv [OF demo_reachable(2) token_init_inv] by auto

definition demo_moved :: token_state where
  "demo_moved = demo_issued
     \<lparr>accounts := t_set (8, 5) \<lparr>balance = mk_asset 25 demo_sym, payer = 7\<rparr>
                    (t_set (7, 5) \<lparr>balance = mk_asset 35 demo_sym, payer = 7\<rparr> t_empty),
      tok_out := [Notify 7, Notify 8]\<rparr>"

lemmas token_eval = transfer_def sub_balance_def add_balance_def issue_def burn_def require_auth_def Let_def
  ref_op_def max_amount_def tok_emit_def demo_sym_def token_init_def demo_token_def demo_issued_def
  demo_moved_def wrap64_def tab.put_put

lemma demo_transfer: "transfer (ref_env 1 [7] 0) 7 8 (mk_asset 25 demo_sym) [] demo_issued = Inr demo_moved"
  by (simp add: token_eval)

theorem token_refines_ledger_witness: "ledger_step (ledger_of demo_issued) (ledger_of demo_moved)"
  by (rule token_refines_ledger [where E = "ref_env 1 [7] 0" and a = "Transfer 7 8 (mk_asset 25 demo_sym) []"])
    (simp_all add: demo_transfer)

text \<open>
  C39. A transfer succeeds exactly when sender and receiver differ, the sender authorised it, the
  receiver exists, the symbol (with its precision) has been created, the quantity is valid and
  positive, the memo has at most 256 bytes and the sender's balance covers the quantity.
\<close>

theorem transfer_succeeds_iff:
  assumes "asset_laws E" and "token_inv s"
  shows "(\<exists>s'. transfer E from to q m s = Inr s') \<longleftrightarrow>
    from \<noteq> to \<and> has_auth E from \<and> is_account E to \<and>
    (\<exists>st. t_get (stats s) (sym_code (symb q)) = Some st \<and> symb q = symb (st_supply st)) \<and>
    asset_valid E q \<and> 0 < amount q \<and> length m \<le> 256 \<and> amount q \<le> bal_of (sym_code (symb q)) s from"
  (is "?l \<longleftrightarrow> ?r")
proof
  assume ?l
  then obtain s' where t: "transfer E from to q m s = Inr s'" ..
  then show ?r
    using transfer_spec(1) [OF assms t] by (auto simp: transfer_def Let_def res_simps)
next
  assume ?r
  then show ?l using transfer_enough [OF assms] by blast
qed

theorem transfer_succeeds_iff_witness:
  "(\<exists>s'. transfer (ref_env 1 [7] 0) 7 8 (mk_asset 60 demo_sym) [] demo_issued = Inr s') \<and>
   \<not> (\<exists>s'. transfer (ref_env 1 [7] 0) 7 8 (mk_asset 61 demo_sym) [] demo_issued = Inr s')"
  using transfer_succeeds_iff [of "ref_env 1 [7] 0" demo_issued 7 8 "mk_asset 60 demo_sym" "[]"]
    transfer_succeeds_iff [of "ref_env 1 [7] 0" demo_issued 7 8 "mk_asset 61 demo_sym" "[]"]
  by (simp add: bal_of_def token_eval)

text \<open>
  A successful transfer moves exactly the quantity from the sender to the receiver: no other
  balance of the symbol, no balance of another symbol, no supply figure and no sum changes, and the
  sender and then the receiver are notified.
\<close>

theorem transfer_moves:
  assumes "asset_laws E" and "token_inv s" and "transfer E from to q m s = Inr s'"
  shows "bal_of code s' = (if code = sym_code (symb q)
      then (bal_of code s)(from := bal_of code s from - amount q, to := bal_of code s to + amount q)
      else bal_of code s) \<and>
    circ code s' = circ code s \<and> stats s' = stats s \<and> tok_out s' = tok_out s @ [Notify from, Notify to]"
  using transfer_spec [OF assms] by (auto simp: bal_of_def fun_eq_iff)

theorem transfer_moves_witness: "bal_of 5 demo_moved 7 = 35 \<and> bal_of 5 demo_moved 8 = 25"
  using transfer_moves [OF ref_env_laws demo_inv(2) demo_transfer, of 5] by (simp add: bal_of_def token_eval)

text \<open>
  Issuing with its inline transfer: the supply grows by the quantity and stays within the
  maximum supply, and exactly the recipient's balance grows by it, whether or not the recipient is
  the issuer.
\<close>

theorem issue_tx_delivers:
  assumes "asset_laws E" and "token_inv s" and "issue_tx E to q m s = Inr s'"
  shows "\<exists>st st'. t_get (stats s) (sym_code (symb q)) = Some st \<and>
    t_get (stats s') (sym_code (symb q)) = Some st' \<and> has_auth E (st_issuer st) \<and>
    amount (st_supply st') = amount (st_supply st) + amount q \<and>
    amount (st_supply st') \<le> amount (st_max_supply st) \<and> st_max_supply st' = st_max_supply st \<and>
    bal_of (sym_code (symb q)) s' =
      (bal_of (sym_code (symb q)) s)(to := bal_of (sym_code (symb q)) s to + amount q)"
proof -
  let ?c = "sym_code (symb q)"
  let ?s0 = "s\<lparr>tok_out := []\<rparr>"
  obtain s1 where iss: "issue E to q m ?s0 = Inr s1"
    and inl: "rfold (token_inline E) (tok_out s1) (s1\<lparr>tok_out := []\<rparr>) = Inr s'"
    using assms(3) by (auto simp: issue_tx_def res_simps)
  have inv0: "token_inv ?s0" using assms(2) by simp
  obtain st s2 where st0: "t_get (stats ?s0) ?c = Some st" and au: "has_auth E (st_issuer st)"
    and q: "0 < amount q" and y: "symb q = symb (st_supply st)"
    and room: "amount q \<le> amount (st_max_supply st) - amount (st_supply st)"
    and add: "add_balance E (st_issuer st) q (st_issuer st)
       (?s0\<lparr>stats := t_set ?c (st\<lparr>st_supply := mk_asset (amount (st_supply st) + amount q) (symb q)\<rparr>) (stats ?s0)\<rparr>) = Inr s2"
    and s1: "s1 = (if to \<noteq> st_issuer st
           then tok_emit (Inline (self_acct E) [at_active E (st_issuer st)]
                            (TokenTransfer (st_issuer st) to q m)) s2 else s2)"
    using assms(1) inv0 iss by (rule issue_Inr)
  have st: "t_get (stats s) ?c = Some st" using st0 by simp
  have sp: "acct_inv (symb q) (?s0\<lparr>stats := t_set ?c
      (st\<lparr>st_supply := mk_asset (amount (st_supply st) + amount q) (symb q)\<rparr>) (stats ?s0)\<rparr>)"
    using token_invD(2) [OF assms(2) st] y by simp
  note A = add_balance_spec [OF assms(1) sp q add]
  have out: "tok_out s2 = []" using A(7) by simp
  have inv1: "token_inv (s1\<lparr>tok_out := []\<rparr>)" using issue_inv [OF assms(1) inv0 iss] by simp
  have "stats s' = stats s2 \<and> bal_of ?c s' = (bal_of ?c s)(to := bal_of ?c s to + amount q)"
  proof (cases "to = st_issuer st")
    case True
    with inl s1 out have "s' = s2\<lparr>tok_out := []\<rparr>" by simp
    then show ?thesis using A(1) True by (simp add: fun_eq_iff)
  next
    case False
    with inl s1 out have
      tr: "transfer (inline_env E [at_active E (st_issuer st)]) (st_issuer st) to q m (s1\<lparr>tok_out := []\<rparr>) = Inr s'"
      by (simp add: tok_emit_def res_simps)
    have "asset_laws (inline_env E [at_active E (st_issuer st)])" using assms(1) by simp
    note T = transfer_spec [OF this inv1 tr]
    show ?thesis using T(2,5) A(1) s1 False by (simp add: fun_eq_iff)
  qed
  then show ?thesis
    using A(4) st au room by simp
qed

theorem issue_tx_delivers_witness:
  "\<exists>s'. issue_tx (ref_env 1 [7] 0) 8 (mk_asset 25 demo_sym) [] demo_token = Inr s' \<and> bal_of 5 s' 8 = 25"
proof -
  obtain s' where s': "issue_tx (ref_env 1 [7] 0) 8 (mk_asset 25 demo_sym) [] demo_token = Inr s'"
    by (simp add: issue_tx_def token_eval inline_env_def at_active_def at_perm_def)
  have "bal_of 5 demo_token 8 = 0" by (simp add: bal_of_def token_eval)
  then show ?thesis
    using issue_tx_delivers [OF ref_env_laws demo_inv(1) s'] s' by (auto simp: demo_sym_def)
qed

text \<open>
  C40. \<open>burn\<close> destroys the issuer's tokens and lowers the maximum supply by the quantity, but leaves
  the recorded supply as it is: from then on the supply overstates the tokens in existence.
\<close>

theorem burn_keeps_supply:
  assumes "asset_laws E" and "token_inv s" and "burn E q m s = Inr s'"
  shows "\<exists>st st'. t_get (stats s) (sym_code (symb q)) = Some st \<and>
    t_get (stats s') (sym_code (symb q)) = Some st' \<and>
    st_supply st' = st_supply st \<and> amount (st_max_supply st') = amount (st_max_supply st) - amount q \<and>
    circ (sym_code (symb q)) s' = circ (sym_code (symb q)) s - amount q \<and>
    circ (sym_code (symb q)) s' < amount (st_supply st')"
proof -
  obtain st where st: "t_get (stats s) (sym_code (symb q)) = Some st" and q: "0 < amount q"
    and y: "symb q = symb (st_supply st)"
    and sub: "sub_balance E (st_issuer st) q
       (s\<lparr>stats := t_set (sym_code (symb q))
                     (st\<lparr>st_max_supply := mk_asset (amount (st_max_supply st) - amount q) (symb q)\<rparr>) (stats s)\<rparr>) = Inr s'"
    using assms by (rule burn_Inr)
  note D = token_invD [OF assms(2) st]
  have sp: "acct_inv (symb q) (s\<lparr>stats := t_set (sym_code (symb q))
      (st\<lparr>st_max_supply := mk_asset (amount (st_max_supply st) - amount q) (symb q)\<rparr>) (stats s)\<rparr>)"
    using D(2) y by simp
  note A = sub_balance_spec [OF assms(1) sp q sub]
  show ?thesis using A(3,5) D(1) q st by (auto simp: stat_ok_def)
qed

theorem burn_keeps_supply_witness:
  "\<exists>s' st'. burn (ref_env 1 [7] 0) (mk_asset 10 demo_sym) [] demo_issued = Inr s' \<and>
     t_get (stats s') 5 = Some st' \<and> amount (st_supply st') = 60 \<and> circ 5 s' < 60"
proof -
  obtain s' where s': "burn (ref_env 1 [7] 0) (mk_asset 10 demo_sym) [] demo_issued = Inr s'"
    by (simp add: token_eval)
  show ?thesis
    using burn_keeps_supply [OF ref_env_laws demo_inv(2) s'] s' by (auto simp: token_eval)
qed

text \<open>
  Opening a balance row that does not exist and closing it again restores the state exactly; an
  open of an existing row changes nothing.
\<close>

theorem open_close_roundtrip:
  assumes "open_acct E ow y p s = Inr s'" and "has_auth E' ow"
  shows "if t_get (accounts s) (ow, sym_code y) = None then close_acct E' ow y s' = Inr s else s' = s"
proof -
  have "t_del k (t_set k r t) = t" if "t_get t k = None" for k r and t :: "(name \<times> 64 word, account) table"
    using that by (simp add: tab.del_put tab.del_absent)
  with assms show ?thesis
    by (auto simp: close_acct_def require_auth_def elim!: open_acct_Inr)
qed

theorem open_close_roundtrip_witness:
  "\<exists>s'. open_acct (ref_env 1 [7] 0) 8 demo_sym 7 demo_issued = Inr s' \<and>
     close_acct (ref_env 1 [8] 0) 8 demo_sym s' = Inr demo_issued"
proof -
  obtain s' where s': "open_acct (ref_env 1 [7] 0) 8 demo_sym 7 demo_issued = Inr s'"
    by (simp add: open_acct_def token_eval)
  show ?thesis
    using open_close_roundtrip [OF s', of "ref_env 1 [8] 0"] s' by (simp add: token_eval)
qed

end
