(* ===== verification/Domain.thy ===== *)
theory Domain
  imports Chain
begin

text \<open>
  The two name-record contracts, \<open>contracts/domain\<close> and \<open>contracts/subdomain\<close>: each user keeps one
  row, written by \<open>upsert\<close>, removed by \<open>erase\<close> and printed by \<open>fetch\<close>. Both provide the interface
  \<open>owner_registry\<close>. The scope of the table is the account that first received the action.
\<close>

section \<open>The interface of a registry of owner rows\<close>

locale owner_registry =
  fixes look :: "'s \<Rightarrow> name \<Rightarrow> 'p option"
    and put :: "name \<Rightarrow> 'p \<Rightarrow> 's \<Rightarrow> 's res"
    and drop_row :: "name \<Rightarrow> 's \<Rightarrow> 's res"
    and auth :: "name \<Rightarrow> bool"
  assumes put_ok: "auth u \<Longrightarrow> \<exists>s'. put u p s = Inr s' \<and> look s' = (look s)(u \<mapsto> p)"
    and put_denied: "\<not> auth u \<Longrightarrow> put u p s = Inl (MissingAuth u)"
    and drop_ok: "auth u \<Longrightarrow> look s u \<noteq> None \<Longrightarrow> \<exists>s'. drop_row u s = Inr s' \<and> look s' = (look s)(u := None)"
    and drop_missing: "auth u \<Longrightarrow> look s u = None \<Longrightarrow> drop_row u s = Inl (Assert ''Record does not exist'')"
    and drop_denied: "\<not> auth u \<Longrightarrow> drop_row u s = Inl (MissingAuth u)"
begin

lemma put_Inr: "put u p s = Inr s' \<Longrightarrow> auth u \<and> look s' = (look s)(u \<mapsto> p)"
  using put_ok [of u p s] put_denied [of u p s] by (cases "auth u") auto

lemma drop_Inr: "drop_row u s = Inr s' \<Longrightarrow> auth u \<and> look s u \<noteq> None \<and> look s' = (look s)(u := None)"
  using drop_ok [of u s] drop_missing [of u s] drop_denied [of u s] by (cases "auth u") fastforce+

lemma put_put: "put u p s = Inr s1 \<Longrightarrow> put u q s1 = Inr s2 \<Longrightarrow> look s2 = (look s)(u \<mapsto> q)"
  by (simp add: put_Inr)

lemma put_then_drop: "put u p s = Inr s1 \<Longrightarrow> \<exists>s2. drop_row u s1 = Inr s2 \<and> look s2 = (look s)(u := None)"
  using drop_ok [of u s1] put_Inr [of u p s s1] by auto

lemma put_frame: "put u p s = Inr s' \<Longrightarrow> v \<noteq> u \<Longrightarrow> look s' v = look s v"
  by (simp add: put_Inr)

end

section \<open>domain\<close>

record person =
  key :: name
  account_id :: string
  bns_name :: string
  zone_hash :: string
  zone_file :: string
  isExpired :: string

type_synonym domain_state = "(name \<times> name, person) table"

definition dom_upsert :: "'z env_scheme \<Rightarrow> name \<Rightarrow> name \<Rightarrow> string \<Rightarrow> string \<Rightarrow> string \<Rightarrow> string \<Rightarrow> string
    \<Rightarrow> domain_state \<Rightarrow> domain_state res" where
  "dom_upsert E rcv user acc bns zh zf ex s =
     require_auth E user (
     case t_get s (rcv, user) of
       None \<Rightarrow> t_emplace (rcv, user)
                 \<lparr>key = user, account_id = acc, bns_name = bns, zone_hash = zh, zone_file = zf,
                  isExpired = ex\<rparr> s
     | Some row \<Rightarrow> Inr (t_set (rcv, user)
                 (row\<lparr>key := user, account_id := acc, bns_name := bns, zone_hash := zh,
                  zone_file := zf, isExpired := ex\<rparr>) s))"

definition dom_erase :: "'z env_scheme \<Rightarrow> name \<Rightarrow> name \<Rightarrow> domain_state \<Rightarrow> domain_state res" where
  "dom_erase E rcv user s =
     require_auth E user (
     check (t_has s (rcv, user)) ''Record does not exist'' (
     Inr (t_del (rcv, user) s)))"

text \<open>\<open>fetch\<close> prints the fields; the model returns what it prints.\<close>

definition dom_fetch :: "'z env_scheme \<Rightarrow> name \<Rightarrow> name \<Rightarrow> domain_state \<Rightarrow> string list res" where
  "dom_fetch E rcv user s =
     require_auth E user (
     rbind (rget (Assert ''Record does not exist'') (t_get s (rcv, user))) (\<lambda>p.
     Inr [account_id p, bns_name p, zone_hash p, zone_file p, isExpired p]))"

section \<open>subdomain\<close>

record sd_person =
  sd_key :: name
  sd_account_id :: string
  sd_name :: string
  domain_name :: string
  sd_zone_hash :: string
  sd_zone_file :: string

type_synonym subdomain_state = "(name \<times> name, sd_person) table"

definition sd_upsert :: "'z env_scheme \<Rightarrow> name \<Rightarrow> name \<Rightarrow> string \<Rightarrow> string \<Rightarrow> string \<Rightarrow> string \<Rightarrow> string
    \<Rightarrow> subdomain_state \<Rightarrow> subdomain_state res" where
  "sd_upsert E rcv user acc sd dn zh zf s =
     require_auth E user (
     case t_get s (rcv, user) of
       None \<Rightarrow> t_emplace (rcv, user)
                 \<lparr>sd_key = user, sd_account_id = acc, sd_name = sd, domain_name = dn, sd_zone_hash = zh,
                  sd_zone_file = zf\<rparr> s
     | Some row \<Rightarrow> Inr (t_set (rcv, user)
                 (row\<lparr>sd_key := user, sd_account_id := acc, sd_name := sd, domain_name := dn,
                  sd_zone_hash := zh, sd_zone_file := zf\<rparr>) s))"

definition sd_erase :: "'z env_scheme \<Rightarrow> name \<Rightarrow> name \<Rightarrow> subdomain_state \<Rightarrow> subdomain_state res" where
  "sd_erase E rcv user s =
     require_auth E user (
     check (t_has s (rcv, user)) ''Record does not exist'' (
     Inr (t_del (rcv, user) s)))"

definition sd_fetch :: "'z env_scheme \<Rightarrow> name \<Rightarrow> name \<Rightarrow> subdomain_state \<Rightarrow> string list res" where
  "sd_fetch E rcv user s =
     require_auth E user (
     rbind (rget (Assert ''Record does not exist'') (t_get s (rcv, user))) (\<lambda>p.
     Inr [sd_account_id p, sd_name p, domain_name p, sd_zone_file p, sd_zone_hash p]))"

section \<open>Both contracts are registries\<close>

text \<open>The payload of a row is everything but its key, which is the user's name.\<close>

fun dom_put :: "'z env_scheme \<Rightarrow> name \<Rightarrow> name \<Rightarrow> string \<times> string \<times> string \<times> string \<times> string
    \<Rightarrow> domain_state \<Rightarrow> domain_state res" where
  "dom_put E rcv user (acc, bns, zh, zf, ex) s = dom_upsert E rcv user acc bns zh zf ex s"

fun sd_put :: "'z env_scheme \<Rightarrow> name \<Rightarrow> name \<Rightarrow> string \<times> string \<times> string \<times> string \<times> string
    \<Rightarrow> subdomain_state \<Rightarrow> subdomain_state res" where
  "sd_put E rcv user (acc, sd, dn, zh, zf) s = sd_upsert E rcv user acc sd dn zh zf s"

definition dom_look :: "name \<Rightarrow> domain_state \<Rightarrow> name \<Rightarrow> (string \<times> string \<times> string \<times> string \<times> string) option" where
  "dom_look rcv s u =
     map_option (\<lambda>p. (account_id p, bns_name p, zone_hash p, zone_file p, isExpired p)) (t_get s (rcv, u))"

definition sd_look :: "name \<Rightarrow> subdomain_state \<Rightarrow> name \<Rightarrow> (string \<times> string \<times> string \<times> string \<times> string) option" where
  "sd_look rcv s u =
     map_option (\<lambda>p. (sd_account_id p, sd_name p, domain_name p, sd_zone_hash p, sd_zone_file p)) (t_get s (rcv, u))"

lemmas registry_defs = dom_upsert_def sd_upsert_def dom_erase_def sd_erase_def dom_look_def sd_look_def
  require_auth_def t_emplace_def t_has_def

interpretation dom: owner_registry "dom_look rcv" "dom_put E rcv" "dom_erase E rcv" "has_auth E"
  for E :: "'z env_scheme" and rcv
proof (unfold_locales, goal_cases)
  case (1 u p s)
  then show ?case
    by (cases p; cases "t_get s (rcv, u)") (auto simp: registry_defs fun_eq_iff)
next
  case (2 u p s)
  then show ?case by (cases p) (simp add: registry_defs)
qed (auto simp: registry_defs fun_eq_iff)

interpretation sd: owner_registry "sd_look rcv" "sd_put E rcv" "sd_erase E rcv" "has_auth E"
  for E :: "'z env_scheme" and rcv
proof (unfold_locales, goal_cases)
  case (1 u p s)
  then show ?case
    by (cases p; cases "t_get s (rcv, u)") (auto simp: registry_defs fun_eq_iff)
next
  case (2 u p s)
  then show ?case by (cases p) (simp add: registry_defs)
qed (auto simp: registry_defs fun_eq_iff)

lemma dom_fetch_iff:
  "dom_fetch E rcv u s = Inr xs \<longleftrightarrow> has_auth E u \<and>
     (\<exists>a b c d e. dom_look rcv s u = Some (a, b, c, d, e) \<and> xs = [a, b, c, d, e])"
  by (auto simp: dom_fetch_def dom_look_def res_simps)

lemma sd_fetch_iff:
  "sd_fetch E rcv u s = Inr xs \<longleftrightarrow> has_auth E u \<and>
     (\<exists>a b c d e. sd_look rcv s u = Some (a, b, c, d, e) \<and> xs = [a, b, c, e, d])"
  by (auto simp: sd_fetch_def sd_look_def res_simps)

section \<open>Properties\<close>

text \<open>
  A record written by \<open>upsert\<close> of the domain contract is what the user's next \<open>fetch\<close> prints,
  whether the row is new or replaced; only the user's own row changed; and \<open>erase\<close> then removes it,
  after which \<open>fetch\<close> aborts.
\<close>

theorem domain_upsert_fetch:
  assumes "dom_upsert E rcv user acc bns zh zf ex s = Inr s'"
  shows "has_auth E user \<and> dom_fetch E rcv user s' = Inr [acc, bns, zh, zf, ex] \<and>
    (\<forall>v. v \<noteq> user \<longrightarrow> dom_look rcv s' v = dom_look rcv s v) \<and>
    (\<exists>s2. dom_erase E rcv user s' = Inr s2 \<and> dom_fetch E rcv user s2 = Inl (Assert ''Record does not exist''))"
proof -
  have p: "dom_put E rcv user (acc, bns, zh, zf, ex) s = Inr s'" using assms by simp
  note P = dom.put_Inr [OF p] and F = dom.put_frame [OF p]
  obtain s2 where e: "dom_erase E rcv user s' = Inr s2" and l: "dom_look rcv s2 = (dom_look rcv s)(user := None)"
    using dom.put_then_drop [OF p] by blast
  have "dom_fetch E rcv user s2 = Inl (Assert ''Record does not exist'')"
    using fun_cong [OF l, of user] P by (simp add: dom_fetch_def dom_look_def require_auth_def)
  with P F e show ?thesis by (auto simp: dom_fetch_iff)
qed

theorem domain_upsert_fetch_witness:
  "\<exists>s'. dom_upsert (ref_env 1 [7] 0) 1 7 ''a'' ''b'' ''c'' ''d'' ''e'' t_empty = Inr s' \<and>
     dom_fetch (ref_env 1 [7] 0) 1 7 s' = Inr [''a'', ''b'', ''c'', ''d'', ''e'']"
proof -
  obtain s' where s': "dom_upsert (ref_env 1 [7] 0) 1 7 ''a'' ''b'' ''c'' ''d'' ''e'' t_empty = Inr s'"
    by (simp add: registry_defs)
  show ?thesis using domain_upsert_fetch [OF s'] s' by blast
qed

text \<open>
  The same round trip for the subdomain contract, whose \<open>fetch\<close> prints the zone file before the
  zone hash.
\<close>

theorem subdomain_upsert_fetch:
  assumes "sd_upsert E rcv user acc sd dn zh zf s = Inr s'"
  shows "has_auth E user \<and> sd_fetch E rcv user s' = Inr [acc, sd, dn, zf, zh] \<and>
    (\<forall>v. v \<noteq> user \<longrightarrow> sd_look rcv s' v = sd_look rcv s v) \<and>
    (\<exists>s2. sd_erase E rcv user s' = Inr s2 \<and> sd_fetch E rcv user s2 = Inl (Assert ''Record does not exist''))"
proof -
  have p: "sd_put E rcv user (acc, sd, dn, zh, zf) s = Inr s'" using assms by simp
  note P = sd.put_Inr [OF p] and F = sd.put_frame [OF p]
  obtain s2 where e: "sd_erase E rcv user s' = Inr s2" and l: "sd_look rcv s2 = (sd_look rcv s)(user := None)"
    using sd.put_then_drop [OF p] by blast
  have "sd_fetch E rcv user s2 = Inl (Assert ''Record does not exist'')"
    using fun_cong [OF l, of user] P by (simp add: sd_fetch_def sd_look_def require_auth_def)
  with P F e show ?thesis by (auto simp: sd_fetch_iff)
qed

theorem subdomain_upsert_fetch_witness:
  "\<exists>s'. sd_upsert (ref_env 1 [7] 0) 1 7 ''a'' ''b'' ''c'' ''d'' ''e'' t_empty = Inr s' \<and>
     sd_fetch (ref_env 1 [7] 0) 1 7 s' = Inr [''a'', ''b'', ''c'', ''e'', ''d'']"
proof -
  obtain s' where s': "sd_upsert (ref_env 1 [7] 0) 1 7 ''a'' ''b'' ''c'' ''d'' ''e'' t_empty = Inr s'"
    by (simp add: registry_defs)
  show ?thesis using subdomain_upsert_fetch [OF s'] s' by blast
qed

end
