(* ===== verification/Msig.thy ===== *)
theory Msig
  imports Chain "HOL-Library.Multiset"
begin

text \<open>
  The multi-signature contract, \<open>contracts/eosio.msig\<close>: proposals and their requested and provided
  approvals, keyed by proposer (the scope) and proposal name, the approvals of the older table, and
  the invalidation times of accounts. Unpacking a transaction, hashing it and the host's check of
  its authorisations are library and host functions and enter as fields of \<open>msig_env\<close>.
\<close>

section \<open>State\<close>

text \<open>
  The key of a row is (proposer, proposal name): the scope of the table and the row's
  \<open>proposal_name\<close>, which the records do not repeat; the constant \<open>version = 1\<close> of \<open>approvals_info\<close>
  is left out too.
\<close>

record msig_env = env +
  trx_expiration :: "bytes \<Rightarrow> uint res"
  sha256_is :: "bytes \<Rightarrow> bytes \<Rightarrow> bool"
  trx_authorized :: "bytes \<Rightarrow> permission_level list \<Rightarrow> bool"

record approval =
  level :: permission_level
  time :: i64

record approvals_info =
  requested_approvals :: "approval list"
  provided_approvals :: "approval list"

record old_approvals_info =
  old_requested :: "permission_level list"
  old_provided :: "permission_level list"

record msig_state =
  proposals :: "(name \<times> name, bytes) table"
  approvals :: "(name \<times> name, approvals_info) table"
  old_approvals :: "(name \<times> name, old_approvals_info) table"
  invalidations :: "(name, i64) table"
  msig_out :: "effect list"

definition msig_init :: msig_state where
  "msig_init = \<lparr>proposals = t_empty, approvals = t_empty, old_approvals = t_empty,
     invalidations = t_empty, msig_out = []\<rparr>"

text \<open>\<open>find_if\<close> and \<open>erase\<close> of the iterator it returns: the first match leaves the vector.\<close>

fun erase_first :: "('a \<Rightarrow> bool) \<Rightarrow> 'a list \<Rightarrow> 'a list" where
  "erase_first P [] = []"
| "erase_first P (x # xs) = (if P x then xs else x # erase_first P xs)"

section \<open>Actions\<close>

definition propose :: "msig_env \<Rightarrow> name \<Rightarrow> name \<Rightarrow> permission_level list \<Rightarrow> bytes \<Rightarrow> msig_state \<Rightarrow> msig_state res" where
  "propose E proposer pname requested trx s =
     rbind (trx_expiration E trx) (\<lambda>expn.
     require_auth E proposer (
     check (expn \<ge> time_sec E (current_time E)) ''transaction expired'' (
     check (t_get (proposals s) (proposer, pname) = None) ''proposal with the same name exists'' (
     check (trx_authorized E trx requested) ''transaction authorization failed'' (
     rbind (t_emplace (proposer, pname) trx (proposals s)) (\<lambda>pt.
     rbind (t_emplace (proposer, pname)
              \<lparr>requested_approvals = map (\<lambda>l. \<lparr>level = l, time = 0\<rparr>) requested, provided_approvals = []\<rparr>
              (approvals s)) (\<lambda>ap.
     Inr (s\<lparr>proposals := pt, approvals := ap\<rparr>))))))))"

definition approve :: "msig_env \<Rightarrow> name \<Rightarrow> name \<Rightarrow> permission_level \<Rightarrow> bytes option \<Rightarrow> msig_state \<Rightarrow> msig_state res" where
  "approve E proposer pname lv proposal_hash s =
     require_perm E lv (
     rbind (case proposal_hash of
              None \<Rightarrow> Inr ()
            | Some h \<Rightarrow>
                rbind (rget (Assert ''proposal not found'') (t_get (proposals s) (proposer, pname))) (\<lambda>trx.
                check (sha256_is E trx h) ''hash mismatch'' (Inr ()))) (\<lambda>_.
     case t_get (approvals s) (proposer, pname) of
       Some a \<Rightarrow>
         check (\<exists>x \<in> set (requested_approvals a). level x = lv)
           ''approval is not on the list of requested approvals'' (
         Inr (s\<lparr>approvals := t_set (proposer, pname)
           (a\<lparr>provided_approvals := provided_approvals a @ [\<lparr>level = lv, time = current_time E\<rparr>],
             requested_approvals := erase_first (\<lambda>x. level x = lv) (requested_approvals a)\<rparr>) (approvals s)\<rparr>))
     | None \<Rightarrow>
         rbind (rget (Assert ''proposal not found'') (t_get (old_approvals s) (proposer, pname))) (\<lambda>a.
         check (lv \<in> set (old_requested a)) ''approval is not on the list of requested approvals'' (
         Inr (s\<lparr>old_approvals := t_set (proposer, pname)
           (a\<lparr>old_provided := old_provided a @ [lv],
             old_requested := erase_first (\<lambda>x. x = lv) (old_requested a)\<rparr>) (old_approvals s)\<rparr>)))))"

definition unapprove :: "msig_env \<Rightarrow> name \<Rightarrow> name \<Rightarrow> permission_level \<Rightarrow> msig_state \<Rightarrow> msig_state res" where
  "unapprove E proposer pname lv s =
     require_perm E lv (
     case t_get (approvals s) (proposer, pname) of
       Some a \<Rightarrow>
         check (\<exists>x \<in> set (provided_approvals a). level x = lv) ''no approval previously granted'' (
         Inr (s\<lparr>approvals := t_set (proposer, pname)
           (a\<lparr>requested_approvals := requested_approvals a @ [\<lparr>level = lv, time = current_time E\<rparr>],
             provided_approvals := erase_first (\<lambda>x. level x = lv) (provided_approvals a)\<rparr>) (approvals s)\<rparr>))
     | None \<Rightarrow>
         rbind (rget (Assert ''proposal not found'') (t_get (old_approvals s) (proposer, pname))) (\<lambda>a.
         check (lv \<in> set (old_provided a)) ''no approval previously granted'' (
         Inr (s\<lparr>old_approvals := t_set (proposer, pname)
           (a\<lparr>old_requested := old_requested a @ [lv],
             old_provided := erase_first (\<lambda>x. x = lv) (old_provided a)\<rparr>) (old_approvals s)\<rparr>))))"

definition cancel :: "msig_env \<Rightarrow> name \<Rightarrow> name \<Rightarrow> name \<Rightarrow> msig_state \<Rightarrow> msig_state res" where
  "cancel E proposer pname canceler s =
     require_auth E canceler (
     rbind (rget (Assert ''proposal not found'') (t_get (proposals s) (proposer, pname))) (\<lambda>trx.
     rbind (if canceler \<noteq> proposer
            then rbind (trx_expiration E trx) (\<lambda>expn.
                 check (expn < time_sec E (current_time E)) ''cannot cancel until expiration'' (Inr ()))
            else Inr ()) (\<lambda>_.
     let s1 = s\<lparr>proposals := t_del (proposer, pname) (proposals s)\<rparr> in
     if t_has (approvals s) (proposer, pname)
     then Inr (s1\<lparr>approvals := t_del (proposer, pname) (approvals s)\<rparr>)
     else check (t_has (old_approvals s) (proposer, pname)) ''proposal not found'' (
          Inr (s1\<lparr>old_approvals := t_del (proposer, pname) (old_approvals s)\<rparr>)))))"

text \<open>The approvals that count when a proposal is executed.\<close>

definition valid_approvals :: "msig_state \<Rightarrow> approvals_info \<Rightarrow> permission_level list" where
  "valid_approvals s a =
     map level (filter (\<lambda>p. case t_get (invalidations s) (actor (level p)) of
                              None \<Rightarrow> True | Some t \<Rightarrow> t < time p) (provided_approvals a))"

definition valid_old_approvals :: "msig_state \<Rightarrow> old_approvals_info \<Rightarrow> permission_level list" where
  "valid_old_approvals s a = filter (\<lambda>l. t_get (invalidations s) (actor l) = None) (old_provided a)"

definition exec_proposal :: "msig_env \<Rightarrow> name \<Rightarrow> name \<Rightarrow> name \<Rightarrow> msig_state \<Rightarrow> msig_state res" where
  "exec_proposal E proposer pname executer s =
     require_auth E executer (
     rbind (rget (Assert ''proposal not found'') (t_get (proposals s) (proposer, pname))) (\<lambda>trx.
     rbind (trx_expiration E trx) (\<lambda>expn.
     check (expn \<ge> time_sec E (current_time E)) ''transaction expired'' (
     rbind (case t_get (approvals s) (proposer, pname) of
              Some a \<Rightarrow> Inr (valid_approvals s a, s\<lparr>approvals := t_del (proposer, pname) (approvals s)\<rparr>)
            | None \<Rightarrow>
                rbind (rget (Assert ''proposal not found'') (t_get (old_approvals s) (proposer, pname))) (\<lambda>a.
                Inr (valid_old_approvals s a, s\<lparr>old_approvals := t_del (proposer, pname) (old_approvals s)\<rparr>)))
       (\<lambda>(provided, s1).
     check (trx_authorized E trx provided) ''transaction authorization failed'' (
     Inr (s1\<lparr>proposals := t_del (proposer, pname) (proposals s1),
            msig_out := msig_out s1 @
              [SendDeferred (uint proposer * 2 ^ 64 + uint pname) executer 0 (DeferRaw trx)]\<rparr>)))))))"

definition invalidate :: "msig_env \<Rightarrow> name \<Rightarrow> msig_state \<Rightarrow> msig_state res" where
  "invalidate E acct s =
     require_auth E acct (
     case t_get (invalidations s) acct of
       None \<Rightarrow> rbind (t_emplace acct (current_time E) (invalidations s)) (\<lambda>t. Inr (s\<lparr>invalidations := t\<rparr>))
     | Some _ \<Rightarrow> Inr (s\<lparr>invalidations := t_set acct (current_time E) (invalidations s)\<rparr>))"

datatype msig_action =
    Propose name name "permission_level list" bytes
  | Approve name name permission_level "bytes option"
  | Unapprove name name permission_level
  | Cancel name name name
  | Exec name name name
  | Invalidate name

fun msig_exec :: "msig_env \<Rightarrow> msig_action \<Rightarrow> msig_state \<Rightarrow> msig_state res" where
  "msig_exec E (Propose p n r t) s = propose E p n r t s"
| "msig_exec E (Approve p n l h) s = approve E p n l h s"
| "msig_exec E (Unapprove p n l) s = unapprove E p n l s"
| "msig_exec E (Cancel p n c) s = cancel E p n c s"
| "msig_exec E (Exec p n x) s = exec_proposal E p n x s"
| "msig_exec E (Invalidate a) s = invalidate E a s"

section \<open>Lemmas\<close>

lemma erase_first_subset: "set (erase_first P xs) \<subseteq> set xs"
  by (induction xs) auto

text \<open>
  The permission levels of a proposal, requested and provided together. They are fixed when the
  proposal is made: approvals only move between the two vectors.
\<close>

definition levels :: "approvals_info \<Rightarrow> permission_level multiset" where
  "levels a = image_mset level (mset (requested_approvals a)) + image_mset level (mset (provided_approvals a))"

text \<open>
  The invariant: a proposal exists exactly when it has a row of approvals, in one of the two tables
  and never in both.
\<close>

definition msig_inv :: "msig_state \<Rightarrow> bool" where
  "msig_inv s \<longleftrightarrow> (\<forall>k. t_has (proposals s) k \<longleftrightarrow> t_has (approvals s) k \<or> t_has (old_approvals s) k) \<and>
     (\<forall>k. \<not> (t_has (approvals s) k \<and> t_has (old_approvals s) k))"

lemma msig_exec_inv: "msig_inv s \<Longrightarrow> msig_exec E a s = Inr s' \<Longrightarrow> msig_inv s'"
  by (cases a; auto simp: msig_inv_def propose_def approve_def unapprove_def cancel_def exec_proposal_def
      invalidate_def res_simps t_get_None_iff Let_def split: option.splits if_splits; blast dest: t_hasI)

interpretation msig_sys: action_system msig_exec "\<lambda>E. True" msig_inv
  by unfold_locales (rule msig_exec_inv)

lemma erase_first_level [simp]:
  "x \<in> set xs \<Longrightarrow>
   add_mset (level x) (image_mset level (mset (erase_first (\<lambda>y. level y = level x) xs))) = image_mset level (mset xs)"
  by (induction xs) (auto simp: add_mset_commute)

definition levels_are :: "name \<times> name \<Rightarrow> permission_level multiset \<Rightarrow> msig_state \<Rightarrow> bool" where
  "levels_are k ls s \<longleftrightarrow> \<not> t_has (old_approvals s) k \<and> (\<forall>a. t_get (approvals s) k = Some a \<longrightarrow> levels a = ls)"

fun proposes :: "name \<times> name \<Rightarrow> msig_action \<Rightarrow> bool" where
  "proposes k (Propose p n r t) \<longleftrightarrow> (p, n) = k"
| "proposes k _ \<longleftrightarrow> False"

lemma approve_levels: "levels_are k ls s \<Longrightarrow> approve E p n l h s = Inr s' \<Longrightarrow> levels_are k ls s'"
  by (auto simp: levels_are_def levels_def approve_def res_simps t_get_None_iff add.commute
      split: option.splits if_splits dest: t_hasI)

lemma unapprove_levels: "levels_are k ls s \<Longrightarrow> unapprove E p n l s = Inr s' \<Longrightarrow> levels_are k ls s'"
  by (auto simp: levels_are_def levels_def unapprove_def res_simps t_get_None_iff add.commute
      split: option.splits if_splits dest: t_hasI)

lemma levels_exec:
  assumes "levels_are k ls s" "msig_exec E a s = Inr s'" "\<not> proposes k a"
  shows "levels_are k ls s'"
proof (cases a)
  case (Approve p n l h)
  with assms show ?thesis by (simp add: approve_levels)
next
  case (Unapprove p n l)
  with assms show ?thesis by (simp add: unapprove_levels)
qed (use assms in \<open>auto simp: levels_are_def propose_def cancel_def exec_proposal_def invalidate_def
      res_simps Let_def split: option.splits if_splits\<close>)

lemma levels_run:
  assumes "levels_are k ls s" and "\<forall>(E, a) \<in> set xs. \<not> proposes k a"
  shows "levels_are k ls (run msig_exec xs s)"
  using assms
proof (induction xs arbitrary: s)
  case (Cons x xs)
  obtain E a where x: "x = (E, a)" by (cases x)
  show ?case
  proof (cases "msig_exec E a s")
    case (Inr s')
    with Cons.prems x have "levels_are k ls s'" by (auto intro: levels_exec)
    with Cons x Inr show ?thesis by simp
  qed (use Cons x in simp)
qed simp

lemma propose_levels:
  "msig_inv s \<Longrightarrow> propose E p n r t s = Inr s1 \<Longrightarrow> levels_are (p, n) (mset r) s1"
  by (auto simp: msig_inv_def levels_are_def levels_def propose_def res_simps t_get_None_iff
      multiset.map_comp comp_def)

lemma valid_approvals_sub: "mset (valid_approvals s a) \<subseteq># levels a"
  unfolding valid_approvals_def levels_def
  by (simp add: image_mset_subseteq_mono subset_mset.add_increasing)

section \<open>A reference environment and states\<close>

text \<open>
  A packed transaction is a list of bytes; the reference environment reads its expiration from the
  first byte, compares a hash with the bytes themselves and demands two permission levels.
\<close>

definition msig_ref :: "name list \<Rightarrow> i64 \<Rightarrow> msig_env" where
  "msig_ref auths t = env.extend (ref_env 99 auths t)
     \<lparr>trx_expiration = (\<lambda>b. case b of [] \<Rightarrow> Inl (Assert ''unpack'') | x # xs \<Rightarrow> Inr (uint x)),
      sha256_is = (\<lambda>b h. b = h), trx_authorized = (\<lambda>b ls. 2 \<le> length ls)\<rparr>"

definition lvl :: "name \<Rightarrow> permission_level" where
  "lvl n = \<lparr>actor = n, permission = 1\<rparr>"

definition proposed :: msig_state where
  "proposed = run msig_exec [(msig_ref [5] 0, Propose 5 6 [lvl 7, lvl 8] [100])] msig_init"

definition approved :: msig_state where
  "approved = run msig_exec
     [(msig_ref [7] 1000000, Approve 5 6 (lvl 7) None),
      (msig_ref [8] 2000000, Approve 5 6 (lvl 8) (Some [100]))] proposed"

lemma msig_ref_simps [simp]:
  "has_auth (msig_ref auths t) n \<longleftrightarrow> n \<in> set auths"
  "has_perm (msig_ref auths t) p \<longleftrightarrow> actor p \<in> set auths"
  "current_time (msig_ref auths t) = t"
  "time_sec (msig_ref auths t) u = u32 (cdiv u 1000000)"
  "trx_expiration (msig_ref auths t) b = (case b of [] \<Rightarrow> Inl (Assert ''unpack'') | x # xs \<Rightarrow> Inr (uint x))"
  "sha256_is (msig_ref auths t) b h \<longleftrightarrow> b = h"
  "trx_authorized (msig_ref auths t) b ls \<longleftrightarrow> 2 \<le> length ls"
  by (simp_all add: msig_ref_def env.defs ref_env_def)

lemmas msig_defs = propose_def approve_def unapprove_def cancel_def exec_proposal_def invalidate_def
  require_auth_def require_perm_def t_emplace_def msig_init_def lvl_def valid_approvals_def u32_def cdiv_def

lemma propose_init:
  "propose (msig_ref [5] 0) 5 6 [lvl 7, lvl 8] [100] msig_init = Inr proposed"
  by (simp add: proposed_def msig_defs)

section \<open>Properties\<close>

text \<open>
  C37. The levels whose approval a proposal needs are fixed when it is proposed: whatever actions of
  whatever users follow (approvals, retractions, invalidations, executions and cancellations, failed
  ones included) and as long as the name is not proposed anew, the requested and the provided levels
  together are the requested levels of the proposal, each with its multiplicity, and the levels that
  an execution would count are among them.
\<close>

theorem msig_levels_fixed:
  assumes "msig_inv s" and "propose E p n r t s = Inr s1"
    and "\<forall>(F, a) \<in> set xs. \<not> proposes (p, n) a"
    and "t_get (approvals (run msig_exec xs s1)) (p, n) = Some row"
  shows "levels row = mset r \<and> mset (valid_approvals (run msig_exec xs s1) row) \<subseteq># mset r"
proof -
  have "levels_are (p, n) (mset r) (run msig_exec xs s1)"
    using levels_run [OF propose_levels [OF assms(1,2)] assms(3)] .
  with assms(4) have "levels row = mset r" by (simp add: levels_are_def)
  then show ?thesis using valid_approvals_sub [of _ row] by simp
qed

theorem msig_levels_fixed_witness:
  "\<exists>row. t_get (approvals approved) (5, 6) = Some row \<and> levels row = mset [lvl 7, lvl 8]"
proof -
  have i: "msig_inv msig_init" by (simp add: msig_inv_def msig_init_def)
  obtain row where row: "t_get (approvals approved) (5, 6) = Some row"
    by (simp add: approved_def proposed_def msig_defs)
  then show ?thesis
    using msig_levels_fixed [OF i propose_init, of
        "[(msig_ref [7] 1000000, Approve 5 6 (lvl 7) None),
          (msig_ref [8] 2000000, Approve 5 6 (lvl 8) (Some [100]))]" row]
    unfolding approved_def by simp
qed

text \<open>
  C9. A proposal is executed only while it has not expired, only on the approvals that count (given
  after the last invalidation by their account), and only once: a successful execution schedules
  exactly the proposed bytes under an id made of proposer and proposal name, and a second execution,
  a cancellation or an approval of that name finds no proposal.
\<close>

theorem msig_exec_sound:
  assumes "msig_inv s" and "exec_proposal E p n x s = Inr s'"
  shows "(\<exists>trx expn counted. t_get (proposals s) (p, n) = Some trx \<and> trx_expiration E trx = Inr expn \<and>
      time_sec E (current_time E) \<le> expn \<and> trx_authorized E trx counted \<and> has_auth E x \<and>
      (counted = (case t_get (approvals s) (p, n) of
          Some a \<Rightarrow> valid_approvals s a
        | None \<Rightarrow> valid_old_approvals s (the (t_get (old_approvals s) (p, n))))) \<and>
      msig_out s' = msig_out s @ [SendDeferred (uint p * 2 ^ 64 + uint n) x 0 (DeferRaw trx)]) \<and>
    (\<forall>F y l h s2. exec_proposal F p n y s' \<noteq> Inr s2 \<and> cancel F p n y s' \<noteq> Inr s2 \<and>
      approve F p n l h s' \<noteq> Inr s2 \<and> unapprove F p n l s' \<noteq> Inr s2)"
proof -
  have inv': "msig_inv s'" using msig_exec_inv [of s E "Exec p n x"] assms by simp
  have gone: "\<not> t_has (proposals s') (p, n)"
    using assms(2) by (auto simp: exec_proposal_def res_simps split: option.splits)
  with inv' have rows: "\<not> t_has (approvals s') (p, n)" "\<not> t_has (old_approvals s') (p, n)"
    by (auto simp: msig_inv_def)
  have "\<forall>F y l h s2. exec_proposal F p n y s' \<noteq> Inr s2 \<and> cancel F p n y s' \<noteq> Inr s2 \<and>
      approve F p n l h s' \<noteq> Inr s2 \<and> unapprove F p n l s' \<noteq> Inr s2"
    using gone rows by (auto simp: exec_proposal_def cancel_def approve_def unapprove_def res_simps
        t_has_def split: option.splits)
  with assms(2) show ?thesis
    by (auto simp: exec_proposal_def res_simps split: option.splits)
qed

theorem msig_exec_sound_witness:
  "\<exists>s'. exec_proposal (msig_ref [9] 3000000) 5 6 9 approved = Inr s' \<and>
     msig_out s' = [SendDeferred (5 * 2 ^ 64 + 6) 9 0 (DeferRaw [100])] \<and>
     cancel (msig_ref [9] 0) 5 6 9 s' \<noteq> Inr s'"
proof -
  have "msig_inv msig_init" by (simp add: msig_inv_def msig_init_def)
  then have i: "msig_inv approved"
    unfolding approved_def proposed_def by (intro msig_sys.run_inv) auto
  obtain s' where s': "exec_proposal (msig_ref [9] 3000000) 5 6 9 approved = Inr s'"
    by (simp add: approved_def proposed_def msig_defs)
  have "msig_out s' = [SendDeferred (5 * 2 ^ 64 + 6) 9 0 (DeferRaw [100])]"
    using s' by (simp add: approved_def proposed_def msig_defs) auto
  with msig_exec_sound [OF i s'] s' show ?thesis by blast
qed

text \<open>
  C38. \<open>invalidate\<close> withdraws every approval the account has given up to that moment and nothing
  else: afterwards an approval of the account counts only if its time is later, the approvals of the
  other accounts count as before, and no approval of the account in the older table counts.
\<close>

theorem msig_invalidate_revokes:
  assumes "invalidate E acct s = Inr s'"
  shows "has_auth E acct \<and> approvals s' = approvals s \<and>
    (\<forall>a l. l \<in> set (valid_approvals s' a) \<longleftrightarrow>
       (if actor l = acct then \<exists>p \<in> set (provided_approvals a). level p = l \<and> current_time E < time p
        else l \<in> set (valid_approvals s a))) \<and>
    (\<forall>b. valid_old_approvals s' b = filter (\<lambda>l. actor l \<noteq> acct) (valid_old_approvals s b))"
proof -
  obtain t where s': "s' = s\<lparr>invalidations := t_set acct (current_time E) (invalidations s)\<rparr>" and "has_auth E acct"
    using assms by (auto simp: invalidate_def res_simps split: option.splits)
  then show ?thesis
    by (auto simp: valid_approvals_def valid_old_approvals_def intro!: filter_cong)
qed

theorem msig_invalidate_revokes_witness:
  "\<exists>s' a. invalidate (msig_ref [7] 2000000) 7 approved = Inr s' \<and> t_get (approvals approved) (5, 6) = Some a \<and>
     valid_approvals approved a = [lvl 7, lvl 8] \<and> lvl 7 \<notin> set (valid_approvals s' a) \<and>
     lvl 8 \<in> set (valid_approvals s' a)"
proof -
  obtain s' where s': "invalidate (msig_ref [7] 2000000) 7 approved = Inr s'"
    by (simp add: approved_def proposed_def msig_defs)
  obtain a where a: "t_get (approvals approved) (5, 6) = Some a" "valid_approvals approved a = [lvl 7, lvl 8]"
    and t: "\<forall>p \<in> set (provided_approvals a). time p \<le> 2000000"
    by (simp add: approved_def proposed_def msig_defs)
  have v: "\<forall>l. l \<in> set (valid_approvals s' a) \<longleftrightarrow>
       (if actor l = 7 then \<exists>p \<in> set (provided_approvals a). level p = l \<and> 2000000 < time p
        else l \<in> set (valid_approvals approved a))"
    using msig_invalidate_revokes [OF s'] by simp
  have "lvl 7 \<notin> set (valid_approvals s' a)" "lvl 8 \<in> set (valid_approvals s' a)"
    using v [rule_format, of "lvl 7"] v [rule_format, of "lvl 8"] t a(2) by (auto simp: lvl_def)
  with s' a show ?thesis by blast
qed

end
