(* ===== verification/Binary64.thy ===== *)
theory Binary64
  imports Prelude
begin

text \<open>
  IEEE 754 double precision, the type of the contracts' vote weights, shares and reward rates. A
  finite double is the rational number it stands for; \<open>rnd\<close> rounds a rational to the nearest double
  (53 significant bits, least exponent -1074, ties to even, overflow to an infinity). The sign of a
  zero is not kept: nothing in the contracts tells the two zeros apart, since every divisor that can
  be zero is a count or a sum that is never a negative zero.
\<close>

section \<open>Powers of two and the binary logarithm\<close>

fun ilog2 :: "nat \<Rightarrow> nat" where
  "ilog2 n = (if n < 2 then 0 else Suc (ilog2 (n div 2)))"

declare ilog2.simps [simp del]

lemma ilog2_bounds: "0 < n \<Longrightarrow> 2 ^ ilog2 n \<le> n \<and> n < 2 ^ Suc (ilog2 n)"
proof (induction n rule: ilog2.induct)
  case (1 n)
  show ?case
  proof (cases "n < 2")
    case False
    with 1 have "2 ^ ilog2 (n div 2) \<le> n div 2 \<and> n div 2 < 2 ^ Suc (ilog2 (n div 2))" by simp
    with False show ?thesis by (subst (1 2) ilog2.simps) auto
  qed (use 1 in \<open>subst (1 2) ilog2.simps, auto\<close>)
qed

definition flog2 :: "rat \<Rightarrow> int" where
  "flog2 x = (let (p, q) = quotient_of x; k = int (ilog2 (nat p)) - int (ilog2 (nat q)) in
     if x < 2 powi k then k - 1 else k)"

lemma flog2_bounds:
  assumes "0 < x"
  shows "2 powi flog2 x \<le> x" and "x < 2 powi (flog2 x + 1)"
proof -
  obtain p q where pq: "quotient_of x = (p, q)" by (cases "quotient_of x")
  have q: "0 < q" using quotient_of_denom_pos [OF pq] .
  have x: "x = of_int p / of_int q" using quotient_of_div [OF pq] .
  have p: "0 < p" using assms q unfolding x by (simp add: zero_less_divide_iff)
  define a b where "a = ilog2 (nat p)" and "b = ilog2 (nat q)"
  define k where "k = int a - int b"
  have "2 ^ a \<le> nat p \<and> nat p < 2 ^ Suc a" "2 ^ b \<le> nat q \<and> nat q < 2 ^ Suc b"
    using ilog2_bounds p q unfolding a_def b_def by (metis zero_less_nat_eq)+
  then have P: "2 ^ a \<le> p" "p < 2 ^ Suc a" and Q: "2 ^ b \<le> q" "q < 2 ^ Suc b"
    using p q by (auto simp: nat_le_iff le_nat_iff nat_less_iff zless_nat_eq_int_zless)
  have Pr: "(2::rat) ^ a \<le> of_int p" "of_int p < (2::rat) ^ Suc a"
    using P by (metis of_int_le_iff of_int_numeral of_int_power,
        metis of_int_less_iff of_int_numeral of_int_power)
  have Qr: "(2::rat) ^ b \<le> of_int q" "of_int q < (2::rat) ^ Suc b"
    using Q by (metis of_int_le_iff of_int_numeral of_int_power,
        metis of_int_less_iff of_int_numeral of_int_power)
  have k1: "(2::rat) powi (k + 1) = 2 ^ Suc a / 2 ^ b" and k0: "(2::rat) powi (k - 1) = 2 ^ a / 2 ^ Suc b"
    unfolding k_def by (simp_all add: power_int_add power_int_diff)
  have up: "x < 2 powi (k + 1)"
    unfolding x k1 using Pr(2) Qr(1) q p by (intro frac_less) auto
  have lo: "2 powi (k - 1) \<le> x"
    unfolding x k0 using Pr(1) Qr(2) q p by (intro frac_le) auto
  have f: "flog2 x = (if x < 2 powi k then k - 1 else k)"
    unfolding flog2_def pq k_def a_def b_def by (simp add: Let_def)
  show "2 powi flog2 x \<le> x" using lo f by simp
  show "x < 2 powi (flog2 x + 1)" using up f by simp
qed

lemma powi_le_iff [simp]: "(2::rat) powi a \<le> 2 powi b \<longleftrightarrow> a \<le> b"
  by (metis one_less_numeral_iff power_int_increasing power_int_strict_increasing linorder_not_le
      less_le_not_le order_less_imp_le semiring_norm(76))

lemma powi_less_iff [simp]: "(2::rat) powi a < 2 powi b \<longleftrightarrow> a < b"
  by (simp flip: linorder_not_le)

lemma flog2_mono:
  assumes "0 < x" "x \<le> y" shows "flog2 x \<le> flog2 y"
proof -
  have "2 powi flog2 x < (2::rat) powi (flog2 y + 1)"
    using flog2_bounds(1) [of x] flog2_bounds(2) [of y] assms by linarith
  then show ?thesis by simp
qed

lemma flog2_le: "0 < x \<Longrightarrow> x < 2 powi (k + 1) \<Longrightarrow> flog2 x \<le> k"
  using flog2_bounds(1) [of x] powi_less_iff [of "flog2 x" "k + 1"] by linarith

section \<open>Rounding\<close>

definition rhe :: "rat \<Rightarrow> int" where
  "rhe x = (let f = \<lfloor>x\<rfloor>; d = x - of_int f in
     if d < 1 / 2 \<or> (d = 1 / 2 \<and> even f) then f else f + 1)"

lemma rhe_of_int [simp]: "rhe (of_int n) = n"
  by (simp add: rhe_def)

lemma rhe_floor: "\<lfloor>x\<rfloor> \<le> rhe x" "rhe x \<le> \<lfloor>x\<rfloor> + 1"
  by (simp_all add: rhe_def Let_def)

lemma rhe_mono: "x \<le> y \<Longrightarrow> rhe x \<le> rhe y"
proof -
  assume "x \<le> y"
  then consider "\<lfloor>x\<rfloor> = \<lfloor>y\<rfloor>" | "\<lfloor>x\<rfloor> + 1 \<le> \<lfloor>y\<rfloor>" using floor_mono [of x y] by linarith
  then show ?thesis
  proof cases
    case 1 with \<open>x \<le> y\<close> show ?thesis by (auto simp: rhe_def Let_def)
  next
    case 2 then show ?thesis using rhe_floor(1) [of y] rhe_floor(2) [of x] by linarith
  qed
qed

lemma rhe_error: "\<bar>of_int (rhe x) - x\<bar> \<le> 1 / 2"
  unfolding rhe_def Let_def using floor_correct [of x] by (auto split: if_splits)

definition ulp :: "rat \<Rightarrow> rat" where
  "ulp x = 2 powi max (flog2 x - 52) (- 1074)"

definition rmag :: "rat \<Rightarrow> rat" where
  "rmag x = of_int (rhe (x / ulp x)) * ulp x"

lemma ulp_pos [simp]: "0 < ulp x"
  by (simp add: ulp_def)

lemma ulp_nz [simp]: "ulp x \<noteq> 0" and ulp_abs [simp]: "\<bar>ulp x\<bar> = ulp x"
  using ulp_pos [of x] by linarith+

lemma rmag_nonneg: "0 \<le> x \<Longrightarrow> 0 \<le> rmag x"
  using rhe_mono [of 0 "x / ulp x"] rhe_of_int [of 0] ulp_pos [of x] less_imp_le [OF ulp_pos, of x]
  by (simp add: rmag_def)

text \<open>A number with at most 53 significant bits is a double.\<close>

lemma rmag_dyadic:
  assumes "0 < m" "m < 2 ^ 53" "- 1074 \<le> k"
  shows "rmag (of_int m * 2 powi k) = of_int m * 2 powi k"
proof -
  let ?x = "of_int m * (2::rat) powi k"
  have m: "(of_int m :: rat) < 2 ^ 53" using assms(2) by (metis of_int_less_iff of_int_numeral of_int_power)
  have x: "0 < ?x" using assms(1) by simp
  have "(2::rat) powi (52 + k + 1) = 2 ^ 53 * 2 powi k" by (simp add: power_int_add field_simps)
  then have "?x < 2 powi (52 + k + 1)" using m by simp
  then have "flog2 ?x \<le> 52 + k" using flog2_le [OF x] by simp
  then obtain j where u: "ulp ?x = 2 powi j" and j: "j \<le> k"
    using assms(3) by (auto simp: ulp_def)
  define n where "n = nat (k - j)"
  have kj: "(2::rat) powi k = 2 ^ n * 2 powi j"
    using j by (simp add: n_def flip: power_int_of_nat power_int_add)
  have "?x / ulp ?x = of_int (m * 2 ^ n)" unfolding u by (simp add: kj)
  then have "rhe (?x / ulp ?x) = m * 2 ^ n" by (metis rhe_of_int)
  then show ?thesis unfolding rmag_def u by (simp add: kj)
qed

lemma rmag_pow: "- 1074 \<le> k \<Longrightarrow> rmag (2 powi k) = 2 powi k"
  using rmag_dyadic [of 1 k] by simp

lemma ulp_mono: "0 < x \<Longrightarrow> x \<le> y \<Longrightarrow> ulp x \<le> ulp y"
  by (simp add: ulp_def) (metis flog2_mono max.coboundedI1 diff_right_mono max.coboundedI2 order_refl)

lemma rmag_mono:
  assumes "0 < x" "x \<le> y" shows "rmag x \<le> rmag y"
proof (cases "ulp x = ulp y")
  case True
  have "x / ulp x \<le> y / ulp y" using assms(2) True less_imp_le [OF ulp_pos] by (metis divide_right_mono)
  then show ?thesis using rhe_mono True less_imp_le [OF ulp_pos, of y] by (auto simp: rmag_def mult_right_mono)
next
  case False
  have y: "0 < y" using assms by simp
  define e f where "e = flog2 x" and "f = flog2 y"
  have "e \<noteq> f" using False by (auto simp: ulp_def e_def f_def)
  then have ef: "e < f" "- 1022 < f" "e + 1 \<le> f"
    using False flog2_mono [OF assms] unfolding ulp_def e_def f_def by (auto simp: max_def split: if_splits)
  have ulpy: "ulp y = 2 powi (f - 52)" using ef by (simp add: ulp_def f_def)
  have fy: "2 powi f \<le> y" using flog2_bounds(1) [OF y] by (simp add: f_def)
  have xf: "x < 2 powi f"
    using flog2_bounds(2) [OF assms(1)] ef(3) powi_le_iff [of "e + 1" f] unfolding e_def by (meson less_le_trans)
  have "(2::rat) powi f / ulp y = of_int (2 ^ 52)" by (simp add: ulpy power_int_diff)
  then have lo: "2 ^ 52 \<le> rhe (y / ulp y)"
    using rhe_mono [OF divide_right_mono [OF fy less_imp_le [OF ulp_pos [of y]]]] by (metis rhe_of_int)
  have "2 powi f = of_int (2 ^ 52) * ulp y" by (simp add: ulpy power_int_diff)
  also have "\<dots> \<le> rmag y"
    unfolding rmag_def using lo by (intro mult_right_mono) (simp_all only: of_int_le_iff less_imp_le [OF ulp_pos])
  finally have up: "2 powi f \<le> rmag y" .
  obtain j where u: "ulp x = 2 powi j" and j: "j \<le> f"
    using ef unfolding ulp_def e_def by (auto simp: max_def)
  define n where "n = nat (f - j)"
  have "(2::rat) powi f / ulp x = of_int (2 ^ n)"
    using j by (simp add: u n_def flip: power_int_diff power_int_of_nat)
  then have "rhe (x / ulp x) \<le> 2 ^ n" and nf: "of_int (2 ^ n) * ulp x = 2 powi f"
    using rhe_mono [OF divide_right_mono [OF less_imp_le [OF xf] less_imp_le [OF ulp_pos [of x]]]]
    by (metis rhe_of_int, simp add: divide_eq_eq)
  then have "rmag x \<le> of_int (2 ^ n) * ulp x"
    unfolding rmag_def by (intro mult_right_mono) (simp_all only: of_int_le_iff less_imp_le [OF ulp_pos])
  with nf up show ?thesis by simp
qed

lemma rmag_error:
  assumes "2 powi (- 1022) \<le> x" shows "\<bar>rmag x - x\<bar> \<le> x / 2 ^ 53"
proof -
  have x: "0 < x" using assms zero_less_power_int [of "2::rat" "- 1022"] by linarith
  have "(2::rat) powi (- 1022) < 2 powi (flog2 x + 1)" using assms flog2_bounds(2) [OF x] by (rule le_less_trans)
  then have u: "ulp x = 2 powi (flog2 x - 52)" unfolding powi_less_iff by (simp add: ulp_def)
  have "rmag x - x = (of_int (rhe (x / ulp x)) - x / ulp x) * ulp x"
    by (simp add: rmag_def field_simps)
  then have "\<bar>rmag x - x\<bar> = \<bar>of_int (rhe (x / ulp x)) - x / ulp x\<bar> * ulp x"
    using ulp_pos [of x] by (simp add: abs_mult)
  also have "\<dots> \<le> 1 / 2 * ulp x" using rhe_error less_imp_le [OF ulp_pos] by (rule mult_right_mono)
  also have "\<dots> = 2 powi flog2 x / 2 ^ 53" by (simp add: u power_int_diff)
  also have "\<dots> \<le> x / 2 ^ 53" using flog2_bounds(1) [OF x] by (simp add: divide_right_mono)
  finally show ?thesis .
qed

section \<open>Doubles\<close>

datatype double = Fin rat | PInf | NInf | NaN

definition dmax :: rat where "dmax = 2 ^ 1024"

definition rnd :: "rat \<Rightarrow> double" where
  "rnd x = (let r = (if x = 0 then 0 else rmag \<bar>x\<bar>) in
     if r < dmax then Fin (if x < 0 then - r else r) else if x < 0 then NInf else PInf)"

text \<open>Order: a comparison with a NaN is false.\<close>

instantiation double :: ord
begin

fun less_double :: "double \<Rightarrow> double \<Rightarrow> bool" where
  "less_double (Fin a) (Fin b) \<longleftrightarrow> a < b"
| "less_double NInf (Fin b) \<longleftrightarrow> True"
| "less_double NInf PInf \<longleftrightarrow> True"
| "less_double (Fin a) PInf \<longleftrightarrow> True"
| "less_double _ _ \<longleftrightarrow> False"

fun less_eq_double :: "double \<Rightarrow> double \<Rightarrow> bool" where
  "less_eq_double (Fin a) (Fin b) \<longleftrightarrow> a \<le> b"
| "less_eq_double NInf b \<longleftrightarrow> b \<noteq> NaN"
| "less_eq_double a PInf \<longleftrightarrow> a \<noteq> NaN"
| "less_eq_double _ _ \<longleftrightarrow> False"

instance ..

end

text \<open>Arithmetic.\<close>

definition inf_sgn :: "bool \<Rightarrow> double" where
  "inf_sgn neg = (if neg then NInf else PInf)"

fun dneg :: "double \<Rightarrow> bool" where
  "dneg (Fin a) \<longleftrightarrow> a < 0"
| "dneg NInf \<longleftrightarrow> True"
| "dneg _ \<longleftrightarrow> False"

fun ddiv :: "double \<Rightarrow> double \<Rightarrow> double" where
  "ddiv (Fin a) (Fin b) =
     (if b = 0 then (if a = 0 then NaN else inf_sgn (a < 0)) else rnd (a / b))"
| "ddiv NaN b = NaN"
| "ddiv a NaN = NaN"
| "ddiv (Fin a) b = Fin 0"
| "ddiv a (Fin b) = inf_sgn (dneg a \<noteq> (b < 0))"
| "ddiv a b = NaN"

instantiation double :: "{zero, one, plus, minus, uminus, times, divide, inverse}"
begin

definition zero_double :: double where "zero_double = Fin 0"
definition one_double :: double where "one_double = Fin 1"

fun uminus_double :: "double \<Rightarrow> double" where
  "uminus_double (Fin a) = Fin (- a)"
| "uminus_double PInf = NInf"
| "uminus_double NInf = PInf"
| "uminus_double NaN = NaN"

fun plus_double :: "double \<Rightarrow> double \<Rightarrow> double" where
  "plus_double (Fin a) (Fin b) = rnd (a + b)"
| "plus_double NaN b = NaN"
| "plus_double a NaN = NaN"
| "plus_double PInf NInf = NaN"
| "plus_double NInf PInf = NaN"
| "plus_double (Fin a) b = b"
| "plus_double a b = a"

definition minus_double :: "double \<Rightarrow> double \<Rightarrow> double" where
  "minus_double a b = a + (- b)"

fun times_double :: "double \<Rightarrow> double \<Rightarrow> double" where
  "times_double (Fin a) (Fin b) = rnd (a * b)"
| "times_double NaN b = NaN"
| "times_double a NaN = NaN"
| "times_double a b = (if a = Fin 0 \<or> b = Fin 0 then NaN else inf_sgn (dneg a \<noteq> dneg b))"

definition divide_double :: "double \<Rightarrow> double \<Rightarrow> double" where
  "divide_double = ddiv"

definition inverse_double :: "double \<Rightarrow> double" where
  "inverse_double a = ddiv (Fin 1) a"

instance ..

end

text \<open>\<open>double(n)\<close> of an integer, a decimal literal, \<open>fabs\<close>, and the conversions to integers, which
  truncate; out of range they are undefined in C++ and abort on chain.\<close>

definition to_double :: "int \<Rightarrow> double" where
  "to_double n = rnd (of_int n)"

definition dlit :: "rat \<Rightarrow> double" where
  "dlit x = rnd x"

fun dabs :: "double \<Rightarrow> double" where
  "dabs (Fin a) = Fin \<bar>a\<bar>"
| "dabs NInf = PInf"
| "dabs a = a"

definition rtrunc :: "rat \<Rightarrow> int" where
  "rtrunc x = (if x < 0 then - \<lfloor>- x\<rfloor> else \<lfloor>x\<rfloor>)"

fun to_i64 :: "double \<Rightarrow> i64 res" where
  "to_i64 (Fin a) = guard_res (in64 (rtrunc a)) (Undefined ''float to int64'') (Inr (rtrunc a))"
| "to_i64 _ = Inl (Undefined ''float to int64'')"

fun to_u32 :: "double \<Rightarrow> uint res" where
  "to_u32 (Fin a) = guard_res (0 \<le> rtrunc a \<and> rtrunc a < 2 ^ 32) (Undefined ''float to uint32'') (Inr (rtrunc a))"
| "to_u32 _ = Inl (Undefined ''float to uint32'')"

section \<open>Lemmas on doubles\<close>

lemma dmax_bounds: "2 ^ 64 \<le> dmax" and dmax_pos [simp]: "0 < dmax"
  by (simp_all add: dmax_def)

lemma rnd_0 [simp]: "rnd 0 = Fin 0"
  using dmax_bounds by (simp add: rnd_def)

lemma rnd_nonneg_cases:
  assumes "0 \<le> x" obtains "rnd x = PInf" | y where "rnd x = Fin y" "0 \<le> y"
proof (cases "x = 0")
  case False
  with assms have "rnd x = (if rmag x < dmax then Fin (rmag x) else PInf)" by (simp add: rnd_def)
  with rmag_nonneg [OF assms] show ?thesis using that by (auto split: if_splits)
qed (use that in simp)

lemma rnd_nonneg: "0 \<le> x \<Longrightarrow> 0 \<le> rnd x"
  by (erule rnd_nonneg_cases) (auto simp: zero_double_def)

lemma rnd_neg: "rnd (- x) = - rnd x"
  by (auto simp: rnd_def Let_def)

lemma rnd_pos: "0 < x \<Longrightarrow> rnd x = (if rmag x < dmax then Fin (rmag x) else PInf)"
  by (simp add: rnd_def)

lemma rnd_int:
  assumes "\<bar>n\<bar> \<le> 2 ^ 53" shows "rnd (of_int n) = Fin (of_int n)"
proof -
  have m: "rmag (of_int k) = of_int k" if "0 < k" "k \<le> 2 ^ 53" for k
  proof (cases "k = 2 ^ 53")
    case True
    then show ?thesis using rmag_pow [of 53] by simp
  next
    case False
    with that show ?thesis using rmag_dyadic [of k 0] by simp
  qed
  have b: "of_int \<bar>n\<bar> < dmax"
  proof -
    have "of_int \<bar>n\<bar> \<le> (of_int (2 ^ 53) :: rat)" using assms by (simp only: of_int_le_iff)
    then show ?thesis using dmax_bounds by simp
  qed
  show ?thesis
  proof (cases "n = 0")
    case False
    then show ?thesis using m [of "\<bar>n\<bar>"] b assms by (auto simp: rnd_def Let_def abs_if)
  qed simp
qed

lemma to_double_exact [simp]: "\<bar>n\<bar> \<le> 2 ^ 53 \<Longrightarrow> to_double n = Fin (of_int n)"
  by (simp add: to_double_def rnd_int)

lemma double_add_nonneg: "0 \<le> a \<Longrightarrow> 0 \<le> b \<Longrightarrow> 0 \<le> a + (b :: double)"
  by (cases a; cases b) (auto simp: zero_double_def rnd_nonneg [unfolded zero_double_def])

lemma double_mult_nonneg: "0 \<le> a \<Longrightarrow> a \<noteq> PInf \<Longrightarrow> 0 \<le> b \<Longrightarrow> b \<noteq> PInf \<Longrightarrow> 0 \<le> a * (b :: double)"
  by (cases a; cases b) (auto simp: zero_double_def rnd_nonneg [unfolded zero_double_def])

lemma rtrunc_nonneg: "0 \<le> a \<Longrightarrow> 0 \<le> rtrunc a"
  by (simp add: rtrunc_def)

lemma rtrunc_of_int [simp]: "rtrunc (of_int n) = n"
  by (simp add: rtrunc_def)

end
