(* ===== verification/DappRegistry.thy ===== *)
theory DappRegistry
  imports Binary64 Chain
begin

text \<open>
  The registry of DApps, \<open>contracts/dapp_registry\<close>, and the two contracts that forward token
  transfers to it: \<open>contracts/transfer_notifier\<close> and the sample \<open>dummy_app\<close>. The configuration row is
  written by the first action of the registry, so it is there whenever a DApp is.
\<close>

section \<open>State of the registry\<close>

record configuration =
  reward_rate :: double
  claim_period :: i64
  total_unpaid_users :: i64
  total_unpaid_transactions :: i64

record dapp_info =
  dapp_owner :: name
  preference :: int
  users :: "name set"
  incoming_transfers_volume :: i64
  total_earned :: i64
  d_last_claim_time :: i64

record registry_state =
  dapps :: "(name, dapp_info) table"
  dapp_accounts :: "(name, name) table"
  config :: configuration
  reg_out :: "effect list"

definition registry_init :: registry_state where
  "registry_init = \<lparr>dapps = t_empty, dapp_accounts = t_empty,
     config = \<lparr>reward_rate = 1, claim_period = 86400000000, total_unpaid_users = 0, total_unpaid_transactions = 0\<rparr>,
     reg_out = []\<rparr>"

text \<open>\<open>preference_type\<close>.\<close>

definition TokenCirculation :: int where "TokenCirculation = 0"
definition UniqueUsers :: int where "UniqueUsers = 1"
definition pref_MaxVal :: int where "pref_MaxVal = 2"

section \<open>Actions of the registry\<close>

definition check_preference :: "int \<Rightarrow> 'a res \<Rightarrow> 'a res" where
  "check_preference p k = check (p \<ge> 0 \<and> p < pref_MaxVal) ''preference type is out of range'' k"

definition linkacc :: "'z env_scheme \<Rightarrow> name \<Rightarrow> name \<Rightarrow> registry_state \<Rightarrow> registry_state res" where
  "linkacc E dapp acct s =
     require_auth E (self_acct E) (
     check (t_has (dapps s) dapp) ''DApp with this name doesn`t exist'' (
     check (\<not> t_has (dapp_accounts s) acct) ''account belongs to different DApp'' (
     rbind (t_emplace acct dapp (dapp_accounts s)) (\<lambda>t. Inr (s\<lparr>dapp_accounts := t\<rparr>)))))"

definition add_dapp :: "'z env_scheme \<Rightarrow> name \<Rightarrow> name \<Rightarrow> int \<Rightarrow> registry_state \<Rightarrow> registry_state res" where
  "add_dapp E owner dapp p s =
     require_auth E (self_acct E) (
     check_preference p (
     check (\<not> t_has (dapps s) dapp) ''DApp with this name already exists'' (
     rbind (t_emplace dapp \<lparr>dapp_owner = owner, preference = p, users = {}, incoming_transfers_volume = 0,
              total_earned = 0, d_last_claim_time = current_time E\<rparr> (dapps s)) (\<lambda>t.
     linkacc E dapp owner (s\<lparr>dapps := t\<rparr>)))))"

definition remove_dapp :: "'z env_scheme \<Rightarrow> name \<Rightarrow> registry_state \<Rightarrow> registry_state res" where
  "remove_dapp E dapp s =
     require_auth E (self_acct E) (
     rbind (rget (NoRow ''DApp with this name doesn`t exist'') (t_get (dapps s) dapp)) (\<lambda>_.
     check (\<forall>d \<in> snd ` set (t_list (dapp_accounts s)). d \<noteq> dapp)
       ''DApp has linked accounts; you should unlink them first'' (
     Inr (s\<lparr>dapps := t_del dapp (dapps s)\<rparr>))))"

definition unlinkacc :: "'z env_scheme \<Rightarrow> name \<Rightarrow> registry_state \<Rightarrow> registry_state res" where
  "unlinkacc E acct s =
     require_auth E (self_acct E) (
     rbind (rget (NoRow ''account isn`t linked to any DApp'') (t_get (dapp_accounts s) acct)) (\<lambda>_.
     Inr (s\<lparr>dapp_accounts := t_del acct (dapp_accounts s)\<rparr>)))"

definition reg_transfer :: "'z env_scheme \<Rightarrow> name \<Rightarrow> name \<Rightarrow> asset \<Rightarrow> string \<Rightarrow> registry_state \<Rightarrow> registry_state res" where
  "reg_transfer E from to q memo s =
     (if from = self_acct E \<or> to = self_acct E \<or> from = lit E ''eosio.dpay'' then Inr s
      else rbind (rget (Assert ''Owner has not registred dapps'') (t_get (dapp_accounts s) to)) (\<lambda>dapp.
        rbind (rget (NoRow ''DApp with this name doesn`t exist'') (t_get (dapps s) dapp)) (\<lambda>d.
        Inr (s\<lparr>reg_out := reg_out s @ [Inline (self_acct E)
          [at_perm E (dapp_owner d) ''custom'', at_active E (self_acct E)] (RegistryOntransfer dapp from q)]\<rparr>))))"

definition ontransfer :: "'z env_scheme \<Rightarrow> name \<Rightarrow> name \<Rightarrow> asset \<Rightarrow> registry_state \<Rightarrow> registry_state res" where
  "ontransfer E dapp user q s =
     rbind (rget (NoRow ''DApp with this name doesn`t exist'') (t_get (dapps s) dapp)) (\<lambda>d.
     require_auth E (dapp_owner d) (
     require_auth E (self_acct E) (
     let c = config s in
     Inr (if preference d = TokenCirculation
       then s\<lparr>dapps := t_set dapp (d\<lparr>incoming_transfers_volume :=
                wrap64 (incoming_transfers_volume d + amount q)\<rparr>) (dapps s),
              config := c\<lparr>total_unpaid_transactions := wrap64 (total_unpaid_transactions c + amount q)\<rparr>\<rparr>
       else if preference d = UniqueUsers
       then s\<lparr>dapps := t_set dapp (d\<lparr>users := insert user (users d)\<rparr>) (dapps s),
              config := c\<lparr>total_unpaid_users :=
                wrap64 (total_unpaid_users c + (if user \<in> users d then 0 else 1))\<rparr>\<rparr>
       else s))))"

definition claim :: "'z env_scheme \<Rightarrow> name \<Rightarrow> name \<Rightarrow> i64 \<Rightarrow> registry_state \<Rightarrow> registry_state res" where
  "claim E owner dapp paid_rewards s =
     require_auth E owner (
     check (paid_rewards > 0) ''no rewards yet'' (
     rbind (rget (NoRow ''DApp with this name doesn`t exist'') (t_get (dapps s) dapp)) (\<lambda>d.
     check (dapp_owner d = owner) ''cannot claim DApp rewards of another owner'' (
     check (wrap64 (current_time E - d_last_claim_time d) > claim_period (config s))
       ''already claimed dapp rewards within past month'' (
     let c = config s;
       d1 = d\<lparr>total_earned := wrap64 (total_earned d + paid_rewards), d_last_claim_time := current_time E\<rparr>
     in Inr (if preference d = TokenCirculation
       then s\<lparr>dapps := t_set dapp (d1\<lparr>incoming_transfers_volume := 0\<rparr>) (dapps s),
              config := c\<lparr>total_unpaid_transactions :=
                wrap64 (total_unpaid_transactions c - incoming_transfers_volume d)\<rparr>\<rparr>
       else if preference d = UniqueUsers
       then s\<lparr>dapps := t_set dapp (d1\<lparr>users := {}\<rparr>) (dapps s),
              config := c\<lparr>total_unpaid_users := wrap64 (total_unpaid_users c - int (card (users d)))\<rparr>\<rparr>
       else s\<lparr>dapps := t_set dapp d1 (dapps s)\<rparr>))))))"

definition setrewrate :: "'z env_scheme \<Rightarrow> uint \<Rightarrow> registry_state \<Rightarrow> registry_state res" where
  "setrewrate E rate s =
     require_auth E (self_acct E) (
     check (rate > 0) ''reward rate must be positive'' (
     Inr (s\<lparr>config := (config s)\<lparr>reward_rate := to_double rate / dlit 10000\<rparr>\<rparr>)))"

definition setclaimprd :: "'z env_scheme \<Rightarrow> uint \<Rightarrow> registry_state \<Rightarrow> registry_state res" where
  "setclaimprd E period_in_days s =
     require_auth E (self_acct E) (
     check (period_in_days \<ge> 0) ''claim period must be positive'' (
     Inr (s\<lparr>config := (config s)\<lparr>claim_period := wrap64 (period_in_days * 86400000000)\<rparr>\<rparr>)))"

section \<open>What the system contract reads\<close>

definition get_dapp_info :: "name \<Rightarrow> registry_state \<Rightarrow> dapp_info res" where
  "get_dapp_info dapp s = rget (NoRow ''DApp with this name doesn`t exist'') (t_get (dapps s) dapp)"

definition get_dapp_rewards :: "name \<Rightarrow> registry_state \<Rightarrow> double res" where
  "get_dapp_rewards dapp s =
     rbind (get_dapp_info dapp s) (\<lambda>d.
     let c = config s in
     if preference d = TokenCirculation
     then check (total_unpaid_transactions c > 0) ''No unpaid rewards'' (
          Inr (reward_rate c * to_double (incoming_transfers_volume d) / to_double (total_unpaid_transactions c)))
     else if preference d = UniqueUsers
     then check (total_unpaid_transactions c > 0) ''No unpaid rewards'' (
          Inr (reward_rate c * to_double (int (card (users d))) / to_double (total_unpaid_users c)))
     else Inr 0)"

section \<open>Dispatch\<close>

text \<open>A notification of a token transfer reaches \<open>reg_transfer\<close>; every other action is called directly.\<close>

datatype registry_action =
    Add name name int
  | Remove name
  | Linkacc name name
  | Unlinkacc name
  | OnTokenTransfer name name asset string
  | Ontransfer name name asset
  | Claim name name i64
  | Setrewrate uint
  | Setclaimprd uint

fun registry_exec :: "env \<Rightarrow> registry_action \<Rightarrow> registry_state \<Rightarrow> registry_state res" where
  "registry_exec E (Add ow d p) s = add_dapp E ow d p s"
| "registry_exec E (Remove d) s = remove_dapp E d s"
| "registry_exec E (Linkacc d a) s = linkacc E d a s"
| "registry_exec E (Unlinkacc a) s = unlinkacc E a s"
| "registry_exec E (OnTokenTransfer f t q m) s = reg_transfer E f t q m s"
| "registry_exec E (Ontransfer d u q) s = ontransfer E d u q s"
| "registry_exec E (Claim ow d n) s = claim E ow d n s"
| "registry_exec E (Setrewrate r) s = setrewrate E r s"
| "registry_exec E (Setclaimprd p) s = setclaimprd E p s"

text \<open>
  \<open>apply\<close>: an action reaches its handler when it is sent to the contract itself; of the notifications only
  those of a transfer of the token contract do, so that a transfer of another contract's tokens is ignored.
\<close>

definition registry_apply :: "env \<Rightarrow> name \<Rightarrow> registry_action \<Rightarrow> registry_state \<Rightarrow> registry_state res" where
  "registry_apply E code a s =
     (if code = self_acct E then (case a of OnTokenTransfer _ _ _ _ \<Rightarrow> Inr s | _ \<Rightarrow> registry_exec E a s)
      else if code = lit E ''eosio.token''
      then (case a of OnTokenTransfer f t q m \<Rightarrow> reg_transfer E f t q m s | _ \<Rightarrow> Inr s)
      else Inr s)"

section \<open>The forwarding contracts\<close>

record notifier_state =
  dapp_registry_account :: name
  notifier_out :: "effect list"

definition setdappsacc :: "env \<Rightarrow> name \<Rightarrow> notifier_state \<Rightarrow> notifier_state res" where
  "setdappsacc E acct s =
     require_auth E (self_acct E) (
     check (is_account E acct) ''account doesn`t exist'' (
     Inr (s\<lparr>dapp_registry_account := acct\<rparr>)))"

definition notifier_transfer :: "env \<Rightarrow> name \<Rightarrow> name \<Rightarrow> notifier_state \<Rightarrow> notifier_state res" where
  "notifier_transfer E from to s =
     check (from \<noteq> self_acct E) ''cannot transfer from self account'' (
     check (to = self_acct E) ''cannot transfer to other account'' (
     check (is_account E (dapp_registry_account s)) ''account doesn`t exist'' (
     Inr (if is_account E (dapp_registry_account s)
          then s\<lparr>notifier_out := notifier_out s @ [Notify (dapp_registry_account s)]\<rparr> else s))))"

definition dummy_setdappsacc :: "env \<Rightarrow> name \<Rightarrow> notifier_state \<Rightarrow> notifier_state res" where
  "dummy_setdappsacc E acct s =
     require_auth E (self_acct E) (
     check (is_account E acct) ''account doesn`t exist'' (
     Inr (s\<lparr>dapp_registry_account := acct\<rparr>)))"

definition dummy_transfer :: "env \<Rightarrow> name \<Rightarrow> name \<Rightarrow> notifier_state \<Rightarrow> notifier_state res" where
  "dummy_transfer E from to s =
     check (from \<noteq> self_acct E) ''cannot transfer from self account'' (
     check (to = self_acct E) ''cannot transfer to other account'' (
     check (is_account E (dapp_registry_account s)) ''account doesn`t exist'' (
     Inr (s\<lparr>notifier_out := notifier_out s @ [Notify (dapp_registry_account s)]\<rparr>))))"

definition greetings :: "env \<Rightarrow> name \<Rightarrow> notifier_state \<Rightarrow> notifier_state res" where
  "greetings E user s = require_auth E user (Inr s)"

datatype notifier_action =
    SetDappsAcc name
  | TransferNotice name name
  | Greetings name

definition notifier_apply :: "env \<Rightarrow> name \<Rightarrow> notifier_action \<Rightarrow> notifier_state \<Rightarrow> notifier_state res" where
  "notifier_apply E code a s =
     (if code = self_acct E then (case a of SetDappsAcc n \<Rightarrow> setdappsacc E n s | _ \<Rightarrow> Inr s)
      else if code = lit E ''eosio.token''
      then (case a of TransferNotice f t \<Rightarrow> notifier_transfer E f t s | _ \<Rightarrow> Inr s)
      else Inr s)"

text \<open>\<open>greetings\<close> is an action of the sample's interface, but not in its dispatch table.\<close>

definition dummy_apply :: "env \<Rightarrow> name \<Rightarrow> notifier_action \<Rightarrow> notifier_state \<Rightarrow> notifier_state res" where
  "dummy_apply E code a s =
     (if code = self_acct E then (case a of SetDappsAcc n \<Rightarrow> dummy_setdappsacc E n s | _ \<Rightarrow> Inr s)
      else if code = lit E ''eosio.token''
      then (case a of TransferNotice f t \<Rightarrow> dummy_transfer E f t s | _ \<Rightarrow> Inr s)
      else Inr s)"

end
