(* ===== verification/SysState.thy ===== *)
theory SysState
  imports Token DappRegistry
begin

text \<open>
  The data of the system contract, \<open>contracts/eosio.system\<close>: the rows of its tables
  (\<open>eosio.system.hpp\<close>, \<open>exchange_state.hpp\<close>, \<open>delegate_bandwidth.cpp\<close>), grouped by the component
  that keeps them, and the environment of its actions. The state is split into the voting part, the
  REX part, the bandwidth part and the rest, so that a function's type shows what it can change.
  A field that repeats a table's primary key is kept only where rows are read through an index;
  constant \<open>version\<close> fields and the reserved fields of a voter, which no code reads, are left out.
\<close>

section \<open>Global state\<close>

record blockchain_parameters =
  max_authority_depth :: uint
  other_params :: "int list"

record eosio_global_state =
  chain_params :: blockchain_parameters
  max_ram_size :: uint
  total_ram_bytes_reserved :: uint
  total_ram_stake :: i64
  last_producer_schedule_update :: uint
  last_pervote_bucket_fill :: i64
  last_dapp_bucket_fill :: i64
  perblock_bucket :: i64
  pervote_bucket :: i64
  perwitness_bucket :: i64
  dapps_per_transfer_rewards_bucket :: i64
  dapps_per_user_rewards_bucket :: i64
  total_unpaid_blocks :: uint
  total_unpaid_votes :: i64
  oracle_bucket :: uint
  total_activated_stake :: i64
  thresh_activated_stake_time :: i64
  last_producer_schedule_size :: uint
  total_producer_vote_weight :: double
  last_name_close :: uint
  max_vote_power :: i64
  vote_claim_period :: i64

record eosio_global_state2 =
  new_ram_per_block :: uint
  last_ram_increase :: uint
  last_block_num :: uint
  total_producer_votepay_share :: double
  revision :: uint

record eosio_global_state3 =
  last_vpay_state_update :: i64
  total_vpay_share_change_rate :: double

record eosio_global_state4 =
  last_wpay_state_update :: i64
  total_wpay_share_change_rate :: double
  total_producer_witnesspay_share :: double

definition days :: "int \<Rightarrow> i64" where
  "days n = wrap64 (n * 86400000000)"

definition default_gstate :: "blockchain_parameters \<Rightarrow> eosio_global_state" where
  "default_gstate p = \<lparr>chain_params = p, max_ram_size = 64 * 1024 * 1024 * 1024,
     total_ram_bytes_reserved = 0, total_ram_stake = 0, last_producer_schedule_update = 0,
     last_pervote_bucket_fill = 0, last_dapp_bucket_fill = 0, perblock_bucket = 0, pervote_bucket = 0,
     perwitness_bucket = 0, dapps_per_transfer_rewards_bucket = 0, dapps_per_user_rewards_bucket = 0,
     total_unpaid_blocks = 0, total_unpaid_votes = 0, oracle_bucket = 0, total_activated_stake = 0,
     thresh_activated_stake_time = 0, last_producer_schedule_size = 0, total_producer_vote_weight = 0,
     last_name_close = 0, max_vote_power = 10000000, vote_claim_period = days 30\<rparr>"

section \<open>Producers and voters\<close>

record producer_info =
  p_owner :: name
  total_votes :: double
  producer_key :: bytes
  is_active :: bool
  url :: string
  unpaid_blocks :: uint
  unpaid_witness_reward :: uint
  last_claim_time :: i64
  location :: uint

record producer_info2 =
  votepay_share :: double
  last_votepay_share_update :: i64

record producer_info3 =
  witnesspay_share :: double
  last_witnesspay_share_update :: i64

record voter_info =
  proxy :: name
  vote_list :: "name list"
  staked :: i64
  unpaid_votes :: i64
  v_last_claim_time :: i64
  last_vote_weight :: double
  proxied_vote_weight :: double
  is_proxy :: bool
  flags1 :: "32 word"

definition new_voter :: voter_info where
  "new_voter = \<lparr>proxy = 0, vote_list = [], staked = 0, unpaid_votes = 0, v_last_claim_time = 0,
     last_vote_weight = 0, proxied_vote_weight = 0, is_proxy = False, flags1 = 0\<rparr>"

definition by_votes :: "producer_info \<Rightarrow> double" where
  "by_votes p = (if is_active p then - total_votes p else total_votes p)"

definition has_field :: "32 word \<Rightarrow> 32 word \<Rightarrow> bool" where
  "has_field flags fld \<longleftrightarrow> and flags fld \<noteq> 0"

definition set_field :: "32 word \<Rightarrow> 32 word \<Rightarrow> bool \<Rightarrow> 32 word" where
  "set_field flags fld v = (if v then or flags fld else and flags (not fld))"

definition ram_managed :: "32 word" where "ram_managed = 1"
definition net_managed :: "32 word" where "net_managed = 2"
definition cpu_managed :: "32 word" where "cpu_managed = 4"

record vote_state =
  voters :: "(name, voter_info) table"
  producers :: "(name, producer_info) table"
  producers2 :: "(name, producer_info2) table"
  producers3 :: "(name, producer_info3) table"
  gst :: eosio_global_state
  gst2 :: eosio_global_state2
  gst3 :: eosio_global_state3
  gst4 :: eosio_global_state4

section \<open>REX\<close>

record rex_pool =
  total_lent :: asset
  total_unlent :: asset
  total_rent :: asset
  total_lendable :: asset
  total_rex :: asset
  namebid_proceeds :: asset
  pool_loan_num :: uint

record rex_balance =
  vote_stake :: asset
  rex_amount :: asset
  matured_rex :: i64
  rex_maturities :: "(uint \<times> i64) list"

record rex_loan =
  loan_from :: name
  loan_receiver :: name
  payment :: asset
  loan_balance :: asset
  total_staked :: asset
  loan_num :: uint
  expiration :: i64

record rex_order =
  order_owner :: name
  rex_requested :: asset
  proceeds :: asset
  stake_change :: asset
  order_time :: i64
  is_open :: bool

record rex_order_outcome =
  success :: bool
  out_proceeds :: asset
  out_stake_change :: asset

definition by_expr :: "rex_loan \<Rightarrow> uint" where
  "by_expr l = u64 (expiration l)"

definition by_time :: "rex_order \<Rightarrow> uint" where
  "by_time r = (if is_open r then u64 (order_time r) else 2 ^ 64 - 1)"

record rex_state =
  rexpool :: "rex_pool option"
  rexfunds :: "(name, asset) table"
  rexbalance :: "(name, rex_balance) table"
  rexorders :: "(name, rex_order) table"
  cpu_loans :: "(uint, rex_loan) table"
  net_loans :: "(uint, rex_loan) table"

section \<open>Bandwidth, RAM market, names, oracles\<close>

record user_resources =
  net_weight :: asset
  cpu_weight :: asset
  ram_bytes :: i64

record delegated_bandwidth =
  dbw_net :: asset
  dbw_cpu :: asset

record refund_request =
  request_time :: uint
  net_amount :: asset
  cpu_amount :: asset

definition res_is_empty :: "user_resources \<Rightarrow> bool" where
  "res_is_empty r \<longleftrightarrow> amount (net_weight r) = 0 \<and> amount (cpu_weight r) = 0 \<and> ram_bytes r = 0"

definition dbw_is_empty :: "delegated_bandwidth \<Rightarrow> bool" where
  "dbw_is_empty d \<longleftrightarrow> amount (dbw_net d) = 0 \<and> amount (dbw_cpu d) = 0"

definition refund_is_empty :: "refund_request \<Rightarrow> bool" where
  "refund_is_empty r \<longleftrightarrow> amount (net_amount r) = 0 \<and> amount (cpu_amount r) = 0"

text \<open>\<open>limits\<close> is the host's record of an account's RAM, NET and CPU limits.\<close>

record bw_state =
  userres :: "(name, user_resources) table"
  delband :: "(name \<times> name, delegated_bandwidth) table"
  refunds :: "(name, refund_request) table"
  limits :: "name \<Rightarrow> i64 \<times> i64 \<times> i64"

record connector =
  conn_balance :: asset
  weight :: double

record exchange_state =
  ex_supply :: asset
  base :: connector
  quote :: connector

record name_bid =
  newname :: name
  high_bidder :: name
  high_bid :: i64
  last_bid_time :: i64

record oracle_info =
  oracle_producer :: name
  oracle_account :: name
  pending_requests :: uint
  successful_requests :: uint
  failed_requests :: uint
  pending_punishment :: i64

record api =
  endpoint :: string
  request_type :: uint
  api_response_type :: uint
  parameters :: string
  json_field :: string

record request_info =
  req_time :: i64
  assigned_oracle :: name
  standby_oracle :: name
  apis :: "api list"
  response_type :: uint
  aggregation_type :: uint
  prefered_api :: uint
  string_to_count :: string

record sys_state =
  vs :: vote_state
  rx :: rex_state
  bw :: bw_state
  rammarket :: "exchange_state option"
  namebids :: "(name, name_bid) table"
  bidrefunds :: "(name \<times> name, asset) table"
  oracles :: "(name, oracle_info) table"
  total_successful_requests :: uint
  requests :: "(name \<times> uint, request_info) table"
  abihash :: "(name, bytes) table"
  host_params :: "blockchain_parameters option"
  privileged :: "name \<Rightarrow> uint"
  sys_out :: "effect list"

section \<open>Symbols\<close>

definition rex_symbol :: symbol where
  "rex_symbol = \<lparr>sym_code = 0x584552, sym_precision = 4\<rparr>"

definition ram_symbol :: symbol where
  "ram_symbol = \<lparr>sym_code = 0x4D4152, sym_precision = 0\<rparr>"

definition ramcore_symbol :: symbol where
  "ramcore_symbol = \<lparr>sym_code = 0x45524F434D4152, sym_precision = 4\<rparr>"

text \<open>\<open>core_symbol\<close> reads the quote balance of the RAM market and aborts before \<open>init\<close>.\<close>

definition core_symbol :: "exchange_state option \<Rightarrow> symbol res" where
  "core_symbol m = rbind (rget (Assert ''system contract must first be initialized'') m)
     (\<lambda>x. Inr (symb (conn_balance (quote x))))"

section \<open>The environment of the system contract\<close>

text \<open>
  Besides the fields of \<open>env\<close>: the token contract's state, whose supply is read, and the functions
  of the host and of the eosio and standard libraries that the system contract calls.
  \<open>sort_pending\<close> is \<open>std::sort\<close> with the comparator of \<open>get_current_oracle\<close>, which leaves the order
  of equal elements open. \<open>end_total_votes\<close> is what \<open>claimrewards\<close> reads from an end iterator, which
  C++ leaves undefined. \<open>registry_of\<close> is the state of the registry contract at an account.
\<close>

record sys_env = env +
  token_of :: token_state
  suffix :: "name \<Rightarrow> name"
  name_str :: "name \<Rightarrow> string"
  dpow :: "double \<Rightarrow> double \<Rightarrow> double"
  propose_schedule :: "(name \<times> bytes) list \<Rightarrow> int"
  null_key :: bytes
  host_defaults :: blockchain_parameters
  sort_pending :: "(name \<times> uint) list \<Rightarrow> (name \<times> uint) list"
  sha256 :: "bytes \<Rightarrow> bytes"
  end_total_votes :: double
  registry_of :: "name \<Rightarrow> registry_state"

section \<open>Amounts and effects\<close>

text \<open>The contracts often change the \<open>amount\<close> field of an asset directly, without its checks.\<close>

definition add_amt :: "int \<Rightarrow> asset \<Rightarrow> asset" where
  "add_amt d q = q\<lparr>amount := wrap64 (amount q + d)\<rparr>"

definition set_amt :: "int \<Rightarrow> asset \<Rightarrow> asset" where
  "set_amt n q = q\<lparr>amount := n\<rparr>"

definition emit :: "effect \<Rightarrow> sys_state \<Rightarrow> sys_state" where
  "emit e s = s\<lparr>sys_out := sys_out s @ [e]\<rparr>"

definition send_transfer :: "sys_env \<Rightarrow> name list \<Rightarrow> name \<Rightarrow> name \<Rightarrow> asset \<Rightarrow> string \<Rightarrow> sys_state \<Rightarrow> sys_state" where
  "send_transfer E auths from to q memo s =
     emit (Inline (lit E ''eosio.token'') (map (at_active E) auths) (TokenTransfer from to q memo)) s"

text \<open>Running a function of one part of the state inside the whole.\<close>

definition on_vs :: "(vote_state \<Rightarrow> vote_state res) \<Rightarrow> sys_state \<Rightarrow> sys_state res" where
  "on_vs f s = rbind (f (vs s)) (\<lambda>v. Inr (s\<lparr>vs := v\<rparr>))"

definition on_rx :: "(rex_state \<Rightarrow> rex_state res) \<Rightarrow> sys_state \<Rightarrow> sys_state res" where
  "on_rx f s = rbind (f (rx s)) (\<lambda>r. Inr (s\<lparr>rx := r\<rparr>))"

lemma on_vs_Inr_iff [res_simps]: "on_vs f s = Inr s' \<longleftrightarrow> (\<exists>v. f (vs s) = Inr v \<and> s' = s\<lparr>vs := v\<rparr>)"
  by (auto simp: on_vs_def res_simps)

lemma on_rx_Inr_iff [res_simps]: "on_rx f s = Inr s' \<longleftrightarrow> (\<exists>r. f (rx s) = Inr r \<and> s' = s\<lparr>rx := r\<rparr>)"
  by (auto simp: on_rx_def res_simps)

lemma add_amt_simps [simp]: "amount (add_amt d q) = wrap64 (amount q + d)" "symb (add_amt d q) = symb q"
  by (simp_all add: add_amt_def)

lemma set_amt_simps [simp]: "amount (set_amt n q) = n" "symb (set_amt n q) = symb q"
  by (simp_all add: set_amt_def)

lemma emit_simps [simp]:
  "vs (emit e s) = vs s" "rx (emit e s) = rx s" "bw (emit e s) = bw s" "rammarket (emit e s) = rammarket s"
  "namebids (emit e s) = namebids s" "bidrefunds (emit e s) = bidrefunds s" "oracles (emit e s) = oracles s"
  "sys_out (emit e s) = sys_out s @ [e]"
  by (simp_all add: emit_def)

lemma send_transfer_simps [simp]:
  "vs (send_transfer E as f t q m s) = vs s" "rx (send_transfer E as f t q m s) = rx s"
  "bw (send_transfer E as f t q m s) = bw s" "rammarket (send_transfer E as f t q m s) = rammarket s"
  "namebids (send_transfer E as f t q m s) = namebids s"
  "bidrefunds (send_transfer E as f t q m s) = bidrefunds s"
  "oracles (send_transfer E as f t q m s) = oracles s"
  by (simp_all add: send_transfer_def)

lemma core_symbol_Some [simp]: "core_symbol (Some m) = Inr (symb (conn_balance (quote m)))"
  and core_symbol_Inr_iff [res_simps]:
    "core_symbol x = Inr y \<longleftrightarrow> (\<exists>m. x = Some m \<and> y = symb (conn_balance (quote m)))"
  by (auto simp: core_symbol_def res_simps)

end
