(* ===== verification/Votes.thy ===== *)
theory Votes
  imports SysState
begin

text \<open>
  \<open>voting.cpp\<close> on the voting part of the state: the time-weighted shares of producers and witnesses,
  the producer schedule, the effect of a changed vote on producers, proxies and totals. The actions
  \<open>voteproducer\<close>, which also reads REX, is in \<open>Rex\<close>.
\<close>

section \<open>Shares\<close>

text \<open>\<open>double( (a - b).count() / 1E6 )\<close>, the seconds between two time points.\<close>

definition secs :: "i64 \<Rightarrow> i64 \<Rightarrow> double" where
  "secs a b = to_double (wrap64 (a - b)) / dlit 1000000"

definition update_total_votepay_share :: "i64 \<Rightarrow> double \<Rightarrow> double \<Rightarrow> vote_state \<Rightarrow> double \<times> vote_state" where
  "update_total_votepay_share ct additional rate_delta s =
     (let g2 = gst2 s; g3 = gst3 s;
        d0 = (if ct > last_vpay_state_update g3
              then total_vpay_share_change_rate g3 * secs ct (last_vpay_state_update g3) else 0);
        d = d0 + additional;
        share = (if d < 0 \<and> total_producer_votepay_share g2 < - d then 0
                 else total_producer_votepay_share g2 + d);
        rate = (if rate_delta < 0 \<and> total_vpay_share_change_rate g3 < - rate_delta then 0
                else total_vpay_share_change_rate g3 + rate_delta)
      in (share, s\<lparr>gst2 := g2\<lparr>total_producer_votepay_share := share\<rparr>,
                   gst3 := g3\<lparr>total_vpay_share_change_rate := rate, last_vpay_state_update := ct\<rparr>\<rparr>))"

text \<open>The iterator of a producer's row is modelled by its key; an end iterator is undefined.\<close>

definition update_producer_votepay_share :: "name \<Rightarrow> i64 \<Rightarrow> double \<Rightarrow> bool \<Rightarrow> vote_state \<Rightarrow> (double \<times> vote_state) res" where
  "update_producer_votepay_share k ct rate reset_to_zero s =
     rbind (rget (Undefined ''end iterator'') (t_get (producers2 s) k)) (\<lambda>p.
     let d = (if rate > 0 \<and> ct > last_votepay_share_update p
              then rate * secs ct (last_votepay_share_update p) else 0);
       share = votepay_share p + d
     in Inr (share, s\<lparr>producers2 := t_set k
          (p\<lparr>votepay_share := (if reset_to_zero then 0 else share), last_votepay_share_update := ct\<rparr>) (producers2 s)\<rparr>))"

definition update_total_witnesspay_share :: "i64 \<Rightarrow> double \<Rightarrow> double \<Rightarrow> vote_state \<Rightarrow> double \<times> vote_state" where
  "update_total_witnesspay_share ct additional rate_delta s =
     (let g = gst4 s;
        d0 = (if ct > last_wpay_state_update g
              then total_wpay_share_change_rate g * secs ct (last_wpay_state_update g) else 0);
        d = d0 + additional;
        share = (if d < 0 \<and> total_producer_witnesspay_share g < - d then 0
                 else total_producer_witnesspay_share g + d);
        rate = (if rate_delta < 0 \<and> total_wpay_share_change_rate g < - rate_delta then 0
                else total_wpay_share_change_rate g + rate_delta)
      in (share, s\<lparr>gst4 := g\<lparr>total_producer_witnesspay_share := share,
                     total_wpay_share_change_rate := rate, last_wpay_state_update := ct\<rparr>\<rparr>))"

definition update_producer_witnesspay_share :: "name \<Rightarrow> i64 \<Rightarrow> double \<Rightarrow> bool \<Rightarrow> vote_state \<Rightarrow> (double \<times> vote_state) res" where
  "update_producer_witnesspay_share k ct rate reset_to_zero s =
     rbind (rget (Undefined ''end iterator'') (t_get (producers3 s) k)) (\<lambda>p.
     let d = (if rate > 0 \<and> ct > last_witnesspay_share_update p
              then rate * secs ct (last_witnesspay_share_update p) else 0);
       share = witnesspay_share p + d
     in Inr (share, s\<lparr>producers3 := t_set k
          (p\<lparr>witnesspay_share := (if reset_to_zero then 0 else share), last_witnesspay_share_update := ct\<rparr>)
          (producers3 s)\<rparr>))"

section \<open>The index of producers by votes\<close>

text \<open>
  \<open>_producers.get_index<"prototalvote"_n>()\<close>: active producers first, by falling votes. The host
  refuses a NaN as the key of an index.
\<close>

definition votes_less :: "producer_info \<Rightarrow> producer_info \<Rightarrow> bool" where
  "votes_less p q \<longleftrightarrow> by_votes p < by_votes q"

definition prototalvote :: "vote_state \<Rightarrow> producer_info list" where
  "prototalvote s = t_index votes_less (producers s)"

definition put_producer :: "name \<Rightarrow> producer_info \<Rightarrow> vote_state \<Rightarrow> vote_state res" where
  "put_producer k p s =
     guard_res (by_votes p \<noteq> NaN) (NoRow ''NaN is not an allowed value for a secondary key'')
       (Inr (s\<lparr>producers := t_set k p (producers s)\<rparr>))"

definition max_witness_count :: nat where "max_witness_count = 50"

definition is_witness_row :: "vote_state \<Rightarrow> producer_info \<Rightarrow> bool" where
  "is_witness_row s p \<longleftrightarrow>
     total_votes p / total_producer_vote_weight (gst s) > dlit (5 / 1000) \<and> is_active p"

definition witnesses :: "vote_state \<Rightarrow> name list" where
  "witnesses s = sort (map p_owner (takeWhile (is_witness_row s) (take max_witness_count (prototalvote s))))"

text \<open>
  The two loops over the producers that left and entered the list of witnesses, with
  \<open>witness_delta_change_rate\<close> as accumulator.
\<close>

definition leave_witness :: "i64 \<Rightarrow> name list \<Rightarrow> name \<Rightarrow> vote_state \<times> double \<Rightarrow> (vote_state \<times> double) res" where
  "leave_witness ct aft w acc = (case acc of (s, r) \<Rightarrow>
     if w \<in> set aft then Inr (s, r)
     else check (t_has (producers3 s) w) ''producer not found'' (
          rbind (update_producer_witnesspay_share w ct 1 False s) (\<lambda>(_, s1). Inr (s1, r - 1))))"

definition enter_witness :: "i64 \<Rightarrow> name list \<Rightarrow> name \<Rightarrow> vote_state \<times> double \<Rightarrow> (vote_state \<times> double) res" where
  "enter_witness ct bef w acc = (case acc of (s, r) \<Rightarrow>
     if w \<in> set bef then Inr (s, r)
     else check (t_has (producers3 s) w) ''producer not found'' (
          rbind (update_producer_witnesspay_share w ct 0 False s) (\<lambda>(_, s1). Inr (s1, r + 1))))"

definition shift_witnesses :: "i64 \<Rightarrow> name list \<Rightarrow> name list \<Rightarrow> vote_state \<Rightarrow> (vote_state \<times> double) res" where
  "shift_witnesses ct bef aft s =
     rbind (rfold (leave_witness ct aft) bef (s, 0)) (rfold (enter_witness ct bef) aft)"

section \<open>Propagation of a changed weight\<close>

definition stake2vote :: "i64 \<Rightarrow> double" where
  "stake2vote st = to_double st"

definition three_days :: i64 where
  "three_days = 3 * 24 * 3600 * 1000000"

text \<open>
  The vote-pay bookkeeping of one producer whose votes change by \<open>delta\<close>; the accumulator holds
  \<open>delta_change_rate\<close> and \<open>total_inactive_vpay_share\<close>. Both callers share it.
\<close>

definition account_votepay :: "name \<Rightarrow> i64 \<Rightarrow> i64 \<Rightarrow> double \<Rightarrow> double \<Rightarrow> vote_state \<times> double \<times> double
    \<Rightarrow> (vote_state \<times> double \<times> double) res" where
  "account_votepay k ct last_claim init_total_votes delta acc = (case acc of (s, rate, inactive) \<Rightarrow>
     case t_get (producers2 s) k of
       None \<Rightarrow> Inr (s, rate, inactive)
     | Some p2 \<Rightarrow>
         let threshold = wrap64 (last_claim + three_days);
           crossed_threshold = (threshold \<le> ct);
           updated_after_threshold = (threshold \<le> last_votepay_share_update p2)
         in rbind (update_producer_votepay_share k ct (if updated_after_threshold then 0 else init_total_votes)
                     (crossed_threshold \<and> \<not> updated_after_threshold) s) (\<lambda>(new_share, s1).
            Inr (if \<not> crossed_threshold then (s1, rate + delta, inactive)
                 else if \<not> updated_after_threshold then (s1, rate - init_total_votes, inactive + new_share)
                 else (s1, rate, inactive))))"

definition propagate_one :: "i64 \<Rightarrow> double \<Rightarrow> name \<Rightarrow> vote_state \<times> double \<times> double \<Rightarrow> (vote_state \<times> double \<times> double) res" where
  "propagate_one ct delta k acc = (case acc of (s, rate, inactive) \<Rightarrow>
     rbind (rget (NoRow ''producer not found'') (t_get (producers s) k)) (\<lambda>p.
     rbind (put_producer k (p\<lparr>total_votes := total_votes p + delta\<rparr>) s) (\<lambda>s1.
     let s2 = s1\<lparr>gst := (gst s1)\<lparr>total_producer_vote_weight := total_producer_vote_weight (gst s1) + delta\<rparr>\<rparr>
     in account_votepay k ct (last_claim_time p) (total_votes p) delta (s2, rate, inactive))))"

definition put_voter :: "name \<Rightarrow> voter_info \<Rightarrow> vote_state \<Rightarrow> vote_state" where
  "put_voter k v s = s\<lparr>voters := t_set k v (voters s)\<rparr>"

definition voter_row :: "name \<Rightarrow> vote_state \<Rightarrow> voter_info res" where
  "voter_row k s = rget (Undefined ''end iterator'') (t_get (voters s) k)"

definition voter_weight :: "vote_state \<Rightarrow> voter_info \<Rightarrow> double" where
  "voter_weight s v = (let w = stake2vote (min (staked v) (max_vote_power (gst s))) in
     if is_proxy v then w + proxied_vote_weight v else w)"

text \<open>
  \<open>propagate_weight_change\<close> calls itself on the voter's proxy. The fuel bounds the length of the
  chain of proxies; \<open>Ends\<close> shows that the number of voters is always enough.
\<close>

fun propagate_weight_change :: "nat \<Rightarrow> i64 \<Rightarrow> name \<Rightarrow> vote_state \<Rightarrow> vote_state res" where
  "propagate_weight_change 0 ct k s = Inl (Undefined ''out of fuel'')"
| "propagate_weight_change (Suc n) ct k s =
     rbind (voter_row k s) (\<lambda>v.
     check (proxy v = 0 \<or> \<not> is_proxy v) ''account registered as a proxy is not allowed to use a proxy'' (
     let new_weight = voter_weight s v; delta = new_weight - last_vote_weight v in
     rbind (if dabs delta > 1
            then if proxy v \<noteq> 0
              then rbind (rget (NoRow ''proxy not found'') (t_get (voters s) (proxy v))) (\<lambda>p.
                   propagate_weight_change n ct (proxy v)
                     (put_voter (proxy v) (p\<lparr>proxied_vote_weight := proxied_vote_weight p + delta\<rparr>) s))
              else rbind (rfold (propagate_one ct delta) (vote_list v) (s, 0, 0)) (\<lambda>(s1, rate, inactive).
                   Inr (snd (update_total_votepay_share ct (- inactive) rate s1)))
            else Inr s) (\<lambda>s2.
     rbind (voter_row k s2) (\<lambda>v2.
     Inr (put_voter k (v2\<lparr>last_vote_weight := new_weight\<rparr>) s2)))))"

definition vote_fuel :: "vote_state \<Rightarrow> nat" where
  "vote_fuel s = Suc (length (t_list (voters s)))"

definition propagate :: "i64 \<Rightarrow> name \<Rightarrow> vote_state \<Rightarrow> vote_state res" where
  "propagate ct k s = propagate_weight_change (vote_fuel s) ct k s"

section \<open>Updating the votes of a voter\<close>

text \<open>\<open>producer_deltas\<close>, a flat map from producers to the change of their votes and the flag \<open>new\<close>.\<close>

type_synonym deltas = "(name, double \<times> bool) table"

definition old_delta :: "double \<Rightarrow> name \<Rightarrow> deltas \<Rightarrow> deltas" where
  "old_delta w p d = t_set p (fst (case t_get d p of None \<Rightarrow> (0, False) | Some x \<Rightarrow> x) - w, False) d"

definition new_delta :: "double \<Rightarrow> name \<Rightarrow> deltas \<Rightarrow> deltas" where
  "new_delta w p d = t_set p (fst (case t_get d p of None \<Rightarrow> (0, False) | Some x \<Rightarrow> x) + w, True) d"

definition apply_delta :: "i64 \<Rightarrow> bool \<Rightarrow> name \<times> double \<times> bool \<Rightarrow> vote_state \<times> double \<times> double
    \<Rightarrow> (vote_state \<times> double \<times> double) res" where
  "apply_delta ct voting pd acc = (case pd of (k, d, new) \<Rightarrow> case acc of (s, rate, inactive) \<Rightarrow>
     case t_get (producers s) k of
       None \<Rightarrow> check (\<not> new) ''producer is not registered'' (Inr (s, rate, inactive))
     | Some p \<Rightarrow>
         check (\<not> voting \<or> is_active p \<or> \<not> new) ''producer is not currently registered'' (
         let tv = total_votes p + d in
         rbind (put_producer k (p\<lparr>total_votes := (if tv < 0 then 0 else tv)\<rparr>) s) (\<lambda>s1.
         let s2 = s1\<lparr>gst := (gst s1)\<lparr>total_producer_vote_weight := total_producer_vote_weight (gst s1) + d\<rparr>\<rparr>
         in account_votepay k ct (last_claim_time p) (total_votes p) d (s2, rate, inactive))))"

definition min_activated_stake :: i64 where
  "min_activated_stake = 100000000000"

definition activate_stake :: "i64 \<Rightarrow> voter_info \<Rightarrow> vote_state \<Rightarrow> vote_state" where
  "activate_stake ct v s =
     (if last_vote_weight v \<le> 0
      then let t = wrap64 (total_activated_stake (gst s) + staked v) in
        s\<lparr>gst := (gst s)\<lparr>total_activated_stake := t,
          thresh_activated_stake_time :=
            (if t \<ge> min_activated_stake \<and> thresh_activated_stake_time (gst s) = 0 then ct
             else thresh_activated_stake_time (gst s))\<rparr>\<rparr>
      else s)"

definition valid_vote :: "name \<Rightarrow> name \<Rightarrow> name list \<Rightarrow> unit res" where
  "valid_vote voter prx prods =
     (if prx \<noteq> 0
      then check (prods = []) ''cannot vote for producers and proxy at same time'' (
           check (voter \<noteq> prx) ''cannot proxy to self'' (Inr ()))
      else check (length prods \<le> 30) ''attempt to vote for too many producers'' (
           check (sorted_wrt (<) prods) ''producer votes must be unique and sorted'' (Inr ())))"

text \<open>The old vote is undone: on the old proxy, or as negative deltas of the old producers.\<close>

definition undo_vote :: "i64 \<Rightarrow> name \<Rightarrow> vote_state \<Rightarrow> (vote_state \<times> deltas) res" where
  "undo_vote ct k s =
     rbind (voter_row k s) (\<lambda>v.
     if last_vote_weight v > 0
     then if proxy v \<noteq> 0
       then rbind (rget (Assert ''old proxy not found'') (t_get (voters s) (proxy v))) (\<lambda>op.
            rbind (propagate ct (proxy v)
                     (put_voter (proxy v) (op\<lparr>proxied_vote_weight := proxied_vote_weight op - last_vote_weight v\<rparr>) s))
              (\<lambda>s1. Inr (s1, t_empty)))
       else Inr (s, fold (old_delta (last_vote_weight v)) (vote_list v) t_empty)
     else Inr (s, t_empty))"

definition cast_vote :: "i64 \<Rightarrow> name \<Rightarrow> name list \<Rightarrow> bool \<Rightarrow> double \<Rightarrow> vote_state \<times> deltas \<Rightarrow> (vote_state \<times> deltas) res" where
  "cast_vote ct prx prods voting w acc = (case acc of (s, d) \<Rightarrow>
     if prx \<noteq> 0
     then rbind (rget (Assert ''invalid proxy specified'') (t_get (voters s) prx)) (\<lambda>np.
          check (\<not> voting \<or> is_proxy np) ''proxy not found'' (
          if w \<ge> 0
          then rbind (propagate ct prx (put_voter prx (np\<lparr>proxied_vote_weight := proxied_vote_weight np + w\<rparr>) s))
                 (\<lambda>s1. Inr (s1, d))
          else Inr (s, d)))
     else Inr (s, if w \<ge> 0 then fold (new_delta w) prods d else d))"

definition update_votes :: "i64 \<Rightarrow> name \<Rightarrow> name \<Rightarrow> name list \<Rightarrow> bool \<Rightarrow> vote_state \<Rightarrow> vote_state res" where
  "update_votes ct voter prx prods voting s =
     rbind (valid_vote voter prx prods) (\<lambda>_.
     rbind (rget (Assert ''user must stake before they can vote'') (t_get (voters s) voter)) (\<lambda>v.
     check (prx = 0 \<or> \<not> is_proxy v) ''account registered as a proxy is not allowed to use a proxy'' (
     let before = witnesses s;
       s1 = activate_stake ct v s;
       w = voter_weight s1 v
     in rbind (rbind (undo_vote ct voter s1) (cast_vote ct prx prods voting w)) (\<lambda>(s2, d).
        rbind (rfold (apply_delta ct voting) (t_list d) (s2, 0, 0)) (\<lambda>(s3, rate, inactive).
        rbind (shift_witnesses ct before (witnesses s3) s3) (\<lambda>(s4, wrate).
        let s5 = snd (update_total_witnesspay_share ct 0 wrate s4);
          s6 = snd (update_total_votepay_share ct (- inactive) rate s5)
        in rbind (voter_row voter s6) (\<lambda>v6.
        Inr (put_voter voter (v6\<lparr>last_vote_weight := w, vote_list := prods, proxy := prx\<rparr>) s6))))))))"

section \<open>The producer schedule\<close>

text \<open>
  The first 21 active producers with votes, sorted by name: a \<open>producer_key\<close> is ordered by its
  name, and the names are distinct, so the location never decides.
\<close>

definition elected_rows :: "vote_state \<Rightarrow> producer_info list" where
  "elected_rows s = takeWhile (\<lambda>p. 0 < total_votes p \<and> is_active p) (take 21 (prototalvote s))"

definition schedule :: "vote_state \<Rightarrow> (name \<times> bytes) list" where
  "schedule s = sort_key fst (map (\<lambda>p. (p_owner p, producer_key p)) (elected_rows s))"

definition update_elected_producers :: "sys_env \<Rightarrow> uint \<Rightarrow> vote_state \<Rightarrow> vote_state" where
  "update_elected_producers E slot s =
     (let s1 = s\<lparr>gst := (gst s)\<lparr>last_producer_schedule_update := slot\<rparr>\<rparr> in
      if int (length (elected_rows s1)) < last_producer_schedule_size (gst s1) then s1
      else if propose_schedule E (schedule s1) \<ge> 0
        then s1\<lparr>gst := (gst s1)\<lparr>last_producer_schedule_size := u16 (int (length (elected_rows s1)))\<rparr>\<rparr>
        else s1)"

section \<open>Registration\<close>

definition deactivate :: "sys_env \<Rightarrow> producer_info \<Rightarrow> producer_info" where
  "deactivate E p = p\<lparr>producer_key := null_key E, is_active := False\<rparr>"

definition regproducer :: "sys_env \<Rightarrow> name \<Rightarrow> bytes \<Rightarrow> string \<Rightarrow> uint \<Rightarrow> vote_state \<Rightarrow> vote_state res" where
  "regproducer E prd pkey purl loc s =
     check (length purl < 512) ''url too long'' (
     check (pkey \<noteq> null_key E) ''public key should not be the default value'' (
     require_auth E prd (
     rbind (voter_row prd s) (\<lambda>v.
     check (staked v > 1000000000) ''You have 100'000 EOS tokens to become a Block Producer'' (
     let ct = current_time E in
     case t_get (producers s) prd of
       Some p \<Rightarrow>
         rbind (put_producer prd (p\<lparr>producer_key := pkey, is_active := True, url := purl, location := loc,
                  last_claim_time := (if last_claim_time p = 0 then ct else last_claim_time p)\<rparr>) s) (\<lambda>s1.
         if t_has (producers2 s1) prd then Inr s1
         else Inr (snd (update_total_votepay_share ct 0 (total_votes p)
                (s1\<lparr>producers2 := t_set prd \<lparr>votepay_share = 0, last_votepay_share_update = ct\<rparr> (producers2 s1)\<rparr>))))
     | None \<Rightarrow>
         rbind (put_producer prd \<lparr>p_owner = prd, total_votes = 0, producer_key = pkey, is_active = True, url = purl,
                  unpaid_blocks = 0, unpaid_witness_reward = 0, last_claim_time = ct, location = loc\<rparr> s) (\<lambda>s1.
         rbind (t_emplace prd \<lparr>votepay_share = 0, last_votepay_share_update = ct\<rparr> (producers2 s1)) (\<lambda>t2.
         rbind (t_emplace prd \<lparr>witnesspay_share = 0, last_witnesspay_share_update = ct\<rparr> (producers3 s1)) (\<lambda>t3.
         Inr (s1\<lparr>producers2 := t2, producers3 := t3\<rparr>)))))))))"

definition unregprod :: "sys_env \<Rightarrow> name \<Rightarrow> vote_state \<Rightarrow> vote_state res" where
  "unregprod E prd s =
     require_auth E prd (
     rbind (rget (NoRow ''producer not found'') (t_get (producers s) prd)) (\<lambda>p.
     put_producer prd (deactivate E p) s))"

definition regproxy :: "sys_env \<Rightarrow> name \<Rightarrow> bool \<Rightarrow> vote_state \<Rightarrow> vote_state res" where
  "regproxy E prx isproxy s =
     require_auth E prx (
     case t_get (voters s) prx of
       Some v \<Rightarrow>
         check (isproxy \<noteq> is_proxy v) ''action has no effect'' (
         check (\<not> isproxy \<or> proxy v = 0) ''account that uses a proxy is not allowed to become a proxy'' (
         let s1 = put_voter prx (v\<lparr>is_proxy := isproxy\<rparr>) s; ct = current_time E; before = witnesses s1
         in rbind (propagate ct prx s1) (\<lambda>s2.
            rbind (shift_witnesses ct before (witnesses s2) s2) (\<lambda>(s3, wrate).
            Inr (snd (update_total_witnesspay_share ct 0 wrate s3))))))
     | None \<Rightarrow> Inr (put_voter prx (new_voter\<lparr>is_proxy := isproxy\<rparr>) s))"

section \<open>Dispatch\<close>

datatype vote_action =
    Regproducer name bytes string uint
  | Unregprod name
  | Regproxy name bool

fun vote_exec :: "sys_env \<Rightarrow> vote_action \<Rightarrow> vote_state \<Rightarrow> vote_state res" where
  "vote_exec E (Regproducer p k u l) s = regproducer E p k u l s"
| "vote_exec E (Unregprod p) s = unregprod E p s"
| "vote_exec E (Regproxy p b) s = regproxy E p b s"

end
