(* ===== verification/VoteLaws.thy ===== *)
theory VoteLaws
  imports Votes "HOL-Library.Multiset"
begin

text \<open>
  Laws of the voting part: what propagation and vote accounting leave alone, why the recursion along
  proxies ends, and which producers are elected.
\<close>

section \<open>What propagation leaves alone\<close>

text \<open>Everything of a voter's row but the two weights.\<close>

definition voter_core :: "voter_info \<Rightarrow> name \<times> name list \<times> i64 \<times> i64 \<times> i64 \<times> bool \<times> 32 word" where
  "voter_core v = (proxy v, vote_list v, staked v, unpaid_votes v, v_last_claim_time v, is_proxy v, flags1 v)"

definition cores :: "vote_state \<Rightarrow> name \<Rightarrow> (name \<times> name list \<times> i64 \<times> i64 \<times> i64 \<times> bool \<times> 32 word) option" where
  "cores s k = map_option voter_core (t_get (voters s) k)"

lemma voter_core_weights [simp]:
  "voter_core (v\<lparr>last_vote_weight := w\<rparr>) = voter_core v" "voter_core (v\<lparr>proxied_vote_weight := w\<rparr>) = voter_core v"
  by (simp_all add: voter_core_def)

lemma put_voter_simps [simp]:
  "voters (put_voter k v s) = t_set k v (voters s)" "producers (put_voter k v s) = producers s"
  "producers2 (put_voter k v s) = producers2 s" "producers3 (put_voter k v s) = producers3 s"
  "gst (put_voter k v s) = gst s"
  by (simp_all add: put_voter_def)

lemma cores_put_voter: "cores (put_voter k v s) = (cores s)(k := Some (voter_core v))"
  by (auto simp: cores_def)

lemma cores_cong: "voters s' = voters s \<Longrightarrow> cores s' = cores s"
  by (auto simp: cores_def)

lemma voter_row_iff [res_simps]: "voter_row k s = Inr v \<longleftrightarrow> t_get (voters s) k = Some v"
  by (simp add: voter_row_def res_simps)

lemma put_producer_iff [res_simps]:
  "put_producer k p s = Inr s' \<longleftrightarrow> by_votes p \<noteq> NaN \<and> s' = s\<lparr>producers := t_set k p (producers s)\<rparr>"
  by (auto simp: put_producer_def res_simps)

lemma votepay_voters:
  "update_producer_votepay_share k ct r b s = Inr (x, s') \<Longrightarrow> voters s' = voters s \<and> producers s' = producers s \<and> gst s' = gst s"
  by (auto simp: update_producer_votepay_share_def Let_def res_simps)

lemma witpay_voters:
  "update_producer_witnesspay_share k ct r b s = Inr (x, s') \<Longrightarrow> voters s' = voters s \<and> producers s' = producers s \<and> gst s' = gst s"
  by (auto simp: update_producer_witnesspay_share_def Let_def res_simps)

lemma total_shares_voters [simp]:
  "voters (snd (update_total_votepay_share ct a r s)) = voters s"
  "voters (snd (update_total_witnesspay_share ct a r s)) = voters s"
  "producers (snd (update_total_votepay_share ct a r s)) = producers s"
  "producers (snd (update_total_witnesspay_share ct a r s)) = producers s"
  "gst (snd (update_total_votepay_share ct a r s)) = gst s"
  "gst (snd (update_total_witnesspay_share ct a r s)) = gst s"
  by (simp_all add: update_total_votepay_share_def update_total_witnesspay_share_def Let_def)

lemma account_votepay_voters:
  assumes "account_votepay k ct lc tv d (s, r, i) = Inr (s', r', i')"
  shows "voters s' = voters s \<and> producers s' = producers s \<and> gst s' = gst s"
proof (cases "t_get (producers2 s) k")
  case (Some p2)
  then obtain x b c where "update_producer_votepay_share k ct b c s = Inr (x, s')"
    using assms by (auto simp: account_votepay_def Let_def res_simps split: if_splits)
  then show ?thesis by (rule votepay_voters)
qed (use assms in \<open>simp add: account_votepay_def\<close>)

lemma propagate_one_voters:
  "propagate_one ct d k (s, r, i) = Inr (s', r', i') \<Longrightarrow> voters s' = voters s"
  by (auto simp: propagate_one_def Let_def res_simps dest!: account_votepay_voters)

lemma propagate_list_voters:
  assumes "rfold (propagate_one ct d) ks (s, r, i) = Inr (s', r', i')"
  shows "voters s' = voters s"
  using rfold_inv [OF assms, of "\<lambda>acc. voters (fst acc) = voters s"] propagate_one_voters by fastforce

lemma apply_delta_voters:
  assumes "apply_delta ct voting pd (s, r, i) = Inr (s', r', i')"
  shows "voters s' = voters s"
proof -
  obtain k d new where pd: "pd = (k, d, new)" by (cases pd) auto
  show ?thesis
    using assms unfolding pd
    by (cases "t_get (producers s) k") (auto simp: apply_delta_def Let_def res_simps dest!: account_votepay_voters)
qed

lemma apply_deltas_voters:
  assumes "rfold (apply_delta ct voting) ds (s, r, i) = Inr (s', r', i')"
  shows "voters s' = voters s"
  using rfold_inv [OF assms, of "\<lambda>acc. voters (fst acc) = voters s"] apply_delta_voters by fastforce

lemma leave_witness_voters: "leave_witness ct aft w (s, r) = Inr (s', r') \<Longrightarrow> voters s' = voters s \<and> producers s' = producers s \<and> gst s' = gst s"
  by (auto simp: leave_witness_def res_simps dest!: witpay_voters split: if_splits)

lemma enter_witness_voters: "enter_witness ct bef w (s, r) = Inr (s', r') \<Longrightarrow> voters s' = voters s \<and> producers s' = producers s \<and> gst s' = gst s"
  by (auto simp: enter_witness_def res_simps dest!: witpay_voters split: if_splits)

lemma shift_witnesses_voters:
  assumes "shift_witnesses ct bef aft s = Inr (s', r)"
  shows "voters s' = voters s \<and> producers s' = producers s \<and> gst s' = gst s"
proof -
  obtain s1 r1 where 1: "rfold (leave_witness ct aft) bef (s, 0) = Inr (s1, r1)"
    and 2: "rfold (enter_witness ct bef) aft (s1, r1) = Inr (s', r)"
    using assms by (auto simp: shift_witnesses_def res_simps)
  let ?P = "\<lambda>acc :: vote_state \<times> double. voters (fst acc) = voters s \<and> producers (fst acc) = producers s \<and> gst (fst acc) = gst s"
  have "?P (s1, r1)" using rfold_inv [OF 1, of ?P] leave_witness_voters by fastforce
  then show ?thesis using rfold_inv [OF 2, of ?P] enter_witness_voters by fastforce
qed

lemma propagate_cores:
  "propagate_weight_change n ct k s = Inr s' \<Longrightarrow> cores s' = cores s"
proof (induction n arbitrary: k s s')
  case (Suc n)
  obtain v where v: "t_get (voters s) k = Some v" using Suc.prems by (auto simp: res_simps)
  define d where "d = voter_weight s v - last_vote_weight v"
  obtain s2 v2 w where "cores s2 = cores s" and v2: "t_get (voters s2) k = Some v2"
    and s': "s' = put_voter k (v2\<lparr>last_vote_weight := w\<rparr>) s2"
  proof (cases "dabs d > 1")
    case True
    show ?thesis
    proof (cases "proxy v = 0")
      case root: True
      obtain a r i where a: "voters a = voters s" and s': "s' = put_voter k (v\<lparr>last_vote_weight := voter_weight s v\<rparr>)
          (snd (update_total_votepay_share ct (- i) r a))"
        using Suc.prems v True root by (auto simp: res_simps Let_def d_def dest!: propagate_list_voters)
      then show ?thesis using v by (intro that [OF _ _ s']) (auto intro!: cores_cong)
    next
      case False
      then obtain p s2 v2 where p: "t_get (voters s) (proxy v) = Some p"
        and r: "propagate_weight_change n ct (proxy v) (put_voter (proxy v) (p\<lparr>proxied_vote_weight := proxied_vote_weight p + d\<rparr>) s) = Inr s2"
        and v2: "t_get (voters s2) k = Some v2" "s' = put_voter k (v2\<lparr>last_vote_weight := voter_weight s v\<rparr>) s2"
        using Suc.prems v True by (auto simp: res_simps Let_def d_def)
      have "(cores s)(proxy v := Some (voter_core p)) = cores s" using p by (auto simp: cores_def)
      then have "cores s2 = cores s" using Suc.IH [OF r] by (simp add: cores_put_voter)
      then show ?thesis using v2 by (rule that)
    qed
  next
    case False
    then show ?thesis using Suc.prems v by (auto simp: res_simps Let_def d_def intro!: that)
  qed
  moreover have "(cores s2)(k := Some (voter_core v2)) = cores s2" using v2 by (auto simp: cores_def)
  ultimately show ?case by (simp add: s' cores_put_voter)
qed simp

section \<open>Proxies\<close>

definition proxy_rel :: "vote_state \<Rightarrow> (name \<times> name) set" where
  "proxy_rel s = {(k, p). \<exists>v. t_get (voters s) k = Some v \<and> proxy v = p \<and> p \<noteq> 0}"

text \<open>
  A proxy has no proxy of its own, and no chain of proxies comes back to where it started: the
  invariant that the voting actions keep.
\<close>

definition proxies_ok :: "vote_state \<Rightarrow> bool" where
  "proxies_ok s \<longleftrightarrow> acyclic (proxy_rel s) \<and>
     (\<forall>k v. t_get (voters s) k = Some v \<longrightarrow> is_proxy v \<longrightarrow> proxy v = 0)"

text \<open>The proxies that are reached from \<open>k\<close> and have a row.\<close>

definition chain :: "vote_state \<Rightarrow> name \<Rightarrow> name set" where
  "chain s k = {j. (k, j) \<in> (proxy_rel s)\<^sup>* \<and> t_has (voters s) j}"

lemma proxy_rel_cores: "cores s' = cores s \<Longrightarrow> proxy_rel s' = proxy_rel s"
proof -
  have *: "(\<exists>v. t_get (voters s) k = Some v \<and> proxy v = p \<and> p \<noteq> 0) \<longleftrightarrow> (\<exists>x. cores s k = Some x \<and> fst x = p \<and> p \<noteq> 0)" for s k p
    by (cases "t_get (voters s) k") (simp_all add: cores_def voter_core_def)
  show "cores s' = cores s \<Longrightarrow> proxy_rel s' = proxy_rel s" by (simp add: proxy_rel_def *)
qed

lemma has_voter_cores: "t_has (voters s) k \<longleftrightarrow> cores s k \<noteq> None"
  by (simp add: cores_def t_has_def)

lemma chain_cores: "cores s' = cores s \<Longrightarrow> chain s' k = chain s k"
  using proxy_rel_cores [of s' s] by (simp add: chain_def has_voter_cores)

lemma finite_voters: "{j. t_has (voters s) j} = fst ` set (t_list (voters s))"
proof -
  have "t_has (voters s) j \<longleftrightarrow> (\<exists>q. (j, q) \<in> set (t_list (voters s)))" for j
    by (simp add: t_has_def t_get_iff_list [symmetric])
  then have "{j. t_has (voters s) j} = {j. \<exists>q. (j, q) \<in> set (t_list (voters s))}" by simp
  also have "\<dots> = fst ` set (t_list (voters s))" by force
  finally show ?thesis .
qed

lemma finite_chain: "finite (chain s k)"
proof (rule finite_subset)
  show "chain s k \<subseteq> {j. t_has (voters s) j}" by (auto simp: chain_def)
qed (simp add: finite_voters)

lemma chain_fuel: "card (chain s k) < vote_fuel s"
proof -
  have "card (chain s k) \<le> card {j. t_has (voters s) j}"
  proof (rule card_mono)
    show "chain s k \<subseteq> {j. t_has (voters s) j}" by (auto simp: chain_def)
  qed (simp add: finite_voters)
  also have "\<dots> \<le> length (t_list (voters s))" unfolding finite_voters by (metis card_image_le card_length finite_set le_trans)
  finally show ?thesis by (simp add: vote_fuel_def)
qed

lemma chain_shrinks:
  assumes "acyclic (proxy_rel s)" "t_get (voters s) k = Some v" "proxy v \<noteq> 0"
  shows "card (chain s (proxy v)) < card (chain s k)"
proof (rule psubset_card_mono [OF finite_chain])
  have e: "(k, proxy v) \<in> proxy_rel s" using assms(2,3) by (auto simp: proxy_rel_def)
  have "k \<notin> chain s (proxy v)"
    using assms(1) e by (auto simp: chain_def acyclic_def dest: rtrancl_into_trancl2)
  moreover have "k \<in> chain s k" using assms(2) by (auto simp: chain_def t_has_def)
  moreover have "chain s (proxy v) \<subseteq> chain s k" using e by (auto simp: chain_def intro: converse_rtrancl_into_rtrancl)
  ultimately show "chain s (proxy v) \<subset> chain s k" by blast
qed

lemma put_weight_cores:
  assumes "t_get (voters s) k = Some p"
  shows "cores (put_voter k (p\<lparr>proxied_vote_weight := w\<rparr>) s) = cores s"
  using assms by (auto simp: cores_put_voter cores_def)

text \<open>Accounting for a vote has errors of its own but never runs out of fuel.\<close>

lemma rget_Inl_iff: "rget e x = Inl e' \<longleftrightarrow> x = None \<and> e' = e"
  by (cases x) auto

lemma rfold_Inl:
  "rfold f xs s = Inl e \<Longrightarrow> \<exists>x s'. f x s' = Inl e"
  by (induction xs arbitrary: s) (auto simp: rbind_Inl_iff)

lemma propagate_one_fuel: "propagate_one ct d k acc \<noteq> Inl (Undefined ''out of fuel'')"
  by (cases acc)
    (auto simp: propagate_one_def account_votepay_def update_producer_votepay_share_def put_producer_def guard_res_def
      rbind_Inl_iff rget_Inl_iff Let_def split: option.splits if_splits)

text \<open>With more fuel than there are proxies in the chain, more fuel changes nothing.\<close>

lemma propagate_fuel:
  assumes "acyclic (proxy_rel s)" "card (chain s k) < n" "n \<le> m"
  shows "propagate_weight_change m ct k s = propagate_weight_change n ct k s \<and>
    propagate_weight_change n ct k s \<noteq> Inl (Undefined ''out of fuel'')"
  using assms
proof (induction n arbitrary: m k s)
  case (Suc n)
  then obtain m' where m: "m = Suc m'" "n \<le> m'" by (cases m) auto
  show ?case
  proof (cases "t_get (voters s) k")
    case None
    then show ?thesis by (simp add: m voter_row_def)
  next
    case (Some v)
    define d where "d = voter_weight s v - last_vote_weight v"
    let ?fin = "\<lambda>s2. rbind (voter_row k s2) (\<lambda>v2. Inr (put_voter k (v2\<lparr>last_vote_weight := voter_weight s v\<rparr>) s2))"
    have fin: "rbind M ?fin \<noteq> Inl (Undefined ''out of fuel'')" if "M \<noteq> Inl (Undefined ''out of fuel'')" for M
      using that by (auto simp: rbind_Inl_iff voter_row_def rget_Inl_iff)
    consider (none) "\<not> dabs d > 1" | (root) "dabs d > 1" "proxy v = 0" | (lost) "dabs d > 1" "proxy v \<noteq> 0" "t_get (voters s) (proxy v) = None"
      | (up) p where "dabs d > 1" "proxy v \<noteq> 0" "t_get (voters s) (proxy v) = Some p"
      by (cases "t_get (voters s) (proxy v)") auto
    then show ?thesis
    proof cases
      case none
      then show ?thesis using Some by (auto simp: m voter_row_def d_def Let_def check_def guard_res_def)
    next
      case root
      have "rbind (rfold (propagate_one ct d) (vote_list v) (s, 0, 0)) (\<lambda>(s1, rate, inactive).
                   Inr (snd (update_total_votepay_share ct (- inactive) rate s1))) \<noteq> Inl (Undefined ''out of fuel'')"
        using rfold_Inl [of "propagate_one ct d"] propagate_one_fuel by (fastforce simp: rbind_Inl_iff)
      then show ?thesis using root Some fin by (auto simp: m voter_row_def d_def Let_def check_def guard_res_def)
    next
      case lost
      then show ?thesis using Some by (auto simp: m voter_row_def d_def Let_def check_def guard_res_def)
    next
      case up
      let ?s1 = "put_voter (proxy v) (p\<lparr>proxied_vote_weight := proxied_vote_weight p + d\<rparr>) s"
      have c: "cores ?s1 = cores s" by (rule put_weight_cores [OF up(3)])
      have "card (chain ?s1 (proxy v)) < n"
        using chain_shrinks [OF Suc.prems(1) Some up(2)] Suc.prems(2) by (simp add: chain_cores [OF c])
      then have "propagate_weight_change m' ct (proxy v) ?s1 = propagate_weight_change n ct (proxy v) ?s1 \<and>
          propagate_weight_change n ct (proxy v) ?s1 \<noteq> Inl (Undefined ''out of fuel'')"
        using Suc.prems(1) m(2) by (intro Suc.IH) (simp_all add: proxy_rel_cores [OF c])
      then show ?thesis using up Some fin by (auto simp: m voter_row_def d_def Let_def check_def guard_res_def)
    qed
  qed
qed simp

end
