(* ===== verification/VoteFrames.thy ===== *)
theory VoteFrames
  imports VoteLaws
begin

text \<open>
  What the voting functions leave alone besides the voters' own entries: a changed vote moves only the
  vote counts of producers, the total vote weight and the activated stake.
\<close>

definition gst_core :: "eosio_global_state \<Rightarrow> eosio_global_state" where
  "gst_core g = g\<lparr>total_producer_vote_weight := 0, total_activated_stake := 0, thresh_activated_stake_time := 0\<rparr>"

definition prods :: "vote_state \<Rightarrow> name \<Rightarrow> producer_info option" where
  "prods s k = map_option (\<lambda>p. p\<lparr>total_votes := 0\<rparr>) (t_get (producers s) k)"

text \<open>
  Every row of a producer stands under its owner's name, and its votes are a number: the host takes no
  NaN as a key of the index by votes.
\<close>

definition rows_ok :: "vote_state \<Rightarrow> bool" where
  "rows_ok s \<longleftrightarrow> (\<forall>k p. t_get (producers s) k = Some p \<longrightarrow> p_owner p = k \<and> total_votes p \<noteq> NaN)"

definition vote_keeps :: "vote_state \<Rightarrow> vote_state \<Rightarrow> bool" where
  "vote_keeps s s' \<longleftrightarrow> gst_core (gst s') = gst_core (gst s) \<and> prods s' = prods s \<and> (rows_ok s \<longrightarrow> rows_ok s')"

lemma by_votes_NaN [simp]: "by_votes p = NaN \<longleftrightarrow> total_votes p = NaN"
  by (cases "total_votes p") (auto simp: by_votes_def)

lemma rows_ok_cong: "producers s' = producers s \<Longrightarrow> rows_ok s' = rows_ok s"
  by (simp add: rows_ok_def)

lemma rows_okD: "rows_ok s \<Longrightarrow> t_get (producers s) k = Some p \<Longrightarrow> p_owner p = k \<and> total_votes p \<noteq> NaN"
  by (simp add: rows_ok_def)

lemma rows_ok_set:
  "rows_ok s \<Longrightarrow> p_owner p = k \<Longrightarrow> total_votes p \<noteq> NaN \<Longrightarrow> producers s' = t_set k p (producers s) \<Longrightarrow> rows_ok s'"
  by (auto simp: rows_ok_def)

lemma rows_ok_del: "rows_ok s \<Longrightarrow> producers s' = t_del k (producers s) \<Longrightarrow> rows_ok s'"
  by (auto simp: rows_ok_def split: if_splits)

lemma gst_core_simps [simp]:
  "gst_core (g\<lparr>total_producer_vote_weight := x\<rparr>) = gst_core g"
  "gst_core (g\<lparr>total_activated_stake := a\<rparr>) = gst_core g"
  "gst_core (g\<lparr>thresh_activated_stake_time := t\<rparr>) = gst_core g"
  by (simp_all add: gst_core_def)

lemma gst_coreD:
  assumes "gst_core g' = gst_core g"
  shows "total_ram_bytes_reserved g' = total_ram_bytes_reserved g" "total_ram_stake g' = total_ram_stake g"
    "total_unpaid_blocks g' = total_unpaid_blocks g" "max_ram_size g' = max_ram_size g"
    "total_unpaid_votes g' = total_unpaid_votes g"
  using assms by (auto simp: gst_core_def dest: arg_cong [where f = total_ram_bytes_reserved]
      arg_cong [where f = total_ram_stake] arg_cong [where f = total_unpaid_blocks]
      arg_cong [where f = max_ram_size] arg_cong [where f = total_unpaid_votes])

lemma vote_keeps_refl [simp]: "vote_keeps s s"
  by (simp add: vote_keeps_def)

lemma vote_keeps_trans [trans]: "vote_keeps s s' \<Longrightarrow> vote_keeps s' s'' \<Longrightarrow> vote_keeps s s''"
  by (simp add: vote_keeps_def)

lemma prods_cong: "producers s' = producers s \<Longrightarrow> prods s' = prods s"
  by (rule ext) (simp add: prods_def)

lemma prods_simps [simp]:
  "prods (put_voter k v s) = prods s" "prods (s\<lparr>gst := g\<rparr>) = prods s"
  "prods (snd (update_total_votepay_share ct a r s)) = prods s"
  "prods (snd (update_total_witnesspay_share ct a r s)) = prods s"
  by (rule prods_cong, simp)+

lemma rows_ok_simps [simp]:
  "rows_ok (put_voter k v s) = rows_ok s" "rows_ok (s\<lparr>gst := g\<rparr>) = rows_ok s" "rows_ok (s\<lparr>gst2 := g2\<rparr>) = rows_ok s"
  "rows_ok (s\<lparr>gst2 := g2, gst3 := g3\<rparr>) = rows_ok s" "rows_ok (s\<lparr>producers2 := p2\<rparr>) = rows_ok s" "rows_ok (s\<lparr>producers3 := p3\<rparr>) = rows_ok s"
  "rows_ok (snd (update_total_votepay_share ct a r s)) = rows_ok s"
  "rows_ok (snd (update_total_witnesspay_share ct a r s)) = rows_ok s"
  by (rule rows_ok_cong, simp)+

lemma vote_keeps_same: "producers s' = producers s \<Longrightarrow> gst_core (gst s') = gst_core (gst s) \<Longrightarrow> vote_keeps s s'"
  unfolding vote_keeps_def using prods_cong [of s' s] rows_ok_cong [of s' s] by blast

lemma prods_put_votes:
  "t_get (producers s) k = Some p \<Longrightarrow> prods (s\<lparr>producers := t_set k (p\<lparr>total_votes := w\<rparr>) (producers s)\<rparr>) = prods s"
  by (rule ext) (simp add: prods_def)

lemma vote_keeps_put_voter: "vote_keeps s (put_voter k v s') \<longleftrightarrow> vote_keeps s s'"
  "vote_keeps (put_voter k v s) s' \<longleftrightarrow> vote_keeps s s'"
  by (simp_all add: vote_keeps_def)

lemma put_votes_keeps:
  assumes "t_get (producers s) k = Some p" "put_producer k (p\<lparr>total_votes := w\<rparr>) s = Inr s1"
    "account_votepay k ct lc tv d (s1\<lparr>gst := (gst s1)\<lparr>total_producer_vote_weight := x\<rparr>\<rparr>, r, i) = Inr (s', r', i')"
  shows "vote_keeps s s'"
proof -
  have s1: "s1 = s\<lparr>producers := t_set k (p\<lparr>total_votes := w\<rparr>) (producers s)\<rparr>"
    using assms(2) by (simp add: put_producer_iff)
  have "prods s1 = prods s" using prods_put_votes [OF assms(1)] by (simp add: s1)
  moreover have "prods s' = prods s1" "gst_core (gst s') = gst_core (gst s)"
    using account_votepay_voters [OF assms(3)] by (auto simp: s1 prods_def)
  moreover have "rows_ok s'" if "rows_ok s"
    using account_votepay_voters [OF assms(3)] rows_okD [OF that assms(1)] put_producer_iff assms(2)
    by (intro rows_ok_set [OF that, of "p\<lparr>total_votes := w\<rparr>" k]) (auto simp: s1)
  ultimately show ?thesis by (simp add: vote_keeps_def)
qed

lemma propagate_one_keeps: "propagate_one ct d k (s, r, i) = Inr (s', r', i') \<Longrightarrow> vote_keeps s s'"
  by (auto simp: propagate_one_def Let_def res_simps(1,4) dest: put_votes_keeps)

lemma apply_delta_keeps:
  assumes "apply_delta ct voting pd (s, r, i) = Inr (s', r', i')"
  shows "vote_keeps s s'"
proof -
  obtain k d new where pd: "pd = (k, d, new)" by (cases pd) auto
  show ?thesis
    using assms unfolding pd
    by (cases "t_get (producers s) k")
      (auto simp: apply_delta_def Let_def rbind_Inr_iff check_Inr_iff dest: put_votes_keeps)
qed

lemma fold_keeps:
  assumes "rfold f xs (s, a) = Inr (s', a')"
    and "\<And>x s a s' a'. f x (s, a) = Inr (s', a') \<Longrightarrow> vote_keeps s s'"
  shows "vote_keeps s s'"
  using rfold_inv [OF assms(1), of "\<lambda>acc. vote_keeps s (fst acc)"] assms(2) vote_keeps_trans by fastforce

lemma propagate_keeps: "propagate_weight_change n ct k s = Inr s' \<Longrightarrow> vote_keeps s s'"
proof (induction n arbitrary: k s s')
  case (Suc n)
  obtain v where v: "t_get (voters s) k = Some v" using Suc.prems by (auto simp: res_simps)
  define d where "d = voter_weight s v - last_vote_weight v"
  consider (none) "\<not> dabs d > 1" | (root) "dabs d > 1" "proxy v = 0" | (up) "dabs d > 1" "proxy v \<noteq> 0" by auto
  then show ?case
  proof cases
    case none
    then show ?thesis using Suc.prems v by (auto simp: res_simps Let_def d_def vote_keeps_put_voter)
  next
    case root
    then obtain a r i v2 where f: "rfold (propagate_one ct d) (vote_list v) (s, 0, 0) = Inr (a, r, i)"
      and s': "s' = put_voter k (v2\<lparr>last_vote_weight := voter_weight s v\<rparr>) (snd (update_total_votepay_share ct (- i) r a))"
      using Suc.prems v by (auto simp: res_simps Let_def d_def)
    have "vote_keeps s a" using propagate_one_keeps by (auto intro: fold_keeps [OF f])
    then show ?thesis by (simp add: s' vote_keeps_put_voter) (simp add: vote_keeps_def)
  next
    case up
    then obtain p s2 v2 where
      r: "propagate_weight_change n ct (proxy v) (put_voter (proxy v) (p\<lparr>proxied_vote_weight := proxied_vote_weight p + d\<rparr>) s) = Inr s2"
      and s': "s' = put_voter k (v2\<lparr>last_vote_weight := voter_weight s v\<rparr>) s2"
      using Suc.prems v by (auto simp: res_simps Let_def d_def)
    from Suc.IH [OF r] show ?thesis by (simp add: s' vote_keeps_put_voter)
  qed
qed simp

lemma activate_stake_simps [simp]:
  "voters (activate_stake ct v s) = voters s" "producers (activate_stake ct v s) = producers s"
  "vote_keeps s (activate_stake ct v s)" "cores (activate_stake ct v s) = cores s"
  by (simp_all add: activate_stake_def Let_def vote_keeps_def cores_def fun_eq_iff)

lemma undo_vote_frame:
  assumes "undo_vote ct k s = Inr (s', d)"
  shows "vote_keeps s s' \<and> cores s' = cores s"
proof -
  obtain v where v: "t_get (voters s) k = Some v" using assms by (auto simp: undo_vote_def res_simps)
  show ?thesis
  proof (cases "last_vote_weight v > 0 \<and> proxy v \<noteq> 0")
    case True
    then obtain p where p: "t_get (voters s) (proxy v) = Some p"
      and r: "propagate ct (proxy v) (put_voter (proxy v)
        (p\<lparr>proxied_vote_weight := proxied_vote_weight p - last_vote_weight v\<rparr>) s) = Inr s'"
      using assms v by (auto simp: undo_vote_def res_simps)
    show ?thesis
      using propagate_keeps [OF r [unfolded propagate_def]] propagate_cores [OF r [unfolded propagate_def]]
        put_weight_cores [OF p] by (simp add: vote_keeps_put_voter)
  qed (use assms v in \<open>auto simp: undo_vote_def res_simps split: if_splits\<close>)
qed

lemma cast_vote_frame:
  assumes "cast_vote ct prx ps voting w (s, d) = Inr (s', d')"
  shows "vote_keeps s s' \<and> cores s' = cores s \<and>
    (prx \<noteq> 0 \<longrightarrow> (\<exists>np. t_get (voters s) prx = Some np \<and> (voting \<longrightarrow> is_proxy np)))"
proof (cases "prx \<noteq> 0 \<and> w \<ge> 0")
  case True
  then obtain np where p: "t_get (voters s) prx = Some np" "\<not> voting \<or> is_proxy np"
    and r: "propagate ct prx (put_voter prx (np\<lparr>proxied_vote_weight := proxied_vote_weight np + w\<rparr>) s) = Inr s'"
    using assms by (auto simp: cast_vote_def res_simps)
  show ?thesis
    using propagate_keeps [OF r [unfolded propagate_def]] propagate_cores [OF r [unfolded propagate_def]]
      put_weight_cores [OF p(1)] p by (auto simp: vote_keeps_put_voter)
qed (use assms in \<open>auto simp: cast_vote_def res_simps split: if_splits\<close>)

text \<open>A change of votes, step by step.\<close>

lemma update_votes_frame:
  assumes "update_votes ct voter prx ps voting s = Inr s'"
  obtains v w where "t_get (voters s) voter = Some v" "prx = 0 \<or> \<not> is_proxy v" "valid_vote voter prx ps = Inr ()"
    "vote_keeps s s'" "cores s' = (cores s)(voter := Some (voter_core (v\<lparr>vote_list := ps, proxy := prx\<rparr>)))"
    "voter_weight (activate_stake ct v s) v = w" "\<exists>v'. t_get (voters s') voter = Some v' \<and> last_vote_weight v' = w"
    "prx \<noteq> 0 \<longrightarrow> voting \<longrightarrow> (\<exists>np. t_get (voters s) prx = Some np \<and> is_proxy np)"
proof -
  obtain v where v: "t_get (voters s) voter = Some v" "prx = 0 \<or> \<not> is_proxy v" "valid_vote voter prx ps = Inr ()"
    using assms by (auto simp: update_votes_def rbind_Inr_iff rget_Inr_iff check_Inr_iff)
  define s1 where "s1 = activate_stake ct v s"
  define w where "w = voter_weight s1 v"
  obtain su du sc dc s3 rate inactive s4 wrate v6 where
    u: "undo_vote ct voter s1 = Inr (su, du)" and c: "cast_vote ct prx ps voting w (su, du) = Inr (sc, dc)"
    and a: "rfold (apply_delta ct voting) (t_list dc) (sc, 0, 0) = Inr (s3, rate, inactive)"
    and sh: "shift_witnesses ct (witnesses s) (witnesses s3) s3 = Inr (s4, wrate)"
    and v6: "t_get (voters s4) voter = Some v6"
    and s': "s' = put_voter voter (v6\<lparr>last_vote_weight := w, vote_list := ps, proxy := prx\<rparr>)
      (snd (update_total_votepay_share ct (- inactive) rate (snd (update_total_witnesspay_share ct 0 wrate s4))))"
    using assms v by (auto simp: update_votes_def Let_def rbind_Inr_iff rget_Inr_iff check_Inr_iff voter_row_iff s1_def w_def)
  note U = undo_vote_frame [OF u] and C = cast_vote_frame [OF c]
  have a': "vote_keeps sc s3" "voters s3 = voters sc"
    using fold_keeps [OF a] apply_delta_keeps apply_deltas_voters [OF a] by auto
  have vk: "vote_keeps s s1" "cores s1 = cores s" by (simp_all add: s1_def)
  have sh': "voters s4 = voters s3" "producers s4 = producers s3" "gst s4 = gst s3"
    using shift_witnesses_voters [OF sh] by auto
  have c4: "cores s4 = cores s" using U C vk(2) cores_cong [of s4 sc] a'(2) sh'(1) by simp
  have "vote_keeps s sc" using U C vk(1) vote_keeps_trans by blast
  then have k4: "vote_keeps s s4"
    using vote_keeps_trans [OF vote_keeps_trans [OF _ a'(1)] vote_keeps_same [OF sh'(2)]] sh'(3) by simp
  have six: "voter_core v6 = voter_core v"
    using fun_cong [OF c4, of voter] v(1) v6 by (simp add: cores_def)
  have "cores s' = (cores s)(voter := Some (voter_core (v\<lparr>vote_list := ps, proxy := prx\<rparr>)))"
    using c4 six unfolding s' cores_put_voter by (simp add: cores_def fun_eq_iff voter_core_def)
  moreover have "vote_keeps s s'" unfolding s' vote_keeps_put_voter using k4 by (simp add: vote_keeps_def)
  moreover have "\<exists>np. t_get (voters s) prx = Some np \<and> is_proxy np" if pv: "prx \<noteq> 0" voting
  proof -
    obtain np where np: "t_get (voters su) prx = Some np" "is_proxy np" using C pv by blast
    have "cores s prx = Some (voter_core np)" using np(1) U vk(2) by (metis (no_types) cores_def option.map(2))
    then show ?thesis using np(2) by (auto simp: cores_def voter_core_def)
  qed
  ultimately show ?thesis
    using v by (intro that [of v w]) (auto simp: s' w_def s1_def)
qed

end
