(* ===== verification/RexPool.thy ===== *)
theory RexPool
  imports SysState
begin

text \<open>
  \<open>rex.cpp\<close> on the REX part of the state: the lending pool and its Bancor price, the users' funds,
  REX balances with their maturity buckets, and loans. \<open>cs\<close> is the core symbol.
\<close>

section \<open>Arithmetic\<close>

text \<open>\<open>( uint128_t(a) * b ) / c\<close> stored into an \<open>int64_t\<close>.\<close>

definition mul_div :: "int \<Rightarrow> int \<Rightarrow> int \<Rightarrow> i64 res" where
  "mul_div a b c = guard_res (u128 c \<noteq> 0) (Undefined ''division by zero'')
     (Inr (wrap64 (u128 (u128 a * u128 b) div u128 c)))"

definition get_bancor_output :: "i64 \<Rightarrow> i64 \<Rightarrow> i64 \<Rightarrow> i64 res" where
  "get_bancor_output conin conout inp =
     (let F0 = to_double conin; T0 = to_double conout; I = to_double inp in
      rbind (to_i64 ((I * T0) / (I + F0))) (\<lambda>out. Inr (if out < 0 then 0 else out)))"

section \<open>The pool\<close>

definition pool_row :: "rex_state \<Rightarrow> rex_pool res" where
  "pool_row r = rget (Undefined ''end iterator'') (rexpool r)"

definition put_pool :: "rex_pool \<Rightarrow> rex_state \<Rightarrow> rex_state" where
  "put_pool p r = r\<lparr>rexpool := Some p\<rparr>"

definition rex_system_initialized :: "rex_state \<Rightarrow> bool" where
  "rex_system_initialized r \<longleftrightarrow> rexpool r \<noteq> None"

definition rex_available :: "rex_state \<Rightarrow> bool" where
  "rex_available r \<longleftrightarrow> (case rexpool r of None \<Rightarrow> False | Some p \<Rightarrow> amount (total_rex p) > 0)"

definition orders_by_time :: "rex_state \<Rightarrow> rex_order list" where
  "orders_by_time r = t_index (\<lambda>a b. by_time a < by_time b) (rexorders r)"

definition rex_loans_available :: "rex_state \<Rightarrow> bool" where
  "rex_loans_available r \<longleftrightarrow> rex_available r \<and>
     (case orders_by_time r of [] \<Rightarrow> True | ord # _ \<Rightarrow> \<not> is_open ord)"

definition pool_add_loan :: "asset \<Rightarrow> i64 \<Rightarrow> bool \<Rightarrow> rex_pool \<Rightarrow> rex_pool" where
  "pool_add_loan pay rented_tokens new_loan p =
     (let unlent = add_amt (amount pay) (add_amt (- rented_tokens) (total_unlent p));
        lent = add_amt rented_tokens (total_lent p)
      in p\<lparr>total_rent := add_amt (amount pay) (total_rent p), total_unlent := unlent, total_lent := lent,
         total_lendable := set_amt (wrap64 (amount unlent + amount lent)) (total_lendable p),
         pool_loan_num := (if new_loan then u64 (pool_loan_num p + 1) else pool_loan_num p)\<rparr>)"

definition add_loan_to_rex_pool :: "asset \<Rightarrow> i64 \<Rightarrow> bool \<Rightarrow> rex_state \<Rightarrow> rex_state res" where
  "add_loan_to_rex_pool pay rented_tokens new_loan r =
     rbind (pool_row r) (\<lambda>p. Inr (put_pool (pool_add_loan pay rented_tokens new_loan p) r))"

definition pool_remove_loan :: "i64 \<Rightarrow> i64 \<Rightarrow> rex_pool \<Rightarrow> rex_pool" where
  "pool_remove_loan delta_total_rent stake p =
     (let unlent = add_amt stake (total_unlent p); lent = add_amt (- stake) (total_lent p)
      in p\<lparr>total_rent := add_amt (- delta_total_rent) (total_rent p), total_unlent := unlent, total_lent := lent,
         total_lendable := set_amt (wrap64 (amount unlent + amount lent)) (total_lendable p)\<rparr>)"

definition remove_loan_from_rex_pool :: "rex_loan \<Rightarrow> rex_state \<Rightarrow> rex_state res" where
  "remove_loan_from_rex_pool loan r =
     rbind (pool_row r) (\<lambda>p.
     rbind (get_bancor_output (amount (total_unlent p)) (amount (total_rent p)) (amount (total_staked loan))) (\<lambda>d.
     Inr (put_pool (pool_remove_loan d (amount (total_staked loan)) p) r)))"

definition pool_channel :: "asset \<Rightarrow> rex_pool \<Rightarrow> rex_pool" where
  "pool_channel q p = p\<lparr>total_unlent := add_amt (amount q) (total_unlent p),
     total_lendable := add_amt (amount q) (total_lendable p)\<rparr>"

definition channel_namebid_to_rex :: "i64 \<Rightarrow> rex_state \<Rightarrow> rex_state" where
  "channel_namebid_to_rex highest_bid r =
     (if rex_available r
      then r\<lparr>rexpool := map_option (\<lambda>p. p\<lparr>namebid_proceeds := add_amt highest_bid (namebid_proceeds p)\<rparr>) (rexpool r)\<rparr>
      else r)"

definition rex_ratio :: int where "rex_ratio = 10000"
definition init_total_rent :: i64 where "init_total_rent = 200000000"

definition pool_new :: "symbol \<Rightarrow> asset \<Rightarrow> asset \<Rightarrow> rex_pool" where
  "pool_new cs pay unlent = \<lparr>total_lent = mk_asset 0 cs, total_unlent = unlent,
     total_rent = mk_asset init_total_rent cs, total_lendable = pay,
     total_rex = mk_asset (wrap64 (amount pay * rex_ratio)) rex_symbol,
     namebid_proceeds = mk_asset 0 cs, pool_loan_num = 0\<rparr>"

definition pool_restart :: "asset \<Rightarrow> rex_pool \<Rightarrow> rex_pool" where
  "pool_restart pay p = p\<lparr>total_lendable := set_amt (amount pay) (total_lendable p),
     total_lent := set_amt 0 (total_lent p), total_unlent := set_amt (amount pay) (total_unlent p),
     total_rent := set_amt init_total_rent (total_rent p),
     total_rex := set_amt (wrap64 (amount pay * rex_ratio)) (total_rex p)\<rparr>"

definition pool_buy :: "i64 \<Rightarrow> i64 \<Rightarrow> rex_pool \<Rightarrow> rex_pool" where
  "pool_buy S1 R1 p = p\<lparr>total_lendable := set_amt S1 (total_lendable p), total_rex := set_amt R1 (total_rex p),
     total_unlent := set_amt (wrap64 (S1 - amount (total_lent p))) (total_unlent p)\<rparr>"

definition add_to_rex_pool :: "'z env_scheme \<Rightarrow> symbol \<Rightarrow> asset \<Rightarrow> rex_state \<Rightarrow> (asset \<times> rex_state) res" where
  "add_to_rex_pool E cs pay r =
     (case rexpool r of
        None \<Rightarrow>
          rbind (asset_minus E pay (mk_asset 0 cs)) (\<lambda>unlent.
          Inr (mk_asset (wrap64 (amount pay * rex_ratio)) rex_symbol, put_pool (pool_new cs pay unlent) r))
      | Some p \<Rightarrow>
          if \<not> rex_available r
          then Inr (mk_asset (wrap64 (amount pay * rex_ratio)) rex_symbol, put_pool (pool_restart pay p) r)
          else check (amount (total_lendable p) > 0) ''lendable REX pool is empty'' (
               let S0 = amount (total_lendable p); S1 = wrap64 (S0 + amount pay); R0 = amount (total_rex p) in
               rbind (mul_div S1 R0 S0) (\<lambda>R1.
               check (wrap64 (S1 - amount (total_lent p)) \<ge> 0) ''programmer error, this should never go negative'' (
               Inr (mk_asset (wrap64 (R1 - R0)) rex_symbol, put_pool (pool_buy S1 R1 p) r)))))"

section \<open>Funds\<close>

definition transfer_from_fund :: "'z env_scheme \<Rightarrow> symbol \<Rightarrow> name \<Rightarrow> asset \<Rightarrow> rex_state \<Rightarrow> rex_state res" where
  "transfer_from_fund E cs owner q r =
     check (0 < amount q \<and> symb q = cs) ''must transfer positive amount from REX fund'' (
     rbind (rget (NoRow ''must deposit to REX fund first'') (t_get (rexfunds r) owner)) (\<lambda>f.
     rbind (asset_le E q f) (\<lambda>le.
     check le ''insufficient funds'' (
     Inr (r\<lparr>rexfunds := t_set owner (add_amt (- amount q) f) (rexfunds r)\<rparr>)))))"

definition transfer_to_fund :: "symbol \<Rightarrow> name \<Rightarrow> asset \<Rightarrow> rex_state \<Rightarrow> rex_state res" where
  "transfer_to_fund cs owner q r =
     check (0 < amount q \<and> symb q = cs) ''must transfer positive amount to REX fund'' (
     case t_get (rexfunds r) owner of
       None \<Rightarrow> Inr (r\<lparr>rexfunds := t_set owner q (rexfunds r)\<rparr>)
     | Some f \<Rightarrow> Inr (r\<lparr>rexfunds := t_set owner (add_amt (amount q) f) (rexfunds r)\<rparr>))"

section \<open>Balances and maturities\<close>

text \<open>The iterator \<open>bitr\<close> of a balance is modelled by its key.\<close>

definition bal_row :: "name \<Rightarrow> rex_state \<Rightarrow> rex_balance res" where
  "bal_row owner r = rget (Undefined ''end iterator'') (t_get (rexbalance r) owner)"

definition put_bal :: "name \<Rightarrow> rex_balance \<Rightarrow> rex_state \<Rightarrow> rex_state" where
  "put_bal owner b r = r\<lparr>rexbalance := t_set owner b (rexbalance r)\<rparr>"

definition seconds_per_day :: int where "seconds_per_day = 24 * 3600"

definition get_rex_maturity :: "'z env_scheme \<Rightarrow> uint" where
  "get_rex_maturity E = (let now = time_sec E (current_time E) in
     u32 (now - now mod seconds_per_day + 5 * seconds_per_day))"

fun mature :: "uint \<Rightarrow> i64 \<Rightarrow> (uint \<times> i64) list \<Rightarrow> i64 \<times> (uint \<times> i64) list" where
  "mature now m [] = (m, [])"
| "mature now m ((t, x) # bs) = (if t \<le> now then mature now (wrap64 (m + x)) bs else (m, (t, x) # bs))"

definition process_rex_maturities :: "'z env_scheme \<Rightarrow> rex_balance \<Rightarrow> rex_balance" where
  "process_rex_maturities E b = (let (m, bs) = mature (time_sec E (current_time E)) (matured_rex b) (rex_maturities b)
     in b\<lparr>matured_rex := m, rex_maturities := bs\<rparr>)"

text \<open>The buckets of a balance are a deque: the last one is \<open>back()\<close>.\<close>

definition add_bucket :: "uint \<Rightarrow> i64 \<Rightarrow> (uint \<times> i64) list \<Rightarrow> (uint \<times> i64) list" where
  "add_bucket t x bs = (if bs \<noteq> [] \<and> fst (last bs) = t then butlast bs @ [(t, wrap64 (snd (last bs) + x))]
     else bs @ [(t, x)])"

definition end_of_days :: uint where "end_of_days = 2 ^ 32 - 1"

definition read_rex_savings :: "rex_balance \<Rightarrow> i64 \<times> rex_balance" where
  "read_rex_savings b = (let bs = rex_maturities b in
     if bs \<noteq> [] \<and> fst (last bs) = end_of_days
     then (snd (last bs), b\<lparr>rex_maturities := butlast bs\<rparr>) else (0, b))"

definition put_rex_savings :: "i64 \<Rightarrow> rex_balance \<Rightarrow> rex_balance" where
  "put_rex_savings x b = (if x = 0 then b else b\<lparr>rex_maturities := add_bucket end_of_days x (rex_maturities b)\<rparr>)"

definition consolidate_rex_balance :: "'z env_scheme \<Rightarrow> asset \<Rightarrow> rex_balance \<Rightarrow> rex_balance" where
  "consolidate_rex_balance E rex_in_sell_order b =
     (let (sav, b1) = read_rex_savings b;
        total = foldl (\<lambda>t x. wrap64 (t + snd x)) (wrap64 (matured_rex b1 - amount rex_in_sell_order)) (rex_maturities b1);
        b2 = b1\<lparr>matured_rex := amount rex_in_sell_order,
                rex_maturities := (if total > 0 then [(get_rex_maturity E, total)] else [])\<rparr>
      in put_rex_savings sav b2)"

definition add_to_rex_balance :: "'z env_scheme \<Rightarrow> symbol \<Rightarrow> name \<Rightarrow> asset \<Rightarrow> asset \<Rightarrow> rex_state \<Rightarrow> (asset \<times> rex_state) res" where
  "add_to_rex_balance E cs owner pay rex_received r =
     rbind (case t_get (rexbalance r) owner of
        None \<Rightarrow> Inr (mk_asset 0 cs, mk_asset (amount pay) cs,
            \<lparr>vote_stake = pay, rex_amount = rex_received, matured_rex = 0, rex_maturities = []\<rparr>)
      | Some b \<Rightarrow>
          rbind (pool_row r) (\<lambda>p.
          let ra = add_amt (amount rex_received) (rex_amount b) in
          rbind (mul_div (amount ra) (amount (total_lendable p)) (amount (total_rex p))) (\<lambda>v.
          Inr (mk_asset (amount (vote_stake b)) cs, mk_asset v cs,
            b\<lparr>rex_amount := ra, vote_stake := set_amt v (vote_stake b)\<rparr>))))
     (\<lambda>(init_rex_stake, current_rex_stake, b).
     let (sav, b1) = read_rex_savings b;
       b2 = process_rex_maturities E b1;
       b3 = b2\<lparr>rex_maturities := add_bucket (get_rex_maturity E) (amount rex_received) (rex_maturities b2)\<rparr>
     in rbind (asset_minus E current_rex_stake init_rex_stake) (\<lambda>d.
        Inr (d, put_bal owner (put_rex_savings sav b3) r)))"

section \<open>Sell orders\<close>

definition pool_sell :: "i64 \<Rightarrow> i64 \<Rightarrow> rex_pool \<Rightarrow> rex_pool" where
  "pool_sell S1 R1 p = p\<lparr>total_rex := set_amt R1 (total_rex p), total_lendable := set_amt S1 (total_lendable p),
     total_unlent := set_amt (wrap64 (S1 - amount (total_lent p))) (total_unlent p)\<rparr>"

definition fill_rex_order :: "'z env_scheme \<Rightarrow> symbol \<Rightarrow> name \<Rightarrow> asset \<Rightarrow> rex_state \<Rightarrow> (rex_order_outcome \<times> rex_state) res" where
  "fill_rex_order E cs owner rex r =
     rbind (pool_row r) (\<lambda>p.
     rbind (bal_row owner r) (\<lambda>b.
     let S0 = amount (total_lendable p); R0 = amount (total_rex p) in
     rbind (mul_div (amount rex) S0 R0) (\<lambda>x.
     let R1 = wrap64 (R0 - amount rex); S1 = wrap64 (S0 - x) in
     rbind (asset_new E x cs) (\<lambda>pr.
     let unlent_lower_bound = wrap64 (u128 (2 * u128 (amount (total_lent p))) div 10);
       available_unlent = wrap64 (amount (total_unlent p) - unlent_lower_bound)
     in if x \<le> available_unlent
        then rbind (mul_div (amount (rex_amount b)) S0 R0) (\<lambda>current_stake_value.
          let b1 = b\<lparr>vote_stake := set_amt (wrap64 (current_stake_value - x)) (vote_stake b),
                rex_amount := add_amt (- amount rex) (rex_amount b),
                matured_rex := wrap64 (matured_rex b - amount rex)\<rparr>
          in Inr (\<lparr>success = True, out_proceeds = pr,
                   out_stake_change = mk_asset (wrap64 (amount (vote_stake b1) - amount (vote_stake b))) cs\<rparr>,
                  put_bal owner b1 (put_pool (pool_sell S1 R1 p) r)))
        else Inr (\<lparr>success = False, out_proceeds = set_amt 0 pr, out_stake_change = mk_asset 0 cs\<rparr>, r)))))"

section \<open>Loans\<close>

datatype loan_kind = CPU | NET

fun loans :: "loan_kind \<Rightarrow> rex_state \<Rightarrow> (uint, rex_loan) table" where
  "loans CPU r = cpu_loans r"
| "loans NET r = net_loans r"

fun set_loans :: "loan_kind \<Rightarrow> (uint, rex_loan) table \<Rightarrow> rex_state \<Rightarrow> rex_state" where
  "set_loans CPU t r = r\<lparr>cpu_loans := t\<rparr>"
| "set_loans NET t r = r\<lparr>net_loans := t\<rparr>"

definition fund_rex_loan :: "'z env_scheme \<Rightarrow> symbol \<Rightarrow> loan_kind \<Rightarrow> name \<Rightarrow> uint \<Rightarrow> asset \<Rightarrow> rex_state \<Rightarrow> rex_state res" where
  "fund_rex_loan E cs k from num pay r =
     check (symb pay = cs) ''must use core token'' (
     rbind (transfer_from_fund E cs from pay r) (\<lambda>r1.
     rbind (rget (NoRow ''loan not found'') (t_get (loans k r1) num)) (\<lambda>l.
     check (loan_from l = from) ''user must be loan creator'' (
     check (expiration l > current_time E) ''loan has already expired'' (
     Inr (set_loans k (t_set num (l\<lparr>loan_balance := add_amt (amount pay) (loan_balance l)\<rparr>) (loans k r1)) r1))))))"

definition defund_rex_loan :: "'z env_scheme \<Rightarrow> symbol \<Rightarrow> loan_kind \<Rightarrow> name \<Rightarrow> uint \<Rightarrow> asset \<Rightarrow> rex_state \<Rightarrow> rex_state res" where
  "defund_rex_loan E cs k from num q r =
     check (symb q = cs) ''must use core token'' (
     rbind (rget (NoRow ''loan not found'') (t_get (loans k r) num)) (\<lambda>l.
     check (loan_from l = from) ''user must be loan creator'' (
     check (expiration l > current_time E) ''loan has already expired'' (
     rbind (asset_le E q (loan_balance l)) (\<lambda>le.
     check le ''insufficent loan balance'' (
     transfer_to_fund cs from q
       (set_loans k (t_set num (l\<lparr>loan_balance := add_amt (- amount q) (loan_balance l)\<rparr>) (loans k r)) r)))))))"

definition update_renewed_loan :: "i64 \<Rightarrow> rex_loan \<Rightarrow> i64 \<times> rex_loan" where
  "update_renewed_loan rented_tokens l =
     (wrap64 (rented_tokens - amount (total_staked l)),
      l\<lparr>total_staked := set_amt rented_tokens (total_staked l), expiration := wrap64 (expiration l + days 30),
        loan_balance := add_amt (- amount (payment l)) (loan_balance l)\<rparr>)"

text \<open>
  \<open>process_expired_loan\<close> of \<open>runrex\<close>: whether the loan is deleted, by how much its stake changes, and
  the state with the loan's new row. Writing the row back and the effect on the receiver's limits are
  the caller's.
\<close>

definition process_expired_loan :: "'z env_scheme \<Rightarrow> symbol \<Rightarrow> loan_kind \<Rightarrow> rex_loan \<Rightarrow> rex_state \<Rightarrow> ((bool \<times> i64) \<times> rex_state) res" where
  "process_expired_loan E cs k l r =
     rbind (remove_loan_from_rex_pool l r) (\<lambda>r1.
     rbind (pool_row r1) (\<lambda>p.
     rbind (get_bancor_output (amount (total_rent p)) (amount (total_unlent p)) (amount (payment l))) (\<lambda>rented_tokens.
     rbind (asset_le E (payment l) (loan_balance l)) (\<lambda>enough.
     if enough \<and> amount (payment l) < rented_tokens \<and> rex_loans_available r1
     then rbind (add_loan_to_rex_pool (payment l) rented_tokens False r1) (\<lambda>r2.
          let (delta_stake, l1) = update_renewed_loan rented_tokens l in
          Inr ((False, delta_stake), set_loans k (t_set (loan_num l) l1 (loans k r2)) r2))
     else rbind (if amount (loan_balance l) > 0
                 then transfer_to_fund cs (loan_from l) (loan_balance l) r1 else Inr r1) (\<lambda>r2.
          Inr ((True, wrap64 (- amount (total_staked l))), r2))))))"

end
