(* ===== verification/Exchange.thy ===== *)
theory Exchange
  imports SysState
begin

text \<open>
  \<open>exchange_state.cpp\<close>, the Bancor market of RAM. \<open>std::pow\<close> is the field \<open>dpow\<close> of the environment.
\<close>

datatype side = Base | Quote

fun conn :: "side \<Rightarrow> exchange_state \<Rightarrow> connector" where
  "conn Base m = base m"
| "conn Quote m = quote m"

fun set_conn :: "side \<Rightarrow> connector \<Rightarrow> exchange_state \<Rightarrow> exchange_state" where
  "set_conn Base c m = m\<lparr>base := c\<rparr>"
| "set_conn Quote c m = m\<lparr>quote := c\<rparr>"

definition convert_to_exchange :: "sys_env \<Rightarrow> side \<Rightarrow> asset \<Rightarrow> exchange_state \<Rightarrow> (asset \<times> exchange_state) res" where
  "convert_to_exchange E d inp m =
     (let c = conn d m;
        R = to_double (amount (ex_supply m));
        C = to_double (wrap64 (amount (conn_balance c) + amount inp));
        F = weight c;
        T = to_double (amount inp)
      in rbind (to_i64 ((- R) * (1 - dpow E (1 + T / C) F))) (\<lambda>issued.
         rbind (asset_new E issued (symb (ex_supply m))) (\<lambda>res.
         Inr (res, set_conn d (c\<lparr>conn_balance := add_amt (amount inp) (conn_balance c)\<rparr>)
                     (m\<lparr>ex_supply := add_amt issued (ex_supply m)\<rparr>)))))"

definition convert_from_exchange :: "sys_env \<Rightarrow> side \<Rightarrow> asset \<Rightarrow> exchange_state \<Rightarrow> (asset \<times> exchange_state) res" where
  "convert_from_exchange E d inp m =
     check (symb inp = symb (ex_supply m)) ''unexpected asset symbol input'' (
     let c = conn d m;
       R = to_double (wrap64 (amount (ex_supply m) - amount inp));
       C = to_double (amount (conn_balance c));
       F = 1 / weight c;
       Ein = to_double (amount inp)
     in rbind (to_i64 (C * (dpow E (1 + Ein / R) F - 1))) (\<lambda>out.
        rbind (asset_new E out (symb (conn_balance c))) (\<lambda>res.
        Inr (res, set_conn d (c\<lparr>conn_balance := add_amt (- out) (conn_balance c)\<rparr>)
                    (m\<lparr>ex_supply := add_amt (- amount inp) (ex_supply m)\<rparr>)))))"

text \<open>\<open>convert\<close> calls itself with the exchange token; two rounds suffice (\<open>Ends\<close>).\<close>

fun convert_n :: "nat \<Rightarrow> sys_env \<Rightarrow> asset \<Rightarrow> symbol \<Rightarrow> exchange_state \<Rightarrow> (asset \<times> exchange_state) res" where
  "convert_n 0 E from to m = Inl (Undefined ''out of fuel'')"
| "convert_n (Suc n) E from to m =
     (let sell_symbol = symb from; ex_symbol = symb (ex_supply m);
        base_symbol = symb (conn_balance (base m)); quote_symbol = symb (conn_balance (quote m))
      in rbind
        (if sell_symbol \<noteq> ex_symbol
         then if sell_symbol = base_symbol then convert_to_exchange E Base from m
              else if sell_symbol = quote_symbol then convert_to_exchange E Quote from m
              else Inl (Assert ''invalid sell'')
         else if to = base_symbol then convert_from_exchange E Base from m
              else if to = quote_symbol then convert_from_exchange E Quote from m
              else Inl (Assert ''invalid conversion''))
        (\<lambda>(from1, m1). if to \<noteq> symb from1 then convert_n n E from1 to m1 else Inr (from1, m1)))"

definition convert :: "sys_env \<Rightarrow> asset \<Rightarrow> symbol \<Rightarrow> exchange_state \<Rightarrow> (asset \<times> exchange_state) res" where
  "convert E from to m = convert_n 2 E from to m"

lemma conn_set_conn [simp]:
  "conn d (set_conn d c m) = c" "conn d (m\<lparr>ex_supply := x\<rparr>) = conn d m"
  "ex_supply (set_conn d c m) = ex_supply m" "conn d' (set_conn d c m) = (if d' = d then c else conn d' m)"
  by (cases d; cases d'; simp)+

lemma conn_simps [simp]: "base m = conn Base m" "quote m = conn Quote m"
  by simp_all

declare conn.simps [simp del]

lemma to_exchange_symb:
  "asset_laws E \<Longrightarrow> convert_to_exchange E d inp m = Inr (q, m') \<Longrightarrow>
   symb q = symb (ex_supply m) \<and> symb (ex_supply m') = symb (ex_supply m) \<and>
   (\<forall>d'. symb (conn_balance (conn d' m')) = symb (conn_balance (conn d' m)))"
  by (auto simp: convert_to_exchange_def Let_def res_simps asset_new_iff)

lemma from_exchange_symb:
  "asset_laws E \<Longrightarrow> convert_from_exchange E d inp m = Inr (q, m') \<Longrightarrow>
   symb q = symb (conn_balance (conn d m)) \<and> symb (ex_supply m') = symb (ex_supply m) \<and>
   (\<forall>d'. symb (conn_balance (conn d' m')) = symb (conn_balance (conn d' m)))"
  by (auto simp: convert_from_exchange_def Let_def res_simps asset_new_iff)

end
