(* ===== verification/Bandwidth.thy ===== *)
theory Bandwidth
  imports Votes RexPool Exchange
begin

text \<open>
  \<open>delegate_bandwidth.cpp\<close>: buying and selling RAM, delegating and undelegating bandwidth, refunds;
  with the functions of \<open>rex.cpp\<close> and \<open>eosio.system.cpp\<close> they need: fees channelled to REX, the
  update of resource limits and of the RAM supply.
\<close>

section \<open>Helpers\<close>

definition managed :: "32 word \<Rightarrow> name \<Rightarrow> sys_state \<Rightarrow> bool" where
  "managed fld a s \<longleftrightarrow> (case t_get (voters (vs s)) a of None \<Rightarrow> False | Some v \<Rightarrow> has_field (flags1 v) fld)"

definition set_resource_limits :: "name \<Rightarrow> i64 \<Rightarrow> i64 \<Rightarrow> i64 \<Rightarrow> sys_state \<Rightarrow> sys_state" where
  "set_resource_limits a ram net cpu s = s\<lparr>bw := (bw s)\<lparr>limits := (limits (bw s))(a := (ram, net, cpu))\<rparr>\<rparr>"

definition ram_gift_bytes :: int where "ram_gift_bytes = 1400"

definition put_userres :: "name \<Rightarrow> user_resources \<Rightarrow> sys_state \<Rightarrow> sys_state" where
  "put_userres a r s = s\<lparr>bw := (bw s)\<lparr>userres := t_set a r (userres (bw s))\<rparr>\<rparr>"

definition drop_if_empty :: "name \<Rightarrow> user_resources \<Rightarrow> sys_state \<Rightarrow> sys_state" where
  "drop_if_empty a r s =
     (if res_is_empty r then s\<lparr>bw := (bw s)\<lparr>userres := t_del a (userres (bw s))\<rparr>\<rparr> else s)"

definition sys_core :: "sys_state \<Rightarrow> symbol res" where
  "sys_core s = core_symbol (rammarket s)"

definition channel_to_rex :: "sys_env \<Rightarrow> name \<Rightarrow> asset \<Rightarrow> sys_state \<Rightarrow> sys_state" where
  "channel_to_rex E from q s =
     (if rex_available (rx s)
      then send_transfer E [from] from (lit E ''eosio.rex'') q
             (''transfer from '' @ name_str E from @ '' to eosio.rex'')
             (s\<lparr>rx := (rx s)\<lparr>rexpool := map_option (pool_channel q) (rexpool (rx s))\<rparr>\<rparr>)
      else s)"

definition update_rex_stake :: "name \<Rightarrow> sys_state \<Rightarrow> sys_state res" where
  "update_rex_stake voter s =
     (case t_get (rexbalance (rx s)) voter of
        Some b \<Rightarrow>
          if rex_available (rx s)
          then rbind (pool_row (rx s)) (\<lambda>p.
            rbind (mul_div (amount (rex_amount b)) (amount (total_lendable p)) (amount (total_rex p))) (\<lambda>cur.
            let delta_stake = wrap64 (cur - amount (vote_stake b));
              s1 = s\<lparr>rx := put_bal voter (b\<lparr>vote_stake := set_amt cur (vote_stake b)\<rparr>) (rx s)\<rparr>
            in Inr (if delta_stake \<noteq> 0
                 then case t_get (voters (vs s1)) voter of
                     None \<Rightarrow> s1
                   | Some v \<Rightarrow> s1\<lparr>vs := put_voter voter (v\<lparr>staked := wrap64 (staked v + delta_stake)\<rparr>) (vs s1)\<rparr>
                 else s1)))
          else Inr s
      | None \<Rightarrow> Inr s)"

section \<open>RAM\<close>

definition update_ram_supply :: "sys_env \<Rightarrow> sys_state \<Rightarrow> sys_state res" where
  "update_ram_supply E s =
     (let cbt = block_slot E (current_time E); g2 = gst2 (vs s); g = gst (vs s) in
      if cbt \<le> last_ram_increase g2 then Inr s
      else rbind (rget (Undefined ''end iterator'') (rammarket s)) (\<lambda>m.
        let new_ram = u32 (u32 (cbt - last_ram_increase g2) * new_ram_per_block g2) in
        Inr (s\<lparr>vs := (vs s)\<lparr>gst := g\<lparr>max_ram_size := u64 (max_ram_size g + new_ram)\<rparr>,
                             gst2 := g2\<lparr>last_ram_increase := cbt\<rparr>\<rparr>,
              rammarket := Some (m\<lparr>base := (base m)\<lparr>conn_balance := add_amt new_ram (conn_balance (base m))\<rparr>\<rparr>)\<rparr>)))"

definition fee_of :: "i64 \<Rightarrow> i64" where
  "fee_of n = cdiv (wrap64 (n + 199)) 200"

text \<open>The limits of an account whose RAM is not managed by the system follow its RAM quota.\<close>

definition sync_ram_limit :: "name \<Rightarrow> i64 \<Rightarrow> sys_state \<Rightarrow> sys_state" where
  "sync_ram_limit a bytes s =
     (if managed ram_managed a s then s
      else case limits (bw s) a of (_, net, cpu) \<Rightarrow>
        set_resource_limits a (wrap64 (bytes + ram_gift_bytes)) net cpu s)"

definition buyram :: "sys_env \<Rightarrow> name \<Rightarrow> name \<Rightarrow> asset \<Rightarrow> sys_state \<Rightarrow> sys_state res" where
  "buyram E buyer receiver quant s =
     require_auth E buyer (
     rbind (update_ram_supply E s) (\<lambda>s1.
     rbind (sys_core s1) (\<lambda>cs.
     check (symb quant = cs) ''must buy ram with core token'' (
     check (amount quant > 0) ''must purchase a positive amount'' (
     let fee = set_amt (fee_of (amount quant)) quant;
       quant_after_fee = add_amt (- amount fee) quant;
       s2 = send_transfer E [buyer, lit E ''eosio.ram''] buyer (lit E ''eosio.ram'') quant_after_fee ''buy ram'' s1;
       s3 = (if amount fee > 0
             then channel_to_rex E (lit E ''eosio.ramfee'') fee
                    (send_transfer E [buyer] buyer (lit E ''eosio.ramfee'') fee ''ram fee'' s2)
             else s2)
     in
     rbind (rget (NoRow ''ram market does not exist'') (rammarket s3)) (\<lambda>market.
     rbind (convert E quant_after_fee ram_symbol market) (\<lambda>(out, market1).
     let bytes_out = amount out in
     check (bytes_out > 0) ''must reserve a positive amount'' (
     let g = gst (vs s3);
       s4 = s3\<lparr>rammarket := Some market1, vs := (vs s3)\<lparr>gst := g\<lparr>
              total_ram_bytes_reserved := u64 (total_ram_bytes_reserved g + bytes_out),
              total_ram_stake := wrap64 (total_ram_stake g + amount quant_after_fee)\<rparr>\<rparr>\<rparr>;
       row = (case t_get (userres (bw s4)) receiver of
                None \<Rightarrow> \<lparr>net_weight = mk_asset 0 cs, cpu_weight = mk_asset 0 cs, ram_bytes = bytes_out\<rparr>
              | Some r \<Rightarrow> r\<lparr>ram_bytes := wrap64 (ram_bytes r + bytes_out)\<rparr>)
     in Inr (sync_ram_limit receiver (ram_bytes row) (put_userres receiver row s4))))))))))"

definition buyrambytes :: "sys_env \<Rightarrow> name \<Rightarrow> name \<Rightarrow> uint \<Rightarrow> sys_state \<Rightarrow> sys_state res" where
  "buyrambytes E buyer receiver bytes s =
     rbind (rget (Undefined ''end iterator'') (rammarket s)) (\<lambda>tmp.
     rbind (asset_new E bytes ram_symbol) (\<lambda>q.
     rbind (sys_core s) (\<lambda>cs.
     rbind (convert E q cs tmp) (\<lambda>(eosout, _).
     buyram E buyer receiver eosout s))))"

definition sellram :: "sys_env \<Rightarrow> name \<Rightarrow> i64 \<Rightarrow> sys_state \<Rightarrow> sys_state res" where
  "sellram E acct bytes s =
     require_auth E acct (
     rbind (update_ram_supply E s) (\<lambda>s1.
     check (bytes > 0) ''cannot sell negative byte'' (
     rbind (rget (Assert ''no resource row'') (t_get (userres (bw s1)) acct)) (\<lambda>r.
     check (ram_bytes r \<ge> bytes) ''insufficient quota'' (
     rbind (rget (Undefined ''end iterator'') (rammarket s1)) (\<lambda>market.
     rbind (asset_new E bytes ram_symbol) (\<lambda>q.
     rbind (sys_core s1) (\<lambda>cs.
     rbind (convert E q cs market) (\<lambda>(tokens_out, market1).
     check (amount tokens_out > 1) ''token amount received from selling ram is too low'' (
     let g = gst (vs s1);
       s2 = s1\<lparr>rammarket := Some market1, vs := (vs s1)\<lparr>gst := g\<lparr>
              total_ram_bytes_reserved := u64 (total_ram_bytes_reserved g - bytes),
              total_ram_stake := wrap64 (total_ram_stake g - amount tokens_out)\<rparr>\<rparr>\<rparr>
     in
     check (total_ram_stake (gst (vs s2)) \<ge> 0) ''error, attempt to unstake more tokens than previously staked'' (
     let row = r\<lparr>ram_bytes := wrap64 (ram_bytes r - bytes)\<rparr>;
       s3 = sync_ram_limit acct (ram_bytes row) (put_userres acct row s2);
       s4 = send_transfer E [lit E ''eosio.ram'', acct] (lit E ''eosio.ram'') acct tokens_out ''sell ram'' s3;
       fee = fee_of (amount tokens_out)
     in
     if fee > 0
     then rbind (asset_new E fee cs) (\<lambda>fq.
          Inr (channel_to_rex E (lit E ''eosio.ramfee'') fq
                 (send_transfer E [acct] acct (lit E ''eosio.ramfee'') fq ''sell ram fee'' s4)))
     else Inr s4)))))))))))"

section \<open>Voting power\<close>

definition seconds_per_year :: int where "seconds_per_year = 52 * 7 * 24 * 3600"

definition validate_b1_vesting :: "sys_env \<Rightarrow> i64 \<Rightarrow> unit res" where
  "validate_b1_vesting E stake =
     (let max_claimable = 1000000000000 in
      rbind (to_i64 (to_double max_claimable * to_double (time_sec E (current_time E) - 1527811200)
                     / to_double (10 * seconds_per_year))) (\<lambda>claimable.
      check (wrap64 (max_claimable - claimable) \<le> stake) ''b1 can only claim their tokens over 10 years'' (Inr ())))"

definition update_voting_power :: "sys_env \<Rightarrow> name \<Rightarrow> asset \<Rightarrow> vote_state \<Rightarrow> vote_state res" where
  "update_voting_power E voter total_update s =
     (let v = (case t_get (voters s) voter of
                 None \<Rightarrow> new_voter\<lparr>staked := amount total_update\<rparr>
               | Some v \<Rightarrow> v\<lparr>staked := wrap64 (staked v + amount total_update)\<rparr>);
        s1 = put_voter voter v s
      in
      check (0 \<le> staked v) ''stake for voting cannot be negative'' (
      rbind (if voter = lit E ''b1'' then validate_b1_vesting E (staked v) else Inr ()) (\<lambda>_.
      if vote_list v \<noteq> [] \<or> proxy v \<noteq> 0
      then update_votes (current_time E) voter (proxy v) (vote_list v) False s1
      else Inr s1)))"

section \<open>Bandwidth\<close>

text \<open>\<open>changebw\<close> in three parts: the delegation, the receiver's totals, the refund.\<close>

definition changebw_delegation :: "sys_env \<Rightarrow> name \<Rightarrow> name \<Rightarrow> asset \<Rightarrow> asset \<Rightarrow> sys_state \<Rightarrow> sys_state res" where
  "changebw_delegation E from receiver dnet dcpu s =
     rbind (case t_get (delband (bw s)) (from, receiver) of
         None \<Rightarrow> Inr \<lparr>dbw_net = dnet, dbw_cpu = dcpu\<rparr>
       | Some d \<Rightarrow>
           rbind (asset_plus E (dbw_net d) dnet) (\<lambda>n.
           rbind (asset_plus E (dbw_cpu d) dcpu) (\<lambda>c.
           Inr (d\<lparr>dbw_net := n, dbw_cpu := c\<rparr>)))) (\<lambda>d.
     check (0 \<le> amount (dbw_net d)) ''insufficient staked net bandwidth'' (
     check (0 \<le> amount (dbw_cpu d)) ''insufficient staked cpu bandwidth'' (
     Inr (s\<lparr>bw := (bw s)\<lparr>delband := (if dbw_is_empty d then t_del (from, receiver) (delband (bw s))
                                       else t_set (from, receiver) d (delband (bw s)))\<rparr>\<rparr>))))"

definition changebw_totals :: "sys_env \<Rightarrow> name \<Rightarrow> asset \<Rightarrow> asset \<Rightarrow> sys_state \<Rightarrow> sys_state res" where
  "changebw_totals E receiver dnet dcpu s =
     rbind (case t_get (userres (bw s)) receiver of
         None \<Rightarrow> Inr \<lparr>net_weight = dnet, cpu_weight = dcpu, ram_bytes = 0\<rparr>
       | Some t \<Rightarrow>
           rbind (asset_plus E (net_weight t) dnet) (\<lambda>n.
           rbind (asset_plus E (cpu_weight t) dcpu) (\<lambda>c.
           Inr (t\<lparr>net_weight := n, cpu_weight := c\<rparr>)))) (\<lambda>t.
     check (0 \<le> amount (net_weight t)) ''insufficient staked total net bandwidth'' (
     check (0 \<le> amount (cpu_weight t)) ''insufficient staked total cpu bandwidth'' (
     let s1 = put_userres receiver t s;
       s2 = (if managed net_managed receiver s1 \<and> managed cpu_managed receiver s1 then s1
             else case limits (bw s1) receiver of (ram, net, cpu) \<Rightarrow>
               set_resource_limits receiver
                 (if managed ram_managed receiver s1 then ram else max (wrap64 (ram_bytes t + ram_gift_bytes)) ram)
                 (if managed net_managed receiver s1 then net else amount (net_weight t))
                 (if managed cpu_managed receiver s1 then cpu else amount (cpu_weight t)) s1)
     in Inr (drop_if_empty receiver t s2))))"

text \<open>One half (NET or CPU) of an existing refund request: its new amount and what is left of the balance.\<close>

definition refund_half :: "sys_env \<Rightarrow> asset \<Rightarrow> asset \<Rightarrow> (asset \<times> asset) res" where
  "refund_half E r_amount bal =
     rbind (asset_minus E r_amount bal) (\<lambda>r.
     Inr (if amount r < 0 then (set_amt 0 r, set_amt (wrap64 (- amount r)) r) else (r, set_amt 0 bal)))"

definition new_refund_half :: "symbol \<Rightarrow> asset \<Rightarrow> asset \<times> asset" where
  "new_refund_half cs bal =
     (if amount bal < 0 then (set_amt (wrap64 (- amount bal)) bal, set_amt 0 bal)
      else (mk_asset 0 cs, bal))"

definition refund_delay_sec :: int where "refund_delay_sec = 3 * 24 * 3600"

text \<open>
  The refund table after the change: the balances still to be staked and whether a refund is to be
  scheduled.
\<close>

definition changebw_request :: "sys_env \<Rightarrow> symbol \<Rightarrow> name \<Rightarrow> bool \<Rightarrow> asset \<Rightarrow> asset \<Rightarrow> sys_state
    \<Rightarrow> (asset \<times> asset \<times> bool \<times> sys_state) res" where
  "changebw_request E cs from to_self dnet dcpu s =
     (if to_self \<or> wrap64 (amount dnet + amount dcpu) < 0
      then case t_get (refunds (bw s)) from of
          Some r \<Rightarrow>
            rbind (refund_half E (net_amount r) dnet) (\<lambda>(rn, bn).
            rbind (refund_half E (cpu_amount r) dcpu) (\<lambda>(rc, bc).
            let r1 = r\<lparr>request_time := (if amount dnet < 0 \<or> amount dcpu < 0
                           then time_sec E (current_time E) else request_time r),
                       net_amount := rn, cpu_amount := rc\<rparr>
            in check (0 \<le> amount rn) ''negative net refund amount'' (
               check (0 \<le> amount rc) ''negative cpu refund amount'' (
               if refund_is_empty r1
               then Inr (bn, bc, False, s\<lparr>bw := (bw s)\<lparr>refunds := t_del from (refunds (bw s))\<rparr>\<rparr>)
               else Inr (bn, bc, True, s\<lparr>bw := (bw s)\<lparr>refunds := t_set from r1 (refunds (bw s))\<rparr>\<rparr>)))))
        | None \<Rightarrow>
            if amount dnet < 0 \<or> amount dcpu < 0
            then let (rn, bn) = new_refund_half cs dnet; (rc, bc) = new_refund_half cs dcpu in
              Inr (bn, bc, True, s\<lparr>bw := (bw s)\<lparr>refunds := t_set from
                \<lparr>request_time = time_sec E (current_time E), net_amount = rn, cpu_amount = rc\<rparr> (refunds (bw s))\<rparr>\<rparr>)
            else Inr (dnet, dcpu, False, s)
      else Inr (dnet, dcpu, False, s))"

definition changebw_refund :: "sys_env \<Rightarrow> symbol \<Rightarrow> name \<Rightarrow> name \<Rightarrow> bool \<Rightarrow> asset \<Rightarrow> asset \<Rightarrow> sys_state \<Rightarrow> sys_state res" where
  "changebw_refund E cs source_stake_from from to_self dnet dcpu s =
     (if lit E ''eosio.stake'' \<noteq> source_stake_from
      then rbind (changebw_request E cs from to_self dnet dcpu s) (\<lambda>(bn, bc, need_deferred_trx, s1).
        let s2 = emit (CancelDeferred (uint from)) s1;
          s3 = (if need_deferred_trx
                then emit (SendDeferred (uint from) from refund_delay_sec (DeferRefund from)) s2 else s2)
        in rbind (asset_plus E bn bc) (\<lambda>transfer_amount.
           Inr (if 0 < amount transfer_amount
                then send_transfer E [source_stake_from] source_stake_from (lit E ''eosio.stake'')
                       transfer_amount ''stake bandwidth'' s3
                else s3)))
      else Inr s)"

definition changebw :: "sys_env \<Rightarrow> name \<Rightarrow> name \<Rightarrow> asset \<Rightarrow> asset \<Rightarrow> bool \<Rightarrow> sys_state \<Rightarrow> sys_state res" where
  "changebw E from0 receiver dnet dcpu xfer s =
     require_auth E from0 (
     check (amount dnet \<noteq> 0 \<or> amount dcpu \<noteq> 0) ''should stake non-zero amount'' (
     rbind (asset_plus E dnet dcpu) (\<lambda>total.
     check (\<bar>amount total\<bar> \<ge> max \<bar>amount dnet\<bar> \<bar>amount dcpu\<bar>) ''net and cpu deltas cannot be opposite signs'' (
     let from = (if xfer then receiver else from0) in
     rbind (changebw_delegation E from receiver dnet dcpu s) (\<lambda>s1.
     rbind (changebw_totals E receiver dnet dcpu s1) (\<lambda>s2.
     rbind (sys_core s2) (\<lambda>cs.
     rbind (changebw_refund E cs from0 from (\<not> xfer \<and> from = receiver) dnet dcpu s2) (\<lambda>s3.
     rbind (update_rex_stake from s3) (\<lambda>s4.
     on_vs (update_voting_power E from total) s4)))))))))"

definition delegatebw :: "sys_env \<Rightarrow> name \<Rightarrow> name \<Rightarrow> asset \<Rightarrow> asset \<Rightarrow> bool \<Rightarrow> sys_state \<Rightarrow> sys_state res" where
  "delegatebw E from receiver net cpu xfer s =
     rbind (sys_core s) (\<lambda>cs.
     rbind (asset_le E (mk_asset 0 cs) cpu) (\<lambda>ok_cpu.
     check ok_cpu ''must stake a positive amount'' (
     rbind (asset_le E (mk_asset 0 cs) net) (\<lambda>ok_net.
     check ok_net ''must stake a positive amount'' (
     check (wrap64 (amount net + amount cpu) > 0) ''must stake a positive amount'' (
     check (\<not> xfer \<or> from \<noteq> receiver) ''cannot use transfer flag if delegating to self'' (
     changebw E from receiver net cpu xfer s)))))))"

definition asset_neg :: "asset \<Rightarrow> asset" where
  "asset_neg q = set_amt (wrap64 (- amount q)) q"

definition undelegatebw :: "sys_env \<Rightarrow> name \<Rightarrow> name \<Rightarrow> asset \<Rightarrow> asset \<Rightarrow> sys_state \<Rightarrow> sys_state res" where
  "undelegatebw E from receiver net cpu s =
     rbind (sys_core s) (\<lambda>cs.
     rbind (asset_le E (mk_asset 0 cs) cpu) (\<lambda>ok_cpu.
     check ok_cpu ''must unstake a positive amount'' (
     rbind (asset_le E (mk_asset 0 cs) net) (\<lambda>ok_net.
     check ok_net ''must unstake a positive amount'' (
     check (wrap64 (amount cpu + amount net) > 0) ''must unstake a positive amount'' (
     check (total_activated_stake (gst (vs s)) \<ge> min_activated_stake)
       ''cannot undelegate bandwidth until the chain is activated (at least 15% of all tokens participate in voting)'' (
     rbind (voter_row from (vs s)) (\<lambda>v.
     rbind (if staked v > 1000000
            then rbind (rget (NoRow ''unable to find key'') (t_get (producers (vs s)) from)) (\<lambda>p.
                 on_vs (put_producer from (deactivate E p)) s)
            else Inr s) (\<lambda>s1.
     changebw E from receiver (asset_neg net) (asset_neg cpu) False s1)))))))))"

definition refund :: "sys_env \<Rightarrow> name \<Rightarrow> sys_state \<Rightarrow> sys_state res" where
  "refund E owner s =
     require_auth E owner (
     rbind (rget (Assert ''refund request not found'') (t_get (refunds (bw s)) owner)) (\<lambda>r.
     check (wrap64 (wrap64 (request_time r * 1000000) + refund_delay_sec * 1000000) \<le> current_time E)
       ''refund is not available yet'' (
     rbind (asset_plus E (net_amount r) (cpu_amount r)) (\<lambda>q.
     let s1 = send_transfer E [lit E ''eosio.stake'', owner] (lit E ''eosio.stake'') owner q ''unstake'' s in
     Inr (s1\<lparr>bw := (bw s1)\<lparr>refunds := t_del owner (refunds (bw s1))\<rparr>\<rparr>)))))"

section \<open>Resource limits changed by REX\<close>

definition update_resource_limits :: "sys_env \<Rightarrow> name \<Rightarrow> i64 \<Rightarrow> i64 \<Rightarrow> sys_state \<Rightarrow> sys_state res" where
  "update_resource_limits E receiver delta_net delta_cpu s =
     (if delta_cpu = 0 \<and> delta_net = 0 then Inr s
      else rbind (case t_get (userres (bw s)) receiver of
          None \<Rightarrow>
            check (0 \<le> delta_net \<and> 0 \<le> delta_cpu) ''logic error, should not occur'' (
            rbind (sys_core s) (\<lambda>cs.
            rbind (asset_new E delta_net cs) (\<lambda>n.
            rbind (asset_new E delta_cpu cs) (\<lambda>c.
            Inr \<lparr>net_weight = n, cpu_weight = c, ram_bytes = 0\<rparr>))))
        | Some t \<Rightarrow> Inr (t\<lparr>net_weight := add_amt delta_net (net_weight t),
                            cpu_weight := add_amt delta_cpu (cpu_weight t)\<rparr>)) (\<lambda>t.
        check (0 \<le> amount (net_weight t)) ''insufficient staked total net bandwidth'' (
        check (0 \<le> amount (cpu_weight t)) ''insufficient staked total cpu bandwidth'' (
        let s1 = put_userres receiver t s;
          s2 = (if managed net_managed receiver s1 \<and> managed cpu_managed receiver s1 then s1
                else case limits (bw s1) receiver of (ram, net, cpu) \<Rightarrow>
                  set_resource_limits receiver ram
                    (if managed net_managed receiver s1 then net else amount (net_weight t))
                    (if managed cpu_managed receiver s1 then cpu else amount (cpu_weight t)) s1)
        in Inr (drop_if_empty receiver t s2)))))"

section \<open>Dispatch\<close>

datatype bw_action =
    Buyrambytes name name uint
  | Buyram name name asset
  | Sellram name i64
  | Delegatebw name name asset asset bool
  | Undelegatebw name name asset asset
  | Refund name

fun bw_exec :: "sys_env \<Rightarrow> bw_action \<Rightarrow> sys_state \<Rightarrow> sys_state res" where
  "bw_exec E (Buyrambytes p r n) s = buyrambytes E p r n s"
| "bw_exec E (Buyram p r q) s = buyram E p r q s"
| "bw_exec E (Sellram a n) s = sellram E a n s"
| "bw_exec E (Delegatebw f r n c t) s = delegatebw E f r n c t s"
| "bw_exec E (Undelegatebw f r n c) s = undelegatebw E f r n c s"
| "bw_exec E (Refund a) s = refund E a s"

end
