(* ===== verification/Rex.thy ===== *)
theory Rex
  imports Bandwidth
begin

text \<open>
  The REX actions of \<open>rex.cpp\<close>: maintenance of expired loans and queued sell orders (\<open>runrex\<close>), the
  update of a user's account, and the nineteen actions, with \<open>voteproducer\<close> of \<open>voting.cpp\<close>, which
  checks the voting requirement of REX holders.
\<close>

section \<open>Maintenance\<close>

definition send_result :: "sys_env \<Rightarrow> call \<Rightarrow> sys_state \<Rightarrow> sys_state" where
  "send_result E c s = emit (Inline (lit E ''eosio.rex'') [] c) s"

definition put_rx :: "rex_state \<Rightarrow> sys_state \<Rightarrow> sys_state" where
  "put_rx r s = s\<lparr>rx := r\<rparr>"

definition loans_by_expr :: "loan_kind \<Rightarrow> rex_state \<Rightarrow> rex_loan list" where
  "loans_by_expr k r = t_index (\<lambda>a b. by_expr a < by_expr b) (loans k r)"

fun limit_delta :: "loan_kind \<Rightarrow> i64 \<Rightarrow> i64 \<times> i64" where
  "limit_delta CPU d = (0, d)"
| "limit_delta NET d = (d, 0)"

fun run_loans :: "sys_env \<Rightarrow> symbol \<Rightarrow> loan_kind \<Rightarrow> nat \<Rightarrow> sys_state \<Rightarrow> sys_state res" where
  "run_loans E cs k 0 s = Inr s"
| "run_loans E cs k (Suc n) s =
     (case loans_by_expr k (rx s) of
        [] \<Rightarrow> Inr s
      | l # _ \<Rightarrow>
          if expiration l > current_time E then Inr s
          else rbind (process_expired_loan E cs k l (rx s)) (\<lambda>((delete_loan, delta_stake), r1).
            rbind (if delta_stake \<noteq> 0
                   then case limit_delta k delta_stake of (dn, dc) \<Rightarrow>
                     update_resource_limits E (loan_receiver l) dn dc (put_rx r1 s)
                   else Inr (put_rx r1 s)) (\<lambda>s1.
            run_loans E cs k n
              (if delete_loan then put_rx (set_loans k (t_del (loan_num l) (loans k (rx s1))) (rx s1)) s1 else s1))))"

definition run_order :: "sys_env \<Rightarrow> symbol \<Rightarrow> rex_order \<Rightarrow> sys_state \<Rightarrow> sys_state res" where
  "run_order E cs ord s =
     (if t_has (rexbalance (rx s)) (order_owner ord)
      then rbind (fill_rex_order E cs (order_owner ord) (rex_requested ord) (rx s)) (\<lambda>(outcome, r1).
        Inr (if success outcome
             then send_result E (RexOrderResult (order_owner ord) (out_proceeds outcome))
                    (put_rx (r1\<lparr>rexorders := t_set (order_owner ord)
                      (ord\<lparr>proceeds := set_amt (amount (out_proceeds outcome)) (proceeds ord),
                           stake_change := set_amt (amount (out_stake_change outcome)) (stake_change ord),
                           is_open := False\<rparr>) (rexorders r1)\<rparr>) s)
             else put_rx r1 s))
      else Inr s)"

definition run_namebids :: "sys_env \<Rightarrow> sys_state \<Rightarrow> sys_state res" where
  "run_namebids E s =
     rbind (pool_row (rx s)) (\<lambda>p.
     if amount (namebid_proceeds p) > 0
     then let s1 = channel_to_rex E (lit E ''eosio.names'') (namebid_proceeds p) s in
       rbind (pool_row (rx s1)) (\<lambda>p1.
       Inr (put_rx (put_pool (p1\<lparr>namebid_proceeds := set_amt 0 (namebid_proceeds p1)\<rparr>) (rx s1)) s1))
     else Inr s)"

definition runrex :: "sys_env \<Rightarrow> nat \<Rightarrow> sys_state \<Rightarrow> sys_state res" where
  "runrex E mx s =
     check (rex_system_initialized (rx s)) ''rex system not initialized yet'' (
     rbind (sys_core s) (\<lambda>cs.
     rbind (run_namebids E s) (\<lambda>s1.
     rbind (run_loans E cs CPU mx s1) (\<lambda>s2.
     rbind (run_loans E cs NET mx s2) (\<lambda>s3.
     rfold (run_order E cs) (takeWhile is_open (take mx (orders_by_time (rx s3)))) s3)))))"

text \<open>
  The queue of orders is walked with an iterator that is advanced before the order is closed and
  moves to the end, so the orders visited are the first \<open>max\<close> open ones of the initial queue.
\<close>

definition update_rex_account :: "sys_env \<Rightarrow> symbol \<Rightarrow> name \<Rightarrow> asset \<Rightarrow> asset \<Rightarrow> bool \<Rightarrow> sys_state \<Rightarrow> (asset \<times> sys_state) res" where
  "update_rex_account E cs owner prc delta_stake force_vote_update s =
     (let (to_fund, to_stake, rex_in_sell_order, r) =
        (case t_get (rexorders (rx s)) owner of
           None \<Rightarrow> (prc, delta_stake, mk_asset 0 rex_symbol, rx s)
         | Some ord \<Rightarrow>
             if is_open ord
             then (prc, delta_stake, mk_asset (amount (rex_requested ord)) rex_symbol, rx s)
             else (add_amt (amount (proceeds ord)) prc, add_amt (amount (stake_change ord)) delta_stake,
                   mk_asset 0 rex_symbol, (rx s)\<lparr>rexorders := t_del owner (rexorders (rx s))\<rparr>))
      in rbind (if amount to_fund > 0 then transfer_to_fund cs owner to_fund r else Inr r) (\<lambda>r1.
         rbind (if force_vote_update \<or> amount to_stake \<noteq> 0
                then on_vs (update_voting_power E owner to_stake) (put_rx r1 s)
                else Inr (put_rx r1 s)) (\<lambda>s1.
         Inr (rex_in_sell_order, s1))))"

definition check_voting_requirement :: "name \<Rightarrow> string \<Rightarrow> sys_state \<Rightarrow> unit res" where
  "check_voting_requirement owner msg s =
     check (case t_get (voters (vs s)) owner of
              None \<Rightarrow> False | Some v \<Rightarrow> proxy v \<noteq> 0 \<or> 21 \<le> length (vote_list v)) msg (Inr ())"

definition before_buying :: string where
  "before_buying = ''must vote for at least 21 producers or for a proxy before buying REX''"

section \<open>Actions on funds and REX\<close>

definition deposit :: "sys_env \<Rightarrow> name \<Rightarrow> asset \<Rightarrow> sys_state \<Rightarrow> sys_state res" where
  "deposit E owner q s =
     require_auth E owner (
     rbind (sys_core s) (\<lambda>cs.
     check (symb q = cs) ''must deposit core token'' (
     check (0 < amount q) ''must deposit a positive amount'' (
     on_rx (transfer_to_fund cs owner q)
       (send_transfer E [owner] owner (lit E ''eosio.rex'') q ''deposit to REX fund'' s)))))"

definition withdraw :: "sys_env \<Rightarrow> name \<Rightarrow> asset \<Rightarrow> sys_state \<Rightarrow> sys_state res" where
  "withdraw E owner q s =
     require_auth E owner (
     rbind (sys_core s) (\<lambda>cs.
     check (symb q = cs) ''must withdraw core token'' (
     check (0 < amount q) ''must withdraw a positive amount'' (
     rbind (update_rex_account E cs owner (mk_asset 0 cs) (mk_asset 0 cs) False s) (\<lambda>(_, s1).
     rbind (on_rx (transfer_from_fund E cs owner q) s1) (\<lambda>s2.
     Inr (send_transfer E [lit E ''eosio.rex''] (lit E ''eosio.rex'') owner q ''withdraw from REX fund'' s2)))))))"

text \<open>The purchase itself, common to \<open>buyrex\<close> and \<open>unstaketorex\<close>.\<close>

definition buy_into_pool :: "sys_env \<Rightarrow> symbol \<Rightarrow> name \<Rightarrow> asset \<Rightarrow> rex_state \<Rightarrow> ((asset \<times> asset) \<times> rex_state) res" where
  "buy_into_pool E cs owner pay r =
     rbind (add_to_rex_pool E cs pay r) (\<lambda>(rex_received, r1).
     rbind (add_to_rex_balance E cs owner pay rex_received r1) (\<lambda>(delta_rex_stake, r2).
     Inr ((rex_received, delta_rex_stake), r2)))"

definition buyrex :: "sys_env \<Rightarrow> name \<Rightarrow> asset \<Rightarrow> sys_state \<Rightarrow> sys_state res" where
  "buyrex E from q s =
     require_auth E from (
     rbind (sys_core s) (\<lambda>cs.
     check (symb q = cs) ''asset must be core token'' (
     check (0 < amount q) ''must use positive amount'' (
     rbind (check_voting_requirement from before_buying s) (\<lambda>_.
     rbind (transfer_from_fund E cs from q (rx s)) (\<lambda>r1.
     rbind (buy_into_pool E cs from q r1) (\<lambda>((rex_received, delta_rex_stake), r2).
     rbind (runrex E 2 (put_rx r2 s)) (\<lambda>s1.
     rbind (update_rex_account E cs from (mk_asset 0 cs) delta_rex_stake False s1) (\<lambda>(_, s2).
     Inr (send_result E (RexBuyResult rex_received) s2))))))))))"

definition unstaketorex :: "sys_env \<Rightarrow> name \<Rightarrow> name \<Rightarrow> asset \<Rightarrow> asset \<Rightarrow> sys_state \<Rightarrow> sys_state res" where
  "unstaketorex E owner receiver from_net from_cpu s =
     require_auth E owner (
     rbind (sys_core s) (\<lambda>cs.
     check (symb from_net = cs \<and> symb from_cpu = cs) ''asset must be core token'' (
     check (0 \<le> amount from_net \<and> 0 \<le> amount from_cpu \<and> (0 < amount from_net \<or> 0 < amount from_cpu))
       ''must unstake a positive amount to buy rex'' (
     rbind (check_voting_requirement owner before_buying s) (\<lambda>_.
     rbind (rget (NoRow ''delegated bandwidth record does not exist'') (t_get (delband (bw s)) (owner, receiver))) (\<lambda>d.
     check (amount from_net \<le> amount (dbw_net d)) ''amount exceeds tokens staked for net'' (
     check (amount from_cpu \<le> amount (dbw_cpu d)) ''amount exceeds tokens staked for cpu'' (
     let d1 = d\<lparr>dbw_net := add_amt (- amount from_net) (dbw_net d), dbw_cpu := add_amt (- amount from_cpu) (dbw_cpu d)\<rparr>;
       s1 = s\<lparr>bw := (bw s)\<lparr>delband := (if dbw_is_empty d1 then t_del (owner, receiver) (delband (bw s))
                                        else t_set (owner, receiver) d1 (delband (bw s)))\<rparr>\<rparr>
     in rbind (update_resource_limits E receiver (wrap64 (- amount from_net)) (wrap64 (- amount from_cpu)) s1) (\<lambda>s2.
     rbind (asset_plus E from_net from_cpu) (\<lambda>pay.
     let s3 = send_transfer E [lit E ''eosio.stake''] (lit E ''eosio.stake'') (lit E ''eosio.rex'') pay
                ''buy REX with staked tokens'' s2 in
     rbind (buy_into_pool E cs owner pay (rx s3)) (\<lambda>((rex_received, _), r1).
     rbind (runrex E 2 (put_rx r1 s3)) (\<lambda>s4.
     rbind (update_rex_account E cs owner (mk_asset 0 cs) (mk_asset 0 cs) True s4) (\<lambda>(_, s5).
     Inr (send_result E (RexBuyResult rex_received) s5))))))))))))))"

definition sellrex :: "sys_env \<Rightarrow> name \<Rightarrow> asset \<Rightarrow> sys_state \<Rightarrow> sys_state res" where
  "sellrex E from rex s =
     require_auth E from (
     rbind (runrex E 2 s) (\<lambda>s1.
     rbind (rget (NoRow ''user must first buyrex'') (t_get (rexbalance (rx s1)) from)) (\<lambda>b.
     check (amount rex > 0 \<and> symb rex = symb (rex_amount b)) ''asset must be a positive amount of (REX, 4)'' (
     let b1 = process_rex_maturities E b; r2 = put_bal from b1 (rx s1) in
     check (amount rex \<le> matured_rex b1) ''insufficient available rex'' (
     rbind (sys_core s1) (\<lambda>cs.
     rbind (fill_rex_order E cs from rex r2) (\<lambda>(cur, r3).
     check (\<not> (success cur \<and> amount (out_proceeds cur) = 0)) ''proceeds are negligible'' (
     rbind (update_rex_account E cs from (out_proceeds cur) (out_stake_change cur) False (put_rx r3 s1)) (\<lambda>(pending, s4).
     rbind (if success cur then Inr (amount pending, s4)
            else check (from \<noteq> lit E ''b1'') ''b1 sellrex orders should not be queued'' (
              let ord = (case t_get (rexorders (rx s4)) from of
                    None \<Rightarrow> \<lparr>order_owner = from, rex_requested = rex, proceeds = mk_asset 0 cs,
                             stake_change = mk_asset 0 cs, order_time = current_time E, is_open = True\<rparr>
                  | Some ord \<Rightarrow> ord\<lparr>rex_requested := add_amt (amount rex) (rex_requested ord)\<rparr>)
              in Inr (amount (rex_requested ord),
                      put_rx ((rx s4)\<lparr>rexorders := t_set from ord (rexorders (rx s4))\<rparr>) s4))) (\<lambda>(pending_sell_order, s5).
     rbind (bal_row from (rx s5)) (\<lambda>b5.
     check (pending_sell_order \<le> matured_rex b5) ''insufficient funds for current and scheduled orders'' (
     Inr (if success cur then send_result E (RexSellResult (out_proceeds cur)) s5 else s5)))))))))))))"

definition cnclrexorder :: "sys_env \<Rightarrow> name \<Rightarrow> sys_state \<Rightarrow> sys_state res" where
  "cnclrexorder E owner s =
     require_auth E owner (
     rbind (rget (NoRow ''no sellrex order is scheduled'') (t_get (rexorders (rx s)) owner)) (\<lambda>ord.
     check (is_open ord) ''sellrex order has been filled and cannot be canceled'' (
     Inr (put_rx ((rx s)\<lparr>rexorders := t_del owner (rexorders (rx s))\<rparr>) s))))"

section \<open>Actions on loans\<close>

definition rent_rex :: "sys_env \<Rightarrow> loan_kind \<Rightarrow> name \<Rightarrow> name \<Rightarrow> asset \<Rightarrow> asset \<Rightarrow> sys_state \<Rightarrow> (i64 \<times> sys_state) res" where
  "rent_rex E k from receiver pay fund s =
     rbind (runrex E 2 s) (\<lambda>s1.
     check (rex_loans_available (rx s1)) ''rex loans are currently not available'' (
     rbind (sys_core s1) (\<lambda>cs.
     check (symb pay = cs \<and> symb fund = cs) ''must use core token'' (
     check (0 < amount pay \<and> 0 \<le> amount fund) ''must use positive asset amount'' (
     rbind (asset_plus E pay fund) (\<lambda>both.
     rbind (transfer_from_fund E cs from both (rx s1)) (\<lambda>r2.
     rbind (pool_row r2) (\<lambda>p.
     rbind (get_bancor_output (amount (total_rent p)) (amount (total_unlent p)) (amount pay)) (\<lambda>rented_tokens.
     check (amount pay < rented_tokens) ''loan price does not favor renting'' (
     rbind (add_loan_to_rex_pool pay rented_tokens True r2) (\<lambda>r3.
     rbind (pool_row r3) (\<lambda>p3.
     rbind (asset_new E rented_tokens cs) (\<lambda>staked_asset.
     rbind (t_emplace (pool_loan_num p3)
              \<lparr>loan_from = from, loan_receiver = receiver, payment = pay, loan_balance = fund,
               total_staked = staked_asset, loan_num = pool_loan_num p3,
               expiration = wrap64 (current_time E + days 30)\<rparr> (loans k r3)) (\<lambda>t.
     Inr (rented_tokens, send_result E (RexRentResult staked_asset) (put_rx (set_loans k t r3) s1))))))))))))))))"

definition rentcpu :: "sys_env \<Rightarrow> name \<Rightarrow> name \<Rightarrow> asset \<Rightarrow> asset \<Rightarrow> sys_state \<Rightarrow> sys_state res" where
  "rentcpu E from receiver pay fund s =
     require_auth E from (
     rbind (rent_rex E CPU from receiver pay fund s) (\<lambda>(rented_tokens, s1).
     update_resource_limits E receiver 0 rented_tokens s1))"

definition rentnet :: "sys_env \<Rightarrow> name \<Rightarrow> name \<Rightarrow> asset \<Rightarrow> asset \<Rightarrow> sys_state \<Rightarrow> sys_state res" where
  "rentnet E from receiver pay fund s =
     require_auth E from (
     rbind (rent_rex E NET from receiver pay fund s) (\<lambda>(rented_tokens, s1).
     update_resource_limits E receiver rented_tokens 0 s1))"

definition fundloan :: "sys_env \<Rightarrow> loan_kind \<Rightarrow> name \<Rightarrow> uint \<Rightarrow> asset \<Rightarrow> sys_state \<Rightarrow> sys_state res" where
  "fundloan E k from num pay s =
     require_auth E from (rbind (sys_core s) (\<lambda>cs. on_rx (fund_rex_loan E cs k from num pay) s))"

definition defloan :: "sys_env \<Rightarrow> loan_kind \<Rightarrow> name \<Rightarrow> uint \<Rightarrow> asset \<Rightarrow> sys_state \<Rightarrow> sys_state res" where
  "defloan E k from num q s =
     require_auth E from (rbind (sys_core s) (\<lambda>cs. on_rx (defund_rex_loan E cs k from num q) s))"

section \<open>Maintenance actions\<close>

definition updaterex :: "sys_env \<Rightarrow> name \<Rightarrow> sys_state \<Rightarrow> sys_state res" where
  "updaterex E owner s =
     require_auth E owner (
     rbind (runrex E 2 s) (\<lambda>s1.
     rbind (rget (NoRow ''account has no REX balance'') (t_get (rexbalance (rx s1)) owner)) (\<lambda>b.
     rbind (pool_row (rx s1)) (\<lambda>p.
     rbind (sys_core s1) (\<lambda>cs.
     rbind (if amount (total_rex p) > 0
            then mul_div (amount (rex_amount b)) (amount (total_lendable p)) (amount (total_rex p))
            else Inr 0) (\<lambda>cur.
     rbind (asset_minus E (mk_asset cur cs) (vote_stake b)) (\<lambda>d.
     rbind (update_rex_account E cs owner (mk_asset 0 cs) d True
              (put_rx (put_bal owner (b\<lparr>vote_stake := mk_asset cur cs\<rparr>) (rx s1)) s1)) (\<lambda>(_, s2).
     rbind (bal_row owner (rx s2)) (\<lambda>b2.
     Inr (put_rx (put_bal owner (process_rex_maturities E b2) (rx s2)) s2))))))))))"

definition setrex :: "sys_env \<Rightarrow> asset \<Rightarrow> sys_state \<Rightarrow> sys_state res" where
  "setrex E bal s =
     require_auth E (lit E ''eosio'') (
     check (amount bal > 0) ''balance must be set to have a positive amount'' (
     rbind (sys_core s) (\<lambda>cs.
     check (symb bal = cs) ''balance symbol must be core symbol'' (
     check (rex_system_initialized (rx s)) ''rex system is not initialized'' (
     rbind (pool_row (rx s)) (\<lambda>p.
     Inr (put_rx (put_pool (p\<lparr>total_rent := bal\<rparr>) (rx s)) s)))))))"

definition rexexec :: "sys_env \<Rightarrow> name \<Rightarrow> nat \<Rightarrow> sys_state \<Rightarrow> sys_state res" where
  "rexexec E user mx s = require_auth E user (runrex E mx s)"

definition consolidate :: "sys_env \<Rightarrow> name \<Rightarrow> sys_state \<Rightarrow> sys_state res" where
  "consolidate E owner s =
     require_auth E owner (
     rbind (runrex E 2 s) (\<lambda>s1.
     rbind (rget (NoRow ''account has no REX balance'') (t_get (rexbalance (rx s1)) owner)) (\<lambda>_.
     rbind (sys_core s1) (\<lambda>cs.
     rbind (update_rex_account E cs owner (mk_asset 0 cs) (mk_asset 0 cs) False s1) (\<lambda>(rex_in_sell_order, s2).
     rbind (bal_row owner (rx s2)) (\<lambda>b.
     Inr (put_rx (put_bal owner (consolidate_rex_balance E rex_in_sell_order b) (rx s2)) s2)))))))"

text \<open>The loop of \<open>mvtosavings\<close> takes REX from the last buckets; the list is in reverse order.\<close>

fun drain_back :: "i64 \<Rightarrow> i64 \<Rightarrow> (uint \<times> i64) list \<Rightarrow> i64 \<times> (uint \<times> i64) list" where
  "drain_back want moved [] = (moved, [])"
| "drain_back want moved ((t, x) # bs) =
     (if moved < want
      then let d = min (wrap64 (want - moved)) x; x1 = wrap64 (x - d); moved1 = wrap64 (moved + d) in
        if x1 = 0 then drain_back want moved1 bs else (moved1, (t, x1) # bs)
      else (moved, (t, x) # bs))"

definition move_out :: "i64 \<Rightarrow> i64 \<Rightarrow> rex_balance \<Rightarrow> rex_balance res" where
  "move_out rex in_order b =
     (let (moved, bs) = drain_back rex 0 (rev (rex_maturities b));
        b1 = b\<lparr>rex_maturities := rev bs\<rparr>
      in if moved < rex
         then let d = wrap64 (rex - moved); m = wrap64 (matured_rex b1 - d) in
           check (in_order \<le> m) ''logic error in mvtosavings'' (
           check (wrap64 (moved + d) = rex) ''programmer error in mvtosavings'' (Inr (b1\<lparr>matured_rex := m\<rparr>)))
         else check (moved = rex) ''programmer error in mvtosavings'' (Inr b1))"

definition mvtosavings :: "sys_env \<Rightarrow> name \<Rightarrow> asset \<Rightarrow> sys_state \<Rightarrow> sys_state res" where
  "mvtosavings E owner rex s =
     require_auth E owner (
     rbind (runrex E 2 s) (\<lambda>s1.
     rbind (rget (NoRow ''account has no REX balance'') (t_get (rexbalance (rx s1)) owner)) (\<lambda>b0.
     check (amount rex > 0 \<and> symb rex = symb (rex_amount b0)) ''asset must be a positive amount of (REX, 4)'' (
     rbind (sys_core s1) (\<lambda>cs.
     rbind (update_rex_account E cs owner (mk_asset 0 cs) (mk_asset 0 cs) False s1) (\<lambda>(rex_in_sell_order, s2).
     rbind (bal_row owner (rx s2)) (\<lambda>b.
     let (rex_in_savings, b1) = read_rex_savings b in
     check (wrap64 (wrap64 (amount rex + amount rex_in_sell_order) + rex_in_savings) \<le> amount (rex_amount b1))
       ''insufficient REX balance'' (
     rbind (move_out (amount rex) (amount rex_in_sell_order) (process_rex_maturities E b1)) (\<lambda>b2.
     Inr (put_rx (put_bal owner (put_rex_savings (wrap64 (rex_in_savings + amount rex)) b2) (rx s2)) s2))))))))))"

definition mvfrsavings :: "sys_env \<Rightarrow> name \<Rightarrow> asset \<Rightarrow> sys_state \<Rightarrow> sys_state res" where
  "mvfrsavings E owner rex s =
     require_auth E owner (
     rbind (runrex E 2 s) (\<lambda>s1.
     rbind (rget (NoRow ''account has no REX balance'') (t_get (rexbalance (rx s1)) owner)) (\<lambda>b.
     check (amount rex > 0 \<and> symb rex = symb (rex_amount b)) ''asset must be a positive amount of (REX, 4)'' (
     let (rex_in_savings, b1) = read_rex_savings b in
     check (amount rex \<le> rex_in_savings) ''insufficient REX in savings'' (
     let b2 = process_rex_maturities E b1;
       b3 = b2\<lparr>rex_maturities := add_bucket (get_rex_maturity E) (amount rex) (rex_maturities b2)\<rparr>;
       b4 = put_rex_savings (wrap64 (rex_in_savings - amount rex)) b3
     in rbind (sys_core s1) (\<lambda>cs.
     rbind (update_rex_account E cs owner (mk_asset 0 cs) (mk_asset 0 cs) False
              (put_rx (put_bal owner b4 (rx s1)) s1)) (\<lambda>(_, s2). Inr s2)))))))"

definition no_loans :: "loan_kind \<Rightarrow> name \<Rightarrow> rex_state \<Rightarrow> bool" where
  "no_loans k owner r \<longleftrightarrow> (\<forall>l \<in> snd ` set (t_list (loans k r)). loan_from l \<noteq> owner)"

definition closerex :: "sys_env \<Rightarrow> name \<Rightarrow> sys_state \<Rightarrow> sys_state res" where
  "closerex E owner s =
     require_auth E owner (
     rbind (if rex_system_initialized (rx s) then runrex E 2 s else Inr s) (\<lambda>s1.
     rbind (sys_core s1) (\<lambda>cs.
     rbind (update_rex_account E cs owner (mk_asset 0 cs) (mk_asset 0 cs) False s1) (\<lambda>(_, s2).
     let r = rx s2;
       no_fund = (case t_get (rexfunds r) owner of None \<Rightarrow> False | Some f \<Rightarrow> amount f = 0);
       r1 = (if no_loans CPU owner r \<and> no_loans NET owner r \<and> no_fund
             then r\<lparr>rexfunds := t_del owner (rexfunds r)\<rparr> else r)
     in case t_get (rexbalance r1) owner of
          None \<Rightarrow> Inr (put_rx r1 s2)
        | Some b \<Rightarrow>
            check (amount (rex_amount b) = 0) ''account has remaining REX balance, must sell first'' (
            Inr (put_rx (r1\<lparr>rexbalance := t_del owner (rexbalance r1)\<rparr>) s2))))))"

section \<open>Voting\<close>

definition voteproducer :: "sys_env \<Rightarrow> name \<Rightarrow> name \<Rightarrow> name list \<Rightarrow> sys_state \<Rightarrow> sys_state res" where
  "voteproducer E voter prx prods s =
     require_auth E voter (
     check (\<not> t_has (producers (vs s)) voter) ''Producers are not allowed to vote'' (
     rbind (update_rex_stake voter s) (\<lambda>s1.
     rbind (on_vs (update_votes (current_time E) voter prx prods True) s1) (\<lambda>s2.
     rbind (case t_get (rexbalance (rx s2)) voter of
              None \<Rightarrow> Inr ()
            | Some b \<Rightarrow> if amount (rex_amount b) > 0
                then check_voting_requirement voter
                       ''voter holding REX tokens must vote for at least 21 producers or for a proxy'' s2
                else Inr ()) (\<lambda>_.
     rbind (rget (NoRow ''user must stake before they can vote'') (t_get (voters (vs s2)) voter)) (\<lambda>v.
     let g = gst (vs s2); vote_power = min (staked v) (max_vote_power g) in
     Inr (s2\<lparr>vs := (put_voter voter (v\<lparr>unpaid_votes := wrap64 (unpaid_votes v + vote_power)\<rparr>) (vs s2))
            \<lparr>gst := g\<lparr>total_unpaid_votes := wrap64 (total_unpaid_votes g + vote_power)\<rparr>\<rparr>\<rparr>)))))))"

section \<open>Dispatch\<close>

datatype rex_action =
    Deposit name asset
  | Withdraw name asset
  | Buyrex name asset
  | Unstaketorex name name asset asset
  | Sellrex name asset
  | Cnclrexorder name
  | Rentcpu name name asset asset
  | Rentnet name name asset asset
  | Fundloan loan_kind name uint asset
  | Defloan loan_kind name uint asset
  | Updaterex name
  | Consolidate name
  | Mvtosavings name asset
  | Mvfrsavings name asset
  | Setrex asset
  | Rexexec name nat
  | Closerex name
  | Voteproducer name name "name list"

fun rex_exec :: "sys_env \<Rightarrow> rex_action \<Rightarrow> sys_state \<Rightarrow> sys_state res" where
  "rex_exec E (Deposit a q) s = deposit E a q s"
| "rex_exec E (Withdraw a q) s = withdraw E a q s"
| "rex_exec E (Buyrex a q) s = buyrex E a q s"
| "rex_exec E (Unstaketorex a r n c) s = unstaketorex E a r n c s"
| "rex_exec E (Sellrex a q) s = sellrex E a q s"
| "rex_exec E (Cnclrexorder a) s = cnclrexorder E a s"
| "rex_exec E (Rentcpu a r p f) s = rentcpu E a r p f s"
| "rex_exec E (Rentnet a r p f) s = rentnet E a r p f s"
| "rex_exec E (Fundloan k a n q) s = fundloan E k a n q s"
| "rex_exec E (Defloan k a n q) s = defloan E k a n q s"
| "rex_exec E (Updaterex a) s = updaterex E a s"
| "rex_exec E (Consolidate a) s = consolidate E a s"
| "rex_exec E (Mvtosavings a q) s = mvtosavings E a q s"
| "rex_exec E (Mvfrsavings a q) s = mvfrsavings E a q s"
| "rex_exec E (Setrex q) s = setrex E q s"
| "rex_exec E (Rexexec a n) s = rexexec E a n s"
| "rex_exec E (Closerex a) s = closerex E a s"
| "rex_exec E (Voteproducer v p ps) s = voteproducer E v p ps s"

end
