(* ===== verification/Proxies.thy ===== *)
theory Proxies
  imports VoteFrames Rex
begin

text \<open>
  The graph of proxies and how the voting functions change it. \<open>pv s k\<close> is the proxy of \<open>k\<close> and whether
  \<open>k\<close> is registered as a proxy; an account without a row has neither.
\<close>

definition pv :: "vote_state \<Rightarrow> name \<Rightarrow> name \<times> bool" where
  "pv s k = (case t_get (voters s) k of None \<Rightarrow> (0, False) | Some v \<Rightarrow> (proxy v, is_proxy v))"

lemma pv_Some: "t_get (voters s) k = Some v \<Longrightarrow> pv s k = (proxy v, is_proxy v)"
  by (simp add: pv_def)

lemma pv_put_voter: "pv (put_voter k v s) = (pv s)(k := (proxy v, is_proxy v))"
  by (auto simp: pv_def)

lemma pv_put_same: "(proxy v, is_proxy v) = pv s k \<Longrightarrow> pv (put_voter k v s) = pv s"
  by (simp add: pv_put_voter fun_upd_idem_iff)

lemma pv_voters: "voters s' = voters s \<Longrightarrow> pv s' = pv s"
  by (rule ext) (simp add: pv_def)

lemma pv_via_cores: "pv s k = (case cores s k of None \<Rightarrow> (0, False) | Some (p, _, _, _, _, b, _) \<Rightarrow> (p, b))"
  by (cases "t_get (voters s) k") (simp_all add: pv_def cores_def voter_core_def)

lemma pv_cores: "cores s' = cores s \<Longrightarrow> pv s' = pv s"
  by (rule ext) (simp add: pv_via_cores)

lemma pv_simps [simp]: "pv (s\<lparr>gst := g\<rparr>) = pv s" "pv (s\<lparr>gst2 := g2\<rparr>) = pv s" "pv (s\<lparr>producers := p\<rparr>) = pv s"
  "pv (s\<lparr>gst2 := g2, gst3 := g3\<rparr>) = pv s" "pv (s\<lparr>producers2 := p2\<rparr>) = pv s" "pv (s\<lparr>producers3 := p3\<rparr>) = pv s"
  by (rule pv_voters, simp)+

lemma proxies_ok_pv:
  "proxies_ok s \<longleftrightarrow> acyclic {(k, p). fst (pv s k) = p \<and> p \<noteq> 0} \<and> (\<forall>k. snd (pv s k) \<longrightarrow> fst (pv s k) = 0)"
proof -
  have "proxy_rel s = {(k, p). fst (pv s k) = p \<and> p \<noteq> 0}"
    by (auto simp: proxy_rel_def pv_def split: option.splits)
  moreover have "(\<forall>k v. t_get (voters s) k = Some v \<longrightarrow> is_proxy v \<longrightarrow> proxy v = 0) \<longleftrightarrow> (\<forall>k. snd (pv s k) \<longrightarrow> fst (pv s k) = 0)"
    by (auto simp: pv_def split: option.splits)
  ultimately show ?thesis by (simp add: proxies_ok_def)
qed

lemma proxies_ok_same: "proxies_ok s \<Longrightarrow> pv s' = pv s \<Longrightarrow> proxies_ok s'"
  by (simp add: proxies_ok_pv)

text \<open>A new edge that leads to a node without edges closes no cycle.\<close>

lemma acyclic_redirect:
  assumes "acyclic r" "\<And>y. (p, y) \<notin> r" "p \<noteq> k" "r' \<subseteq> insert (k, p) r"
  shows "acyclic r'"
proof -
  have "(p, k) \<notin> r\<^sup>*" using assms(2,3) by (metis converse_rtranclE)
  then have "acyclic (insert (k, p) r)" using assms(1) by (simp add: acyclic_insert)
  then show ?thesis using assms(4) by (rule acyclic_subset)
qed

lemma proxies_ok_vote:
  assumes "proxies_ok s" "pv s' = (pv s)(k := (p, False))" "p \<noteq> 0 \<longrightarrow> snd (pv s p) \<and> p \<noteq> k"
  shows "proxies_ok s'"
proof -
  let ?r = "{(k, p). fst (pv s k) = p \<and> p \<noteq> 0}" and ?r' = "{(k, p). fst (pv s' k) = p \<and> p \<noteq> 0}"
  have r: "acyclic ?r" and leaf: "\<And>k. snd (pv s k) \<Longrightarrow> fst (pv s k) = 0"
    using assms(1) by (auto simp: proxies_ok_pv)
  have "acyclic ?r'"
  proof (cases "p = 0")
    case True
    then show ?thesis by (intro acyclic_subset [OF r]) (auto simp: assms(2))
  next
    case False
    then show ?thesis using assms(3) leaf by (intro acyclic_redirect [OF r, of p k]) (auto simp: assms(2))
  qed
  then show ?thesis using leaf by (simp add: proxies_ok_pv assms(2))
qed

lemma proxies_ok_register:
  assumes "proxies_ok s" "pv s' = (pv s)(k := (p, b))" "fst (pv s k) = p" "b \<longrightarrow> p = 0"
  shows "proxies_ok s'"
proof -
  have "{(k, p). fst (pv s' k) = p \<and> p \<noteq> 0} = {(k, p). fst (pv s k) = p \<and> p \<noteq> 0}"
    using assms(3) by (auto simp: assms(2) split: if_splits)
  then show ?thesis using assms(1,4) by (simp add: proxies_ok_pv assms(2))
qed

section \<open>Votes\<close>

lemma update_votes_pv:
  assumes "update_votes ct voter prx ps voting s = Inr s'"
  shows "pv s' = (pv s)(voter := (prx, snd (pv s voter))) \<and> (prx \<noteq> 0 \<longrightarrow> \<not> snd (pv s voter) \<and> prx \<noteq> voter) \<and>
    (prx \<noteq> 0 \<longrightarrow> voting \<longrightarrow> snd (pv s prx))"
proof -
  obtain v where v: "t_get (voters s) voter = Some v" "prx = 0 \<or> \<not> is_proxy v" "valid_vote voter prx ps = Inr ()"
    and c: "cores s' = (cores s)(voter := Some (voter_core (v\<lparr>vote_list := ps, proxy := prx\<rparr>)))"
    and p: "prx \<noteq> 0 \<longrightarrow> voting \<longrightarrow> (\<exists>np. t_get (voters s) prx = Some np \<and> is_proxy np)"
    by (rule update_votes_frame [OF assms])
  have "pv s' = (pv s)(voter := (prx, is_proxy v))"
    by (rule ext) (simp add: pv_via_cores c voter_core_def)
  moreover have "prx \<noteq> 0 \<Longrightarrow> prx \<noteq> voter" using v(3) by (auto simp: valid_vote_def res_simps)
  ultimately show ?thesis using v p by (auto simp: pv_Some)
qed

lemma vote_proxies_ok:
  assumes "update_votes ct voter prx ps True s = Inr s'" "proxies_ok s"
  shows "proxies_ok s'"
proof -
  note U = update_votes_pv [OF assms(1)]
  show ?thesis
  proof (cases "snd (pv s voter)")
    case True
    then have "fst (pv s voter) = 0" using assms(2) by (simp add: proxies_ok_pv)
    then show ?thesis using U True by (intro proxies_ok_register [OF assms(2), of s' voter 0 True]) auto
  next
    case False
    then show ?thesis using U by (intro proxies_ok_vote [OF assms(2), of s' voter prx]) auto
  qed
qed

lemma power_pv:
  assumes "update_voting_power E voter q s = Inr s'"
  shows "pv s' = pv s"
proof -
  define v where "v = (case t_get (voters s) voter of
       None \<Rightarrow> new_voter\<lparr>staked := amount q\<rparr> | Some v \<Rightarrow> v\<lparr>staked := wrap64 (staked v + amount q)\<rparr>)"
  have v: "(proxy v, is_proxy v) = pv s voter" by (simp add: v_def pv_def new_voter_def split: option.split)
  then have s1: "pv (put_voter voter v s) = pv s" by (rule pv_put_same)
  have "s' = put_voter voter v s \<or> update_votes (current_time E) voter (proxy v) (vote_list v) False (put_voter voter v s) = Inr s'"
    using assms by (auto simp: update_voting_power_def v_def [symmetric] Let_def check_Inr_iff rbind_Inr_iff split: if_splits)
  then have "pv s' = (pv s)(voter := pv s voter) \<or> pv s' = pv s"
    using s1 by (auto simp flip: v dest!: update_votes_pv)
  then show ?thesis by simp
qed

lemma regproxy_proxies_ok:
  assumes "regproxy E prx b s = Inr s'" "proxies_ok s"
  shows "proxies_ok s'"
proof (cases "t_get (voters s) prx")
  case None
  then have "s' = put_voter prx (new_voter\<lparr>is_proxy := b\<rparr>) s" using assms(1) by (simp add: regproxy_def res_simps)
  then show ?thesis
    using None by (intro proxies_ok_register [OF assms(2), of s' prx 0 b]) (simp_all add: pv_put_voter pv_def new_voter_def)
next
  case (Some v)
  then obtain s2 s3 w where g: "\<not> b \<or> proxy v = 0" and p: "propagate (current_time E) prx (put_voter prx (v\<lparr>is_proxy := b\<rparr>) s) = Inr s2"
    and sh: "shift_witnesses (current_time E) (witnesses (put_voter prx (v\<lparr>is_proxy := b\<rparr>) s)) (witnesses s2) s2 = Inr (s3, w)"
    and s': "s' = snd (update_total_witnesspay_share (current_time E) 0 w s3)"
    using assms(1) by (auto simp: regproxy_def res_simps Let_def)
  have "pv s' = pv s3" "pv s3 = pv s2" "pv s2 = pv (put_voter prx (v\<lparr>is_proxy := b\<rparr>) s)"
    using shift_witnesses_voters [OF sh] propagate_cores [OF p [unfolded propagate_def]]
    by (auto simp: s' intro: pv_voters pv_cores)
  then have "pv s' = (pv s)(prx := (proxy v, b))" by (simp add: pv_put_voter)
  then show ?thesis using g Some by (intro proxies_ok_register [OF assms(2), of s' prx "proxy v" b]) (auto simp: pv_Some)
qed

lemma regproducer_pv: "regproducer E p k u l s = Inr s' \<Longrightarrow> pv s' = pv s"
  by (rule pv_voters) (auto simp: regproducer_def res_simps Let_def put_producer_iff split: option.splits if_splits)

lemma unregprod_pv: "unregprod E p s = Inr s' \<Longrightarrow> pv s' = pv s"
  by (rule pv_voters) (auto simp: unregprod_def res_simps)

lemma vote_exec_proxies_ok:
  "vote_exec E a s = Inr s' \<Longrightarrow> proxies_ok s \<Longrightarrow> proxies_ok s'"
  by (cases a) (auto intro: regproxy_proxies_ok dest: regproducer_pv unregprod_pv proxies_ok_same)

lemma update_rex_stake_pv: "update_rex_stake k s = Inr s' \<Longrightarrow> pv (vs s') = pv (vs s)"
  by (auto simp: update_rex_stake_def res_simps Let_def pv_put_same pv_Some split: option.splits if_splits)

lemma voteproducer_proxies_ok:
  assumes "voteproducer E voter prx ps s = Inr s'" "proxies_ok (vs s)"
  shows "proxies_ok (vs s')"
proof -
  obtain s1 v2 s2 v where u: "update_rex_stake voter s = Inr s1"
    and v2: "update_votes (current_time E) voter prx ps True (vs s1) = Inr v2"
    and s2: "s2 = s1\<lparr>vs := v2\<rparr>" and v: "t_get (voters (vs s2)) voter = Some v"
    and s': "vs s' = (put_voter voter (v\<lparr>unpaid_votes := wrap64 (unpaid_votes v + min (staked v) (max_vote_power (gst (vs s2))))\<rparr>) (vs s2))
       \<lparr>gst := (gst (vs s2))\<lparr>total_unpaid_votes := wrap64 (total_unpaid_votes (gst (vs s2)) + min (staked v) (max_vote_power (gst (vs s2))))\<rparr>\<rparr>"
    using assms(1) by (auto simp: voteproducer_def res_simps Let_def)
  have "proxies_ok (vs s1)" using assms(2) update_rex_stake_pv [OF u] by (rule proxies_ok_same)
  then have "proxies_ok (vs s2)" using vote_proxies_ok [OF v2] by (simp add: s2)
  moreover have "pv (vs s') = pv (vs s2)" using v by (simp add: s' pv_put_same pv_Some)
  ultimately show ?thesis by (rule proxies_ok_same)
qed

end
