(* ===== verification/Pay.thy ===== *)
theory Pay
  imports Rex
begin

text \<open>
  \<open>producer_pay.cpp\<close>: what every block does, the sharing of inflation between the reward buckets, and
  the claims of producers, DApp owners and voters.
\<close>

section \<open>Constants\<close>

definition continuous_rate :: double where "continuous_rate = dlit (4879 / 100000)"
definition network_rewards_rate :: double where "network_rewards_rate = dlit (1 / 2)"
definition dapps_rewards_rate :: double where "dapps_rewards_rate = dlit (1 / 5)"
definition bp_rewards_rate :: double where "bp_rewards_rate = dlit (3 / 5)"
definition witnesses_rewards_rate :: double where "witnesses_rewards_rate = dlit (3 / 20)"
definition vote_rewards_rate :: double where "vote_rewards_rate = dlit (1 / 20)"
definition infrastructure_rewards_rate :: double where "infrastructure_rewards_rate = dlit (1 / 2)"
definition community_rewards_rate :: double where "community_rewards_rate = dlit (13 / 20)"
definition marketing_rewards_rate :: double where "marketing_rewards_rate = dlit (1 / 10)"
definition founding_rewards_rate :: double where "founding_rewards_rate = dlit (1 / 4)"
definition oracle_rewards_rate :: double where "oracle_rewards_rate = dlit (1 / 50)"
definition oracle_punishment_rate :: i64 where "oracle_punishment_rate = 10000"
definition useconds_per_day :: i64 where "useconds_per_day = 24 * 3600 * 1000000"
definition useconds_per_year :: i64 where "useconds_per_year = seconds_per_year * 1000000"
definition blocks_per_day :: uint where "blocks_per_day = 2 * 24 * 3600"

definition put_gst :: "eosio_global_state \<Rightarrow> sys_state \<Rightarrow> sys_state" where
  "put_gst g s = s\<lparr>vs := (vs s)\<lparr>gst := g\<rparr>\<rparr>"

section \<open>Inflation\<close>

text \<open>An inline transfer of a share of the new tokens; the share is a double that becomes an amount.\<close>

definition pay_share :: "sys_env \<Rightarrow> symbol \<Rightarrow> name \<times> name \<times> double \<times> string \<Rightarrow> sys_state \<Rightarrow> sys_state res" where
  "pay_share E cs x s = (case x of (from, to, d, memo) \<Rightarrow>
     rbind (to_i64 d) (\<lambda>n.
     rbind (asset_new E n cs) (\<lambda>q.
     Inr (send_transfer E [from] from to q memo s))))"

definition add_share :: "i64 \<Rightarrow> double \<Rightarrow> i64 res" where
  "add_share bucket d = to_i64 (to_double bucket + d)"

text \<open>
  The body that \<open>share_inflation\<close> and \<open>claimdapprwd\<close> have in common: the new tokens of \<open>usecs\<close>
  microseconds are issued, paid to the accounts of the funds and entered in the buckets.
\<close>

definition new_tokens_of :: "i64 \<Rightarrow> i64 \<Rightarrow> i64 res" where
  "new_tokens_of supply usecs =
     to_i64 ((continuous_rate * to_double supply * to_double usecs) / to_double useconds_per_year)"

definition inflate :: "sys_env \<Rightarrow> i64 \<Rightarrow> sys_state \<Rightarrow> sys_state res" where
  "inflate E usecs s =
     rbind (sys_core s) (\<lambda>cs.
     rbind (get_supply (sym_code cs) (token_of E)) (\<lambda>token_supply.
     rbind (new_tokens_of (amount token_supply) usecs) (\<lambda>new_tokens.
     let me = self_acct E; acct = lit E;
       network = acct ''eosio.net''; infra = acct ''eosio.infra''; comm = acct ''eosio.comm'';
       network_rewards = network_rewards_rate * to_double new_tokens;
       infrastructure_rewards = infrastructure_rewards_rate * to_double new_tokens;
       to_producers = bp_rewards_rate * network_rewards;
       to_dapps = dapps_rewards_rate * network_rewards;
       to_witnesses = witnesses_rewards_rate * network_rewards;
       to_voters = vote_rewards_rate * network_rewards;
       to_community = community_rewards_rate * infrastructure_rewards;
       to_marketing = marketing_rewards_rate * infrastructure_rewards;
       to_founding = founding_rewards_rate * infrastructure_rewards;
       to_oracle = oracle_rewards_rate * to_community
     in
     rbind (asset_new E new_tokens cs) (\<lambda>issued.
     rbind (rfold (pay_share E cs)
       [(me, network, network_rewards, ''For Network''),
        (me, infra, infrastructure_rewards, ''For Infrastructure''),
        (infra, comm, to_community, ''For community fund''),
        (infra, acct ''eosio.market'', to_marketing, ''For marketing fund''),
        (infra, acct ''eosio.found'', to_founding, ''For founding fund''),
        (comm, acct ''eosio.oracle'', to_oracle, ''For oracle fund''),
        (network, acct ''eosio.bpay'', to_producers, ''For Block Producers fund''),
        (network, acct ''eosio.dpay'', to_dapps, ''For DApp-Developers fund''),
        (network, acct ''eosio.wpay'', to_witnesses, ''For Witnesses fund''),
        (network, acct ''eosio.vpay'', to_voters, ''For Voters fund'')]
       (emit (Inline (lit E ''eosio.token'') [at_active E me]
         (TokenIssue me issued ''issue tokens for producer pay and savings'')) s)) (\<lambda>s1.
     let g = gst (vs s1) in
     rbind (add_share (perblock_bucket g) to_producers) (\<lambda>b1.
     rbind (add_share (dapps_per_transfer_rewards_bucket g) (dlit (1 / 2) * to_dapps)) (\<lambda>b2.
     rbind (add_share (dapps_per_user_rewards_bucket g) (dlit (1 / 2) * to_dapps)) (\<lambda>b3.
     rbind (add_share (perwitness_bucket g) to_witnesses) (\<lambda>b4.
     rbind (add_share (pervote_bucket g) to_voters) (\<lambda>b5.
     rbind (to_u32 (to_double (oracle_bucket g) + to_oracle)) (\<lambda>b6.
     Inr (put_gst (g\<lparr>perblock_bucket := b1, dapps_per_transfer_rewards_bucket := b2,
       dapps_per_user_rewards_bucket := b3, perwitness_bucket := b4, pervote_bucket := b5,
       oracle_bucket := b6\<rparr>) s1))))))))))))"

definition share_inflation :: "sys_env \<Rightarrow> sys_state \<Rightarrow> sys_state res" where
  "share_inflation E s =
     (let g = gst (vs s); ct = current_time E; usecs = wrap64 (ct - last_pervote_bucket_fill g) in
      if usecs \<le> 0 \<or> last_pervote_bucket_fill g \<le> 0 then Inr s
      else rbind (inflate E usecs s) (\<lambda>s1.
        Inr (put_gst ((gst (vs s1))\<lparr>last_pervote_bucket_fill := ct\<rparr>) s1)))"

section \<open>Every block\<close>

definition by_high_bid :: "name_bid \<Rightarrow> uint" where
  "by_high_bid b = u64 (- high_bid b)"

definition highest_bid :: "sys_state \<Rightarrow> name_bid option" where
  "highest_bid s = (case dropWhile (\<lambda>b. by_high_bid b < 2 ^ 63 - 1)
       (t_index (\<lambda>a b. by_high_bid a < by_high_bid b) (namebids s)) of [] \<Rightarrow> None | b # _ \<Rightarrow> Some b)"

definition close_auction :: "sys_env \<Rightarrow> uint \<Rightarrow> sys_state \<Rightarrow> sys_state" where
  "close_auction E slot s =
     (let g = gst (vs s); ct = current_time E in
      case highest_bid s of
        None \<Rightarrow> s
      | Some b \<Rightarrow>
          if high_bid b > 0 \<and> wrap64 (ct - last_bid_time b) > useconds_per_day \<and>
             thresh_activated_stake_time g > 0 \<and>
             wrap64 (ct - thresh_activated_stake_time g) > 14 * useconds_per_day
          then put_rx (channel_namebid_to_rex (high_bid b) (rx s))
                 ((put_gst (g\<lparr>last_name_close := slot\<rparr>) s)
                    \<lparr>namebids := t_set (newname b) (b\<lparr>high_bid := wrap64 (- high_bid b)\<rparr>) (namebids s)\<rparr>)
          else s)"

definition onblock :: "sys_env \<Rightarrow> uint \<Rightarrow> name \<Rightarrow> sys_state \<Rightarrow> sys_state res" where
  "onblock E slot producer s =
     require_auth E (self_acct E) (
     let ct = current_time E;
       s0 = s\<lparr>vs := (vs s)\<lparr>gst2 := (gst2 (vs s))\<lparr>last_block_num := slot\<rparr>\<rparr>\<rparr>;
       g = gst (vs s0)
     in
     if total_activated_stake g < min_activated_stake then Inr s0
     else
       let s1 = put_gst (g\<lparr>
             last_pervote_bucket_fill := (if last_pervote_bucket_fill g = 0 then ct else last_pervote_bucket_fill g),
             last_dapp_bucket_fill := (if last_dapp_bucket_fill g = 0 then ct else last_dapp_bucket_fill g)\<rparr>) s0;
         s2 = (case t_get (producers (vs s1)) producer of
                 None \<Rightarrow> s1
               | Some p \<Rightarrow>
                   let g1 = gst (vs s1) in
                   s1\<lparr>vs := (vs s1)\<lparr>gst := g1\<lparr>total_unpaid_blocks := u32 (total_unpaid_blocks g1 + 1)\<rparr>,
                     producers := t_set producer (p\<lparr>unpaid_blocks := u32 (unpaid_blocks p + 1)\<rparr>) (producers (vs s1))\<rparr>\<rparr>)
       in
       if u32 (slot - last_producer_schedule_update (gst (vs s2))) > 120
       then let s3 = s2\<lparr>vs := update_elected_producers E slot (vs s2)\<rparr> in
         Inr (if u32 (slot - last_name_close (gst (vs s3))) > blocks_per_day then close_auction E slot s3 else s3)
       else Inr s2)"

section \<open>Claims of producers\<close>

definition perblock_pay :: "eosio_global_state \<Rightarrow> producer_info \<Rightarrow> i64" where
  "perblock_pay g p = (if total_unpaid_blocks g > 0
     then cdiv (wrap64 (perblock_bucket g * unpaid_blocks p)) (total_unpaid_blocks g) else 0)"

text \<open>
  \<open>idx.find( owner.value )\<close> on the index by votes looks the owner's name up among the vote counts.
  The row it finds is in general not the owner's; when there is none the position is the number of
  producers and the row read is undefined.
\<close>

definition find_by_votes :: "double \<Rightarrow> producer_info list \<Rightarrow> nat" where
  "find_by_votes key ps = (let n = length (takeWhile (\<lambda>p. by_votes p < key) ps) in
     if n < length ps \<and> \<not> key < by_votes (ps ! n) then n else length ps)"

definition is_witness :: "sys_env \<Rightarrow> name \<Rightarrow> vote_state \<Rightarrow> bool" where
  "is_witness E owner s =
     (let ps = prototalvote s; n = find_by_votes (to_double (uint owner)) ps;
        tv = (if n < length ps then total_votes (ps ! n) else end_total_votes E)
      in n < 50 \<and> tv / total_producer_vote_weight (gst s) > dlit (5 / 1000))"

definition witness_pay :: "double \<Rightarrow> double \<Rightarrow> i64 \<Rightarrow> i64 res" where
  "witness_pay share tot bucket =
     (if tot > 0
      then rbind (to_i64 ((share * to_double bucket) / tot)) (\<lambda>n. Inr (if n > bucket then bucket else n))
      else Inr 0)"

text \<open>Oracle pay and block pay after the punishment of failed requests, and the oracle's new row.\<close>

definition oracle_pay :: "eosio_global_state \<Rightarrow> uint \<Rightarrow> oracle_info \<Rightarrow> i64 \<Rightarrow> i64 \<times> i64 \<times> oracle_info" where
  "oracle_pay g total_ok oc block_pay =
     (let pay = (if total_ok > 0 then u32 (oracle_bucket g * successful_requests oc) div total_ok else 0);
        punishment = wrap64 (pending_punishment oc + wrap64 (failed_requests oc * oracle_punishment_rate));
        d1 = min pay punishment;
        pay1 = wrap64 (pay - d1);
        pun1 = wrap64 (punishment - d1);
        d2 = (if pun1 > 0 then min block_pay pun1 else 0);
        block1 = wrap64 (block_pay - d2);
        pun2 = wrap64 (pun1 - d2)
      in (pay1, block1, oc\<lparr>successful_requests := 0, failed_requests := 0,
            pending_punishment := wrap64 (pending_punishment oc + pun2)\<rparr>))"

definition pay_from :: "sys_env \<Rightarrow> symbol \<Rightarrow> string \<Rightarrow> name \<Rightarrow> i64 \<Rightarrow> string \<Rightarrow> sys_state \<Rightarrow> sys_state res" where
  "pay_from E cs fund owner n memo s =
     (if n > 0
      then rbind (asset_new E n cs) (\<lambda>q. Inr (send_transfer E [lit E fund, owner] (lit E fund) owner q memo s))
      else Inr s)"

definition claimrewards :: "sys_env \<Rightarrow> name \<Rightarrow> sys_state \<Rightarrow> sys_state res" where
  "claimrewards E owner s0 =
     require_auth E owner (
     check (total_activated_stake (gst (vs s0)) \<ge> min_activated_stake)
       ''cannot claim rewards until the chain is activated (at least 15% of all tokens participate in voting)'' (
     rbind (share_inflation E s0) (\<lambda>s.
     rbind (rget (NoRow ''unable to find key'') (t_get (producers (vs s)) owner)) (\<lambda>p.
     check (is_active p) ''producer does not have an active key'' (
     let ct = current_time E;
       threshold = wrap64 (last_claim_time p + three_days);
       updated_after_threshold = (case t_get (producers2 (vs s)) owner of
           None \<Rightarrow> True | Some p2 \<Rightarrow> threshold \<le> last_votepay_share_update p2);
       v1 = (if t_has (producers2 (vs s)) owner then vs s
             else (vs s)\<lparr>producers2 := t_set owner \<lparr>votepay_share = 0, last_votepay_share_update = ct\<rparr>
                           (producers2 (vs s))\<rparr>);
       block_pay = perblock_pay (gst v1) p
     in
     rbind (update_producer_votepay_share owner ct (if updated_after_threshold then 0 else total_votes p) True v1)
       (\<lambda>(new_votepay_share, v2).
     let wit = is_witness E owner v2; bucket = perwitness_bucket (gst v2) in
     check (t_has (producers3 v2) owner) ''producer not found'' (
     rbind (update_producer_witnesspay_share owner ct (if wit then 1 else 0) True v2) (\<lambda>(new_witness_share, v3).
     let (total_witness_share, v4) = update_total_witnesspay_share ct 0 0 v3 in
     rbind (witness_pay new_witness_share total_witness_share bucket) (\<lambda>wit_pay.
     let v5 = snd (update_total_witnesspay_share ct (- new_witness_share) (if wit then 1 else 0) v4);
       total_ok = total_successful_requests s;
       (or_pay, block_pay1, ors, total_ok1) = (case t_get (oracles s) owner of
           None \<Rightarrow> (0, block_pay, oracles s, total_ok)
         | Some oc \<Rightarrow> (case oracle_pay (gst v5) total_ok oc block_pay of (op, bp, oc1) \<Rightarrow>
             (op, bp, t_set owner oc1 (oracles s), u32 (total_ok - successful_requests oc))));
       g = gst v5;
       v6 = v5\<lparr>gst := g\<lparr>perwitness_bucket := wrap64 (perwitness_bucket g - wit_pay),
              perblock_bucket := wrap64 (perblock_bucket g - block_pay1),
              total_unpaid_blocks := u32 (total_unpaid_blocks g - unpaid_blocks p),
              oracle_bucket := u32 (oracle_bucket g - or_pay)\<rparr>\<rparr>;
       v7 = snd (update_total_votepay_share ct (- new_votepay_share)
                   (if updated_after_threshold then total_votes p else 0) v6);
       v8 = v7\<lparr>producers := t_set owner (p\<lparr>last_claim_time := ct, unpaid_blocks := 0\<rparr>) (producers v7)\<rparr>;
       s1 = s\<lparr>vs := v8, oracles := ors, total_successful_requests := total_ok1\<rparr>
     in
     rbind (sys_core s1) (\<lambda>cs.
     rbind (pay_from E cs ''eosio.bpay'' owner block_pay1 ''producer block pay'' s1) (\<lambda>s2.
     rbind (pay_from E cs ''eosio.wpay'' owner wit_pay ''producer witness pay'' s2) (\<lambda>s3.
     pay_from E cs ''eosio.oracle'' owner or_pay ''producer oracle pay'' s3))))))))))))"

section \<open>Claims of DApp owners and voters\<close>

definition claimdapprwd :: "sys_env \<Rightarrow> name \<Rightarrow> name \<Rightarrow> name \<Rightarrow> sys_state \<Rightarrow> sys_state res" where
  "claimdapprwd E dapp_registry owner dapp s0 =
     require_auth E owner (
     check (total_activated_stake (gst (vs s0)) \<ge> min_activated_stake)
       ''cannot claim rewards until the chain is activated (at least 15% of all tokens participate in voting)'' (
     let g0 = gst (vs s0); ct = current_time E; usecs = wrap64 (ct - last_dapp_bucket_fill g0) in
     if usecs \<le> 0 \<or> last_dapp_bucket_fill g0 \<le> 0 then Inr s0
     else rbind (inflate E usecs s0) (\<lambda>s1.
       let g = (gst (vs s1))\<lparr>last_dapp_bucket_fill := ct\<rparr>; reg = registry_of E dapp_registry in
       rbind (get_dapp_info dapp reg) (\<lambda>d.
       require_auth E (dapp_owner d) (
       rbind (if preference d = TokenCirculation
              then rbind (get_dapp_rewards dapp reg) (\<lambda>rate.
                   rbind (to_i64 (rate * to_double (dapps_per_transfer_rewards_bucket g))) (\<lambda>reward.
                   Inr (reward, g\<lparr>dapps_per_transfer_rewards_bucket :=
                          wrap64 (dapps_per_transfer_rewards_bucket g - reward)\<rparr>)))
              else if preference d = UniqueUsers
              then rbind (get_dapp_rewards dapp reg) (\<lambda>rate.
                   rbind (to_i64 (rate * to_double (dapps_per_user_rewards_bucket g))) (\<lambda>reward.
                   Inr (reward, g\<lparr>dapps_per_user_rewards_bucket :=
                          wrap64 (dapps_per_user_rewards_bucket g - reward)\<rparr>)))
              else Inl (Assert ''Unknown DApp reward type'')) (\<lambda>(reward, g1).
       rbind (sys_core s1) (\<lambda>cs.
       rbind (asset_new E reward cs) (\<lambda>q.
       Inr (send_transfer E [lit E ''eosio.dpay''] (lit E ''eosio.dpay'') (dapp_owner d) q ''DApp reward transfer''
              (emit (Inline dapp_registry [at_active E owner] (RegistryClaim owner dapp reward))
                (put_gst g1 s1)))))))))))"

definition claimvoterwd :: "sys_env \<Rightarrow> name \<Rightarrow> sys_state \<Rightarrow> sys_state res" where
  "claimvoterwd E owner s0 =
     require_auth E owner (
     rbind (share_inflation E s0) (\<lambda>s.
     rbind (rget (NoRow ''user must stake before they can vote'') (t_get (voters (vs s)) owner)) (\<lambda>v.
     let g = gst (vs s); ct = current_time E in
     check (wrap64 (ct - v_last_claim_time v) > vote_claim_period g) ''already claimed rewards within past month'' (
     guard_res (total_unpaid_votes g \<noteq> 0) (Undefined ''division by zero'') (
     let reward = cdiv (wrap64 (unpaid_votes v * pervote_bucket g)) (total_unpaid_votes g) in
     check (reward > 0) ''no rewards yet'' (
     rbind (sys_core s) (\<lambda>cs.
     rbind (asset_new E reward cs) (\<lambda>q.
     let s1 = send_transfer E [lit E ''eosio.vpay''] (lit E ''eosio.vpay'') owner q ''Voter reward transfer'' s in
     Inr (s1\<lparr>vs := (put_voter owner (v\<lparr>unpaid_votes := 0, v_last_claim_time := ct\<rparr>) (vs s1))
            \<lparr>gst := g\<lparr>pervote_bucket := wrap64 (pervote_bucket g - reward),
               total_unpaid_votes := wrap64 (total_unpaid_votes g - unpaid_votes v)\<rparr>\<rparr>\<rparr>)))))))))"

definition setvclaimprd :: "sys_env \<Rightarrow> uint \<Rightarrow> sys_state \<Rightarrow> sys_state res" where
  "setvclaimprd E period_in_days s =
     require_auth E (self_acct E) (
     check (period_in_days \<ge> 0) ''claim period must be positive'' (
     Inr (put_gst ((gst (vs s))\<lparr>vote_claim_period := days period_in_days\<rparr>) s)))"

section \<open>Dispatch\<close>

datatype pay_action =
    Onblock uint name
  | Claimrewards name
  | Claimdapprwd name name name
  | Claimvoterwd name
  | SetVclaimprd uint

fun pay_exec :: "sys_env \<Rightarrow> pay_action \<Rightarrow> sys_state \<Rightarrow> sys_state res" where
  "pay_exec E (Onblock t p) s = onblock E t p s"
| "pay_exec E (Claimrewards a) s = claimrewards E a s"
| "pay_exec E (Claimdapprwd r a d) s = claimdapprwd E r a d s"
| "pay_exec E (Claimvoterwd a) s = claimvoterwd E a s"
| "pay_exec E (SetVclaimprd n) s = setvclaimprd E n s"

end
