(* ===== verification/Oracle.thy ===== *)
theory Oracle
  imports Pay
begin

text \<open>
  \<open>oracle.cpp\<close>: requests to oracles, their replies, and the choice of the oracle that answers. The
  ranges of the choice are sums of at most 21 weights of at most 30, so their 32-bit sums are exact.
\<close>

section \<open>The choice of an oracle\<close>

definition active_oracles :: "sys_state \<Rightarrow> (name \<times> uint) list" where
  "active_oracles s =
     List.map_filter (\<lambda>p. case t_get (oracles s) (p_owner p) of
         None \<Rightarrow> None
       | Some oc \<Rightarrow> if oracle_account oc \<noteq> 0 then Some (oracle_account oc, pending_requests oc) else None)
       (elected_rows (vs s))"

text \<open>The vector of growing range ends: a weight grows where the number of pending requests falls.\<close>

fun ranges :: "uint \<Rightarrow> uint \<Rightarrow> uint \<Rightarrow> (name \<times> uint) list \<Rightarrow> uint list" where
  "ranges val tot prev [] = []"
| "ranges val tot prev ((a, n) # os) =
     (let val1 = (if prev > n then val + 1 else val) in (tot + val1) # ranges val1 (tot + val1) n os)"

definition range_ends :: "(name \<times> uint) list \<Rightarrow> uint list" where
  "range_ends os = (case os of [] \<Rightarrow> [] | (a, n) # rest \<Rightarrow> 10 # ranges 10 10 n rest)"

definition find_range :: "uint \<Rightarrow> uint list \<Rightarrow> nat res" where
  "find_range x v = (let n = length (takeWhile (\<lambda>e. \<not> x < e) v) in
     check (n < length v) ''shouldn`t happen'' (Inr n))"

definition drop_nth :: "nat \<Rightarrow> 'a list \<Rightarrow> 'a list" where
  "drop_nth n xs = take n xs @ drop (Suc n) xs"

definition choose_oracles :: "uint \<Rightarrow> (name \<times> uint) list \<Rightarrow> (name \<times> name) res" where
  "choose_oracles slot os =
     (let v = range_ends os; tot = last v in
      rbind (find_range (slot mod tot) v) (\<lambda>i.
      let tot1 = (if i = 0 then tot - 10 else tot - (v ! i - v ! (i - 1)));
        v1 = drop_nth i v; os1 = drop_nth i os
      in if os1 = [] then Inr (fst (os ! i), 0)
         else rbind (find_range (slot mod tot1) v1) (\<lambda>j. Inr (fst (os ! i), fst (os1 ! j)))))"

definition get_current_oracle :: "sys_env \<Rightarrow> sys_state \<Rightarrow> (name \<times> name) res" where
  "get_current_oracle E s =
     (let os = active_oracles s in
      check (os \<noteq> []) ''noone from top21 has active oracle'' (
      choose_oracles (block_slot E (current_time E)) (sort_pending E os)))"

section \<open>Actions\<close>

text \<open>\<open>idx.find\<close> on the index by oracle account: the first row in the order of the producers.\<close>

definition find_oracle :: "name \<Rightarrow> sys_state \<Rightarrow> (name \<times> oracle_info) option" where
  "find_oracle acct s = List.find (\<lambda>(k, oc). oracle_account oc = acct) (t_list (oracles s))"

definition put_oracle :: "name \<Rightarrow> oracle_info \<Rightarrow> sys_state \<Rightarrow> sys_state" where
  "put_oracle k oc s = s\<lparr>oracles := t_set k oc (oracles s)\<rparr>"

definition check_response_type :: "uint \<Rightarrow> 'a res \<Rightarrow> 'a res" where
  "check_response_type t k = check (t \<ge> 0 \<and> t < 4) ''response type is out of range'' k"

fun check_apis :: "api list \<Rightarrow> 'a res \<Rightarrow> 'a res" where
  "check_apis [] k = k"
| "check_apis (a # as) k =
     check (take 5 (endpoint a) = ''https'') ''invalid endpoint'' (
     check (json_field a \<noteq> []) ''empty json field'' (check_apis as k))"

definition addrequest :: "sys_env \<Rightarrow> uint \<Rightarrow> name \<Rightarrow> api list \<Rightarrow> uint \<Rightarrow> uint \<Rightarrow> uint \<Rightarrow> string \<Rightarrow> sys_state \<Rightarrow> sys_state res" where
  "addrequest E rid caller aps rtype atype pref str s =
     require_auth E caller (
     check (length aps \<le> 10) ''number of endpoints is too large'' (
     check_apis aps (
     check_response_type rtype (
     check (\<not> t_has (requests s) (caller, rid)) ''request with this id already exists'' (
     rbind (get_current_oracle E s) (\<lambda>(assigned, standby).
     rbind (rget (Undefined ''end iterator'') (find_oracle assigned s)) (\<lambda>(k, oc).
     let s1 = put_oracle k (oc\<lparr>pending_requests := u32 (pending_requests oc + 1)\<rparr>) s in
     rbind (t_emplace (caller, rid)
              \<lparr>req_time = current_time E, assigned_oracle = assigned, standby_oracle = standby, apis = aps,
               response_type = rtype, aggregation_type = atype, prefered_api = pref, string_to_count = str\<rparr>
              (requests s1)) (\<lambda>t.
     Inr (s1\<lparr>requests := t\<rparr>)))))))))"

definition request_period :: i64 where "request_period = 5 * 60 * 1000000"

definition max_u32 :: uint where "max_u32 = 2 ^ 32 - 1"

definition reply :: "sys_env \<Rightarrow> name \<Rightarrow> uint \<Rightarrow> bytes \<Rightarrow> sys_state \<Rightarrow> sys_state res" where
  "reply E caller rid response s =
     rbind (rget (NoRow ''request is missing'') (t_get (requests s) (caller, rid))) (\<lambda>q.
     let age = wrap64 (current_time E - req_time q);
       first_timeframe = (age < request_period);
       second_timeframe = (\<not> first_timeframe \<and> age < request_period + request_period);
       timeout = (\<not> first_timeframe \<and> \<not> second_timeframe)
     in
     rbind (if first_timeframe then require_auth E (assigned_oracle q) (Inr ())
            else if second_timeframe then require_auth E (standby_oracle q) (Inr ())
            else check (response = []) ''only empty response is allowed if request is timed out'' (Inr ())) (\<lambda>_.
     let (succ0, s1) = (case find_oracle (assigned_oracle q) s of
           None \<Rightarrow> (0, s)
         | Some (k, oc) \<Rightarrow>
             (if first_timeframe then assigned_oracle q else 0,
              put_oracle k (oc\<lparr>pending_requests := u32 (pending_requests oc - 1),
                failed_requests := (if first_timeframe then failed_requests oc else u32 (failed_requests oc + 1))\<rparr>) s));
       succeeded = (if second_timeframe then standby_oracle q else succ0);
       s2 = (if timeout \<and> standby_oracle q \<noteq> 0
             then case find_oracle (standby_oracle q) s1 of
                 None \<Rightarrow> s1
               | Some (k, oc) \<Rightarrow> put_oracle k (oc\<lparr>failed_requests := u32 (failed_requests oc + 1)\<rparr>) s1
             else s1)
     in
     rbind (if succeeded \<noteq> 0
            then case find_oracle succeeded s2 of
                None \<Rightarrow> Inr s2
              | Some (k, oc) \<Rightarrow>
                  check (total_successful_requests s2 \<noteq> max_u32) ''total_successful_requests overflow'' (
                  Inr ((put_oracle k (oc\<lparr>successful_requests := u32 (successful_requests oc + 1)\<rparr>) s2)
                    \<lparr>total_successful_requests := u32 (total_successful_requests s2 + 1)\<rparr>))
            else Inr s2) (\<lambda>s3.
     let s4 = emit (Notify caller) s3 in
     Inr (s4\<lparr>requests := t_del (caller, rid) (requests s4)\<rparr>))))"

definition setoracle :: "sys_env \<Rightarrow> name \<Rightarrow> name \<Rightarrow> sys_state \<Rightarrow> sys_state res" where
  "setoracle E producer oracle s =
     require_auth E producer (
     check (t_has (producers (vs s)) producer) ''only block producer is allowed to set it`s oracle'' (
     Inr (put_oracle producer (case t_get (oracles s) producer of
         None \<Rightarrow> \<lparr>oracle_producer = producer, oracle_account = oracle, pending_requests = 0,
                  successful_requests = 0, failed_requests = 0, pending_punishment = 0\<rparr>
       | Some oc \<Rightarrow> oc\<lparr>oracle_account := oracle\<rparr>) s)))"

section \<open>Dispatch\<close>

datatype oracle_action =
    Addrequest uint name "api list" uint uint uint string
  | Reply name uint bytes
  | Setoracle name name

fun oracle_exec :: "sys_env \<Rightarrow> oracle_action \<Rightarrow> sys_state \<Rightarrow> sys_state res" where
  "oracle_exec E (Addrequest i c as r a p t) s = addrequest E i c as r a p t s"
| "oracle_exec E (Reply c i b) s = reply E c i b s"
| "oracle_exec E (Setoracle p a) s = setoracle E p a s"

end
