(* ===== verification/Bios.thy ===== *)
theory Bios
  imports Chain
begin

text \<open>
  The two small system contracts: \<open>eosio.bios\<close>, which passes privileged settings on to the host, and
  \<open>eosio.wrap\<close>, which lets a privileged account send a transaction. The calls to the host are listed
  in the order they are made; what the host does with them is not part of the repository. Also here are
  the actions with an empty body: those that exist for the host's own handlers, and \<open>rex.results\<close>.
\<close>

section \<open>State\<close>

datatype host_call =
    SetPrivileged name uint
  | SetResourceLimits name i64 i64 i64
  | SetProposedProducers "(name \<times> bytes) list"
  | SetBlockchainParameters bytes

datatype native_action = Updateauth | Deleteauth | Linkauth | Unlinkauth | Canceldelay | Onerror | Setcode

fun native_exec :: "native_action \<Rightarrow> 's \<Rightarrow> 's res" where
  "native_exec Updateauth s = Inr s"
| "native_exec Deleteauth s = Inr s"
| "native_exec Linkauth s = Inr s"
| "native_exec Unlinkauth s = Inr s"
| "native_exec Canceldelay s = Inr s"
| "native_exec Onerror s = Inr s"
| "native_exec Setcode s = Inr s"

lemma native_exec_skips [simp]: "native_exec a s = Inr s"
  by (cases a) simp_all

record bios_state =
  abi_hashes :: "(name, bytes) table"
  host_calls :: "host_call list"

record bios_env = env +
  abi_sha256 :: "bytes \<Rightarrow> bytes"

definition call_host :: "host_call \<Rightarrow> bios_state \<Rightarrow> bios_state" where
  "call_host c s = s\<lparr>host_calls := host_calls s @ [c]\<rparr>"

section \<open>\<open>eosio.bios\<close>\<close>

definition bios_setpriv :: "bios_env \<Rightarrow> name \<Rightarrow> uint \<Rightarrow> bios_state \<Rightarrow> bios_state res" where
  "bios_setpriv E acct is_priv s = require_auth E (self_acct E) (Inr (call_host (SetPrivileged acct is_priv) s))"

definition bios_setalimits :: "bios_env \<Rightarrow> name \<Rightarrow> i64 \<Rightarrow> i64 \<Rightarrow> i64 \<Rightarrow> bios_state \<Rightarrow> bios_state res" where
  "bios_setalimits E acct ram net cpu s =
     require_auth E (self_acct E) (Inr (call_host (SetResourceLimits acct ram net cpu) s))"

definition bios_setprods :: "bios_env \<Rightarrow> (name \<times> bytes) list \<Rightarrow> bios_state \<Rightarrow> bios_state res" where
  "bios_setprods E sched s = require_auth E (self_acct E) (Inr (call_host (SetProposedProducers sched) s))"

definition bios_setparams :: "bios_env \<Rightarrow> bytes \<Rightarrow> bios_state \<Rightarrow> bios_state res" where
  "bios_setparams E params s = require_auth E (self_acct E) (Inr (call_host (SetBlockchainParameters params) s))"

definition bios_reqauth :: "bios_env \<Rightarrow> name \<Rightarrow> bios_state \<Rightarrow> bios_state res" where
  "bios_reqauth E from s = require_auth E from (Inr s)"

definition bios_setabi :: "bios_env \<Rightarrow> name \<Rightarrow> bytes \<Rightarrow> bios_state \<Rightarrow> bios_state res" where
  "bios_setabi E acct abi s =
     (case t_get (abi_hashes s) acct of
        None \<Rightarrow> rbind (t_emplace acct (abi_sha256 E abi) (abi_hashes s)) (\<lambda>t. Inr (s\<lparr>abi_hashes := t\<rparr>))
      | Some _ \<Rightarrow> Inr (s\<lparr>abi_hashes := t_modify acct (\<lambda>_. abi_sha256 E abi) (abi_hashes s)\<rparr>))"

datatype bios_action =
    BiosNewaccount name name
  | BiosNative native_action
  | BiosSetpriv name uint
  | BiosSetalimits name i64 i64 i64
  | BiosSetprods "(name \<times> bytes) list"
  | BiosSetparams bytes
  | BiosReqauth name
  | BiosSetabi name bytes

fun bios_exec :: "bios_env \<Rightarrow> bios_action \<Rightarrow> bios_state \<Rightarrow> bios_state res" where
  "bios_exec E (BiosNewaccount c n) s = Inr s"
| "bios_exec E (BiosNative a) s = native_exec a s"
| "bios_exec E (BiosSetpriv a p) s = bios_setpriv E a p s"
| "bios_exec E (BiosSetalimits a r n c) s = bios_setalimits E a r n c s"
| "bios_exec E (BiosSetprods ps) s = bios_setprods E ps s"
| "bios_exec E (BiosSetparams p) s = bios_setparams E p s"
| "bios_exec E (BiosReqauth a) s = bios_reqauth E a s"
| "bios_exec E (BiosSetabi a b) s = bios_setabi E a b s"

section \<open>\<open>eosio.wrap\<close>\<close>

text \<open>
  The sender's number joins the executer and the time. The transaction is sent as it was received:
  \<open>trx\<close> is the rest of the action's data.
\<close>

definition wrap_exec :: "'z env_scheme \<Rightarrow> name \<Rightarrow> bytes \<Rightarrow> effect list \<Rightarrow> effect list res" where
  "wrap_exec E executer trx out =
     require_auth E (self_acct E) (
     require_auth E executer (
     Inr (out @ [SendDeferred (uint executer * 2 ^ 64 + u64 (current_time E)) executer 0 (DeferRaw trx)])))"

section \<open>\<open>rex.results\<close>\<close>

text \<open>The contract only makes the results of REX actions visible in the block.\<close>

datatype rex_result =
    Buyresult asset
  | Sellresult asset
  | Orderresult name asset
  | Rentresult asset

fun rex_results_exec :: "rex_result \<Rightarrow> 's \<Rightarrow> 's res" where
  "rex_results_exec (Buyresult rex_received) s = Inr s"
| "rex_results_exec (Sellresult proceeds) s = Inr s"
| "rex_results_exec (Orderresult owner proceeds) s = Inr s"
| "rex_results_exec (Rentresult rented_tokens) s = Inr s"

section \<open>Properties\<close>

definition bios_init :: bios_state where
  "bios_init = \<lparr>abi_hashes = t_empty, host_calls = []\<rparr>"

text \<open>Calls to the host are only appended, each with the contract's own authority.\<close>

definition host_step :: "bios_env \<Rightarrow> bios_state \<Rightarrow> bios_state \<Rightarrow> bool" where
  "host_step E s s' \<longleftrightarrow> host_calls s' = host_calls s \<or> has_auth E (self_acct E) \<and>
     (\<exists>c. host_calls s' = host_calls s @ [c] \<and> abi_hashes s' = abi_hashes s)"

lemma bios_host_step: "bios_exec E a s = Inr s' \<Longrightarrow> host_step E s s'"
  by (cases a)
    (auto simp: host_step_def bios_setpriv_def bios_setalimits_def bios_setprods_def bios_setparams_def bios_reqauth_def
      bios_setabi_def call_host_def res_simps split: option.splits)

text \<open>
  Without the authority of the contract's own account no run of bios actions reaches the host: the
  list of calls to it stays as it was, whatever the other accounts send.
\<close>

theorem bios_host_needs_self:
  assumes "\<forall>(E, a) \<in> set xs. \<not> has_auth E (self_acct E)"
  shows "host_calls (run bios_exec xs s) = host_calls s"
  using assms
proof (induction xs arbitrary: s)
  case (Cons x xs)
  obtain E a where x: "x = (E, a)" by (cases x)
  show ?case
  proof (cases "bios_exec E a s")
    case (Inr s')
    have "host_calls s' = host_calls s"
      using bios_host_step [OF Inr] Cons.prems x by (simp add: host_step_def)
    then show ?thesis using Cons x Inr by simp
  qed (use Cons x in simp)
qed simp

definition bios_ref :: "name list \<Rightarrow> bios_env" where
  "bios_ref auths = env.extend (ref_env 1 auths 0) \<lparr>abi_sha256 = (\<lambda>b. b)\<rparr>"

lemma bios_ref_simps [simp]: "has_auth (bios_ref auths) n \<longleftrightarrow> n \<in> set auths" "self_acct (bios_ref auths) = 1"
  by (simp_all add: bios_ref_def env.defs ref_env_def)

theorem bios_host_needs_self_witness:
  "host_calls (run bios_exec [(bios_ref [7], BiosSetpriv 7 1), (bios_ref [7], BiosSetabi 7 [1])] bios_init) = []"
  using bios_host_needs_self [of "[(bios_ref [7], BiosSetpriv 7 1), (bios_ref [7], BiosSetabi 7 [1])]" bios_init]
  by (simp add: bios_init_def)

text \<open>
  \<open>eosio.wrap\<close> sends the transaction only with the authority of both the contract and the executer,
  who pays for it, and two transactions get the same number only if they are of the same executer at
  the same time.
\<close>

theorem wrap_exec_sound:
  assumes "wrap_exec E x trx out = Inr out'" and "wrap_exec F y trx2 out2 = Inr out2'"
    and "0 \<le> current_time E" and "0 \<le> current_time F" and "in64 (current_time E)" and "in64 (current_time F)"
  shows "\<exists>i j. has_auth E (self_acct E) \<and> has_auth E x \<and>
     out' = out @ [SendDeferred i x 0 (DeferRaw trx)] \<and> out2' = out2 @ [SendDeferred j y 0 (DeferRaw trx2)] \<and>
     (i = j \<longleftrightarrow> x = y \<and> current_time E = current_time F)"
proof -
  have t: "u64 (current_time E) = current_time E" "u64 (current_time F) = current_time F"
    using assms(3-6) by (simp_all add: u64_id in64_def)
  have inj: "uint x * 2 ^ 64 + current_time E = uint y * 2 ^ 64 + current_time F \<longleftrightarrow> x = y \<and> current_time E = current_time F"
  proof
    assume e: "uint x * 2 ^ 64 + current_time E = uint y * 2 ^ 64 + current_time F"
    have "(uint x * 2 ^ 64 + current_time E) div 2 ^ 64 = uint x" "(uint y * 2 ^ 64 + current_time F) div 2 ^ 64 = uint y"
      using assms(3-6) by (simp_all add: in64_def div_pos_pos_trivial)
    then have "uint x = uint y" using e by simp
    then show "x = y \<and> current_time E = current_time F" using e by (simp add: word_uint_eq_iff)
  qed simp
  show ?thesis using assms(1,2) inj t by (auto simp: wrap_exec_def res_simps)
qed

theorem wrap_exec_sound_witness:
  "\<exists>i j. [SendDeferred (7 * 2 ^ 64 + 5) 7 0 (DeferRaw [1])] = [SendDeferred i 7 0 (DeferRaw [1])] \<and>
     [SendDeferred (8 * 2 ^ 64 + 5) 8 0 (DeferRaw [2])] = [SendDeferred j (8::name) 0 (DeferRaw [2])] \<and> i \<noteq> j"
proof -
  have a: "wrap_exec (ref_env 1 [1, 7] 5) 7 [1] [] = Inr [SendDeferred (7 * 2 ^ 64 + 5) 7 0 (DeferRaw [1])]"
    "wrap_exec (ref_env 1 [1, 8] 5) 8 [2] [] = Inr [SendDeferred (8 * 2 ^ 64 + 5) 8 0 (DeferRaw [2])]"
    by (simp_all add: wrap_exec_def require_auth_def u64_def)
  show ?thesis using wrap_exec_sound [OF a] by (auto simp: in64_def)
qed

end
