(* ===== verification/Admin.thy ===== *)
theory Admin
  imports Oracle Bios
begin

text \<open>
  \<open>eosio.system.cpp\<close>: initialisation, the privileged settings, the limits of managed accounts, the
  auction of short names and the creation of accounts; and the dispatch table of the system contract.
\<close>

section \<open>Initialisation and settings\<close>

definition sys_init_state :: "blockchain_parameters \<Rightarrow> sys_state" where
  "sys_init_state p =
     \<lparr>vs = \<lparr>voters = t_empty, producers = t_empty, producers2 = t_empty, producers3 = t_empty,
        gst = default_gstate p,
        gst2 = \<lparr>new_ram_per_block = 0, last_ram_increase = 0, last_block_num = 0,
          total_producer_votepay_share = 0, revision = 0\<rparr>,
        gst3 = \<lparr>last_vpay_state_update = 0, total_vpay_share_change_rate = 0\<rparr>,
        gst4 = \<lparr>last_wpay_state_update = 0, total_wpay_share_change_rate = 0,
          total_producer_witnesspay_share = 0\<rparr>\<rparr>,
      rx = \<lparr>rexpool = None, rexfunds = t_empty, rexbalance = t_empty, rexorders = t_empty,
        cpu_loans = t_empty, net_loans = t_empty\<rparr>,
      bw = \<lparr>userres = t_empty, delband = t_empty, refunds = t_empty, limits = (\<lambda>_. (- 1, - 1, - 1))\<rparr>,
      rammarket = None, namebids = t_empty, bidrefunds = t_empty, oracles = t_empty,
      total_successful_requests = 0, requests = t_empty, abihash = t_empty, host_params = None,
      privileged = (\<lambda>_. 0), sys_out = []\<rparr>"

definition free_ram :: "eosio_global_state \<Rightarrow> uint" where
  "free_ram g = u64 (max_ram_size g - total_ram_bytes_reserved g)"

definition init :: "sys_env \<Rightarrow> uint \<Rightarrow> symbol \<Rightarrow> sys_state \<Rightarrow> sys_state res" where
  "init E version core s =
     require_auth E (self_acct E) (
     check (version = 0) ''unsupported version for init action'' (
     check (rammarket s = None) ''system contract has already been initialized'' (
     rbind (get_supply (sym_code core) (token_of E)) (\<lambda>system_token_supply.
     check (symb system_token_supply = core) ''specified core symbol does not exist (precision mismatch)'' (
     check (amount system_token_supply > 0) ''system token supply must be greater than 0'' (
     let m = \<lparr>ex_supply = mk_asset 100000000000000 ramcore_symbol,
              base = \<lparr>conn_balance = mk_asset (wrap64 (free_ram (gst (vs s)))) ram_symbol, weight = dlit (1 / 2)\<rparr>,
              quote = \<lparr>conn_balance = mk_asset (cdiv (amount system_token_supply) 1000) core, weight = dlit (1 / 2)\<rparr>\<rparr>
     in Inr (emit (Inline (lit E ''eosio.token'') [at_active E (self_acct E)]
                     (TokenOpen (lit E ''eosio.rex'') core (self_acct E))) (s\<lparr>rammarket := Some m\<rparr>))))))))"

definition setram :: "sys_env \<Rightarrow> uint \<Rightarrow> sys_state \<Rightarrow> sys_state res" where
  "setram E new_size s =
     require_auth E (self_acct E) (
     let g = gst (vs s) in
     check (max_ram_size g < new_size) ''ram may only be increased'' (
     check (new_size < 1024 * 1024 * 1024 * 1024 * 1024) ''ram size is unrealistic'' (
     check (new_size > total_ram_bytes_reserved g) ''attempt to set max below reserved'' (
     rbind (rget (Undefined ''end iterator'') (rammarket s)) (\<lambda>m.
     let delta = wrap64 (wrap64 new_size - wrap64 (max_ram_size g)) in
     Inr (put_gst (g\<lparr>max_ram_size := new_size\<rparr>)
       (s\<lparr>rammarket := Some (m\<lparr>base := (base m)\<lparr>conn_balance := add_amt delta (conn_balance (base m))\<rparr>\<rparr>)\<rparr>)))))))"

definition setramrate :: "sys_env \<Rightarrow> uint \<Rightarrow> sys_state \<Rightarrow> sys_state res" where
  "setramrate E bytes_per_block s =
     require_auth E (self_acct E) (
     rbind (update_ram_supply E s) (\<lambda>s1.
     Inr (s1\<lparr>vs := (vs s1)\<lparr>gst2 := (gst2 (vs s1))\<lparr>new_ram_per_block := bytes_per_block\<rparr>\<rparr>\<rparr>)))"

definition setparams :: "sys_env \<Rightarrow> blockchain_parameters \<Rightarrow> sys_state \<Rightarrow> sys_state res" where
  "setparams E params s =
     require_auth E (self_acct E) (
     check (3 \<le> max_authority_depth params) ''max_authority_depth should be at least 3'' (
     Inr ((put_gst ((gst (vs s))\<lparr>chain_params := params\<rparr>) s)\<lparr>host_params := Some params\<rparr>)))"

definition setpriv :: "sys_env \<Rightarrow> name \<Rightarrow> uint \<Rightarrow> sys_state \<Rightarrow> sys_state res" where
  "setpriv E acct ispriv s =
     require_auth E (self_acct E) (Inr (s\<lparr>privileged := (privileged s)(acct := ispriv)\<rparr>))"

definition setalimits :: "sys_env \<Rightarrow> name \<Rightarrow> i64 \<Rightarrow> i64 \<Rightarrow> i64 \<Rightarrow> sys_state \<Rightarrow> sys_state res" where
  "setalimits E acct ram net cpu s =
     require_auth E (self_acct E) (
     check (\<not> t_has (userres (bw s)) acct) ''only supports unlimited accounts'' (
     check (\<not> (managed ram_managed acct s \<or> managed net_managed acct s \<or> managed cpu_managed acct s))
       ''cannot use setalimits on an account with managed resources'' (
     Inr (set_resource_limits acct ram net cpu s))))"

definition set_flag :: "name \<Rightarrow> 32 word \<Rightarrow> bool \<Rightarrow> sys_state \<Rightarrow> sys_state" where
  "set_flag acct fld v s =
     (let row = (case t_get (voters (vs s)) acct of None \<Rightarrow> new_voter | Some x \<Rightarrow> x) in
      s\<lparr>vs := put_voter acct (row\<lparr>flags1 := set_field (flags1 row) fld v\<rparr>) (vs s)\<rparr>)"

definition setacctram :: "sys_env \<Rightarrow> name \<Rightarrow> i64 option \<Rightarrow> sys_state \<Rightarrow> sys_state res" where
  "setacctram E acct bytes s =
     require_auth E (self_acct E) (
     case limits (bw s) acct of (_, net, cpu) \<Rightarrow>
     (case bytes of
        None \<Rightarrow>
          check (managed ram_managed acct s) ''RAM of account is already unmanaged'' (
          let ram = (case t_get (userres (bw s)) acct of
                       None \<Rightarrow> ram_gift_bytes | Some r \<Rightarrow> wrap64 (ram_gift_bytes + ram_bytes r))
          in Inr (set_resource_limits acct ram net cpu (set_flag acct ram_managed False s)))
      | Some n \<Rightarrow>
          check (n \<ge> 0) ''not allowed to set RAM limit to unlimited'' (
          Inr (set_resource_limits acct n net cpu (set_flag acct ram_managed True s)))))"

definition setacctnet :: "sys_env \<Rightarrow> name \<Rightarrow> i64 option \<Rightarrow> sys_state \<Rightarrow> sys_state res" where
  "setacctnet E acct w s =
     require_auth E (self_acct E) (
     case limits (bw s) acct of (ram, _, cpu) \<Rightarrow>
     (case w of
        None \<Rightarrow>
          check (managed net_managed acct s) ''Network bandwidth of account is already unmanaged'' (
          let net = (case t_get (userres (bw s)) acct of None \<Rightarrow> 0 | Some r \<Rightarrow> amount (net_weight r))
          in Inr (set_resource_limits acct ram net cpu (set_flag acct net_managed False s)))
      | Some n \<Rightarrow>
          check (n \<ge> - 1) ''invalid value for net_weight'' (
          Inr (set_resource_limits acct ram n cpu (set_flag acct net_managed True s)))))"

definition setacctcpu :: "sys_env \<Rightarrow> name \<Rightarrow> i64 option \<Rightarrow> sys_state \<Rightarrow> sys_state res" where
  "setacctcpu E acct w s =
     require_auth E (self_acct E) (
     case limits (bw s) acct of (ram, net, _) \<Rightarrow>
     (case w of
        None \<Rightarrow>
          check (managed cpu_managed acct s) ''CPU bandwidth of account is already unmanaged'' (
          let cpu = (case t_get (userres (bw s)) acct of None \<Rightarrow> 0 | Some r \<Rightarrow> amount (cpu_weight r))
          in Inr (set_resource_limits acct ram net cpu (set_flag acct cpu_managed False s)))
      | Some n \<Rightarrow>
          check (n \<ge> - 1) ''invalid value for cpu_weight'' (
          Inr (set_resource_limits acct ram net n (set_flag acct cpu_managed True s)))))"

definition rmvproducer :: "sys_env \<Rightarrow> name \<Rightarrow> vote_state \<Rightarrow> vote_state res" where
  "rmvproducer E producer s =
     require_auth E (self_acct E) (
     rbind (rget (Assert ''producer not found'') (t_get (producers s) producer)) (\<lambda>p.
     put_producer producer (deactivate E p) s))"

definition updtrevision :: "sys_env \<Rightarrow> uint \<Rightarrow> vote_state \<Rightarrow> vote_state res" where
  "updtrevision E new_rev s =
     require_auth E (self_acct E) (
     check (revision (gst2 s) < 255) ''can not increment revision'' (
     check (new_rev = revision (gst2 s) + 1) ''can only increment revision by one'' (
     check (new_rev \<le> 1) ''specified revision is not yet supported by the code'' (
     Inr (s\<lparr>gst2 := (gst2 s)\<lparr>revision := new_rev\<rparr>\<rparr>)))))"

section \<open>Name auction\<close>

definition bidname :: "sys_env \<Rightarrow> name \<Rightarrow> name \<Rightarrow> asset \<Rightarrow> sys_state \<Rightarrow> sys_state res" where
  "bidname E bidder nm bid s =
     require_auth E bidder (
     check (suffix E nm = nm) ''you can only bid on top-level suffix'' (
     check (name_set nm) ''the empty name is not a valid account name to bid on'' (
     check (and nm 0xF = 0) ''13 character names are not valid account names to bid on'' (
     check (and nm 0x1F0 = 0) ''accounts with 12 character names and no dots can be created without bidding required'' (
     check (\<not> is_account E nm) ''account already exists'' (
     rbind (sys_core s) (\<lambda>cs.
     check (symb bid = cs) ''asset must be system token'' (
     check (amount bid > 0) ''insufficient bid'' (
     let s1 = send_transfer E [bidder] bidder (lit E ''eosio.names'') bid (''bid name '' @ name_str E nm) s in
     case t_get (namebids s1) nm of
       None \<Rightarrow> Inr (s1\<lparr>namebids := t_set nm
           \<lparr>newname = nm, high_bidder = bidder, high_bid = amount bid, last_bid_time = current_time E\<rparr> (namebids s1)\<rparr>)
     | Some cur \<Rightarrow>
         check (high_bid cur > 0) ''this auction has already closed'' (
         check (wrap64 (amount bid - high_bid cur) > cdiv (high_bid cur) 10) ''must increase bid by 10%'' (
         check (high_bidder cur \<noteq> bidder) ''account is already highest bidder'' (
         rbind (asset_new E (high_bid cur) cs) (\<lambda>back.
         rbind (case t_get (bidrefunds s1) (nm, high_bidder cur) of
                  None \<Rightarrow> Inr back | Some q \<Rightarrow> asset_plus E q back) (\<lambda>due.
         let id = uint nm * 2 ^ 64 + uint (high_bidder cur);
           s2 = s1\<lparr>bidrefunds := t_set (nm, high_bidder cur) due (bidrefunds s1)\<rparr>;
           s3 = emit (SendDeferred id bidder 0 (DeferBidRefund (high_bidder cur) nm)) (emit (CancelDeferred id) s2)
         in Inr (s3\<lparr>namebids := t_set nm
              (cur\<lparr>high_bidder := bidder, high_bid := amount bid, last_bid_time := current_time E\<rparr>) (namebids s3)\<rparr>)))))))))))))))"

definition bidrefund :: "sys_env \<Rightarrow> name \<Rightarrow> name \<Rightarrow> sys_state \<Rightarrow> sys_state res" where
  "bidrefund E bidder nm s =
     rbind (rget (Assert ''refund not found'') (t_get (bidrefunds s) (nm, bidder))) (\<lambda>q.
     let s1 = send_transfer E [lit E ''eosio.names'', bidder] (lit E ''eosio.names'') bidder q
                (''refund bid on name '' @ name_str E nm) s in
     Inr (s1\<lparr>bidrefunds := t_del (nm, bidder) (bidrefunds s1)\<rparr>))"

section \<open>Account creation\<close>

text \<open>Some of the first twelve characters of the name is a dot.\<close>

definition has_dot :: "name \<Rightarrow> bool" where
  "has_dot n \<longleftrightarrow> list_ex (\<lambda>i. and (drop_bit (4 + 5 * i) n) 0x1F = 0) [0..<12]"

definition newaccount :: "sys_env \<Rightarrow> name \<Rightarrow> name \<Rightarrow> sys_state \<Rightarrow> sys_state res" where
  "newaccount E creator newact s =
     rbind (if creator \<noteq> self_acct E \<and> has_dot newact
            then if suffix E newact = newact
              then rbind (rget (Assert ''no active bid for name'') (t_get (namebids s) newact)) (\<lambda>cur.
                   check (high_bidder cur = creator) ''only highest bidder can claim'' (
                   check (high_bid cur < 0) ''auction for name is not closed yet'' (
                   Inr (s\<lparr>namebids := t_del newact (namebids s)\<rparr>))))
              else check (creator = suffix E newact) ''only suffix may create this account'' (Inr s)
            else Inr s) (\<lambda>s1.
     rbind (sys_core s1) (\<lambda>cs.
     rbind (t_emplace newact \<lparr>net_weight = mk_asset 0 cs, cpu_weight = mk_asset 0 cs, ram_bytes = 0\<rparr>
              (userres (bw s1))) (\<lambda>t.
     Inr (set_resource_limits newact 0 0 0 (s1\<lparr>bw := (bw s1)\<lparr>userres := t\<rparr>\<rparr>)))))"

definition setabi :: "sys_env \<Rightarrow> name \<Rightarrow> bytes \<Rightarrow> sys_state \<Rightarrow> sys_state res" where
  "setabi E acnt abi s = Inr (s\<lparr>abihash := t_set acnt (sha256 E abi) (abihash s)\<rparr>)"

section \<open>Dispatch\<close>

datatype admin_action =
    Newaccount name name
  | Setabi name bytes
  | Init uint symbol
  | Setram uint
  | Setramrate uint
  | Setparams blockchain_parameters
  | Setpriv name uint
  | Setalimits name i64 i64 i64
  | Setacctram name "i64 option"
  | Setacctnet name "i64 option"
  | Setacctcpu name "i64 option"
  | Rmvproducer name
  | Updtrevision uint
  | Bidname name name asset
  | Bidrefund name name

fun admin_exec :: "sys_env \<Rightarrow> admin_action \<Rightarrow> sys_state \<Rightarrow> sys_state res" where
  "admin_exec E (Newaccount c n) s = newaccount E c n s"
| "admin_exec E (Setabi a b) s = setabi E a b s"
| "admin_exec E (Init v c) s = init E v c s"
| "admin_exec E (Setram n) s = setram E n s"
| "admin_exec E (Setramrate n) s = setramrate E n s"
| "admin_exec E (Setparams p) s = setparams E p s"
| "admin_exec E (Setpriv a p) s = setpriv E a p s"
| "admin_exec E (Setalimits a r n c) s = setalimits E a r n c s"
| "admin_exec E (Setacctram a r) s = setacctram E a r s"
| "admin_exec E (Setacctnet a r) s = setacctnet E a r s"
| "admin_exec E (Setacctcpu a r) s = setacctcpu E a r s"
| "admin_exec E (Rmvproducer p) s = on_vs (rmvproducer E p) s"
| "admin_exec E (Updtrevision r) s = on_vs (updtrevision E r) s"
| "admin_exec E (Bidname b n q) s = bidname E b n q s"
| "admin_exec E (Bidrefund b n) s = bidrefund E b n s"

text \<open>The dispatch table of the system contract; the bodies of the \<open>Native\<close> actions are empty.\<close>

datatype sys_action =
    Native native_action
  | AdminAct admin_action
  | RexAct rex_action
  | BwAct bw_action
  | VoteAct vote_action
  | PayAct pay_action
  | OracleAct oracle_action

fun sys_exec :: "sys_env \<Rightarrow> sys_action \<Rightarrow> sys_state \<Rightarrow> sys_state res" where
  "sys_exec E (Native a) s = native_exec a s"
| "sys_exec E (AdminAct a) s = admin_exec E a s"
| "sys_exec E (RexAct a) s = rex_exec E a s"
| "sys_exec E (BwAct a) s = bw_exec E a s"
| "sys_exec E (VoteAct a) s = on_vs (vote_exec E a) s"
| "sys_exec E (PayAct a) s = pay_exec E a s"
| "sys_exec E (OracleAct a) s = oracle_exec E a s"

end
