(* ===== verification/RexRows.thy ===== *)
theory RexRows
  imports RexPool
begin

text \<open>
  Laws of the arithmetic of \<open>rex.cpp\<close> and of a single REX balance: the matured amount and the maturity
  buckets of a balance add up to the balance, whatever the bucket operations do. The predicate
  \<open>bal_off n\<close> allows for \<open>n\<close> REX that is out of the row for a moment, such as the savings between
  \<open>read_rex_savings\<close> and \<open>put_rex_savings\<close>.
\<close>

section \<open>Arithmetic\<close>

lemma mul_div_exact:
  assumes "0 \<le> a" "0 \<le> b" "0 < c" "a * b < 2 ^ 128" "c < 2 ^ 128" "a < 2 ^ 128" "b < 2 ^ 128" "a * b div c < 2 ^ 63"
  shows "mul_div a b c = Inr (a * b div c)"
proof -
  have n: "0 \<le> a * b div c" using assms by (simp add: pos_imp_zdiv_nonneg_iff)
  show ?thesis using assms n by (simp add: mul_div_def u128_id wrap64_id in64_def)
qed

lemma mul_div_le:
  fixes a b c :: int
  assumes "0 \<le> a" "0 \<le> b" "0 < c" "a \<le> c"
  shows "a * b div c \<le> b"
proof -
  have "a * b div c \<le> c * b div c" using assms by (intro zdiv_mono1 mult_right_mono) auto
  then show ?thesis using assms by simp
qed

lemma div_mult_bounds:
  fixes a c :: int
  assumes "0 < c"
  shows "a div c * c \<le> a" and "a < (a div c + 1) * c"
proof -
  have "a div c * c + a mod c = a" and "0 \<le> a mod c" "a mod c < c"
    using assms by (simp_all only: div_mult_mod_eq pos_mod_sign pos_mod_bound)
  then show "a div c * c \<le> a" "a < (a div c + 1) * c" unfolding distrib_right by linarith+
qed

section \<open>Balances\<close>

definition bucket_sum :: "(uint \<times> i64) list \<Rightarrow> int" where
  "bucket_sum bs = sum_list (map snd bs)"

definition buckets_ok :: "(uint \<times> i64) list \<Rightarrow> bool" where
  "buckets_ok bs \<longleftrightarrow> (\<forall>x \<in> set bs. 0 \<le> snd x)"

definition bal_off :: "int \<Rightarrow> rex_balance \<Rightarrow> bool" where
  "bal_off n b \<longleftrightarrow> 0 \<le> n \<and> 0 \<le> matured_rex b \<and> buckets_ok (rex_maturities b) \<and>
     amount (rex_amount b) = matured_rex b + bucket_sum (rex_maturities b) + n \<and>
     amount (rex_amount b) \<le> 2 ^ 62"

lemma bucket_sum_simps [simp]:
  "bucket_sum [] = 0" "bucket_sum (x # bs) = snd x + bucket_sum bs"
  "bucket_sum (as @ bs) = bucket_sum as + bucket_sum bs" "bucket_sum (rev bs) = bucket_sum bs"
  by (simp_all add: bucket_sum_def sum_list_rev flip: rev_map)

lemma buckets_ok_simps [simp]:
  "buckets_ok []" "buckets_ok (x # bs) \<longleftrightarrow> 0 \<le> snd x \<and> buckets_ok bs"
  "buckets_ok (as @ bs) \<longleftrightarrow> buckets_ok as \<and> buckets_ok bs" "buckets_ok (rev bs) \<longleftrightarrow> buckets_ok bs"
  by (auto simp: buckets_ok_def)

lemma bucket_sum_nonneg: "buckets_ok bs \<Longrightarrow> 0 \<le> bucket_sum bs"
  by (induction bs) auto

lemma butlast_last: "bs \<noteq> [] \<Longrightarrow> bucket_sum bs = bucket_sum (butlast bs) + snd (last bs)"
  and buckets_ok_split: "bs \<noteq> [] \<Longrightarrow> buckets_ok bs \<longleftrightarrow> buckets_ok (butlast bs) \<and> 0 \<le> snd (last bs)"
  by (induction bs) auto

lemma mature_sum:
  assumes "mature now m bs = (m', bs')" "0 \<le> m" "buckets_ok bs" "m + bucket_sum bs \<le> 2 ^ 62"
  shows "m' + bucket_sum bs' = m + bucket_sum bs \<and> m \<le> m' \<and> buckets_ok bs'"
  using assms
proof (induction now m bs rule: mature.induct)
  case (2 now m t x bs)
  have w: "wrap64 (m + x) = m + x"
    using 2(3-5) bucket_sum_nonneg [of bs] by (intro wrap_small) auto
  show ?case using 2 w by (auto split: if_splits)
qed simp

lemma process_off:
  assumes "bal_off n b"
  shows "bal_off n (process_rex_maturities E b)" and "matured_rex b \<le> matured_rex (process_rex_maturities E b)"
proof -
  obtain m bs where m: "mature (time_sec E (current_time E)) (matured_rex b) (rex_maturities b) = (m, bs)" by fastforce
  have "m + bucket_sum bs = matured_rex b + bucket_sum (rex_maturities b) \<and> matured_rex b \<le> m \<and> buckets_ok bs"
    using assms by (intro mature_sum [OF m]) (auto simp: bal_off_def)
  then show "bal_off n (process_rex_maturities E b)" "matured_rex b \<le> matured_rex (process_rex_maturities E b)"
    using assms m by (auto simp: bal_off_def process_rex_maturities_def)
qed

lemma process_amount [simp]: "rex_amount (process_rex_maturities E b) = rex_amount b"
  by (simp add: process_rex_maturities_def split: prod.split)

lemma add_bucket_sum:
  assumes "buckets_ok bs" "0 \<le> x" "bucket_sum bs + x \<le> 2 ^ 62"
  shows "bucket_sum (add_bucket t x bs) = bucket_sum bs + x \<and> buckets_ok (add_bucket t x bs)"
proof (cases "bs \<noteq> [] \<and> fst (last bs) = t")
  case True
  have "0 \<le> bucket_sum (butlast bs)" using True assms by (simp add: buckets_ok_split bucket_sum_nonneg)
  then have "wrap64 (snd (last bs) + x) = snd (last bs) + x"
    using True assms by (intro wrap_small) (auto simp: buckets_ok_split butlast_last)
  then show ?thesis using True assms by (simp add: add_bucket_def buckets_ok_split butlast_last)
next
  case False
  then show ?thesis using assms by (auto simp: add_bucket_def)
qed

lemma add_bucket_off:
  assumes "bal_off (n + x) b" "0 \<le> n" "0 \<le> x"
  shows "bal_off n (b\<lparr>rex_maturities := add_bucket t x (rex_maturities b)\<rparr>)"
  using assms add_bucket_sum [of "rex_maturities b" x t] by (auto simp: bal_off_def)

lemma read_off:
  assumes "read_rex_savings b = (sav, b1)" "bal_off n b"
  shows "bal_off (n + sav) b1" and "0 \<le> sav" and "rex_amount b1 = rex_amount b"
    and "matured_rex b1 = matured_rex b"
  using assms
  by (auto simp: read_rex_savings_def bal_off_def Let_def buckets_ok_split butlast_last split: if_splits)

lemma put_off:
  assumes "bal_off (n + sav) b" "0 \<le> n" "0 \<le> sav"
  shows "bal_off n (put_rex_savings sav b)"
  using assms add_bucket_off [OF assms] by (auto simp: put_rex_savings_def)

lemma put_savings_simps [simp]:
  "rex_amount (put_rex_savings sav b) = rex_amount b" "matured_rex (put_rex_savings sav b) = matured_rex b"
  by (simp_all add: put_rex_savings_def)

lemma foldl_wrap_sum:
  assumes "0 \<le> m" "buckets_ok bs" "m + bucket_sum bs \<le> 2 ^ 62"
  shows "foldl (\<lambda>t x. wrap64 (t + snd x)) m bs = m + bucket_sum bs"
  using assms
proof (induction bs arbitrary: m)
  case (Cons x bs)
  then have "wrap64 (m + snd x) = m + snd x"
    using bucket_sum_nonneg [of bs] by (intro wrap_small) auto
  with Cons show ?case by simp
qed simp

lemma consolidate_off:
  assumes "bal_off 0 b" "0 \<le> amount q" "amount q \<le> matured_rex b"
  shows "bal_off 0 (consolidate_rex_balance E q b)" "rex_amount (consolidate_rex_balance E q b) = rex_amount b"
    and "matured_rex (consolidate_rex_balance E q b) = amount q"
proof -
  obtain sav b1 where r: "read_rex_savings b = (sav, b1)" by fastforce
  note R = read_off [OF r assms(1)]
  have b1: "0 \<le> matured_rex b1" "buckets_ok (rex_maturities b1)" "amount (rex_amount b1) \<le> 2 ^ 62"
    "amount (rex_amount b1) = matured_rex b1 + bucket_sum (rex_maturities b1) + sav"
    using R(1) by (simp_all add: bal_off_def)
  have w: "wrap64 (matured_rex b1 - amount q) = matured_rex b1 - amount q"
    using b1 R(2,4) assms bucket_sum_nonneg [OF b1(2)] by (intro wrap_small) auto
  have f: "foldl (\<lambda>t x. wrap64 (t + snd x)) (matured_rex b1 - amount q) (rex_maturities b1)
      = matured_rex b1 - amount q + bucket_sum (rex_maturities b1)" (is "?f = ?tot")
    using b1 R(2,4) assms by (intro foldl_wrap_sum) auto
  have t: "0 \<le> ?tot" using b1 R(4) assms bucket_sum_nonneg [OF b1(2)] by simp
  let ?b2 = "b1\<lparr>matured_rex := amount q, rex_maturities := (if ?tot > 0 then [(get_rex_maturity E, ?tot)] else [])\<rparr>"
  have c: "consolidate_rex_balance E q b = put_rex_savings sav ?b2"
    by (simp add: consolidate_rex_balance_def r w f)
  have "bal_off (0 + sav) ?b2" using b1 R(2) assms(2) t by (auto simp: bal_off_def)
  then show "bal_off 0 (consolidate_rex_balance E q b)" unfolding c using R(2) by (intro put_off) auto
  show "rex_amount (consolidate_rex_balance E q b) = rex_amount b"
    "matured_rex (consolidate_rex_balance E q b) = amount q"
    unfolding c using R(3) by simp_all
qed

end
