(* ===== verification/RexLaws.thy ===== *)
theory RexLaws
  imports RexRows
begin

text \<open>
  The invariant of the REX part of the state and what the functions of \<open>RexPool\<close> do to it: the funds,
  the pool, the balances, the loans and the queued orders, and the amount of core tokens REX owes.
\<close>

section \<open>The invariant\<close>

text \<open>
  \<open>rex_cap\<close> is the bound that the comment in \<open>add_to_rex_pool\<close> puts on the supply of the core token, so
  that the REX amounts, at most \<open>rex_ratio\<close> times larger, stay below \<open>2^62\<close>.
\<close>

definition rex_cap :: int where
  "rex_cap = 400000000000000"

definition fund_ok :: "symbol \<Rightarrow> asset \<Rightarrow> bool" where
  "fund_ok cs f \<longleftrightarrow> symb f = cs \<and> 0 \<le> amount f"

definition loan_ok :: "symbol \<Rightarrow> uint \<Rightarrow> rex_loan \<Rightarrow> bool" where
  "loan_ok cs n l \<longleftrightarrow> loan_num l = n \<and> symb (payment l) = cs \<and> symb (loan_balance l) = cs \<and>
     0 < amount (payment l) \<and> 0 \<le> amount (loan_balance l)"

definition order_ok :: "symbol \<Rightarrow> name \<Rightarrow> rex_order \<Rightarrow> bool" where
  "order_ok cs k ord \<longleftrightarrow> order_owner ord = k \<and> symb (proceeds ord) = cs \<and>
     (if is_open ord then 0 < amount (rex_requested ord) else 0 \<le> amount (proceeds ord))"

text \<open>An open order is covered by the matured REX of its owner.\<close>

definition covered :: "rex_state \<Rightarrow> name \<Rightarrow> bool" where
  "covered r k \<longleftrightarrow> (\<forall>ord. t_get (rexorders r) k = Some ord \<longrightarrow> is_open ord \<longrightarrow>
     (\<exists>b. t_get (rexbalance r) k = Some b \<and> amount (rex_requested ord) \<le> matured_rex b))"

definition rex_total :: "rex_state \<Rightarrow> int" where
  "rex_total r = t_sum (\<lambda>k b. amount (rex_amount b)) (rexbalance r)"

definition pool_ok :: "int \<Rightarrow> rex_pool \<Rightarrow> bool" where
  "pool_ok tot p \<longleftrightarrow> amount (total_lendable p) = wrap64 (amount (total_unlent p) + amount (total_lent p)) \<and>
     0 \<le> amount (total_lendable p) \<and> amount (total_rex p) = tot \<and>
     tot \<le> rex_ratio * amount (total_lendable p) \<and> (tot = 0 \<longrightarrow> amount (total_lendable p) = 0)"

definition closed_proceeds :: "name \<Rightarrow> rex_order \<Rightarrow> int" where
  "closed_proceeds k ord = (if is_open ord then 0 else amount (proceeds ord))"

definition lendable :: "rex_state \<Rightarrow> int" where
  "lendable r = (case rexpool r of None \<Rightarrow> 0 | Some p \<Rightarrow> amount (total_lendable p))"

text \<open>What the account \<open>eosio.rex\<close> owes.\<close>

definition liab :: "rex_state \<Rightarrow> int" where
  "liab r = t_sum (\<lambda>k f. amount f) (rexfunds r) + lendable r +
     t_sum (\<lambda>k l. amount (loan_balance l)) (cpu_loans r) + t_sum (\<lambda>k l. amount (loan_balance l)) (net_loans r) +
     t_sum closed_proceeds (rexorders r)"

definition all_rows :: "('k::linorder \<Rightarrow> 'r \<Rightarrow> bool) \<Rightarrow> ('k, 'r) table \<Rightarrow> bool" where
  "all_rows P t \<longleftrightarrow> (\<forall>k q. t_get t k = Some q \<longrightarrow> P k q)"

text \<open>\<open>X\<close> holds the owners whose open order need not be covered at the moment.\<close>

definition rex_rows :: "symbol \<Rightarrow> name set \<Rightarrow> rex_state \<Rightarrow> bool" where
  "rex_rows cs X r \<longleftrightarrow> all_rows (\<lambda>k. fund_ok cs) (rexfunds r) \<and> all_rows (\<lambda>k. bal_off 0) (rexbalance r) \<and>
     all_rows (loan_ok cs) (cpu_loans r) \<and> all_rows (loan_ok cs) (net_loans r) \<and>
     all_rows (order_ok cs) (rexorders r) \<and> (\<forall>k. k \<notin> X \<longrightarrow> covered r k) \<and>
     (case rexpool r of None \<Rightarrow> rexbalance r = t_empty | Some p \<Rightarrow> pool_ok (rex_total r) p)"

definition rex_inv_ex :: "symbol \<Rightarrow> name set \<Rightarrow> rex_state \<Rightarrow> bool" where
  "rex_inv_ex cs X r \<longleftrightarrow> rex_rows cs X r \<and> liab r \<le> rex_cap"

definition rex_inv :: "symbol \<Rightarrow> rex_state \<Rightarrow> bool" where
  "rex_inv cs r \<longleftrightarrow> rex_inv_ex cs {} r"

section \<open>Tables of rows\<close>

lemma all_rowsD: "all_rows P t \<Longrightarrow> t_get t k = Some q \<Longrightarrow> P k q"
  by (simp add: all_rows_def)

lemma all_rows_empty [simp]: "all_rows P t_empty"
  by (simp add: all_rows_def)

lemma all_rows_set [intro]: "all_rows P t \<Longrightarrow> P k q \<Longrightarrow> all_rows P (t_set k q t)"
  by (simp add: all_rows_def)

lemma all_rows_del [intro]: "all_rows P t \<Longrightarrow> all_rows P (t_del k t)"
  by (simp add: all_rows_def)

lemma t_sum_nonneg_rows: "all_rows (\<lambda>k q. 0 \<le> f k q) t \<Longrightarrow> 0 \<le> t_sum f t"
  by (auto simp: all_rows_def intro: t_sum_nonneg)

lemma t_sum_ge_row: "all_rows (\<lambda>k q. 0 \<le> f k q) t \<Longrightarrow> t_get t k = Some q \<Longrightarrow> f k q \<le> t_sum f t"
  by (rule tab.total_le_row) (auto simp: all_rows_def)

lemma all_rows_mono: "all_rows P t \<Longrightarrow> (\<And>k q. P k q \<Longrightarrow> Q k q) \<Longrightarrow> all_rows Q t"
  by (auto simp: all_rows_def)

section \<open>Parts of the debt\<close>

text \<open>Every part of the debt is non-negative and at most the whole.\<close>

lemma rex_parts_nonneg:
  assumes "rex_rows cs X r"
  shows "0 \<le> t_sum (\<lambda>k f. amount f) (rexfunds r)" "0 \<le> lendable r"
    "0 \<le> t_sum (\<lambda>k l. amount (loan_balance l)) (loans kd r)"
    "0 \<le> t_sum closed_proceeds (rexorders r)" "0 \<le> rex_total r"
proof -
  show "0 \<le> t_sum (\<lambda>k f. amount f) (rexfunds r)"
    by (rule t_sum_nonneg_rows, rule all_rows_mono [where P = "\<lambda>k. fund_ok cs"])
      (use assms in \<open>auto simp: rex_rows_def fund_ok_def\<close>)
  show "0 \<le> lendable r"
    using assms by (auto simp: rex_rows_def lendable_def pool_ok_def split: option.splits)
  show "0 \<le> t_sum (\<lambda>k l. amount (loan_balance l)) (loans kd r)"
    by (rule t_sum_nonneg_rows, rule all_rows_mono [where P = "loan_ok cs"])
      (use assms in \<open>cases kd; auto simp: rex_rows_def loan_ok_def\<close>)+
  show "0 \<le> t_sum closed_proceeds (rexorders r)"
    by (rule t_sum_nonneg_rows, rule all_rows_mono [where P = "order_ok cs"])
      (use assms in \<open>auto simp: rex_rows_def order_ok_def closed_proceeds_def split: if_splits\<close>)
  show "0 \<le> rex_total r" unfolding rex_total_def
    by (rule t_sum_nonneg_rows, rule all_rows_mono [where P = "\<lambda>k. bal_off 0"])
      (use assms in \<open>auto simp: rex_rows_def bal_off_def bucket_sum_nonneg\<close>)
qed

lemma fund_le_liab:
  assumes "rex_rows cs X r" "t_get (rexfunds r) k = Some f"
  shows "0 \<le> amount f" "symb f = cs" "amount f \<le> liab r"
proof -
  have ok: "all_rows (\<lambda>k. fund_ok cs) (rexfunds r)" using assms(1) by (simp add: rex_rows_def)
  show "0 \<le> amount f" "symb f = cs" using all_rowsD [OF ok assms(2)] by (simp_all add: fund_ok_def)
  have "amount f \<le> t_sum (\<lambda>k f. amount f) (rexfunds r)"
    by (rule t_sum_ge_row [OF all_rows_mono [OF ok] assms(2)]) (simp add: fund_ok_def)
  then show "amount f \<le> liab r"
    using rex_parts_nonneg [OF assms(1)] rex_parts_nonneg(3) [OF assms(1), of CPU]
      rex_parts_nonneg(3) [OF assms(1), of NET] by (simp add: liab_def)
qed

lemma loan_le_liab:
  assumes "rex_rows cs X r" "t_get (loans kd r) n = Some l"
  shows "loan_ok cs n l" "amount (loan_balance l) \<le> liab r"
proof -
  have ok: "all_rows (loan_ok cs) (loans kd r)" using assms(1) by (cases kd) (simp_all add: rex_rows_def)
  show "loan_ok cs n l" using all_rowsD [OF ok assms(2)] .
  have "amount (loan_balance l) \<le> t_sum (\<lambda>k l. amount (loan_balance l)) (loans kd r)"
    by (rule t_sum_ge_row [OF all_rows_mono [OF ok] assms(2)]) (simp add: loan_ok_def)
  then show "amount (loan_balance l) \<le> liab r"
    using rex_parts_nonneg [OF assms(1)] rex_parts_nonneg(3) [OF assms(1), of CPU]
      rex_parts_nonneg(3) [OF assms(1), of NET] by (cases kd) (simp_all add: liab_def)
qed

lemma lendable_le_liab: "rex_rows cs X r \<Longrightarrow> lendable r \<le> liab r"
  using rex_parts_nonneg [of cs X r] rex_parts_nonneg(3) [of cs X r CPU] rex_parts_nonneg(3) [of cs X r NET]
  by (simp add: liab_def)

lemma order_le_liab:
  assumes "rex_rows cs X r" "t_get (rexorders r) k = Some ord"
  shows "order_ok cs k ord" "closed_proceeds k ord \<le> liab r"
proof -
  have ok: "all_rows (order_ok cs) (rexorders r)" using assms(1) by (simp add: rex_rows_def)
  show "order_ok cs k ord" using all_rowsD [OF ok assms(2)] .
  have "closed_proceeds k ord \<le> t_sum closed_proceeds (rexorders r)"
    by (rule t_sum_ge_row [OF all_rows_mono [OF ok] assms(2)]) (auto simp: order_ok_def closed_proceeds_def split: if_splits)
  then show "closed_proceeds k ord \<le> liab r"
    using rex_parts_nonneg [OF assms(1)] rex_parts_nonneg(3) [OF assms(1), of CPU]
      rex_parts_nonneg(3) [OF assms(1), of NET] by (simp add: liab_def)
qed

lemma bal_le_total:
  assumes "rex_rows cs X r" "t_get (rexbalance r) k = Some b"
  shows "bal_off 0 b" "amount (rex_amount b) \<le> rex_total r"
proof -
  have ok: "all_rows (\<lambda>k. bal_off 0) (rexbalance r)" using assms(1) by (simp add: rex_rows_def)
  show "bal_off 0 b" using all_rowsD [OF ok assms(2)] .
  show "amount (rex_amount b) \<le> rex_total r" unfolding rex_total_def
    by (rule t_sum_ge_row [OF all_rows_mono [OF ok] assms(2), of "\<lambda>k b. amount (rex_amount b)"])
      (simp add: bal_off_def bucket_sum_nonneg)
qed

lemma pool_bounds:
  assumes "rex_rows cs X r" "rexpool r = Some p" "liab r \<le> rex_cap"
  shows "0 \<le> amount (total_rex p)" "amount (total_rex p) = rex_total r"
    "amount (total_rex p) \<le> rex_ratio * amount (total_lendable p)"
    "0 \<le> amount (total_lendable p)" "amount (total_lendable p) \<le> rex_cap"
    "amount (total_rex p) \<le> 4000000000000000000"
    "amount (total_rex p) = 0 \<Longrightarrow> amount (total_lendable p) = 0"
  using assms rex_parts_nonneg(5) [OF assms(1)] lendable_le_liab [OF assms(1)]
  by (auto simp: rex_rows_def pool_ok_def lendable_def rex_cap_def rex_ratio_def)

section \<open>Funds\<close>

lemma transfer_from_fund_spec:
  assumes "asset_laws E" "rex_rows cs X r" "liab r \<le> rex_cap" "transfer_from_fund E cs owner q r = Inr r'"
  shows "rex_rows cs X r'" and "liab r' = liab r - amount q" and "0 < amount q" and "symb q = cs"
    and "rexpool r' = rexpool r" and "rexbalance r' = rexbalance r" and "rexorders r' = rexorders r"
    and "\<exists>f. t_get (rexfunds r) owner = Some f \<and> amount q \<le> amount f"
proof -
  obtain f where f: "t_get (rexfunds r) owner = Some f" and q: "0 < amount q" "symb q = cs" "amount q \<le> amount f"
    and r': "r' = r\<lparr>rexfunds := t_set owner (add_amt (- amount q) f) (rexfunds r)\<rparr>"
    using assms(1,4) by (auto simp: transfer_from_fund_def res_simps asset_le_iff)
  note F = fund_le_liab [OF assms(2) f]
  have w: "wrap64 (amount f - amount q) = amount f - amount q"
    using F q assms(3) by (intro wrap_small) (auto simp: rex_cap_def)
  have ok: "fund_ok cs (add_amt (- amount q) f)" using F q w by (simp add: fund_ok_def)
  show "rex_rows cs X r'" using assms(2) ok unfolding r' rex_rows_def
    by (auto simp: covered_def rex_total_def split: option.splits)
  show "liab r' = liab r - amount q" unfolding r' using f w by (simp add: liab_def t_sum_set lendable_def)
  show "0 < amount q" "symb q = cs" by (rule q)+
  show "\<exists>f. t_get (rexfunds r) owner = Some f \<and> amount q \<le> amount f" using f q by blast
qed (use assms(1,4) in \<open>auto simp: transfer_from_fund_def res_simps\<close>)

lemma transfer_to_fund_spec:
  assumes "rex_rows cs X r" "liab r \<le> rex_cap" "amount q \<le> rex_cap" "transfer_to_fund cs owner q r = Inr r'"
  shows "rex_rows cs X r'" and "liab r' = liab r + amount q" and "0 < amount q" and "symb q = cs"
    and "rexpool r' = rexpool r" and "rexbalance r' = rexbalance r" and "rexorders r' = rexorders r"
    and "cpu_loans r' = cpu_loans r" and "net_loans r' = net_loans r"
proof -
  define f1 where "f1 = (case t_get (rexfunds r) owner of None \<Rightarrow> q | Some f \<Rightarrow> add_amt (amount q) f)"
  have q: "0 < amount q" "symb q = cs" and r': "r' = r\<lparr>rexfunds := t_set owner f1 (rexfunds r)\<rparr>"
    using assms(4) by (auto simp: transfer_to_fund_def res_simps f1_def split: option.splits)
  have f1: "amount f1 = amount q + (case t_get (rexfunds r) owner of None \<Rightarrow> 0 | Some f \<Rightarrow> amount f) \<and> fund_ok cs f1"
  proof (cases "t_get (rexfunds r) owner")
    case None then show ?thesis using q by (simp add: f1_def fund_ok_def)
  next
    case (Some f)
    note F = fund_le_liab [OF assms(1) Some]
    have "wrap64 (amount f + amount q) = amount f + amount q"
      using F q assms(2,3) by (intro wrap_small) (auto simp: rex_cap_def)
    then show ?thesis using Some F q by (simp add: f1_def fund_ok_def)
  qed
  show "rex_rows cs X r'" using assms(1) f1 unfolding r' rex_rows_def
    by (auto simp: covered_def rex_total_def split: option.splits)
  show "liab r' = liab r + amount q"
    unfolding r' using f1 by (auto simp: liab_def t_sum_set lendable_def split: option.splits)
  show "0 < amount q" "symb q = cs" by (rule q)+
qed (use assms(4) in \<open>auto simp: transfer_to_fund_def res_simps split: option.splits\<close>)

section \<open>The pool\<close>

lemma wrap64_add: "wrap64 (wrap64 a + b) = wrap64 (a + b)" "wrap64 (b + wrap64 a) = wrap64 (b + a)"
  "wrap64 (wrap64 a - b) = wrap64 (a - b)" "wrap64 (b - wrap64 a) = wrap64 (b - a)"
  "wrap64 (wrap64 a) = wrap64 a"
  unfolding wrap64_word by simp_all

lemma put_pool_simps [simp]:
  "rexpool (put_pool p r) = Some p" "rexfunds (put_pool p r) = rexfunds r" "rexbalance (put_pool p r) = rexbalance r"
  "rexorders (put_pool p r) = rexorders r" "cpu_loans (put_pool p r) = cpu_loans r"
  "net_loans (put_pool p r) = net_loans r" "loans k (put_pool p r) = loans k r"
  "lendable (put_pool p r) = amount (total_lendable p)" "rex_total (put_pool p r) = rex_total r"
  "covered (put_pool p r) = covered r"
  by (auto simp: put_pool_def lendable_def rex_total_def covered_def fun_eq_iff, cases k, auto)

lemma put_pool_spec:
  assumes "rex_rows cs X r" "pool_ok (rex_total r) p"
  shows "rex_rows cs X (put_pool p r)" "liab (put_pool p r) = liab r - lendable r + amount (total_lendable p)"
  using assms by (simp_all add: rex_rows_def liab_def)

lemma pool_row_iff [res_simps]: "pool_row r = Inr p \<longleftrightarrow> rexpool r = Some p"
  by (simp add: pool_row_def res_simps)

lemma rows_pool_ok: "rex_rows cs X r \<Longrightarrow> rexpool r = Some p \<Longrightarrow> pool_ok (rex_total r) p"
  by (simp add: rex_rows_def)

lemma pool_channel_ok:
  assumes "pool_ok tot p" "0 \<le> amount q" "amount (total_lendable p) + amount q < 2 ^ 63" "tot \<noteq> 0"
  shows "pool_ok tot (pool_channel q p)" "amount (total_lendable (pool_channel q p)) = amount (total_lendable p) + amount q"
proof -
  have w: "wrap64 (amount (total_lendable p) + amount q) = amount (total_lendable p) + amount q"
    using assms by (intro wrap_small) (auto simp: pool_ok_def)
  have "wrap64 (wrap64 (amount (total_unlent p) + amount q) + amount (total_lent p))
      = wrap64 (wrap64 (amount (total_unlent p) + amount (total_lent p)) + amount q)"
    by (simp add: wrap64_add ac_simps)
  then show "pool_ok tot (pool_channel q p)" "amount (total_lendable (pool_channel q p)) = amount (total_lendable p) + amount q"
    using assms w by (auto simp: pool_ok_def pool_channel_def rex_ratio_def)
qed

lemma pool_add_loan_ok:
  assumes "pool_ok tot p" "0 \<le> amount q" "amount (total_lendable p) + amount q < 2 ^ 63" "tot \<noteq> 0"
  shows "pool_ok tot (pool_add_loan q n new p)"
    "amount (total_lendable (pool_add_loan q n new p)) = amount (total_lendable p) + amount q"
proof -
  have w: "wrap64 (amount (total_lendable p) + amount q) = amount (total_lendable p) + amount q"
    using assms by (intro wrap_small) (auto simp: pool_ok_def)
  have "wrap64 (wrap64 (wrap64 (amount (total_unlent p) - n) + amount q) + wrap64 (amount (total_lent p) + n))
      = wrap64 (wrap64 (amount (total_unlent p) + amount (total_lent p)) + amount q)"
    unfolding wrap64_word by (simp add: algebra_simps)
  then show "pool_ok tot (pool_add_loan q n new p)"
    "amount (total_lendable (pool_add_loan q n new p)) = amount (total_lendable p) + amount q"
    using assms w by (auto simp: pool_ok_def pool_add_loan_def rex_ratio_def Let_def)
qed

lemma pool_remove_loan_ok:
  assumes "pool_ok tot p"
  shows "pool_ok tot (pool_remove_loan d n p)"
    "amount (total_lendable (pool_remove_loan d n p)) = amount (total_lendable p)"
proof -
  have "wrap64 (wrap64 (amount (total_unlent p) + n) + wrap64 (amount (total_lent p) - n))
      = wrap64 (amount (total_unlent p) + amount (total_lent p))"
    unfolding wrap64_word by (simp add: algebra_simps)
  then show "pool_ok tot (pool_remove_loan d n p)"
    "amount (total_lendable (pool_remove_loan d n p)) = amount (total_lendable p)"
    using assms by (auto simp: pool_ok_def pool_remove_loan_def Let_def wrap64_add)
qed

section \<open>Balances\<close>

lemma put_bal_simps [simp]:
  "rexpool (put_bal k b r) = rexpool r" "rexfunds (put_bal k b r) = rexfunds r"
  "rexbalance (put_bal k b r) = t_set k b (rexbalance r)" "rexorders (put_bal k b r) = rexorders r"
  "cpu_loans (put_bal k b r) = cpu_loans r" "net_loans (put_bal k b r) = net_loans r"
  "liab (put_bal k b r) = liab r" "lendable (put_bal k b r) = lendable r"
  by (simp_all add: put_bal_def liab_def lendable_def)

lemma bal_row_iff [res_simps]: "bal_row k r = Inr b \<longleftrightarrow> t_get (rexbalance r) k = Some b"
  by (simp add: bal_row_def res_simps)

definition covers :: "rex_state \<Rightarrow> name \<Rightarrow> rex_balance \<Rightarrow> bool" where
  "covers r k b \<longleftrightarrow> (\<forall>ord. t_get (rexorders r) k = Some ord \<longrightarrow> is_open ord \<longrightarrow> amount (rex_requested ord) \<le> matured_rex b)"

lemma covered_put_bal: "covered (put_bal k b r) j \<longleftrightarrow> (if j = k then covers r k b else covered r j)"
  by (simp add: covered_def covers_def)

lemma covered_covers: "covered r k \<Longrightarrow> t_get (rexbalance r) k = Some b \<Longrightarrow> matured_rex b \<le> matured_rex b' \<Longrightarrow> covers r k b'"
  by (fastforce simp: covered_def covers_def)

lemma rex_total_put_bal:
  "rex_total (put_bal k b r) = rex_total r + amount (rex_amount b)
     - (case t_get (rexbalance r) k of None \<Rightarrow> 0 | Some c \<Rightarrow> amount (rex_amount c))"
  by (simp add: rex_total_def t_sum_set)

lemma rex_rows_put_bal:
  assumes "rex_rows cs X r" "rexpool r = Some p" "bal_off 0 b" "pool_ok (rex_total (put_bal k b r)) p"
    and "k \<notin> X' \<Longrightarrow> covers r k b" "X \<subseteq> X' \<union> {k}"
  shows "rex_rows cs X' (put_bal k b r)"
  using assms by (auto simp: rex_rows_def covered_put_bal)

text \<open>A balance that is written back with the same REX amount.\<close>

lemma rex_rows_same_bal:
  assumes "rex_rows cs X r" "t_get (rexbalance r) k = Some b" "bal_off 0 b'" "rex_amount b' = rex_amount b"
    and "k \<notin> X' \<Longrightarrow> covers r k b'" "X \<subseteq> X' \<union> {k}"
  shows "rex_rows cs X' (put_bal k b' r)"
proof -
  obtain p where p: "rexpool r = Some p" using assms(1,2) by (cases "rexpool r") (auto simp: rex_rows_def)
  have "rex_total (put_bal k b' r) = rex_total r" using assms(2,4) by (simp add: rex_total_put_bal)
  then show ?thesis using assms rows_pool_ok [OF assms(1) p] by (intro rex_rows_put_bal [OF assms(1) p]) auto
qed

end
