(* ===== verification/RexMoves.thy ===== *)
theory RexMoves
  imports RexLaws Rex
begin

text \<open>
  What buying and selling REX, renting, renewing and closing loans, and moving REX to savings do to
  the invariant and to the debt of REX, and to the price of REX.
\<close>

section \<open>Buying REX\<close>

lemma rex_available_iff: "rex_available r \<longleftrightarrow> (\<exists>p. rexpool r = Some p \<and> 0 < amount (total_rex p))"
  by (auto simp: rex_available_def split: option.splits)

lemma scaled_div_bounds:
  fixes S R q c :: int
  assumes "0 < S" "0 < R" "R \<le> c * S" "0 \<le> q"
  shows "R \<le> (S + q) * R div S" "(S + q) * R div S \<le> c * (S + q)"
proof -
  have "S * R div S \<le> (S + q) * R div S" using assms by (intro zdiv_mono1 mult_right_mono) auto
  then show "R \<le> (S + q) * R div S" using assms by simp
  have "(S + q) * R \<le> (S + q) * (c * S)" using assms by (intro mult_left_mono) auto
  then have "(S + q) * R div S \<le> (S + q) * (c * S) div S" using assms by (intro zdiv_mono1) auto
  then show "(S + q) * R div S \<le> c * (S + q)" using assms by (simp add: ac_simps)
qed

lemma add_to_rex_pool_spec:
  assumes "asset_laws E" "rex_rows cs X r" "liab r + amount q \<le> rex_cap" "0 < amount q" "symb q = cs"
    and "add_to_rex_pool E cs q r = Inr (rec, r')"
  obtains p where "r' = put_pool p r" "pool_ok (rex_total r + amount rec) p"
    "amount (total_lendable p) = lendable r + amount q" "0 \<le> amount rec"
    "lendable r * (rex_total r + amount rec) \<le> (lendable r + amount q) * rex_total r"
proof -
  note L = rex_parts_nonneg(2) [OF assms(2)] lendable_le_liab [OF assms(2)]
  have fresh: "wrap64 (amount q * rex_ratio) = amount q * rex_ratio" 
    using assms(3,4) L by (intro wrap_small) (auto simp: rex_cap_def rex_ratio_def)
  show thesis
  proof (cases "rexpool r")
    case None
    then have "rexbalance r = t_empty" using assms(2) by (simp add: rex_rows_def)
    then have t: "rex_total r = 0" by (simp add: rex_total_def)
    obtain u where u: "amount u = amount q" and rec: "rec = mk_asset (amount q * rex_ratio) rex_symbol"
      and r': "r' = put_pool (pool_new cs q u) r"
      using assms(1,6) None fresh by (auto simp: add_to_rex_pool_def res_simps asset_minus_iff)
    have "pool_ok (rex_total r + amount rec) (pool_new cs q u)"
      using assms(3,4) L fresh t u rec wrap_small [of "amount q"]
      by (simp add: pool_ok_def pool_new_def rex_ratio_def rex_cap_def)
    then show ?thesis
      using assms(4) None rec fresh t by (intro that [OF r']) (auto simp: pool_new_def lendable_def rex_ratio_def)
  next
    case (Some p)
    note B = pool_bounds [OF assms(2) Some] rows_pool_ok [OF assms(2) Some]
    have l: "lendable r = amount (total_lendable p)" using Some by (simp add: lendable_def)
    have cap: "liab r \<le> rex_cap" using assms(3,4) by simp
    show ?thesis
    proof (cases "rex_available r")
      case False
      then have z: "rex_total r = 0" "lendable r = 0" using B(1,2,7) cap Some l by (auto simp: rex_available_iff)
      have rec: "rec = mk_asset (amount q * rex_ratio) rex_symbol" and r': "r' = put_pool (pool_restart q p) r"
        using assms(6) False Some fresh by (auto simp: add_to_rex_pool_def)
      have "pool_ok (rex_total r + amount rec) (pool_restart q p)"
        using assms(3,4) L fresh z rec wrap_small [of "amount q"]
        by (simp add: pool_ok_def pool_restart_def rex_ratio_def rex_cap_def)
      then show ?thesis
        using assms(4) z rec fresh by (intro that [OF r']) (auto simp: pool_restart_def rex_ratio_def)
    next
      case True
      define S R where "S = amount (total_lendable p)" and "R = amount (total_rex p)"
      have R: "0 < R" "R \<le> 10000 * S" "R = rex_total r" "S \<le> rex_cap"
        using True Some B(1-6) cap by (auto simp: rex_available_iff S_def R_def rex_ratio_def)
      have S: "0 < S" using R by simp
      note D = scaled_div_bounds [OF S R(1,2), of "amount q"]
      have w: "wrap64 (S + amount q) = S + amount q"
        using S assms(3,4) R L l by (intro wrap_small) (auto simp: rex_cap_def S_def)
      define R1 where "R1 = (S + amount q) * R div S"
      have R1: "R \<le> R1" "R1 \<le> 10000 * (S + amount q)" using D assms(4) by (simp_all add: R1_def)
      have c: "S + amount q \<le> 400000000000000" using assms(3) L l by (simp add: rex_cap_def S_def)
      have "(S + amount q) * R \<le> 400000000000000 * (10000 * 400000000000000)"
        using c R S assms(4) by (intro mult_mono) (auto simp: rex_cap_def)
      then have m: "mul_div (S + amount q) R S = Inr R1"
        unfolding R1_def using S R c R1 assms(4) by (intro mul_div_exact) (auto simp: R1_def rex_cap_def)
      have wr: "wrap64 (R1 - R) = R1 - R" using R1 R c by (intro wrap_small) auto
      have rec: "rec = mk_asset (R1 - R) rex_symbol" and r': "r' = put_pool (pool_buy (S + amount q) R1 p) r"
        using assms(6) True Some m w wr by (auto simp: add_to_rex_pool_def Let_def res_simps S_def [symmetric] R_def [symmetric])
      have "pool_ok (rex_total r + amount rec) (pool_buy (S + amount q) R1 p)"
        using R1 R S c assms(4) rec w by (auto simp: pool_ok_def pool_buy_def rex_ratio_def wrap64_add)
      moreover have "lendable r * (rex_total r + amount rec) \<le> (lendable r + amount q) * rex_total r"
        using div_mult_bounds(1) [OF S, of "(S + amount q) * R", folded R1_def] l R(3) rec
        by (simp add: S_def [symmetric] ac_simps)
      ultimately show ?thesis
        using R1 R rec l by (intro that [OF r']) (auto simp: pool_buy_def S_def)
    qed
  qed
qed

lemma add_to_rex_balance_spec:
  assumes "rex_rows cs X r" "rexpool r1 = Some p" "r1 = put_pool p r" "pool_ok (rex_total r + amount rec) p"
    and "amount (total_rex p) \<le> 4000000000000000000" "0 \<le> amount rec"
    and "add_to_rex_balance E cs k q rec r1 = Inr (d, r')"
  shows "\<exists>b. r' = put_bal k b (put_pool p r) \<and> rex_rows cs X r'"
proof -
  have tot: "rex_total r + amount rec \<le> 4000000000000000000" using assms(4,5) by (simp add: pool_ok_def)
  obtain b where off: "bal_off (amount rec) b" and upd: "amount (rex_amount b) = amount rec +
       (case t_get (rexbalance r) k of None \<Rightarrow> 0 | Some c \<Rightarrow> amount (rex_amount c))"
    and mat: "\<And>c. t_get (rexbalance r) k = Some c \<Longrightarrow> matured_rex b = matured_rex c"
    and r': "r' = put_bal k (put_rex_savings (fst (read_rex_savings b))
        ((process_rex_maturities E (snd (read_rex_savings b)))\<lparr>rex_maturities := add_bucket (get_rex_maturity E) (amount rec)
           (rex_maturities (process_rex_maturities E (snd (read_rex_savings b))))\<rparr>)) r1"
  proof (cases "t_get (rexbalance r) k")
    case None
    show ?thesis
      using assms(3,6,7) None tot rex_parts_nonneg(5) [OF assms(1)]
      by (intro that [of "\<lparr>vote_stake = q, rex_amount = rec, matured_rex = 0, rex_maturities = []\<rparr>"])
        (auto simp: add_to_rex_balance_def res_simps bal_off_def Let_def split: prod.splits)
  next
    case (Some c)
    note C = bal_le_total [OF assms(1) Some]
    have w: "wrap64 (amount (rex_amount c) + amount rec) = amount (rex_amount c) + amount rec"
      using C tot assms(6) bucket_sum_nonneg [of "rex_maturities c"] by (intro wrap_small) (auto simp: bal_off_def)
    let ?b = "\<lambda>v. c\<lparr>rex_amount := add_amt (amount rec) (rex_amount c), vote_stake := set_amt v (vote_stake c)\<rparr>"
    obtain v where "r' = put_bal k (put_rex_savings (fst (read_rex_savings (?b v)))
        ((process_rex_maturities E (snd (read_rex_savings (?b v))))\<lparr>rex_maturities := add_bucket (get_rex_maturity E) (amount rec)
           (rex_maturities (process_rex_maturities E (snd (read_rex_savings (?b v)))))\<rparr>)) r1"
      using assms(3,7) Some by (auto simp: add_to_rex_balance_def res_simps Let_def case_prod_beta)
    then show ?thesis
      using assms(6) Some tot C w by (intro that [of "?b v"]) (auto simp: bal_off_def)
  qed
  obtain sav b1 where rd: "read_rex_savings b = (sav, b1)" by fastforce
  note RD = read_off [OF rd off]
  note PR = process_off [OF RD(1), of E]
  define b3 where "b3 = put_rex_savings sav ((process_rex_maturities E b1)\<lparr>rex_maturities :=
     add_bucket (get_rex_maturity E) (amount rec) (rex_maturities (process_rex_maturities E b1))\<rparr>)"
  have "bal_off (0 + sav) ((process_rex_maturities E b1)\<lparr>rex_maturities :=
     add_bucket (get_rex_maturity E) (amount rec) (rex_maturities (process_rex_maturities E b1))\<rparr>)"
    using PR(1) RD(2) assms(6) by (intro add_bucket_off) (auto simp: ac_simps)
  then have off3: "bal_off 0 b3" unfolding b3_def using RD(2) by (intro put_off) auto
  have am3: "amount (rex_amount b3) = amount (rex_amount b)" and mat3: "matured_rex b \<le> matured_rex b3"
    using RD PR(2) by (simp_all add: b3_def)
  have t3: "rex_total (put_bal k b3 (put_pool p r)) = rex_total r + amount rec"
    using am3 upd by (auto simp: rex_total_put_bal split: option.splits)
  have "covers r k b3" if "k \<notin> X"
  proof -
    have "covered r k" using assms(1) that by (simp add: rex_rows_def)
    then show ?thesis using mat mat3 by (fastforce simp: covered_def covers_def)
  qed
  moreover have "covers (put_pool p r) k b3 \<longleftrightarrow> covers r k b3" by (simp add: covers_def)
  ultimately have "rex_rows cs X (put_bal k b3 (put_pool p r))"
    using assms(1,4) off3 t3 by (auto simp: rex_rows_def covered_put_bal)
  then show ?thesis using r' rd assms(3) by (auto simp: b3_def)
qed

lemma buy_into_pool_spec:
  assumes "asset_laws E" "rex_rows cs X r" "liab r + amount q \<le> rex_cap" "0 < amount q" "symb q = cs"
    and "buy_into_pool E cs k q r = Inr ((rec, d), r')"
  shows "rex_rows cs X r'" "liab r' = liab r + amount q" "rexorders r' = rexorders r"
proof -
  obtain r1 where p: "add_to_rex_pool E cs q r = Inr (rec, r1)" and b: "add_to_rex_balance E cs k q rec r1 = Inr (d, r')"
    using assms(6) by (auto simp: buy_into_pool_def res_simps)
  obtain p where r1: "r1 = put_pool p r" and ok: "pool_ok (rex_total r + amount rec) p"
    and l: "amount (total_lendable p) = lendable r + amount q" "0 \<le> amount rec"
    by (rule add_to_rex_pool_spec [OF assms(1-5) p])
  have "amount (total_rex p) \<le> 4000000000000000000"
    using ok l lendable_le_liab [OF assms(2)] assms(3) by (simp add: pool_ok_def rex_cap_def rex_ratio_def)
  then obtain b' where r': "r' = put_bal k b' (put_pool p r)" and ok': "rex_rows cs X r'"
    using add_to_rex_balance_spec [OF assms(2) _ r1 ok _ l(2) b] r1 by auto
  show "rex_rows cs X r'" by (rule ok')
  show "liab r' = liab r + amount q" "rexorders r' = rexorders r"
    using l(1) by (simp_all add: r') (simp add: liab_def)
qed

section \<open>Selling REX\<close>

lemma sale_bounds:
  fixes S R q c :: int
  assumes "0 < S" "R \<le> c * S" "0 \<le> q" "q \<le> R" "0 < R" "0 \<le> c"
  shows "0 \<le> q * S div R" "q * S div R \<le> S" "R - q \<le> c * (S - q * S div R)" "q = R \<Longrightarrow> q * S div R = S"
proof -
  let ?x = "q * S div R"
  show "0 \<le> ?x" using assms by (simp add: pos_imp_zdiv_nonneg_iff)
  show "?x \<le> S" using assms by (intro mul_div_le) auto
  show "q = R \<Longrightarrow> ?x = S" using assms by simp
  have "?x * R \<le> q * S" using div_mult_bounds(1) [of R "q * S"] assms by simp
  then have "(R - q) * S \<le> (S - ?x) * R" by (simp add: algebra_simps)
  also have "(S - ?x) * R \<le> (S - ?x) * (c * S)" using assms \<open>?x \<le> S\<close> by (intro mult_left_mono) auto
  finally have "(R - q) * S \<le> (c * (S - ?x)) * S" by (simp add: ac_simps)
  then show "R - q \<le> c * (S - ?x)" using assms(1) by (simp add: mult_le_cancel_right)
qed

lemma fill_rex_order_spec:
  assumes "asset_laws E" "rex_rows cs X r" "liab r \<le> rex_cap" "0 < amount rex"
    and "t_get (rexbalance r) k = Some b" "amount rex \<le> matured_rex b"
    and "fill_rex_order E cs k rex r = Inr (out, r')"
  shows "rex_rows cs (insert k X) r'" "liab r' = liab r - amount (out_proceeds out)"
    "0 \<le> amount (out_proceeds out)" "symb (out_proceeds out) = cs" "rexorders r' = rexorders r"
    "\<not> success out \<Longrightarrow> r' = r \<and> amount (out_proceeds out) = 0"
    "amount (out_proceeds out) \<le> rex_cap"
    "symb (out_stake_change out) = cs"
proof -
  obtain p where p: "rexpool r = Some p" using assms(7) by (auto simp: fill_rex_order_def res_simps)
  note B = pool_bounds [OF assms(2) p assms(3)] rows_pool_ok [OF assms(2) p] bal_le_total [OF assms(2,5)]
  define S R x where "S = amount (total_lendable p)" and "R = amount (total_rex p)" and "x = amount rex * S div R"
  have b: "amount rex \<le> amount (rex_amount b)" "amount (rex_amount b) \<le> R" "matured_rex b \<le> amount (rex_amount b)"
    using B(2,9,10) assms(6) bucket_sum_nonneg [of "rex_maturities b"] by (auto simp: bal_off_def R_def)
  have R: "0 < R" "R \<le> 10000 * S" "S \<le> rex_cap" "R \<le> 4000000000000000000"
    using b assms(4) B by (auto simp: R_def S_def rex_ratio_def)
  have S: "0 < S" using R by simp
  note D = sale_bounds [OF S R(2), of "amount rex", folded x_def]
  have x: "0 \<le> x" "x \<le> S" using D R b assms(4) by auto
  have "amount rex * S \<le> 4000000000000000000 * 400000000000000"
    using R b S assms(4) by (intro mult_mono) (auto simp: rex_cap_def)
  then have m: "mul_div (amount rex) S R = Inr x"
    unfolding x_def using S R b assms(4) x by (intro mul_div_exact) (auto simp: x_def rex_cap_def)
  have w: "wrap64 (R - amount rex) = R - amount rex" "wrap64 (S - x) = S - x"
    "wrap64 (amount (rex_amount b) - amount rex) = amount (rex_amount b) - amount rex"
    "wrap64 (matured_rex b - amount rex) = matured_rex b - amount rex"
    using S R b x assms(4,6) by (auto intro!: wrap_small simp: rex_cap_def)
  have l: "lendable r = S" using p by (simp add: lendable_def S_def)
  let ?b = "\<lambda>v. b\<lparr>vote_stake := set_amt (wrap64 (v - x)) (vote_stake b), rex_amount := add_amt (- amount rex) (rex_amount b),
                matured_rex := wrap64 (matured_rex b - amount rex)\<rparr>"
  consider (filled) v where "success out" "out_proceeds out = mk_asset x cs"
      "r' = put_bal k (?b v) (put_pool (pool_sell (S - x) (R - amount rex) p) r)" "symb (out_stake_change out) = cs"
    | (queued) "\<not> success out" "out_proceeds out = mk_asset 0 cs" "r' = r" "symb (out_stake_change out) = cs"
    using assms(1,5,7) p m w
    by (auto simp: fill_rex_order_def res_simps Let_def asset_new_iff mk_asset_eq_iff S_def [symmetric] R_def [symmetric]
        split: if_splits)
  then have "rex_rows cs (insert k X) r' \<and> liab r' = liab r - amount (out_proceeds out) \<and>
    0 \<le> amount (out_proceeds out) \<and> symb (out_proceeds out) = cs \<and> rexorders r' = rexorders r \<and>
    (\<not> success out \<longrightarrow> r' = r \<and> amount (out_proceeds out) = 0) \<and> amount (out_proceeds out) \<le> rex_cap \<and>
    symb (out_stake_change out) = cs"
  proof cases
    case filled
    let ?p = "pool_sell (S - x) (R - amount rex) p"
    have off: "bal_off 0 (?b v)" using B(9) b assms(4,6) w by (auto simp: bal_off_def)
    have tot: "rex_total (put_bal k (?b v) (put_pool ?p r)) = R - amount rex"
      using assms(5) w B(2) by (simp add: rex_total_put_bal R_def)
    have ok: "pool_ok (R - amount rex) ?p"
      using D S x R b assms(4) w by (auto simp: pool_ok_def pool_sell_def rex_ratio_def wrap64_add)
    have "rex_rows cs (insert k X) (put_bal k (?b v) (put_pool ?p r))"
      using assms(2) off tot ok by (auto simp: rex_rows_def covered_put_bal)
    moreover have "liab (put_bal k (?b v) (put_pool ?p r)) = liab r - x"
      using l by (simp add: liab_def pool_sell_def)
    ultimately show ?thesis using filled x R by simp
  next
    case queued
    then show ?thesis using assms(2) by (auto simp: rex_rows_def rex_cap_def)
  qed
  then show "rex_rows cs (insert k X) r'" "liab r' = liab r - amount (out_proceeds out)"
    "0 \<le> amount (out_proceeds out)" "symb (out_proceeds out) = cs" "rexorders r' = rexorders r"
    "\<not> success out \<Longrightarrow> r' = r \<and> amount (out_proceeds out) = 0" "amount (out_proceeds out) \<le> rex_cap"
    "symb (out_stake_change out) = cs"
    by blast+
qed

text \<open>What a filled order is worth.\<close>

lemma fill_rex_order_value:
  assumes "asset_laws E" "rex_rows cs X r" "liab r \<le> rex_cap" "0 < amount rex"
    and "t_get (rexbalance r) k = Some b" "amount rex \<le> matured_rex b"
    and "fill_rex_order E cs k rex r = Inr (out, r')" "rexpool r = Some p" "success out"
  shows "amount (out_proceeds out) * amount (total_rex p) \<le> amount rex * amount (total_lendable p)"
    "rexpool r' = Some p' \<Longrightarrow> amount (total_lendable p') = amount (total_lendable p) - amount (out_proceeds out)"
    "rexpool r' = Some p' \<Longrightarrow> amount (total_rex p') = amount (total_rex p) - amount rex"
proof -
  note F = fill_rex_order_spec [OF assms(1-7)]
  note B = pool_bounds [OF assms(2,8,3)] rows_pool_ok [OF assms(2,8)] bal_le_total [OF assms(2,5)]
  define S R where "S = amount (total_lendable p)" and "R = amount (total_rex p)"
  have R: "amount rex \<le> R" "0 \<le> S"
    using B assms(6) bucket_sum_nonneg [of "rex_maturities b"] by (auto simp: bal_off_def R_def S_def)
  obtain x p1 v where x: "mul_div (amount rex) S R = Inr x" "amount (out_proceeds out) = x"
    and r': "rexpool r' = Some (pool_sell (wrap64 (S - x)) (wrap64 (R - amount rex)) p)"
    using assms(1,5,7,8,9)
    by (auto simp: fill_rex_order_def res_simps Let_def asset_new_iff S_def [symmetric] R_def [symmetric]
        mk_asset_eq_iff split: if_splits)
  have d: "0 \<le> amount rex * S div R" "amount rex * S div R \<le> S"
    using R assms(4) by (auto intro: mul_div_le simp: pos_imp_zdiv_nonneg_iff)
  have c: "S \<le> rex_cap" "R \<le> 4000000000000000000" using B by (simp_all add: S_def R_def)
  have "amount rex * S \<le> 4000000000000000000 * 400000000000000"
    using R c assms(4) by (intro mult_mono) (auto simp: rex_cap_def)
  then have xv: "x = amount rex * S div R"
    using x(1) mul_div_exact [of "amount rex" S R] R d c assms(4) by (auto simp: rex_cap_def)
  show "amount (out_proceeds out) * amount (total_rex p) \<le> amount rex * amount (total_lendable p)"
    using div_mult_bounds(1) [of R "amount rex * S"] R assms(4) x(2) xv by (simp add: S_def R_def)
  have w: "wrap64 (S - x) = S - x" "wrap64 (R - amount rex) = R - amount rex"
    using d xv c R assms(4) by (auto intro!: wrap_small simp: rex_cap_def)
  show "rexpool r' = Some p' \<Longrightarrow> amount (total_lendable p') = amount (total_lendable p) - amount (out_proceeds out)"
    "rexpool r' = Some p' \<Longrightarrow> amount (total_rex p') = amount (total_rex p) - amount rex"
    using r' w x(2) by (auto simp: pool_sell_def S_def R_def)
qed

section \<open>Queued orders\<close>

lemma liab_put_order:
  "liab (r\<lparr>rexorders := t_set k ord (rexorders r)\<rparr>) = liab r + closed_proceeds k ord
     - (case t_get (rexorders r) k of None \<Rightarrow> 0 | Some q \<Rightarrow> closed_proceeds k q)"
  by (simp add: liab_def lendable_def t_sum_set)

lemma liab_del_order:
  "t_get (rexorders r) k = Some ord \<Longrightarrow>
   liab (r\<lparr>rexorders := t_del k (rexorders r)\<rparr>) = liab r - closed_proceeds k ord"
  by (simp add: liab_def lendable_def t_sum_del)

lemma rex_rows_orders:
  assumes "rex_rows cs X r" "all_rows (order_ok cs) os" "\<And>k. k \<notin> X' \<Longrightarrow> covered (r\<lparr>rexorders := os\<rparr>) k"
  shows "rex_rows cs X' (r\<lparr>rexorders := os\<rparr>)"
  using assms by (auto simp: rex_rows_def rex_total_def split: option.splits)

lemma rex_rows_order_rows: "rex_rows cs X r \<Longrightarrow> all_rows (order_ok cs) (rexorders r)"
  by (simp add: rex_rows_def)

text \<open>Closing or opening an order of \<open>k\<close> and removing one.\<close>

lemma rex_rows_put_order:
  assumes "rex_rows cs X r" "order_ok cs k ord" "X \<subseteq> X' \<union> {k}"
    and "is_open ord \<Longrightarrow> k \<notin> X' \<Longrightarrow>
      \<exists>b. t_get (rexbalance r) k = Some b \<and> amount (rex_requested ord) \<le> matured_rex b"
  shows "rex_rows cs X' (r\<lparr>rexorders := t_set k ord (rexorders r)\<rparr>)"
proof (rule rex_rows_orders [OF assms(1)])
  show "all_rows (order_ok cs) (t_set k ord (rexorders r))"
    using rex_rows_order_rows [OF assms(1)] assms(2) by (rule all_rows_set)
  show "covered (r\<lparr>rexorders := t_set k ord (rexorders r)\<rparr>) j" if "j \<notin> X'" for j
    using assms that by (cases "j = k") (auto simp: rex_rows_def covered_def)
qed

lemma rex_rows_del_order:
  assumes "rex_rows cs X r" "X \<subseteq> X' \<union> {k}"
  shows "rex_rows cs X' (r\<lparr>rexorders := t_del k (rexorders r)\<rparr>)"
proof (rule rex_rows_orders [OF assms(1)])
  show "all_rows (order_ok cs) (t_del k (rexorders r))"
    using rex_rows_order_rows [OF assms(1)] by (rule all_rows_del)
  show "covered (r\<lparr>rexorders := t_del k (rexorders r)\<rparr>) j" if "j \<notin> X'" for j
    using assms that by (cases "j = k") (auto simp: rex_rows_def covered_def)
qed

lemma rex_rows_mono: "rex_rows cs X r \<Longrightarrow> X \<subseteq> X' \<Longrightarrow> rex_rows cs X' r"
  by (auto simp: rex_rows_def)

text \<open>An owner without an open order needs no exemption.\<close>

lemma rex_rows_settled:
  assumes "rex_rows cs (insert k X) r" "covered r k"
  shows "rex_rows cs X r"
  using assms by (auto simp: rex_rows_def)

section \<open>Loans\<close>

definition loan_sum :: "loan_kind \<Rightarrow> rex_state \<Rightarrow> int" where
  "loan_sum kd r = t_sum (\<lambda>k l. amount (loan_balance l)) (loans kd r)"

lemma set_loans_simps [simp]:
  "rexpool (set_loans kd t r) = rexpool r" "rexfunds (set_loans kd t r) = rexfunds r"
  "rexbalance (set_loans kd t r) = rexbalance r" "rexorders (set_loans kd t r) = rexorders r"
  "loans kd (set_loans kd t r) = t" "lendable (set_loans kd t r) = lendable r"
  "rex_total (set_loans kd t r) = rex_total r" "covered (set_loans kd t r) = covered r"
  "rex_available (set_loans kd t r) = rex_available r"
  by (cases kd; simp add: lendable_def rex_total_def covered_def fun_eq_iff rex_available_def)+

lemma liab_set_loans: "liab (set_loans kd t r) = liab r - loan_sum kd r + t_sum (\<lambda>k l. amount (loan_balance l)) t"
  by (cases kd) (simp_all add: liab_def loan_sum_def lendable_def)

lemma rex_rows_loans: "rex_rows cs X r \<Longrightarrow> all_rows (loan_ok cs) (loans kd r)"
  by (cases kd) (simp_all add: rex_rows_def)

lemma rex_rows_set_loans:
  "rex_rows cs X r \<Longrightarrow> all_rows (loan_ok cs) t \<Longrightarrow> rex_rows cs X (set_loans kd t r)"
  by (cases kd) (auto simp: rex_rows_def rex_total_def covered_def split: option.splits)

lemma put_loan_spec:
  assumes "rex_rows cs X r" "loan_ok cs k l"
  shows "rex_rows cs X (set_loans kd (t_set k l (loans kd r)) r)"
    "liab (set_loans kd (t_set k l (loans kd r)) r) = liab r + amount (loan_balance l)
       - (case t_get (loans kd r) k of None \<Rightarrow> 0 | Some q \<Rightarrow> amount (loan_balance q))"
  using rex_rows_set_loans [OF assms(1) all_rows_set [OF rex_rows_loans [OF assms(1)] assms(2)]]
  by (simp_all add: liab_set_loans loan_sum_def t_sum_set)

lemma del_loan_spec:
  assumes "rex_rows cs X r" "t_get (loans kd r) k = Some l"
  shows "rex_rows cs X (set_loans kd (t_del k (loans kd r)) r)"
    "liab (set_loans kd (t_del k (loans kd r)) r) = liab r - amount (loan_balance l)"
  using rex_rows_set_loans [OF assms(1) all_rows_del [OF rex_rows_loans [OF assms(1)]]] assms(2)
  by (simp_all add: liab_set_loans loan_sum_def t_sum_del)

lemma lendable_loan_le:
  assumes "rex_rows cs X r" "t_get (loans kd r) k = Some l"
  shows "lendable r + amount (loan_balance l) \<le> liab r"
proof -
  have "lendable r \<le> liab (set_loans kd (t_del k (loans kd r)) r)"
    using lendable_le_liab [OF del_loan_spec(1) [OF assms]] by simp
  then show ?thesis using del_loan_spec(2) [OF assms] by simp
qed

lemma remove_loan_spec:
  assumes "rex_rows cs X r" "remove_loan_from_rex_pool l r = Inr r1"
  shows "rex_rows cs X r1" "liab r1 = liab r" "loans kd r1 = loans kd r" "lendable r1 = lendable r"
    "rexorders r1 = rexorders r" "rexbalance r1 = rexbalance r"
proof -
  obtain p d where p: "rexpool r = Some p"
    and r1: "r1 = put_pool (pool_remove_loan d (amount (total_staked l)) p) r"
    using assms(2) by (auto simp: remove_loan_from_rex_pool_def res_simps)
  note ok = pool_remove_loan_ok [OF rows_pool_ok [OF assms(1) p], of d "amount (total_staked l)"]
  show "rex_rows cs X r1" "liab r1 = liab r" "loans kd r1 = loans kd r" "lendable r1 = lendable r"
    "rexorders r1 = rexorders r" "rexbalance r1 = rexbalance r"
    using put_pool_spec [OF assms(1) ok(1)] ok(2) p by (simp_all add: r1 lendable_def)
qed

lemma add_loan_spec:
  assumes "rex_rows cs X r" "rex_available r" "0 \<le> amount q" "lendable r + amount q < 2 ^ 63"
    and "add_loan_to_rex_pool q n new r = Inr r1"
  shows "rex_rows cs X r1" "liab r1 = liab r + amount q" "loans kd r1 = loans kd r" "rexorders r1 = rexorders r"
    "rexbalance r1 = rexbalance r"
proof -
  obtain p where p: "rexpool r = Some p" "0 < amount (total_rex p)" and r1: "r1 = put_pool (pool_add_loan q n new p) r"
    using assms(2,5) by (auto simp: add_loan_to_rex_pool_def res_simps rex_available_iff)
  note P = rows_pool_ok [OF assms(1) p(1)]
  have "rex_total r \<noteq> 0" using P p(2) by (simp add: pool_ok_def)
  note ok = pool_add_loan_ok [OF P assms(3) _ this, of n new]
  show "rex_rows cs X r1" "liab r1 = liab r + amount q" "loans kd r1 = loans kd r" "rexorders r1 = rexorders r"
    "rexbalance r1 = rexbalance r"
    using put_pool_spec [OF assms(1) ok(1)] ok(2) p assms(4) by (simp_all add: r1 lendable_def)
qed

lemma rex_loans_available_D: "rex_loans_available r \<Longrightarrow> rex_available r"
  by (simp add: rex_loans_available_def)

text \<open>
  An expired loan is renewed out of its balance, or its balance goes back to the borrower's fund and
  the row is to be deleted.
\<close>

lemma process_expired_loan_spec:
  assumes "asset_laws E" "rex_rows cs X r" "liab r \<le> rex_cap" "t_get (loans kd r) n = Some l"
    and "process_expired_loan E cs kd l r = Inr ((del, d), r')"
  defines "r2 \<equiv> if del then set_loans kd (t_del (loan_num l) (loans kd r')) r' else r'"
  shows "rex_rows cs X r2" "liab r2 = liab r" "rexorders r2 = rexorders r" "rexbalance r2 = rexbalance r"
proof -
  note L = loan_le_liab [OF assms(2,4)]
  have l: "0 < amount (payment l)" "0 \<le> amount (loan_balance l)" "symb (loan_balance l) = cs" "loan_num l = n"
    "symb (payment l) = cs"
    using L(1) by (simp_all add: loan_ok_def)
  obtain r1 rented where r1: "remove_loan_from_rex_pool l r = Inr r1" and
    cont: "(if amount (payment l) \<le> amount (loan_balance l) \<and> amount (payment l) < rented \<and> rex_loans_available r1
     then rbind (add_loan_to_rex_pool (payment l) rented False r1) (\<lambda>r2.
          let (delta_stake, l1) = update_renewed_loan rented l in
          Inr ((False, delta_stake), set_loans kd (t_set (loan_num l) l1 (loans kd r2)) r2))
     else rbind (if amount (loan_balance l) > 0
                 then transfer_to_fund cs (loan_from l) (loan_balance l) r1 else Inr r1) (\<lambda>r2.
          Inr ((True, wrap64 (- amount (total_staked l))), r2))) = Inr ((del, d), r')"
    using assms(1,5) by (auto simp: process_expired_loan_def res_simps asset_le_iff)
  note R = remove_loan_spec [OF assms(2) r1]
  have lend: "lendable r1 + amount (loan_balance l) \<le> rex_cap"
    using lendable_loan_le [OF assms(2,4)] R(4) assms(3) by simp
  have "rex_rows cs X r2 \<and> liab r2 = liab r \<and> rexorders r2 = rexorders r \<and> rexbalance r2 = rexbalance r"
  proof (cases "amount (payment l) \<le> amount (loan_balance l) \<and> amount (payment l) < rented \<and> rex_loans_available r1")
    case True
    then obtain r3 where a: "add_loan_to_rex_pool (payment l) rented False r1 = Inr r3" and del: "\<not> del"
      and r': "r' = set_loans kd (t_set n (snd (update_renewed_loan rented l)) (loans kd r3)) r3"
      using cont l by (auto simp: res_simps case_prod_beta)
    note A = add_loan_spec [OF R(1) _ _ _ a]
    have A1: "rex_rows cs X r3" "liab r3 = liab r + amount (payment l)" "loans kd r3 = loans kd r"
      "rexorders r3 = rexorders r" "rexbalance r3 = rexbalance r"
      using A True R l lend by (auto simp: rex_loans_available_D rex_cap_def)
    have w: "wrap64 (amount (loan_balance l) - amount (payment l)) = amount (loan_balance l) - amount (payment l)"
      using True l L(2) assms(3) by (intro wrap_small) (auto simp: rex_cap_def)
    have "loan_ok cs n (snd (update_renewed_loan rented l))"
      using L(1) True w by (simp add: loan_ok_def update_renewed_loan_def)
    from put_loan_spec [OF A1(1) this, of kd] show ?thesis
      using A1 assms(4) w del by (simp add: r2_def r' update_renewed_loan_def)
  next
    case False
    then have del: "del" using cont by (auto simp: res_simps)
    show ?thesis
    proof (cases "amount (loan_balance l) > 0")
      case True
      then have t: "transfer_to_fund cs (loan_from l) (loan_balance l) r1 = Inr r'"
        using cont False by (auto simp: res_simps)
      note T = transfer_to_fund_spec [OF R(1) _ _ t]
      have T1: "rex_rows cs X r'" "liab r' = liab r + amount (loan_balance l)"
        "rexorders r' = rexorders r" "rexbalance r' = rexbalance r"
        using T R L(2) assms(3) by simp_all
      have "loans kd r' = loans kd r1" using T(8,9) R(2) L(2) assms(3) by (cases kd) simp_all
      then have T2: "t_get (loans kd r') (loan_num l) = Some l" using R(3) assms(4) l by simp
      show ?thesis using del_loan_spec [OF T1(1) T2] T1 del by (simp add: r2_def)
    next
      case zero: False
      then have r': "r' = r1" using cont False by (auto simp: res_simps)
      show ?thesis using del_loan_spec [OF R(1), of kd n l] R assms(4) del l zero by (simp add: r2_def r')
    qed
  qed
  then show "rex_rows cs X r2" "liab r2 = liab r" "rexorders r2 = rexorders r" "rexbalance r2 = rexbalance r" by blast+
qed

lemma fund_rex_loan_spec:
  assumes "asset_laws E" "rex_rows cs X r" "liab r \<le> rex_cap" "fund_rex_loan E cs kd k n q r = Inr r'"
  shows "rex_rows cs X r'" "liab r' = liab r"
proof -
  obtain r1 l where t: "transfer_from_fund E cs k q r = Inr r1" and l: "t_get (loans kd r1) n = Some l"
    and r': "r' = set_loans kd (t_set n (l\<lparr>loan_balance := add_amt (amount q) (loan_balance l)\<rparr>) (loans kd r1)) r1"
    using assms(4) by (auto simp: fund_rex_loan_def res_simps)
  note T = transfer_from_fund_spec [OF assms(1-3) t]
  note L = loan_le_liab [OF T(1) l]
  have q: "amount q \<le> rex_cap" using T(8) fund_le_liab(3) [OF assms(2)] assms(3) by fastforce
  have w: "wrap64 (amount (loan_balance l) + amount q) = amount (loan_balance l) + amount q"
    using L T(2,3) assms(3) q by (intro wrap_small) (auto simp: rex_cap_def loan_ok_def)
  have "loan_ok cs n (l\<lparr>loan_balance := add_amt (amount q) (loan_balance l)\<rparr>)"
    using L(1) T(3) w by (simp add: loan_ok_def)
  from put_loan_spec [OF T(1) this, of kd] show "rex_rows cs X r'" "liab r' = liab r"
    using T(2) l w by (simp_all add: r')
qed

lemma defund_rex_loan_spec:
  assumes "asset_laws E" "rex_rows cs X r" "liab r \<le> rex_cap" "defund_rex_loan E cs kd k n q r = Inr r'"
  shows "rex_rows cs X r'" "liab r' = liab r"
proof -
  let ?l = "\<lambda>l. l\<lparr>loan_balance := add_amt (- amount q) (loan_balance l)\<rparr>"
  obtain l where l: "t_get (loans kd r) n = Some l" and le: "amount q \<le> amount (loan_balance l)"
    and t: "transfer_to_fund cs k q (set_loans kd (t_set n (?l l) (loans kd r)) r) = Inr r'"
    using assms(1,4) by (auto simp: defund_rex_loan_def res_simps asset_le_iff)
  have q: "0 < amount q" using t by (auto simp: transfer_to_fund_def res_simps)
  note L = loan_le_liab [OF assms(2) l]
  have w: "wrap64 (amount (loan_balance l) - amount q) = amount (loan_balance l) - amount q"
    using L assms(3) le q by (intro wrap_small) (auto simp: rex_cap_def loan_ok_def)
  have "loan_ok cs n (?l l)" using L(1) le w by (simp add: loan_ok_def)
  note P = put_loan_spec [OF assms(2) this, of kd]
  have "liab (set_loans kd (t_set n (?l l) (loans kd r)) r) = liab r - amount q"
    using P(2) l w by simp
  then show "rex_rows cs X r'" "liab r' = liab r"
    using transfer_to_fund_spec(1,2) [OF P(1) _ _ t] assms(3) q le L(2) by simp_all
qed

section \<open>Moving REX out of the buckets\<close>

lemma wrap64_0: "wrap64 0 = 0"
  by (rule wrap_small) simp_all

lemma drain_back_sum:
  assumes "drain_back want moved bs = (moved', bs')" "0 \<le> moved" "moved \<le> want" "want < 2 ^ 63"
    and "buckets_ok bs" "bucket_sum bs \<le> 2 ^ 62"
  shows "moved' + bucket_sum bs' = moved + bucket_sum bs \<and> moved \<le> moved' \<and> moved' \<le> want \<and> buckets_ok bs' \<and>
    (moved' < want \<longrightarrow> bs' = [])"
  using assms
proof (induction want moved bs rule: drain_back.induct)
  case (2 want moved t x bs)
  show ?case
  proof (cases "moved < want")
    case True
    define d where "d = min (want - moved) x"
    have nn: "0 \<le> bucket_sum bs" using 2(6) by (simp add: bucket_sum_nonneg)
    have w: "wrap64 (want - moved) = want - moved" using 2(3-5) by (intro wrap_small) auto
    have d: "0 \<le> d" "d \<le> x" "d \<le> want - moved" using True 2(6) by (auto simp: d_def)
    have w1: "wrap64 (x - d) = x - d" "wrap64 (moved + d) = moved + d"
      using d nn 2(3-7) by (auto intro!: wrap_small)
    show ?thesis
    proof (cases "x = d")
      case x: True
      have md: "min (want - moved) d = d" using d(3) by simp
      have "drain_back want (moved + d) bs = (moved', bs')"
        using 2(2) True w w1 x md by (simp add: Let_def wrap64_0)
      then show ?thesis using 2(1)[OF True refl refl refl] 2(3-7) True w w1 x d nn md by (simp add: wrap64_0)
    next
      case False
      then have "(moved', bs') = (moved + d, (t, x - d) # bs)"
        using 2(2) True w w1 by (simp add: d_def [symmetric] Let_def)
      moreover have "d = want - moved" using False d by (auto simp: d_def min_def split: if_splits)
      ultimately show ?thesis using 2(6) d True by simp
    qed
  next
    case False
    then show ?thesis using 2 by simp
  qed
qed simp

lemma move_out_spec:
  assumes "bal_off n b" "0 \<le> rex" "rex < 2 ^ 63" "0 \<le> ord" "move_out rex ord b = Inr b'" "ord \<le> matured_rex b"
  shows "bal_off (n + rex) b'" "ord \<le> matured_rex b'" "rex_amount b' = rex_amount b"
proof -
  obtain moved bs where d: "drain_back rex 0 (rev (rex_maturities b)) = (moved, bs)" by fastforce
  have b: "0 \<le> matured_rex b" "buckets_ok (rex_maturities b)" "amount (rex_amount b) \<le> 2 ^ 62" "0 \<le> n"
    "amount (rex_amount b) = matured_rex b + bucket_sum (rex_maturities b) + n"
    using assms(1) by (simp_all add: bal_off_def)
  have D: "moved + bucket_sum bs = bucket_sum (rex_maturities b)" "0 \<le> moved" "moved \<le> rex" "buckets_ok bs"
    "moved < rex \<Longrightarrow> bs = []"
    using drain_back_sum [OF d _ assms(2,3)] b by auto
  have w: "wrap64 (rex - moved) = rex - moved" "wrap64 (moved + (rex - moved)) = rex"
    using D assms(2,3) by (auto intro!: wrap_small)
  have w2: "wrap64 (matured_rex b - (rex - moved)) = matured_rex b - (rex - moved)"
    using D assms(2,3) b bucket_sum_nonneg [OF b(2)] by (intro wrap_small) auto
  have "bal_off (n + rex) b' \<and> ord \<le> matured_rex b' \<and> rex_amount b' = rex_amount b"
    using assms d D w w2 b by (auto simp: move_out_def res_simps bal_off_def Let_def split: if_splits)
  then show "bal_off (n + rex) b'" "ord \<le> matured_rex b'" "rex_amount b' = rex_amount b" by blast+
qed

end
