(* ===== verification/RexSys.thy ===== *)
theory RexSys
  imports RexMoves
begin

text \<open>
  Conservation of tokens by the REX actions: an action changes what REX owes by exactly the core
  tokens it has transferred to or from the account \<open>eosio.rex\<close>. The relation \<open>rex_trans\<close> says so of a
  part of an action, so that the parts can be composed in the order the code runs them.
\<close>

section \<open>Token transfers of an action\<close>

definition effect_transfer :: "effect \<Rightarrow> (name \<times> name \<times> asset) option" where
  "effect_transfer e = (case e of Inline _ _ (TokenTransfer from to q _) \<Rightarrow> Some (from, to, q) | _ \<Rightarrow> None)"

definition moved_in :: "name \<Rightarrow> effect list \<Rightarrow> int" where
  "moved_in a es = sum_list (map (\<lambda>e. case effect_transfer e of
     None \<Rightarrow> 0 | Some (_, to, q) \<Rightarrow> if to = a then amount q else 0) es)"

definition moved_out :: "name \<Rightarrow> effect list \<Rightarrow> int" where
  "moved_out a es = sum_list (map (\<lambda>e. case effect_transfer e of
     None \<Rightarrow> 0 | Some (from, _, q) \<Rightarrow> if from = a then amount q else 0) es)"

text \<open>What the token contract requires of a transfer: otherwise it aborts the transaction.\<close>

definition transfers_ok :: "effect list \<Rightarrow> bool" where
  "transfers_ok es \<longleftrightarrow> (\<forall>e \<in> set es. case effect_transfer e of
     None \<Rightarrow> True | Some (from, to, q) \<Rightarrow> from \<noteq> to \<and> 0 < amount q)"

lemma moved_append [simp]:
  "moved_in a (es @ fs) = moved_in a es + moved_in a fs" "moved_out a (es @ fs) = moved_out a es + moved_out a fs"
  "moved_in a [] = 0" "moved_out a [] = 0"
  by (simp_all add: moved_in_def moved_out_def)

lemma moved_one:
  "moved_in a [e] = (case effect_transfer e of None \<Rightarrow> 0 | Some (_, to, q) \<Rightarrow> if to = a then amount q else 0)"
  "moved_out a [e] = (case effect_transfer e of None \<Rightarrow> 0 | Some (from, _, q) \<Rightarrow> if from = a then amount q else 0)"
  by (simp_all add: moved_in_def moved_out_def)

lemma transfers_ok_append [simp]: "transfers_ok (es @ fs) \<longleftrightarrow> transfers_ok es \<and> transfers_ok fs" "transfers_ok []"
  by (auto simp: transfers_ok_def)

lemma transfers_ok_one:
  "transfers_ok [e] \<longleftrightarrow> (case effect_transfer e of None \<Rightarrow> True | Some (from, to, q) \<Rightarrow> from \<noteq> to \<and> 0 < amount q)"
  by (simp add: transfers_ok_def)

lemma moved_nonneg: "transfers_ok es \<Longrightarrow> 0 \<le> moved_in a es" "transfers_ok es \<Longrightarrow> 0 \<le> moved_out a es"
  unfolding moved_in_def moved_out_def transfers_ok_def
  by (fastforce intro!: sum_list_nonneg split: option.splits)+

lemma effect_transfer_simps [simp]:
  "effect_transfer (Inline c ps (TokenTransfer f t q m)) = Some (f, t, q)" "effect_transfer (Notify n) = None"
  "effect_transfer (SendDeferred i n d x) = None" "effect_transfer (CancelDeferred i) = None"
  "effect_transfer (Inline c ps (RexBuyResult q)) = None" "effect_transfer (Inline c ps (RexSellResult q)) = None"
  "effect_transfer (Inline c ps (RexOrderResult n q)) = None" "effect_transfer (Inline c ps (RexRentResult q)) = None"
  by (simp_all add: effect_transfer_def)

section \<open>Parts of an action\<close>

text \<open>
  A configuration \<open>(X, p, s)\<close> is the state \<open>s\<close> while the owners in \<open>X\<close> are exempt and \<open>p\<close> tokens owed
  by REX are in a local variable of the action.
\<close>

definition rex_trans :: "sys_env \<Rightarrow> name set \<times> int \<times> sys_state \<Rightarrow> name set \<times> int \<times> sys_state \<Rightarrow> bool" where
  "rex_trans E c c' = (case (c, c') of ((X, p, s), (X', p', s')) \<Rightarrow>
     sys_core s' = sys_core s \<and>
     (\<exists>es. sys_out s' = sys_out s @ es \<and>
       (\<forall>cs. sys_core s = Inr cs \<longrightarrow> transfers_ok es \<longrightarrow> rex_rows cs X (rx s) \<longrightarrow> 0 \<le> p \<longrightarrow>
          liab (rx s) + p + moved_in (lit E ''eosio.rex'') es \<le> rex_cap \<longrightarrow>
          rex_rows cs X' (rx s') \<and> 0 \<le> p' \<and>
          liab (rx s') + p' = liab (rx s) + p + moved_in (lit E ''eosio.rex'') es - moved_out (lit E ''eosio.rex'') es)))"

lemma rex_trans_refl [simp]: "rex_trans E c c"
  by (cases c) (auto simp: rex_trans_def)

lemma rex_trans_trans [trans]:
  assumes "rex_trans E c c'" "rex_trans E c' c''"
  shows "rex_trans E c c''"
proof -
  obtain X p s X' p' s' X'' p'' s'' where c: "c = (X, p, s)" "c' = (X', p', s')" "c'' = (X'', p'', s'')"
    by (cases c, cases c', cases c'') auto
  obtain es fs where es: "sys_out s' = sys_out s @ es" "sys_out s'' = sys_out s' @ fs"
    and 1: "\<forall>cs. sys_core s = Inr cs \<longrightarrow> transfers_ok es \<longrightarrow> rex_rows cs X (rx s) \<longrightarrow> 0 \<le> p \<longrightarrow>
          liab (rx s) + p + moved_in (lit E ''eosio.rex'') es \<le> rex_cap \<longrightarrow>
          rex_rows cs X' (rx s') \<and> 0 \<le> p' \<and>
          liab (rx s') + p' = liab (rx s) + p + moved_in (lit E ''eosio.rex'') es - moved_out (lit E ''eosio.rex'') es"
    and 2: "\<forall>cs. sys_core s' = Inr cs \<longrightarrow> transfers_ok fs \<longrightarrow> rex_rows cs X' (rx s') \<longrightarrow> 0 \<le> p' \<longrightarrow>
          liab (rx s') + p' + moved_in (lit E ''eosio.rex'') fs \<le> rex_cap \<longrightarrow>
          rex_rows cs X'' (rx s'') \<and> 0 \<le> p'' \<and>
          liab (rx s'') + p'' = liab (rx s') + p' + moved_in (lit E ''eosio.rex'') fs - moved_out (lit E ''eosio.rex'') fs"
    and core: "sys_core s' = sys_core s" "sys_core s'' = sys_core s'"
    using assms unfolding c rex_trans_def by auto
  show ?thesis unfolding c rex_trans_def prod.case
  proof (intro conjI exI [of _ "es @ fs"] allI impI)
    show "sys_core s'' = sys_core s" "sys_out s'' = sys_out s @ es @ fs" using core es by simp_all
    fix cs
    assume a: "sys_core s = Inr cs" "transfers_ok (es @ fs)" "rex_rows cs X (rx s)" "0 \<le> p"
      "liab (rx s) + p + moved_in (lit E ''eosio.rex'') (es @ fs) \<le> rex_cap"
    note nn = moved_nonneg [of es "lit E ''eosio.rex''"] moved_nonneg [of fs "lit E ''eosio.rex''"]
    have s1: "rex_rows cs X' (rx s') \<and> 0 \<le> p' \<and>
          liab (rx s') + p' = liab (rx s) + p + moved_in (lit E ''eosio.rex'') es - moved_out (lit E ''eosio.rex'') es"
      using 1 a nn by auto
    have s2: "rex_rows cs X'' (rx s'') \<and> 0 \<le> p'' \<and>
          liab (rx s'') + p'' = liab (rx s') + p' + moved_in (lit E ''eosio.rex'') fs - moved_out (lit E ''eosio.rex'') fs"
      using 2 a nn s1 core by auto
    show "rex_rows cs X'' (rx s'')" "0 \<le> p''" "liab (rx s'') + p'' = liab (rx s) + p +
        moved_in (lit E ''eosio.rex'') (es @ fs) - moved_out (lit E ''eosio.rex'') (es @ fs)"
      using s1 s2 by simp_all
  qed
qed

text \<open>A step without effects, a step outside REX, and a step that sends one effect.\<close>

lemma rex_trans_rx:
  assumes "rammarket s' = rammarket s" "sys_out s' = sys_out s"
    and "\<And>cs. sys_core s = Inr cs \<Longrightarrow> rex_rows cs X (rx s) \<Longrightarrow> 0 \<le> p \<Longrightarrow> liab (rx s) + p \<le> rex_cap \<Longrightarrow>
      rex_rows cs X' (rx s') \<and> 0 \<le> p' \<and> liab (rx s') + p' = liab (rx s) + p"
  shows "rex_trans E (X, p, s) (X', p', s')"
  using assms by (auto simp: rex_trans_def sys_core_def)

lemma rex_trans_frame:
  "rammarket s' = rammarket s \<Longrightarrow> sys_out s' = sys_out s \<Longrightarrow> rx s' = rx s \<Longrightarrow> rex_trans E (X, p, s) (X, p, s')"
  by (rule rex_trans_rx) auto

lemma rex_trans_emit:
  assumes "rammarket s' = rammarket s" "sys_out s' = sys_out s @ [e]"
    and "\<And>cs. sys_core s = Inr cs \<Longrightarrow> transfers_ok [e] \<Longrightarrow> rex_rows cs X (rx s) \<Longrightarrow> 0 \<le> p \<Longrightarrow>
      liab (rx s) + p + moved_in (lit E ''eosio.rex'') [e] \<le> rex_cap \<Longrightarrow>
      rex_rows cs X' (rx s') \<and> 0 \<le> p' \<and>
      liab (rx s') + p' = liab (rx s) + p + moved_in (lit E ''eosio.rex'') [e] - moved_out (lit E ''eosio.rex'') [e]"
  shows "rex_trans E (X, p, s) (X', p', s')"
  using assms by (auto simp: rex_trans_def sys_core_def)

lemma send_result_simps [simp]:
  "rx (send_result E c s) = rx s" "vs (send_result E c s) = vs s" "bw (send_result E c s) = bw s"
  "rammarket (send_result E c s) = rammarket s"
  by (simp_all add: send_result_def)

lemma put_rx_simps [simp]:
  "rx (put_rx r s) = r" "vs (put_rx r s) = vs s" "bw (put_rx r s) = bw s" "rammarket (put_rx r s) = rammarket s"
  "sys_out (put_rx r s) = sys_out s" "sys_core (put_rx r s) = sys_core s"
  by (simp_all add: put_rx_def sys_core_def)

fun not_transfer :: "call \<Rightarrow> bool" where
  "not_transfer (TokenTransfer _ _ _ _) = False"
| "not_transfer _ = True"

lemma rex_trans_result: "not_transfer c \<Longrightarrow> rex_trans E (X, p, s) (X, p, send_result E c s)"
  by (rule rex_trans_emit [where e = "Inline (lit E ''eosio.rex'') [] c"])
    (cases c; simp add: send_result_def emit_def moved_one effect_transfer_def)+

lemma rex_trans_on_vs: "on_vs f s = Inr s' \<Longrightarrow> rex_trans E (X, p, s) (X, p, s')"
  by (rule rex_trans_frame) (auto simp: on_vs_Inr_iff)

section \<open>Fees and limits\<close>

lemma bw_helpers_frame [simp]:
  "rx (put_userres k r s) = rx s" "rammarket (put_userres k r s) = rammarket s"
  "sys_out (put_userres k r s) = sys_out s" "vs (put_userres k r s) = vs s"
  "rx (set_resource_limits k a b c s) = rx s" "rammarket (set_resource_limits k a b c s) = rammarket s"
  "sys_out (set_resource_limits k a b c s) = sys_out s" "vs (set_resource_limits k a b c s) = vs s"
  "rx (drop_if_empty k r s) = rx s" "rammarket (drop_if_empty k r s) = rammarket s"
  "sys_out (drop_if_empty k r s) = sys_out s" "vs (drop_if_empty k r s) = vs s"
  by (simp_all add: put_userres_def set_resource_limits_def drop_if_empty_def)

lemma update_resource_limits_frame:
  assumes "update_resource_limits E k dn dc s = Inr s'"
  shows "rx s' = rx s \<and> rammarket s' = rammarket s \<and> sys_out s' = sys_out s \<and> vs s' = vs s"
proof (cases "dc = 0 \<and> dn = 0")
  case False
  then obtain t where "s' = drop_if_empty k t
      (if managed net_managed k (put_userres k t s) \<and> managed cpu_managed k (put_userres k t s) then put_userres k t s
       else case limits (bw (put_userres k t s)) k of (ram, net, cpu) \<Rightarrow>
         set_resource_limits k ram (if managed net_managed k (put_userres k t s) then net else amount (net_weight t))
           (if managed cpu_managed k (put_userres k t s) then cpu else amount (cpu_weight t)) (put_userres k t s))"
    using assms unfolding update_resource_limits_def Let_def by (simp only: if_False res_simps) auto
  then show ?thesis by (simp split: prod.split)
qed (use assms in \<open>simp add: update_resource_limits_def\<close>)

lemma rex_trans_limits:
  "update_resource_limits E k dn dc s = Inr s' \<Longrightarrow> rex_trans E (X, p, s) (X, p, s')"
  by (rule rex_trans_frame) (auto dest: update_resource_limits_frame)

lemma rex_trans_channel: "rex_trans E (X, p, s) (X, p, channel_to_rex E a q s)"
proof (cases "rex_available (rx s)")
  case True
  then obtain pl where pl: "rexpool (rx s) = Some pl" "0 < amount (total_rex pl)" by (auto simp: rex_available_iff)
  let ?s = "channel_to_rex E a q s"
  have rx: "rx ?s = put_pool (pool_channel q pl) (rx s)"
    using True pl by (simp add: channel_to_rex_def put_pool_def)
  show ?thesis
  proof (rule rex_trans_emit)
    show "rammarket ?s = rammarket s"
      "sys_out ?s = sys_out s @ [Inline (lit E ''eosio.token'') (map (at_active E) [a])
         (TokenTransfer a (lit E ''eosio.rex'') q (''transfer from '' @ name_str E a @ '' to eosio.rex''))]" (is "_ = _ @ [?e]")
      using True by (simp_all add: channel_to_rex_def send_transfer_def emit_def)
    fix cs
    assume a: "sys_core s = Inr cs" "transfers_ok [?e]" "rex_rows cs X (rx s)" "0 \<le> p"
      "liab (rx s) + p + moved_in (lit E ''eosio.rex'') [?e] \<le> rex_cap"
    note P = rows_pool_ok [OF a(3) pl(1)]
    have l: "lendable (rx s) = amount (total_lendable pl)" using pl by (simp add: lendable_def)
    have q: "0 < amount q" "a \<noteq> lit E ''eosio.rex''" "moved_in (lit E ''eosio.rex'') [?e] = amount q"
      "moved_out (lit E ''eosio.rex'') [?e] = 0"
      using a(2) by (auto simp: transfers_ok_one moved_one)
    have "rex_total (rx s) \<noteq> 0" using P pl by (simp add: pool_ok_def)
    then have C: "pool_ok (rex_total (rx s)) (pool_channel q pl)"
      "amount (total_lendable (pool_channel q pl)) = amount (total_lendable pl) + amount q"
      using q a(4,5) lendable_le_liab [OF a(3)] l by (auto intro!: pool_channel_ok [OF P] simp: rex_cap_def)
    show "rex_rows cs X (rx ?s) \<and> 0 \<le> p \<and> liab (rx ?s) + p =
        liab (rx s) + p + moved_in (lit E ''eosio.rex'') [?e] - moved_out (lit E ''eosio.rex'') [?e]"
      unfolding rx using put_pool_spec [OF a(3) C(1)] C(2) l q a(4) by simp
  qed
next
  case False
  then show ?thesis by (simp add: channel_to_rex_def)
qed

section \<open>Maintenance\<close>

lemma rex_trans_namebids:
  assumes "run_namebids E s = Inr s'"
  shows "rex_trans E (X, p, s) (X, p, s')"
proof -
  obtain pl where pl: "rexpool (rx s) = Some pl"
    using assms by (auto simp: run_namebids_def res_simps)
  show ?thesis
  proof (cases "amount (namebid_proceeds pl) > 0")
    case True
    define s1 where "s1 = channel_to_rex E (lit E ''eosio.names'') (namebid_proceeds pl) s"
    obtain p1 where p1: "rexpool (rx s1) = Some p1"
      and s': "s' = put_rx (put_pool (p1\<lparr>namebid_proceeds := set_amt 0 (namebid_proceeds p1)\<rparr>) (rx s1)) s1"
      using assms True pl by (auto simp: run_namebids_def res_simps s1_def Let_def)
    have "rex_trans E (X, p, s) (X, p, s1)" unfolding s1_def by (rule rex_trans_channel)
    also have "rex_trans E (X, p, s1) (X, p, s')"
    proof (rule rex_trans_rx)
      fix cs
      assume a: "rex_rows cs X (rx s1)" "0 \<le> p"
      have ok: "pool_ok (rex_total (rx s1)) (p1\<lparr>namebid_proceeds := set_amt 0 (namebid_proceeds p1)\<rparr>)"
        using rows_pool_ok [OF a(1) p1] by (auto simp: pool_ok_def)
      show "rex_rows cs X (rx s') \<and> 0 \<le> p \<and> liab (rx s') + p = liab (rx s1) + p"
        using put_pool_spec [OF a(1) ok] p1 a(2) by (simp add: s' lendable_def)
    qed (simp_all add: s')
    finally show ?thesis .
  next
    case False
    then show ?thesis using assms pl by (simp add: run_namebids_def pool_row_def)
  qed
qed

lemma loans_by_expr_row:
  assumes "loans_by_expr kd r = l # ls" "rex_rows cs X r"
  shows "t_get (loans kd r) (loan_num l) = Some l"
proof -
  have "l \<in> set (loans_by_expr kd r)" using assms(1) by simp
  then obtain n where n: "t_get (loans kd r) n = Some l" by (auto simp: loans_by_expr_def set_t_index)
  with loan_le_liab(1) [OF assms(2) n] show ?thesis by (simp add: loan_ok_def)
qed

lemma rex_trans_expired:
  assumes "loans_by_expr kd (rx s) = l # ls"
    and "process_expired_loan E cs kd l (rx s) = Inr ((del, d), r1)"
    and "asset_laws E" "sys_core s = Inr cs"
    and "if d \<noteq> 0 then update_resource_limits E k dn dc (put_rx r1 s) = Inr s1 else s1 = put_rx r1 s"
  shows "rex_trans E (X, p, s) (X, p, if del then put_rx (set_loans kd (t_del (loan_num l) (loans kd (rx s1))) (rx s1)) s1 else s1)"
    (is "rex_trans E _ (X, p, ?s2)")
proof -
  have f: "rx s1 = r1" "rammarket s1 = rammarket s" "sys_out s1 = sys_out s"
    using assms(5) by (auto split: if_splits dest: update_resource_limits_frame)
  show ?thesis
  proof (rule rex_trans_rx)
    fix cs'
    assume a: "sys_core s = Inr cs'" "rex_rows cs' X (rx s)" "0 \<le> p" "liab (rx s) + p \<le> rex_cap"
    have cs: "cs' = cs" using a(1) assms(4) by simp
    have cap: "liab (rx s) \<le> rex_cap" using a by simp
    note P = process_expired_loan_spec [OF assms(3) a(2) [unfolded cs] cap loans_by_expr_row [OF assms(1) a(2)] assms(2)]
    show "rex_rows cs' X (rx ?s2) \<and> 0 \<le> p \<and> liab (rx ?s2) + p = liab (rx s) + p"
      using P a(3) f cs by (cases del) auto
  qed (use f in auto)
qed

lemma rex_trans_loans:
  assumes "asset_laws E" "sys_core s = Inr cs" "run_loans E cs kd n s = Inr s'"
  shows "rex_trans E (X, p, s) (X, p, s')"
  using assms(2,3)
proof (induction n arbitrary: s)
  case (Suc n)
  show ?case
  proof (cases "loans_by_expr kd (rx s)")
    case (Cons l ls)
    show ?thesis
    proof (cases "expiration l > current_time E")
      case False
      then obtain del d r1 s1 where pe: "process_expired_loan E cs kd l (rx s) = Inr ((del, d), r1)"
        and s1: "if d \<noteq> 0 then update_resource_limits E (loan_receiver l) (fst (limit_delta kd d)) (snd (limit_delta kd d)) (put_rx r1 s) = Inr s1
          else s1 = put_rx r1 s"
        and rest: "run_loans E cs kd n (if del then put_rx (set_loans kd (t_del (loan_num l) (loans kd (rx s1))) (rx s1)) s1 else s1) = Inr s'"
        using Suc.prems(2) Cons by (auto simp: res_simps case_prod_beta split: if_splits)
      note step = rex_trans_expired [OF Cons pe assms(1) Suc.prems(1) s1, where X = X and p = p]
      have "sys_core (if del then put_rx (set_loans kd (t_del (loan_num l) (loans kd (rx s1))) (rx s1)) s1 else s1) = Inr cs"
        using step Suc.prems(1) by (simp add: rex_trans_def)
      from rex_trans_trans [OF step Suc.IH [OF this rest]] show ?thesis .
    qed (use Suc.prems Cons in simp)
  qed (use Suc.prems in simp)
qed simp

text \<open>The orders that \<open>runrex\<close> visits are rows of the table with different owners.\<close>

lemma distinct_ins_by: "distinct (map f (ins_by lt x xs)) \<longleftrightarrow> f x \<notin> f ` set xs \<and> distinct (map f xs)"
  by (induction xs) auto

lemma distinct_sort_by: "distinct (map f (sort_by lt xs)) \<longleftrightarrow> distinct (map f xs)"
proof (induction xs)
  case (Cons x xs)
  then show ?case using set_sort_by [of lt xs] unfolding sort_by_def by (simp add: distinct_ins_by)
qed (simp add: sort_by_def)

lemma distinct_prefix: "distinct (map f xs) \<Longrightarrow> distinct (map f (takeWhile P (take n xs)))"
  by (subst takeWhile_eq_take) (simp only: take_take take_map [symmetric] distinct_take)

lemma distinct_owners:
  assumes "rex_rows cs X r"
  shows "distinct (map order_owner (orders_by_time r))"
proof -
  have "map order_owner (map snd (t_list (rexorders r))) = map fst (t_list (rexorders r))"
    using rex_rows_order_rows [OF assms]
    by (auto simp: all_rows_def t_get_iff_list order_ok_def)
  then show ?thesis
    using strict_sorted_distinct [OF t_list_sorted [of "rexorders r"]]
    by (simp only: orders_by_time_def t_index_def distinct_sort_by)
qed

lemma orders_by_time_row:
  assumes "rex_rows cs X r" "ord \<in> set (orders_by_time r)"
  shows "t_get (rexorders r) (order_owner ord) = Some ord"
proof -
  obtain k where k: "t_get (rexorders r) k = Some ord" using assms(2) by (auto simp: orders_by_time_def set_t_index)
  then show ?thesis using order_le_liab(1) [OF assms(1) k] by (simp add: order_ok_def)
qed

lemma run_order_step:
  assumes "asset_laws E" "sys_core s = Inr cs" "run_order E cs ord s = Inr s'"
    and "rex_rows cs {} (rx s)" "liab (rx s) \<le> rex_cap" "t_get (rexorders (rx s)) (order_owner ord) = Some ord" "is_open ord"
  shows "rex_rows cs {} (rx s') \<and> liab (rx s') = liab (rx s) \<and>
    (\<forall>k. k \<noteq> order_owner ord \<longrightarrow> t_get (rexorders (rx s')) k = t_get (rexorders (rx s)) k)"
proof -
  define k where "k = order_owner ord"
  have ord: "t_get (rexorders (rx s)) k = Some ord" using assms(6) by (simp add: k_def)
  have O: "order_ok cs k ord" using order_le_liab(1) [OF assms(4) ord] .
  have cov: "covered (rx s) k" using assms(4) by (simp add: rex_rows_def)
  then obtain b where b: "t_get (rexbalance (rx s)) k = Some b" "amount (rex_requested ord) \<le> matured_rex b"
    using ord assms(7) by (auto simp: covered_def)
  obtain out r1 where fill: "fill_rex_order E cs k (rex_requested ord) (rx s) = Inr (out, r1)"
    and s': "s' = (if success out
             then send_result E (RexOrderResult k (out_proceeds out))
                    (put_rx (r1\<lparr>rexorders := t_set k
                      (ord\<lparr>proceeds := set_amt (amount (out_proceeds out)) (proceeds ord),
                           stake_change := set_amt (amount (out_stake_change out)) (stake_change ord),
                           is_open := False\<rparr>) (rexorders r1)\<rparr>) s)
             else put_rx r1 s)"
    using assms(3) b by (auto simp: run_order_def res_simps t_has_def k_def)
  have pos: "0 < amount (rex_requested ord)" using O assms(7) by (simp add: order_ok_def)
  note F = fill_rex_order_spec [OF assms(1,4,5) pos b fill]
  show ?thesis
  proof (cases "success out")
    case True
    let ?ord = "ord\<lparr>proceeds := set_amt (amount (out_proceeds out)) (proceeds ord),
                           stake_change := set_amt (amount (out_stake_change out)) (stake_change ord), is_open := False\<rparr>"
    have "order_ok cs k ?ord" using O F(3) by (simp add: order_ok_def)
    then have "rex_rows cs {} (r1\<lparr>rexorders := t_set k ?ord (rexorders r1)\<rparr>)"
      using F(1) by (intro rex_rows_put_order) auto
    moreover have "liab (r1\<lparr>rexorders := t_set k ?ord (rexorders r1)\<rparr>) = liab (rx s)"
      using F(2,5) ord assms(7) liab_put_order [of k ?ord r1] by (simp add: closed_proceeds_def)
    ultimately show ?thesis using True F(5) by (simp add: s' k_def)
  next
    case False
    then show ?thesis using F(6) assms(4) by (simp add: s')
  qed
qed

lemma run_order_frame:
  assumes "run_order E cs ord s = Inr s'"
  shows "sys_core s' = sys_core s" "\<exists>es. sys_out s' = sys_out s @ es \<and> moved_in a es = 0 \<and> moved_out a es = 0"
proof -
  show "sys_core s' = sys_core s"
    using assms by (auto simp: run_order_def res_simps sys_core_def split: if_splits)
  have "sys_out s' = sys_out s \<or> (\<exists>k q. sys_out s' = sys_out s @ [Inline (lit E ''eosio.rex'') [] (RexOrderResult k q)])"
    using assms by (auto simp: run_order_def res_simps send_result_def split: if_splits)
  then show "\<exists>es. sys_out s' = sys_out s @ es \<and> moved_in a es = 0 \<and> moved_out a es = 0"
    by (auto simp: moved_one)
qed

lemma run_orders_step:
  assumes "asset_laws E" "sys_core s = Inr cs" "rfold (run_order E cs) os s = Inr s'"
    and "rex_rows cs {} (rx s)" "liab (rx s) \<le> rex_cap" "distinct (map order_owner os)"
    and "\<forall>ord \<in> set os. t_get (rexorders (rx s)) (order_owner ord) = Some ord \<and> is_open ord"
  shows "rex_rows cs {} (rx s') \<and> liab (rx s') = liab (rx s)"
  using assms(2-)
proof (induction os arbitrary: s)
  case (Cons ord os)
  obtain s1 where s1: "run_order E cs ord s = Inr s1" and rest: "rfold (run_order E cs) os s1 = Inr s'"
    using Cons.prems(2) by (auto simp: res_simps)
  note R = run_order_step [OF assms(1) Cons.prems(1) s1 Cons.prems(3,4)]
  have "\<forall>o2 \<in> set os. t_get (rexorders (rx s1)) (order_owner o2) = Some o2 \<and> is_open o2"
    using R Cons.prems(5,6) by (auto simp: image_iff)
  then show ?case
    using Cons.IH [OF _ rest] R Cons.prems run_order_frame(1) [OF s1] by auto
qed simp

lemma run_orders_frame:
  assumes "rfold (run_order E cs) os s = Inr s'"
  shows "sys_core s' = sys_core s \<and> (\<exists>es. sys_out s' = sys_out s @ es \<and> moved_in a es = 0 \<and> moved_out a es = 0)"
  using assms
proof (induction os arbitrary: s)
  case (Cons ord os)
  obtain s1 where s1: "run_order E cs ord s = Inr s1" and rest: "rfold (run_order E cs) os s1 = Inr s'"
    using Cons.prems by (auto simp: res_simps)
  obtain es fs where "sys_out s1 = sys_out s @ es" "moved_in a es = 0" "moved_out a es = 0"
    "sys_out s' = sys_out s1 @ fs" "moved_in a fs = 0" "moved_out a fs = 0" "sys_core s' = sys_core s1"
    using Cons.IH [OF rest] run_order_frame(2) [OF s1] by metis
  then show ?case using run_order_frame(1) [OF s1] by (intro conjI exI [of _ "es @ fs"]) auto
qed simp

lemma rex_trans_runrex:
  assumes "asset_laws E" "runrex E mx s = Inr s'"
  shows "rex_trans E ({}, p, s) ({}, p, s')"
proof -
  obtain cs s1 s2 s3 where cs: "sys_core s = Inr cs" and nb: "run_namebids E s = Inr s1"
    and l1: "run_loans E cs CPU mx s1 = Inr s2" and l2: "run_loans E cs NET mx s2 = Inr s3"
    and os: "rfold (run_order E cs) (takeWhile is_open (take mx (orders_by_time (rx s3)))) s3 = Inr s'" (is "rfold _ ?os _ = _")
    using assms(2) by (auto simp: runrex_def res_simps)
  note t1 = rex_trans_namebids [OF nb, of "{}" p]
  have cs1: "sys_core s1 = Inr cs" using t1 cs by (simp add: rex_trans_def)
  note t2 = rex_trans_loans [OF assms(1) cs1 l1, of "{}" p]
  have cs2: "sys_core s2 = Inr cs" using t2 cs1 by (simp add: rex_trans_def)
  note t3 = rex_trans_loans [OF assms(1) cs2 l2, of "{}" p]
  have cs3: "sys_core s3 = Inr cs" using t3 cs2 by (simp add: rex_trans_def)
  obtain es where es: "sys_out s' = sys_out s3 @ es" "moved_in (lit E ''eosio.rex'') es = 0"
    "moved_out (lit E ''eosio.rex'') es = 0" and core: "sys_core s' = sys_core s3"
    using run_orders_frame [OF os] by metis
  have "rex_trans E ({}, p, s3) ({}, p, s')" unfolding rex_trans_def prod.case
  proof (intro conjI exI [of _ es] allI impI, rule core, rule es(1))
    fix c
    assume a: "sys_core s3 = Inr c" "rex_rows c {} (rx s3)" "0 \<le> p" "liab (rx s3) + p + moved_in (lit E ''eosio.rex'') es \<le> rex_cap"
    have c: "c = cs" using a(1) cs3 by simp
    have row: "\<forall>ord \<in> set ?os. t_get (rexorders (rx s3)) (order_owner ord) = Some ord \<and> is_open ord"
      using orders_by_time_row [OF a(2)] by (auto dest!: set_takeWhileD in_set_takeD)
    have "distinct (map order_owner ?os)"
      using distinct_owners [OF a(2)] by (rule distinct_prefix)
    then have "rex_rows cs {} (rx s') \<and> liab (rx s') = liab (rx s3)"
      using a c es row by (intro run_orders_step [OF assms(1) cs3 os]) auto
    then show "rex_rows c {} (rx s')" "0 \<le> p" "liab (rx s') + p = liab (rx s3) + p + moved_in (lit E ''eosio.rex'') es
        - moved_out (lit E ''eosio.rex'') es"
      using a c es by simp_all
  qed
  from rex_trans_trans [OF rex_trans_trans [OF rex_trans_trans [OF t1 t2] t3] this] show ?thesis .
qed

end
