(* ===== verification/WriteSets.thy ===== *)
theory WriteSets
  imports Proxies Admin RexSys
begin

text \<open>
  Which part of the state an action can change and whose tokens it can send. \<open>frame E X W s s'\<close> says
  that between \<open>s\<close> and \<open>s'\<close> only transfers from accounts in \<open>X\<close> were sent and only the parts in \<open>W\<close>
  were written; the properties of a part then only look at the actions that write it.
\<close>

section \<open>The parts\<close>

text \<open>
  The graph of proxies, the accounting of RAM, the stakes and their refunds, the auction of names
  with its refunds and proceeds, the count of unpaid blocks, the oracles with their answers, the votes
  that are not paid yet, and the rows of producers, which every action keeps in order.
\<close>

datatype part = Graph | Ram | Stakes | Bids | Blocks | Answers | Unpaid | Rows

definition ram_sum :: "sys_state \<Rightarrow> int" where
  "ram_sum s = t_sum (\<lambda>_ r. ram_bytes r) (userres (bw s))"

definition blocks_sum :: "vote_state \<Rightarrow> int" where
  "blocks_sum v = t_sum (\<lambda>_ p. unpaid_blocks p) (producers v)"

definition unpaid_sum :: "vote_state \<Rightarrow> int" where
  "unpaid_sum v = t_sum (\<lambda>_ r. unpaid_votes r) (voters v)"

definition proceeds_of :: "rex_state \<Rightarrow> int" where
  "proceeds_of r = (case rexpool r of None \<Rightarrow> 0 | Some p \<Rightarrow> amount (namebid_proceeds p))"

definition senders :: "sys_state \<Rightarrow> name set" where
  "senders s = {f. \<exists>e \<in> set (sys_out s). \<exists>t q. effect_transfer e = Some (f, t, q)}"

definition outgo :: "name \<Rightarrow> sys_state \<Rightarrow> int" where
  "outgo a s = moved_out a (sys_out s)"

fun same :: "part \<Rightarrow> sys_env \<Rightarrow> sys_state \<Rightarrow> sys_state \<Rightarrow> bool" where
  "same Graph E s s' \<longleftrightarrow> pv (vs s') = pv (vs s)"
| "same Ram E s s' \<longleftrightarrow> ram_sum s' = ram_sum s \<and>
     total_ram_bytes_reserved (gst (vs s')) = total_ram_bytes_reserved (gst (vs s)) \<and>
     total_ram_stake (gst (vs s')) = total_ram_stake (gst (vs s))"
| "same Stakes E s s' \<longleftrightarrow> delband (bw s') = delband (bw s) \<and> refunds (bw s') = refunds (bw s)"
| "same Bids E s s' \<longleftrightarrow> namebids s' = namebids s \<and> bidrefunds s' = bidrefunds s \<and>
     (proceeds_of (rx s') = proceeds_of (rx s) \<or> proceeds_of (rx s') = 0) \<and>
     proceeds_of (rx s') + outgo (lit E ''eosio.names'') s' \<le> proceeds_of (rx s) + outgo (lit E ''eosio.names'') s"
| "same Blocks E s s' \<longleftrightarrow> blocks_sum (vs s') = blocks_sum (vs s) \<and>
     total_unpaid_blocks (gst (vs s')) = total_unpaid_blocks (gst (vs s))"
| "same Answers E s s' \<longleftrightarrow> oracles s' = oracles s \<and> total_successful_requests s' = total_successful_requests s"
| "same Unpaid E s s' \<longleftrightarrow> unpaid_sum (vs s') = unpaid_sum (vs s) \<and>
     total_unpaid_votes (gst (vs s')) = total_unpaid_votes (gst (vs s))"
| "same Rows E s s' \<longleftrightarrow> (rows_ok (vs s) \<longrightarrow> rows_ok (vs s'))"

definition frame :: "sys_env \<Rightarrow> name set \<Rightarrow> part set \<Rightarrow> sys_state \<Rightarrow> sys_state \<Rightarrow> bool" where
  "frame E X W s s' \<longleftrightarrow> senders s' \<subseteq> senders s \<union> X \<and> (\<forall>a. a \<notin> X \<longrightarrow> outgo a s' = outgo a s) \<and>
     (\<forall>p. p \<notin> W \<longrightarrow> same p E s s')"

lemma frame_same: "frame E X W s s' \<Longrightarrow> p \<notin> W \<Longrightarrow> same p E s s'"
  by (simp add: frame_def)

lemma frame_senders: "frame E X W s s' \<Longrightarrow> senders s' \<subseteq> senders s \<union> X"
  by (simp add: frame_def)

lemma frame_outgo: "frame E X W s s' \<Longrightarrow> a \<notin> X \<Longrightarrow> outgo a s' = outgo a s"
  by (simp add: frame_def)

lemma same_refl: "same p E s s"
  by (cases p) auto

lemma same_trans: "same p E s s' \<Longrightarrow> same p E s' s'' \<Longrightarrow> same p E s s''"
  by (cases p) auto

lemma frame_refl [simp]: "frame E X W s s"
  by (simp add: frame_def same_refl)

lemma frame_trans: "frame E X W s s' \<Longrightarrow> frame E X W s' s'' \<Longrightarrow> frame E X W s s''"
  unfolding frame_def by (intro conjI) (blast, simp, blast intro: same_trans)

lemma frame_mono: "frame E X W s s' \<Longrightarrow> X \<subseteq> X' \<Longrightarrow> W \<subseteq> W' \<Longrightarrow> frame E X' W' s s'"
  unfolding frame_def by blast

section \<open>Sums over rows that keep a field\<close>

lemma map_of_apsnd: "map_of (map (apsnd g) xs) k = map_option g (map_of xs k)"
  by (induction xs) auto

lemma t_sum_view:
  assumes "\<And>k. map_option g (t_get t k) = map_option g (t_get u k)"
  shows "t_sum (\<lambda>k r. f k (g r)) t = t_sum (\<lambda>k r. f k (g r)) u"
proof -
  have "map (apsnd g) (t_list t) = map (apsnd g) (t_list u)"
  proof (rule map_of_eq_imp_eq)
    show "sorted_wrt (<) (map fst (map (apsnd g) (t_list t)))" "sorted_wrt (<) (map fst (map (apsnd g) (t_list u)))"
      using t_list_sorted [of t] t_list_sorted [of u] by simp_all
    show "map_of (map (apsnd g) (t_list t)) = map_of (map (apsnd g) (t_list u))"
      using assms by (simp add: map_of_apsnd t_get.rep_eq fun_eq_iff)
  qed
  moreover have "t_sum (\<lambda>k r. f k (g r)) v = sum_list (map (\<lambda>(k, x). f k x) (map (apsnd g) (t_list v)))" for v
    by (simp add: t_sum_def case_prod_unfold comp_def)
  ultimately show ?thesis by (simp only:)
qed

lemma blocks_sum_keeps: "prods v' = prods v \<Longrightarrow> blocks_sum v' = blocks_sum v"
  using t_sum_view [of "\<lambda>p. p\<lparr>total_votes := 0\<rparr>" "producers v'" "producers v" "\<lambda>_ p. unpaid_blocks p"]
  by (simp add: blocks_sum_def prods_def fun_eq_iff)

text \<open>The sum of the unpaid votes.\<close>

lemma unpaid_sum_cores: "cores v' = cores v \<Longrightarrow> unpaid_sum v' = unpaid_sum v"
  using t_sum_view [of voter_core "voters v'" "voters v" "\<lambda>_ c. fst (snd (snd (snd c)))"]
  by (simp add: unpaid_sum_def cores_def fun_eq_iff) (simp add: voter_core_def)

lemma unpaid_sum_put:
  "unpaid_sum (put_voter k r v) = unpaid_sum v + unpaid_votes r - (case t_get (voters v) k of None \<Rightarrow> 0 | Some q \<Rightarrow> unpaid_votes q)"
  by (cases "t_get (voters v) k") (simp_all add: unpaid_sum_def t_sum_set t_sum_set_new)

lemma unpaid_sum_cong: "voters v' = voters v \<Longrightarrow> unpaid_sum v' = unpaid_sum v"
  by (simp add: unpaid_sum_def)

lemma unpaid_sum_simps [simp]:
  "unpaid_sum (v\<lparr>gst := g\<rparr>) = unpaid_sum v" "unpaid_sum (v\<lparr>gst2 := g2\<rparr>) = unpaid_sum v" "unpaid_sum (v\<lparr>producers := p\<rparr>) = unpaid_sum v"
  "unpaid_sum (v\<lparr>gst2 := g2, gst3 := g3\<rparr>) = unpaid_sum v" "unpaid_sum (v\<lparr>producers2 := p2\<rparr>) = unpaid_sum v"
  "unpaid_sum (v\<lparr>producers3 := p3\<rparr>) = unpaid_sum v"
  by (rule unpaid_sum_cong, simp)+

lemma update_votes_unpaid:
  assumes "update_votes ct k prx ps voting v = Inr v'"
  shows "unpaid_sum v' = unpaid_sum v"
proof -
  obtain r where r: "t_get (voters v) k = Some r" and c: "cores v' = (cores v)(k := Some (voter_core (r\<lparr>vote_list := ps, proxy := prx\<rparr>)))"
    by (rule update_votes_frame [OF assms])
  have "unpaid_sum v' = unpaid_sum (put_voter k (r\<lparr>vote_list := ps, proxy := prx\<rparr>) v)"
    by (rule unpaid_sum_cores) (simp add: c cores_put_voter)
  then show ?thesis using r by (simp add: unpaid_sum_put)
qed

section \<open>State changes\<close>

lemma senders_simps [simp]:
  "senders (s\<lparr>vs := v\<rparr>) = senders s" "senders (s\<lparr>rx := r\<rparr>) = senders s" "senders (s\<lparr>bw := b\<rparr>) = senders s"
  "senders (s\<lparr>rammarket := m\<rparr>) = senders s" "senders (s\<lparr>namebids := n\<rparr>) = senders s"
  "senders (s\<lparr>bidrefunds := br\<rparr>) = senders s" "senders (s\<lparr>oracles := os\<rparr>) = senders s"
  "senders (s\<lparr>requests := rq\<rparr>) = senders s" "senders (s\<lparr>total_successful_requests := u\<rparr>) = senders s"
  "senders (s\<lparr>abihash := h\<rparr>) = senders s" "senders (s\<lparr>host_params := hp\<rparr>) = senders s"
  "senders (s\<lparr>privileged := pr\<rparr>) = senders s"
  by (simp_all add: senders_def)

lemma outgo_simps [simp]:
  "outgo a (s\<lparr>vs := v\<rparr>) = outgo a s" "outgo a (s\<lparr>rx := r\<rparr>) = outgo a s" "outgo a (s\<lparr>bw := b\<rparr>) = outgo a s"
  "outgo a (s\<lparr>rammarket := m\<rparr>) = outgo a s" "outgo a (s\<lparr>namebids := n\<rparr>) = outgo a s"
  "outgo a (s\<lparr>bidrefunds := br\<rparr>) = outgo a s" "outgo a (s\<lparr>oracles := os\<rparr>) = outgo a s"
  "outgo a (s\<lparr>requests := rq\<rparr>) = outgo a s" "outgo a (s\<lparr>total_successful_requests := u\<rparr>) = outgo a s"
  "outgo a (s\<lparr>abihash := h\<rparr>) = outgo a s" "outgo a (s\<lparr>host_params := hp\<rparr>) = outgo a s"
  "outgo a (s\<lparr>privileged := pr\<rparr>) = outgo a s"
  by (simp_all add: outgo_def)

lemma send_transfer_senders [simp]:
  "senders (send_transfer E as f t q m s) = insert f (senders s)"
  "outgo a (send_transfer E as f t q m s) = outgo a s + (if f = a then amount q else 0)"
  by (auto simp: senders_def outgo_def send_transfer_def emit_def moved_one)

lemma emit_senders:
  "effect_transfer e = None \<Longrightarrow> senders (emit e s) = senders s"
  "effect_transfer e = None \<Longrightarrow> outgo a (emit e s) = outgo a s"
  by (auto simp: senders_def outgo_def emit_def moved_one)

lemma ram_sum_simps [simp]:
  "ram_sum (s\<lparr>vs := v\<rparr>) = ram_sum s" "ram_sum (s\<lparr>rx := r\<rparr>) = ram_sum s" "ram_sum (emit e s) = ram_sum s"
  "ram_sum (send_transfer E as f t q m s) = ram_sum s" "ram_sum (s\<lparr>rammarket := mk\<rparr>) = ram_sum s"
  "ram_sum (s\<lparr>namebids := n\<rparr>) = ram_sum s" "ram_sum (s\<lparr>bidrefunds := br\<rparr>) = ram_sum s"
  "ram_sum (s\<lparr>oracles := os\<rparr>) = ram_sum s" "ram_sum (s\<lparr>requests := rq\<rparr>) = ram_sum s"
  "ram_sum (s\<lparr>total_successful_requests := u\<rparr>) = ram_sum s"
  "ram_sum (s\<lparr>abihash := h\<rparr>) = ram_sum s" "ram_sum (s\<lparr>host_params := hp\<rparr>) = ram_sum s"
  "ram_sum (s\<lparr>privileged := pr\<rparr>) = ram_sum s"
  by (simp_all add: ram_sum_def)

lemma successes_simps [simp]:
  "total_successful_requests (emit e s) = total_successful_requests s"
  "total_successful_requests (send_transfer E as f t q m s) = total_successful_requests s"
  by (simp_all add: send_transfer_def emit_def)

text \<open>How a frame is extended by one change of the state.\<close>

named_theorems frame_intros \<open>extensions of a frame\<close>

lemma frame_step: "frame E X W s0 s \<Longrightarrow> senders s' \<subseteq> senders s \<union> X \<Longrightarrow>
    (\<And>a. a \<notin> X \<Longrightarrow> outgo a s' = outgo a s) \<Longrightarrow> (\<And>p. p \<notin> W \<Longrightarrow> same p E s s') \<Longrightarrow> frame E X W s0 s'"
  by (rule frame_trans) (auto simp: frame_def)

lemma frame_vs_parts:
  assumes "frame E X W s0 s" "Graph \<in> W \<or> pv v = pv (vs s)"
    "Ram \<in> W \<or> total_ram_bytes_reserved (gst v) = total_ram_bytes_reserved (gst (vs s)) \<and>
       total_ram_stake (gst v) = total_ram_stake (gst (vs s))"
    "Blocks \<in> W \<or> blocks_sum v = blocks_sum (vs s) \<and> total_unpaid_blocks (gst v) = total_unpaid_blocks (gst (vs s))"
    "Unpaid \<in> W \<or> unpaid_sum v = unpaid_sum (vs s) \<and> total_unpaid_votes (gst v) = total_unpaid_votes (gst (vs s))"
    "rows_ok (vs s) \<longrightarrow> rows_ok v"
  shows "frame E X W s0 (s\<lparr>vs := v\<rparr>)"
  using assms(1)
proof (rule frame_step)
  show "same p E s (s\<lparr>vs := v\<rparr>)" if "p \<notin> W" for p using that assms(2-) by (cases p) auto
qed simp_all

lemma frame_vs [frame_intros]:
  assumes "frame E X W s0 s" "vote_keeps (vs s) v" "Graph \<in> W \<or> pv v = pv (vs s)" "Unpaid \<in> W \<or> unpaid_sum v = unpaid_sum (vs s)"
  shows "frame E X W s0 (s\<lparr>vs := v\<rparr>)"
  using assms by (intro frame_vs_parts) (auto simp: vote_keeps_def dest: blocks_sum_keeps gst_coreD)

lemma frame_rx [frame_intros]:
  assumes "frame E X W s0 s" "proceeds_of r = proceeds_of (rx s)"
  shows "frame E X W s0 (s\<lparr>rx := r\<rparr>)"
  using assms(1)
proof (rule frame_step)
  show "same p E s (s\<lparr>rx := r\<rparr>)" for p using assms(2) by (cases p) auto
qed simp_all

lemma frame_bw [frame_intros]:
  assumes "frame E X W s0 s" "Stakes \<in> W \<or> delband b = delband (bw s) \<and> refunds b = refunds (bw s)"
    "Ram \<in> W \<or> t_sum (\<lambda>_ r. ram_bytes r) (userres b) = ram_sum s"
  shows "frame E X W s0 (s\<lparr>bw := b\<rparr>)"
  using assms(1)
proof (rule frame_step)
  show "same p E s (s\<lparr>bw := b\<rparr>)" if "p \<notin> W" for p using that assms(2,3) by (cases p) (auto simp: ram_sum_def)
qed simp_all

lemma frame_other [frame_intros]:
  assumes "frame E X W s0 s"
  shows "frame E X W s0 (s\<lparr>rammarket := m\<rparr>)" "frame E X W s0 (s\<lparr>requests := rq\<rparr>)"
    "frame E X W s0 (s\<lparr>abihash := h\<rparr>)" "frame E X W s0 (s\<lparr>host_params := hp\<rparr>)" "frame E X W s0 (s\<lparr>privileged := pr\<rparr>)"
  by (rule frame_step [OF assms]; (simp; fail | (case_tac p; auto)))+

lemma frame_send [frame_intros]:
  assumes "frame E X W s0 s" "f \<in> X" "Bids \<in> W \<or> f \<noteq> lit E ''eosio.names''"
  shows "frame E X W s0 (send_transfer E' as f t q m s)"
  using assms(1)
proof (rule frame_step)
  show "same p E s (send_transfer E' as f t q m s)" if "p \<notin> W" for p using that assms(3) by (cases p) auto
qed (use assms(2) in auto)

lemma frame_emit [frame_intros]:
  assumes "frame E X W s0 s" "effect_transfer e = None"
  shows "frame E X W s0 (emit e s)"
  using assms(1)
proof (rule frame_step)
  show "same p E s (emit e s)" for p by (cases p) (auto simp: emit_senders [OF assms(2)])
qed (simp_all add: emit_senders [OF assms(2)])

lemma frame_bids [frame_intros]:
  assumes "frame E X W s0 s" "Bids \<in> W"
  shows "frame E X W s0 (s\<lparr>namebids := n\<rparr>)" "frame E X W s0 (s\<lparr>bidrefunds := br\<rparr>)"
  by (rule frame_step [OF assms(1)]; (simp; fail | (case_tac p; use assms(2) in auto)))+

lemma frame_answers [frame_intros]:
  assumes "frame E X W s0 s" "Answers \<in> W"
  shows "frame E X W s0 (s\<lparr>oracles := os\<rparr>)" "frame E X W s0 (s\<lparr>total_successful_requests := u\<rparr>)"
  by (rule frame_step [OF assms(1)]; (simp; fail | (case_tac p; use assms(2) in auto)))+

end
