(* ===== verification/RexFrames.thy ===== *)
theory RexFrames
  imports WriteSets
begin

text \<open>
  The write sets of the REX actions and of voting: they send tokens of the signer, of \<open>eosio.rex\<close> and,
  for the proceeds of auctions, of \<open>eosio.names\<close>; only \<open>unstaketorex\<close> touches stakes.
\<close>

section \<open>Functions on the REX part\<close>

named_theorems proceeds_calls \<open>functions that keep the proceeds of auctions\<close>

lemma proceeds_simps [simp]:
  "proceeds_of (r\<lparr>rexfunds := a\<rparr>) = proceeds_of r" "proceeds_of (r\<lparr>rexbalance := b\<rparr>) = proceeds_of r"
  "proceeds_of (r\<lparr>rexorders := c\<rparr>) = proceeds_of r" "proceeds_of (put_bal k bl r) = proceeds_of r"
  "proceeds_of (set_loans kd t r) = proceeds_of r"
  "proceeds_of (put_pool p r) = amount (namebid_proceeds p)" "proceeds_of (r\<lparr>rexpool := Some p\<rparr>) = amount (namebid_proceeds p)"
  by (cases kd; simp add: proceeds_of_def put_bal_def put_pool_def)+

lemma proceeds_pool: "rexpool r = Some p \<Longrightarrow> proceeds_of r = amount (namebid_proceeds p)" "rexpool r = None \<Longrightarrow> proceeds_of r = 0"
  by (simp_all add: proceeds_of_def)

lemma proceeds_from_fund [proceeds_calls]: "transfer_from_fund E cs k q r = Inr r' \<Longrightarrow> proceeds_of r' = proceeds_of r"
  by (auto simp: transfer_from_fund_def res_simps)

lemma proceeds_to_fund [proceeds_calls]: "transfer_to_fund cs k q r = Inr r' \<Longrightarrow> proceeds_of r' = proceeds_of r"
  by (auto simp: transfer_to_fund_def res_simps split: option.splits)

lemma proceeds_add_loan [proceeds_calls]: "add_loan_to_rex_pool p n b r = Inr r' \<Longrightarrow> proceeds_of r' = proceeds_of r"
  by (auto simp: add_loan_to_rex_pool_def res_simps pool_add_loan_def Let_def proceeds_pool)

lemma proceeds_remove_loan [proceeds_calls]: "remove_loan_from_rex_pool l r = Inr r' \<Longrightarrow> proceeds_of r' = proceeds_of r"
  by (auto simp: remove_loan_from_rex_pool_def res_simps pool_remove_loan_def Let_def proceeds_pool)

lemma proceeds_add_pool [proceeds_calls]: "add_to_rex_pool E cs q r = Inr (x, r') \<Longrightarrow> proceeds_of r' = proceeds_of r"
  by (auto simp: add_to_rex_pool_def res_simps pool_new_def pool_restart_def pool_buy_def Let_def proceeds_pool
      split: option.splits if_splits)

lemma proceeds_add_balance [proceeds_calls]: "add_to_rex_balance E cs k q x r = Inr (d, r') \<Longrightarrow> proceeds_of r' = proceeds_of r"
  by (auto simp: add_to_rex_balance_def res_simps Let_def case_prod_beta)

lemma proceeds_buy [proceeds_calls]: "buy_into_pool E cs k q r = Inr (x, r') \<Longrightarrow> proceeds_of r' = proceeds_of r"
  by (auto simp: buy_into_pool_def res_simps dest!: proceeds_calls)

lemma proceeds_fill [proceeds_calls]: "fill_rex_order E cs k q r = Inr (x, r') \<Longrightarrow> proceeds_of r' = proceeds_of r"
  by (auto simp: fill_rex_order_def res_simps Let_def pool_sell_def proceeds_pool split: if_splits)

lemma proceeds_fund_loan [proceeds_calls]: "fund_rex_loan E cs kd k n q r = Inr r' \<Longrightarrow> proceeds_of r' = proceeds_of r"
  by (auto simp: fund_rex_loan_def res_simps dest!: proceeds_from_fund)

lemma proceeds_defund_loan [proceeds_calls]: "defund_rex_loan E cs kd k n q r = Inr r' \<Longrightarrow> proceeds_of r' = proceeds_of r"
  by (auto simp: defund_rex_loan_def res_simps dest!: proceeds_to_fund)

lemma proceeds_expired [proceeds_calls]: "process_expired_loan E cs kd l r = Inr (x, r') \<Longrightarrow> proceeds_of r' = proceeds_of r"
  by (auto simp: process_expired_loan_def res_simps Let_def case_prod_beta dest!: proceeds_calls split: if_splits)

section \<open>Helpers\<close>

named_theorems frame_calls \<open>functions that extend a frame\<close>

lemma frame_put_rx [frame_intros]: "frame E X W s0 s \<Longrightarrow> proceeds_of r = proceeds_of (rx s) \<Longrightarrow> frame E X W s0 (put_rx r s)"
  by (simp add: put_rx_def frame_intros)

lemma frame_on_rx [frame_calls]:
  "on_rx f s = Inr s' \<Longrightarrow> frame E X W s0 s \<Longrightarrow> (\<And>r. f (rx s) = Inr r \<Longrightarrow> proceeds_of r = proceeds_of (rx s)) \<Longrightarrow> frame E X W s0 s'"
  by (auto simp: on_rx_Inr_iff intro: frame_intros)

lemma frame_result [frame_intros]: "not_transfer c \<Longrightarrow> frame E X W s0 s \<Longrightarrow> frame E X W s0 (send_result E c s)"
  unfolding send_result_def by (rule frame_emit) (cases c; simp add: effect_transfer_def)+

lemma power_keeps:
  assumes "update_voting_power E voter q s = Inr s'"
  shows "vote_keeps s s'"
proof -
  define v where "v = (case t_get (voters s) voter of
       None \<Rightarrow> new_voter\<lparr>staked := amount q\<rparr> | Some v \<Rightarrow> v\<lparr>staked := wrap64 (staked v + amount q)\<rparr>)"
  have "s' = put_voter voter v s \<or> update_votes (current_time E) voter (proxy v) (vote_list v) False (put_voter voter v s) = Inr s'"
    using assms by (auto simp: update_voting_power_def v_def [symmetric] Let_def check_Inr_iff rbind_Inr_iff split: if_splits)
  then show ?thesis by (auto simp: vote_keeps_put_voter elim!: update_votes_frame)
qed

lemma power_unpaid:
  assumes "update_voting_power E voter q s = Inr s'"
  shows "unpaid_sum s' = unpaid_sum s"
proof -
  define v where "v = (case t_get (voters s) voter of
       None \<Rightarrow> new_voter\<lparr>staked := amount q\<rparr> | Some v \<Rightarrow> v\<lparr>staked := wrap64 (staked v + amount q)\<rparr>)"
  have "s' = put_voter voter v s \<or> update_votes (current_time E) voter (proxy v) (vote_list v) False (put_voter voter v s) = Inr s'"
    using assms by (auto simp: update_voting_power_def v_def [symmetric] Let_def check_Inr_iff rbind_Inr_iff split: if_splits)
  then have "unpaid_sum s' = unpaid_sum (put_voter voter v s)" by (auto dest: update_votes_unpaid)
  then show ?thesis by (auto simp: unpaid_sum_put v_def new_voter_def split: option.splits)
qed

lemma frame_power [frame_calls]:
  "on_vs (update_voting_power E k q) s = Inr s' \<Longrightarrow> frame E' X W s0 s \<Longrightarrow> frame E' X W s0 s'"
  by (auto simp: on_vs_Inr_iff intro!: frame_vs dest: power_keeps power_pv power_unpaid)

lemma frame_rex_stake [frame_calls]:
  "update_rex_stake k s = Inr s' \<Longrightarrow> frame E X W s0 s \<Longrightarrow> frame E X W s0 s'"
  by (auto simp: update_rex_stake_def res_simps Let_def vote_keeps_put_voter pv_put_same pv_Some unpaid_sum_put intro!: frame_intros
      split: option.splits if_splits)

lemma frame_channel [frame_intros]:
  assumes "frame E X W s0 s" "a \<in> X" "Bids \<in> W \<or> a \<noteq> lit E ''eosio.names''"
  shows "frame E X W s0 (channel_to_rex E a q s)"
proof (cases "rex_available (rx s)")
  case True
  then have "proceeds_of ((rx s)\<lparr>rexpool := map_option (pool_channel q) (rexpool (rx s))\<rparr>) = proceeds_of (rx s)"
    by (auto simp: rex_available_iff proceeds_of_def pool_channel_def)
  then show ?thesis using True assms by (auto simp: channel_to_rex_def intro!: frame_intros)
qed (use assms in \<open>simp add: channel_to_rex_def\<close>)

text \<open>The proceeds of auctions leave \<open>eosio.names\<close> as they leave the books, or stay there.\<close>

lemma frame_namebids [frame_calls]:
  assumes "run_namebids E s = Inr s'" "frame E X W s0 s" "lit E ''eosio.names'' \<in> X"
  shows "frame E X W s0 s'"
proof -
  obtain p where p: "rexpool (rx s) = Some p" using assms(1) by (auto simp: run_namebids_def res_simps)
  show ?thesis
  proof (cases "amount (namebid_proceeds p) > 0")
    case True
    let ?s1 = "channel_to_rex E (lit E ''eosio.names'') (namebid_proceeds p) s"
    obtain p1 where p1: "rexpool (rx ?s1) = Some p1"
      and s': "s' = put_rx (put_pool (p1\<lparr>namebid_proceeds := set_amt 0 (namebid_proceeds p1)\<rparr>) (rx ?s1)) ?s1"
      using assms(1) True p by (auto simp: run_namebids_def res_simps Let_def)
    have o: "outgo (lit E ''eosio.names'') ?s1 \<le> outgo (lit E ''eosio.names'') s + amount (namebid_proceeds p)"
      using True by (simp add: channel_to_rex_def)
    have 1: "frame E X (insert Bids W) s ?s1" by (rule frame_channel) (use assms in auto)
    show ?thesis
    proof (rule frame_step [OF assms(2)])
      show "senders s' \<subseteq> senders s \<union> X" using frame_senders [OF 1] by (simp add: s' put_rx_def)
      show "outgo a s' = outgo a s" if "a \<notin> X" for a using frame_outgo [OF 1 that] by (simp add: s' put_rx_def)
      have nb: "namebids s' = namebids s" "bidrefunds s' = bidrefunds s"
        by (simp_all add: s' put_rx_def channel_to_rex_def)
      show "same q E s s'" if "q \<notin> W" for q
      proof (cases q)
        case Bids
        then show ?thesis using o p nb by (simp add: s' put_rx_def proceeds_pool)
      qed (use frame_same [OF 1, of q] that in \<open>auto simp: s' put_rx_def\<close>)
    qed
  qed (use assms p in \<open>simp add: run_namebids_def res_simps pool_row_def\<close>)
qed

lemma ram_sum_put: "ram_sum (put_userres k r s) = ram_sum s + ram_bytes r - (case t_get (userres (bw s)) k of None \<Rightarrow> 0 | Some q \<Rightarrow> ram_bytes q)"
  by (simp add: ram_sum_def put_userres_def t_sum_set)

lemma ram_sum_drop: "t_get (userres (bw s)) k = Some r \<Longrightarrow> ram_sum (drop_if_empty k r s) = ram_sum s"
  by (simp add: ram_sum_def drop_if_empty_def t_sum_del res_is_empty_def)

lemma ram_sum_limits [simp]: "ram_sum (set_resource_limits k a b c s) = ram_sum s"
  by (simp add: ram_sum_def set_resource_limits_def)

lemma bw_userres [simp]: "userres (bw (set_resource_limits k a b c s)) = userres (bw s)"
  "userres (bw (put_userres k r s)) = t_set k r (userres (bw s))"
  by (simp_all add: set_resource_limits_def put_userres_def)

lemma frame_bw_helpers [frame_intros]:
  "frame E X W s0 s \<Longrightarrow> frame E X W s0 (set_resource_limits k a b c s)"
  "frame E X W s0 s \<Longrightarrow> Ram \<in> W \<or> ram_sum (put_userres k r s) = ram_sum s \<Longrightarrow> frame E X W s0 (put_userres k r s)"
  "frame E X W s0 s \<Longrightarrow> Ram \<in> W \<or> t_get (userres (bw s)) k = Some r \<Longrightarrow> frame E X W s0 (drop_if_empty k r s)"
  by (auto simp: set_resource_limits_def put_userres_def drop_if_empty_def ram_sum_def t_sum_del res_is_empty_def
      intro!: frame_bw)

text \<open>The new limits of a receiver keep the RAM bytes of its row.\<close>

lemma limits_shape:
  assumes "update_resource_limits E k dn dc s = Inr s'"
  obtains (idle) "s' = s" | (row) t s1 where
    "(case t_get (userres (bw s)) k of
      None \<Rightarrow> check (0 \<le> dn \<and> 0 \<le> dc) ''logic error, should not occur'' (
        rbind (sys_core s) (\<lambda>cs. rbind (asset_new E dn cs) (\<lambda>n. rbind (asset_new E dc cs) (\<lambda>c.
        Inr \<lparr>net_weight = n, cpu_weight = c, ram_bytes = 0\<rparr>))))
    | Some t \<Rightarrow> Inr (t\<lparr>net_weight := add_amt dn (net_weight t), cpu_weight := add_amt dc (cpu_weight t)\<rparr>)) = Inr t"
    "s1 = put_userres k t s \<or> (\<exists>x y z. s1 = set_resource_limits k x y z (put_userres k t s))" "s' = drop_if_empty k t s1"
proof (cases "dc = 0 \<and> dn = 0")
  case False
  then show thesis
    using assms unfolding update_resource_limits_def Let_def
    by (simp only: if_False res_simps sum.inject) (elim exE conjE, rule row [rotated 2], erule sym, assumption, auto split: prod.split)
qed (use assms idle in \<open>simp add: update_resource_limits_def\<close>)

lemma frame_limits [frame_calls]:
  assumes "update_resource_limits E k dn dc s = Inr s'" "frame E' X W s0 s"
  shows "frame E' X W s0 s'"
  using assms(1)
proof (cases rule: limits_shape)
  case (row t s1)
  have t: "(case t_get (userres (bw s)) k of None \<Rightarrow> 0 | Some q \<Rightarrow> ram_bytes q) = ram_bytes t"
    using row(1) by (auto simp: res_simps split: option.splits)
  have "frame E' X W s0 (put_userres k t s)" using assms(2) t by (auto intro!: frame_intros simp: ram_sum_put)
  then show ?thesis using row(2,3) by (auto intro!: frame_intros)
qed (use assms in simp)

section \<open>Accounts of the funds\<close>

text \<open>
  The accounts that hold tokens for the system contract. In \<open>apart E\<close> their names are different, as
  the literals in the code are, and none of them signs the action.
\<close>

definition fund_names :: "string list" where
  "fund_names = [''eosio.stake'', ''eosio.ram'', ''eosio.ramfee'', ''eosio.names'', ''eosio.rex'', ''eosio.net'',
     ''eosio.infra'', ''eosio.comm'', ''eosio.bpay'', ''eosio.wpay'', ''eosio.vpay'', ''eosio.dpay'', ''eosio.oracle'']"

definition apart :: "sys_env \<Rightarrow> bool" where
  "apart E \<longleftrightarrow> distinct (self_acct E # map (lit E) fund_names) \<and> (\<forall>f \<in> set fund_names. \<not> has_auth E (lit E f))"

lemma apart_not_self: "apart E \<Longrightarrow> f \<in> set fund_names \<Longrightarrow> lit E f \<noteq> self_acct E"
  unfolding apart_def by (metis distinct.simps(2) image_eqI set_map)

lemma apart_distinct: "apart E \<Longrightarrow> f \<in> set fund_names \<Longrightarrow> g \<in> set fund_names \<Longrightarrow> lit E f = lit E g \<longleftrightarrow> f = g"
  by (auto simp: apart_def distinct_map dest: inj_onD)

lemma apart_signer: "apart E \<Longrightarrow> has_auth E n \<Longrightarrow> f \<in> set fund_names \<Longrightarrow> n \<noteq> lit E f"
  by (auto simp: apart_def)

definition signers :: "sys_env \<Rightarrow> name set" where
  "signers E = {n. has_auth E n}"

text \<open>
  Who may send: the signers and \<open>eosio.names\<close>, as long as names are only sent by the latter; a withdrawal
  also sends from \<open>eosio.rex\<close>.
\<close>

definition rex_may :: "sys_env \<Rightarrow> name set \<Rightarrow> part set \<Rightarrow> bool" where
  "rex_may E X W \<longleftrightarrow> signers E \<union> {lit E ''eosio.names''} \<subseteq> X \<and> (Bids \<in> W \<or> apart E)"

lemma rex_mayD:
  assumes "rex_may E X W"
  shows "lit E ''eosio.names'' \<in> X" "has_auth E n \<Longrightarrow> n \<in> X"
    "has_auth E n \<Longrightarrow> Bids \<in> W \<or> n \<noteq> lit E ''eosio.names''"
    "Bids \<in> W \<or> lit E ''eosio.rex'' \<noteq> lit E ''eosio.names''"
    "Bids \<in> W \<or> lit E ''eosio.stake'' \<noteq> lit E ''eosio.names''"
  using assms by (auto simp: rex_may_def signers_def fund_names_def dest: apart_signer apart_distinct)

section \<open>Maintenance\<close>

lemma frame_loans [frame_calls]:
  "run_loans E cs kd n s = Inr s' \<Longrightarrow> frame E' X W s0 s \<Longrightarrow> frame E' X W s0 s'"
proof (induction n arbitrary: s)
  case (Suc n)
  show ?case
  proof (cases "loans_by_expr kd (rx s)")
    case (Cons l ls)
    show ?thesis
    proof (cases "expiration l > current_time E")
      case False
      then obtain del d r1 s1 where pe: "process_expired_loan E cs kd l (rx s) = Inr ((del, d), r1)"
        and s1: "if d \<noteq> 0 then update_resource_limits E (loan_receiver l) (fst (limit_delta kd d)) (snd (limit_delta kd d)) (put_rx r1 s) = Inr s1
          else s1 = put_rx r1 s"
        and rest: "run_loans E cs kd n (if del then put_rx (set_loans kd (t_del (loan_num l) (loans kd (rx s1))) (rx s1)) s1 else s1) = Inr s'"
        using Suc.prems Cons by (auto simp: res_simps case_prod_beta split: if_splits)
      have "frame E' X W s0 (put_rx r1 s)" using Suc.prems(2) proceeds_expired [OF pe] by (intro frame_intros)
      then have "frame E' X W s0 s1" using s1 by (auto dest: frame_limits split: if_splits)
      then have "frame E' X W s0 (if del then put_rx (set_loans kd (t_del (loan_num l) (loans kd (rx s1))) (rx s1)) s1 else s1)"
        by (simp add: frame_intros)
      then show ?thesis by (rule Suc.IH [OF rest])
    qed (use Suc.prems Cons in simp)
  qed (use Suc.prems in simp)
qed simp

lemma frame_order [frame_calls]:
  "run_order E cs ord s = Inr s' \<Longrightarrow> frame E X W s0 s \<Longrightarrow> frame E X W s0 s'"
  by (auto simp: run_order_def res_simps case_prod_beta dest!: proceeds_fill intro!: frame_intros split: if_splits)

lemma frame_runrex [frame_calls]:
  assumes "runrex E n s = Inr s'" "frame E X W s0 s" "lit E ''eosio.names'' \<in> X"
  shows "frame E X W s0 s'"
proof -
  obtain cs s1 s2 s3 where 1: "run_namebids E s = Inr s1" "run_loans E cs CPU n s1 = Inr s2" "run_loans E cs NET n s2 = Inr s3"
    and f: "rfold (run_order E cs) (takeWhile is_open (take n (orders_by_time (rx s3)))) s3 = Inr s'"
    using assms(1) by (auto simp: runrex_def res_simps)
  have "frame E X W s0 s3" by (rule frame_loans [OF 1(3) frame_loans [OF 1(2) frame_namebids [OF 1(1) assms(2,3)]]])
  then show ?thesis by (rule rfold_inv [OF f]) (blast intro: frame_order)
qed

lemma frame_rex_account [frame_calls]:
  assumes "update_rex_account E cs k q d b s = Inr (x, s')" "frame E' X W s0 s"
  shows "frame E' X W s0 s'"
proof -
  obtain to_fund to_stake r r1 where
    c: "(case t_get (rexorders (rx s)) k of
           None \<Rightarrow> (q, d, mk_asset 0 rex_symbol, rx s)
         | Some ord \<Rightarrow> if is_open ord then (q, d, mk_asset (amount (rex_requested ord)) rex_symbol, rx s)
             else (add_amt (amount (proceeds ord)) q, add_amt (amount (stake_change ord)) d,
                   mk_asset 0 rex_symbol, (rx s)\<lparr>rexorders := t_del k (rexorders (rx s))\<rparr>)) = (to_fund, to_stake, x, r)"
    and f: "(if amount to_fund > 0 then transfer_to_fund cs k to_fund r else Inr r) = Inr r1"
    and p: "(if b \<or> amount to_stake \<noteq> 0 then on_vs (update_voting_power E k to_stake) (put_rx r1 s) else Inr (put_rx r1 s)) = Inr s'"
    using assms(1) by (auto simp: update_rex_account_def Let_def rbind_Inr_iff split: prod.splits)
  have "proceeds_of r = proceeds_of (rx s)" using c by (auto split: option.splits if_splits)
  then have "proceeds_of r1 = proceeds_of (rx s)" using f by (auto dest: proceeds_to_fund split: if_splits)
  then have "frame E' X W s0 (put_rx r1 s)" using assms(2) by (intro frame_intros)
  then show ?thesis using p by (auto dest: frame_power split: if_splits)
qed


section \<open>Actions\<close>

text \<open>The actions whose frame follows from the rules alone.\<close>

lemma frame_rex_actions:
  assumes "rex_may E X W" "frame E X W s0 s"
  shows "ensures (deposit E k q s) (frame E X W s0)" "ensures (buyrex E k q s) (frame E X W s0)"
    "ensures (cnclrexorder E k s) (frame E X W s0)" "ensures (updaterex E k s) (frame E X W s0)"
    "ensures (rexexec E k n s) (frame E X W s0)" "ensures (consolidate E k s) (frame E X W s0)"
    "ensures (mvtosavings E k q s) (frame E X W s0)" "ensures (mvfrsavings E k q s) (frame E X W s0)"
    "ensures (fundloan E kd k m q s) (frame E X W s0)" "ensures (defloan E kd k m q s) (frame E X W s0)"
    "ensures (rent_rex E kd k t p f s) (\<lambda>x. frame E X W s0 (snd x))"
  unfolding deposit_def buyrex_def cnclrexorder_def updaterex_def rexexec_def consolidate_def
    mvtosavings_def mvfrsavings_def fundloan_def defloan_def rent_rex_def
  by (((rule ensures_intros | clarsimp)+, (rule ensuresI)?, (rule assms(2) frame_intros conjI impI | erule frame_calls |
        (use rex_mayD [OF assms(1)] in \<open>auto dest!: proceeds_calls\<close>))+)[1])+

lemmas frame_rent = frame_rex_actions(11)

lemma frame_withdraw:
  assumes "rex_may E X W" "frame E X W s0 s" "lit E ''eosio.rex'' \<in> X"
  shows "ensures (withdraw E k q s) (frame E X W s0)"
  unfolding withdraw_def
  apply (rule ensures_intros | clarsimp)+
  by (rule assms(2) frame_intros conjI impI | erule frame_calls |
      (use assms(3) rex_mayD [OF assms(1)] in \<open>auto dest!: proceeds_calls\<close>))+

lemma frame_sellrex:
  assumes "rex_may E X W" "frame E X W s0 s"
  shows "ensures (sellrex E k q s) (frame E X W s0)"
proof (rule ensuresI)
  fix s' assume a: "sellrex E k q s = Inr s'"
  obtain s1 b cs cur r3 pending s4 n s5 where 1: "runrex E 2 s = Inr s1"
    and 2: "fill_rex_order E cs k q (put_bal k (process_rex_maturities E b) (rx s1)) = Inr (cur, r3)"
    and 3: "update_rex_account E cs k (out_proceeds cur) (out_stake_change cur) False (put_rx r3 s1) = Inr (pending, s4)"
    and s5: "(if success cur then Inr (amount pending, s4)
       else check (k \<noteq> lit E ''b1'') ''b1 sellrex orders should not be queued'' (
         let ord = (case t_get (rexorders (rx s4)) k of
               None \<Rightarrow> \<lparr>order_owner = k, rex_requested = q, proceeds = mk_asset 0 cs, stake_change = mk_asset 0 cs,
                        order_time = current_time E, is_open = True\<rparr>
             | Some ord \<Rightarrow> ord\<lparr>rex_requested := add_amt (amount q) (rex_requested ord)\<rparr>)
         in Inr (amount (rex_requested ord), put_rx ((rx s4)\<lparr>rexorders := t_set k ord (rexorders (rx s4))\<rparr>) s4))) = Inr (n, s5)"
    and s': "s' = (if success cur then send_result E (RexSellResult (out_proceeds cur)) s5 else s5)"
    using a unfolding sellrex_def rbind_Inr_iff check_Inr_iff require_auth_Inr_iff Let_def [of "process_rex_maturities E _"]
      Let_def [of "put_bal _ _ _"] case_prod_beta
    by (elim exE conjE) (auto split: if_splits)
  have 4: "s5 = s4 \<or> (\<exists>ord. s5 = put_rx ((rx s4)\<lparr>rexorders := t_set k ord (rexorders (rx s4))\<rparr>) s4)"
    using s5 by (auto simp: res_simps Let_def split: if_splits)
  have "frame E X W s0 (put_rx r3 s1)"
    using frame_runrex [OF 1 assms(2) rex_mayD(1) [OF assms(1)]] proceeds_fill [OF 2] by (intro frame_intros) (simp_all only: proceeds_simps)
  then have "frame E X W s0 s4" by (rule frame_rex_account [OF 3])
  then show "frame E X W s0 s'" using 4 by (auto simp: s' intro!: frame_intros)
qed

lemma frame_setrex:
  assumes "rex_may E X W" "frame E X W s0 s"
  shows "ensures (setrex E q s) (frame E X W s0)"
  unfolding setrex_def
  by (intro ensures_intros frame_put_rx assms(2)) (simp add: res_simps proceeds_pool)

lemma frame_closerex:
  assumes "rex_may E X W" "frame E X W s0 s"
  shows "ensures (closerex E k s) (frame E X W s0)"
proof (rule ensuresI)
  fix s' assume a: "closerex E k s = Inr s'"
  obtain s1 cs x s2 r where 1: "(if rex_system_initialized (rx s) then runrex E 2 s else Inr s) = Inr s1"
    and 2: "update_rex_account E cs k (mk_asset 0 cs) (mk_asset 0 cs) False s1 = Inr (x, s2)"
    and r: "r = rx s2 \<or> r = (rx s2)\<lparr>rexfunds := t_del k (rexfunds (rx s2))\<rparr>"
    and s': "s' = put_rx r s2 \<or> s' = put_rx (r\<lparr>rexbalance := t_del k (rexbalance r)\<rparr>) s2"
    using a unfolding closerex_def Let_def rbind_Inr_iff require_auth_Inr_iff case_prod_beta
    by (elim conjE exE) (fastforce split: option.splits if_splits simp: check_Inr_iff)
  have "frame E X W s0 s1"
    using 1 frame_runrex [OF _ assms(2) rex_mayD(1) [OF assms(1)]] assms(2) by (auto split: if_splits)
  then have "frame E X W s0 s2" by (rule frame_rex_account [OF 2])
  then show "frame E X W s0 s'" using r s' by (auto intro!: frame_intros)
qed

lemma frame_rentcpu:
  assumes "rex_may E X W" "frame E X W s0 s"
  shows "ensures (rentcpu E k t p f s) (frame E X W s0)"
  unfolding rentcpu_def
  by (intro ensures_auth ensures_call [OF frame_rent [OF assms]] ensuresI) (auto dest: frame_limits split: prod.splits)

lemma frame_rentnet:
  assumes "rex_may E X W" "frame E X W s0 s"
  shows "ensures (rentnet E k t p f s) (frame E X W s0)"
  unfolding rentnet_def
  by (intro ensures_auth ensures_call [OF frame_rent [OF assms]] ensuresI) (auto dest: frame_limits split: prod.splits)


text \<open>\<open>unstaketorex\<close> also writes stakes and sends from \<open>eosio.stake\<close>; \<open>voteproducer\<close> writes the graph of proxies.\<close>

lemma frame_unstaketorex:
  assumes "rex_may E X W" "frame E X W s0 s" "Stakes \<in> W" "lit E ''eosio.stake'' \<in> X"
  shows "ensures (unstaketorex E k r n c s) (frame E X W s0)"
proof (rule ensuresI)
  fix s' assume a: "unstaketorex E k r n c s = Inr s'"
  obtain cs t s2 pay rcv x r1 s4 y s5 where
    2: "update_resource_limits E r (wrap64 (- amount n)) (wrap64 (- amount c)) (s\<lparr>bw := (bw s)\<lparr>delband := t\<rparr>\<rparr>) = Inr s2"
    and b: "buy_into_pool E cs k pay (rx (send_transfer E [lit E ''eosio.stake''] (lit E ''eosio.stake'') (lit E ''eosio.rex'') pay
                ''buy REX with staked tokens'' s2)) = Inr ((rcv, x), r1)"
    and 4: "runrex E 2 (put_rx r1 (send_transfer E [lit E ''eosio.stake''] (lit E ''eosio.stake'') (lit E ''eosio.rex'') pay
                ''buy REX with staked tokens'' s2)) = Inr s4"
    and 5: "update_rex_account E cs k (mk_asset 0 cs) (mk_asset 0 cs) True s4 = Inr (y, s5)"
    and s': "s' = send_result E (RexBuyResult rcv) s5"
    using a by (auto simp: unstaketorex_def res_simps Let_def)
  have "frame E X W s0 (s\<lparr>bw := (bw s)\<lparr>delband := t\<rparr>\<rparr>)"
    using assms(2,3) by (intro frame_bw) (auto simp: ram_sum_def)
  then have "frame E X W s0 s2" by (rule frame_limits [OF 2])
  then have "frame E X W s0 s4"
    using proceeds_buy [OF b] assms(4) rex_mayD [OF assms(1)]
    by (intro frame_runrex [OF 4] frame_put_rx frame_send) auto
  then show "frame E X W s0 s'" unfolding s' by (intro frame_result frame_rex_account [OF 5]) simp
qed

lemma frame_voteproducer:
  assumes "frame E X W s0 s" "{Graph, Unpaid} \<subseteq> W"
  shows "ensures (voteproducer E' voter prx ps s) (frame E X W s0)"
proof (rule ensuresI)
  fix s' assume a: "voteproducer E' voter prx ps s = Inr s'"
  obtain s1 v2 v g where u: "update_rex_stake voter s = Inr s1"
    and v2: "update_votes (current_time E') voter prx ps True (vs s1) = Inr v2"
    and s': "s' = s1\<lparr>vs := (put_voter voter v v2)\<lparr>gst := (gst v2)\<lparr>total_unpaid_votes := g\<rparr>\<rparr>\<rparr>"
    using a by (auto simp: voteproducer_def res_simps Let_def)
  have k: "vote_keeps (vs s1) v2" by (rule update_votes_frame [OF v2])
  then have "prods (put_voter voter v v2) = prods (vs s1)" by (simp add: vote_keeps_def)
  then show "frame E X W s0 s'"
    using frame_rex_stake [OF u assms(1)] assms(2) k unfolding s'
    by (intro frame_vs_parts) (auto simp: vote_keeps_def blocks_sum_def dest: gst_coreD blocks_sum_keeps)
qed

text \<open>The accounts an action may send from and the parts it may write.\<close>

fun rex_writes :: "rex_action \<Rightarrow> part set" where
  "rex_writes (Unstaketorex _ _ _ _) = {Stakes}"
| "rex_writes (Voteproducer _ _ _) = {Graph, Unpaid}"
| "rex_writes _ = {}"

fun rex_senders :: "sys_env \<Rightarrow> rex_action \<Rightarrow> name set" where
  "rex_senders E (Unstaketorex _ _ _ _) = {lit E ''eosio.names'', lit E ''eosio.stake''}"
| "rex_senders E (Withdraw _ _) = {lit E ''eosio.names'', lit E ''eosio.rex''}"
| "rex_senders E _ = {lit E ''eosio.names''}"

lemma rex_exec_frame:
  assumes "rex_exec E a s = Inr s'" "Bids \<in> W \<or> apart E" "signers E \<union> rex_senders E a \<subseteq> X" "rex_writes a \<subseteq> W"
  shows "frame E X W s s'"
proof -
  have m: "rex_may E X W" using assms(2,3) by (cases a) (auto simp: rex_may_def)
  note acts = frame_rex_actions frame_sellrex frame_rentcpu frame_rentnet frame_setrex frame_closerex
  show ?thesis
    using assms(1,3,4)
    by (cases a) (auto intro: acts [OF m frame_refl, THEN ensuresD] ensuresD [OF frame_withdraw [OF m frame_refl]]
        ensuresD [OF frame_voteproducer [OF frame_refl]] ensuresD [OF frame_unstaketorex [OF m frame_refl]])
qed

end
