(* ===== verification/BwFrames.thy ===== *)
theory BwFrames
  imports RexFrames
begin

text \<open>
  The write sets of the bandwidth actions: buying and selling RAM writes the RAM accounting, delegating,
  undelegating and refunding write the stakes.
\<close>

definition bw_may :: "sys_env \<Rightarrow> name set \<Rightarrow> part set \<Rightarrow> bool" where
  "bw_may E X W \<longleftrightarrow> signers E \<subseteq> X \<and> (Bids \<in> W \<or> apart E)"

lemma bw_mayD:
  assumes "bw_may E X W"
  shows "has_auth E n \<Longrightarrow> n \<in> X" "has_auth E n \<Longrightarrow> Bids \<in> W \<or> n \<noteq> lit E ''eosio.names''"
    "Bids \<in> W \<or> lit E ''eosio.ram'' \<noteq> lit E ''eosio.names''"
    "Bids \<in> W \<or> lit E ''eosio.ramfee'' \<noteq> lit E ''eosio.names''"
    "Bids \<in> W \<or> lit E ''eosio.stake'' \<noteq> lit E ''eosio.names''"
  using assms by (auto simp: bw_may_def signers_def fund_names_def dest: apart_signer apart_distinct)

lemma frame_ram_supply [frame_calls]:
  "update_ram_supply E s = Inr s' \<Longrightarrow> frame E' X W s0 s \<Longrightarrow> frame E' X W s0 s'"
  unfolding update_ram_supply_def Let_def
  by (auto simp: res_simps blocks_sum_def intro!: frame_vs_parts frame_other(1) split: if_splits)

lemma frame_sync [frame_intros]: "frame E X W s0 s \<Longrightarrow> frame E X W s0 (sync_ram_limit a n s)"
  by (auto simp: sync_ram_limit_def intro: frame_intros split: prod.split)

lemma blocks_sum_gst [simp]: "blocks_sum (v\<lparr>gst := g\<rparr>) = blocks_sum v"
  by (simp add: blocks_sum_def)

lemma frame_ram_totals:
  "frame E X W s0 s \<Longrightarrow> Ram \<in> W \<Longrightarrow>
   frame E X W s0 (s\<lparr>rammarket := m, vs := (vs s)\<lparr>gst := (gst (vs s))\<lparr>total_ram_bytes_reserved := a, total_ram_stake := b\<rparr>\<rparr>\<rparr>)"
  using frame_vs_parts [OF frame_other(1), of E X W s0 s "(vs s)\<lparr>gst := (gst (vs s))\<lparr>total_ram_bytes_reserved := a, total_ram_stake := b\<rparr>\<rparr>" m]
  by simp

lemma frame_buyram:
  assumes "bw_may E X W" "frame E X W s0 s" "Ram \<in> W" "lit E ''eosio.ramfee'' \<in> X"
  shows "ensures (buyram E k t q s) (frame E X W s0)"
proof (rule ensuresI)
  fix s' assume a: "buyram E k t q s = Inr s'"
  define fee where "fee = set_amt (fee_of (amount q)) q"
  obtain s1 s3 m a b row n where u: "update_ram_supply E s = Inr s1" and k: "has_auth E k"
    and 3: "s3 = (if amount fee > 0
             then channel_to_rex E (lit E ''eosio.ramfee'') fee
                    (send_transfer E [k] k (lit E ''eosio.ramfee'') fee ''ram fee''
                      (send_transfer E [k, lit E ''eosio.ram''] k (lit E ''eosio.ram'') (add_amt (- amount fee) q) ''buy ram'' s1))
             else send_transfer E [k, lit E ''eosio.ram''] k (lit E ''eosio.ram'') (add_amt (- amount fee) q) ''buy ram'' s1)"
    and s': "s' = sync_ram_limit t n (put_userres t row (s3\<lparr>rammarket := m, vs := (vs s3)\<lparr>gst :=
       (gst (vs s3))\<lparr>total_ram_bytes_reserved := a, total_ram_stake := b\<rparr>\<rparr>\<rparr>))"
    using a unfolding buyram_def Let_def rbind_Inr_iff check_Inr_iff require_auth_Inr_iff fee_def case_prod_beta
    by (elim exE conjE) auto
  have "frame E X W s0 s3"
    unfolding 3 using frame_ram_supply [OF u assms(2)] bw_mayD [OF assms(1)] k assms(4) by (auto intro!: frame_intros)
  then show "frame E X W s0 s'" unfolding s' using assms(3) by (intro frame_sync frame_bw_helpers frame_ram_totals) auto
qed

lemma frame_buyrambytes:
  assumes "bw_may E X W" "frame E X W s0 s" "Ram \<in> W" "lit E ''eosio.ramfee'' \<in> X"
  shows "ensures (buyrambytes E k t n s) (frame E X W s0)"
  unfolding buyrambytes_def case_prod_beta by (intro ensures_base(5) frame_buyram assms)

lemma frame_sellram:
  assumes "bw_may E X W" "frame E X W s0 s" "Ram \<in> W" "lit E ''eosio.ramfee'' \<in> X" "lit E ''eosio.ram'' \<in> X"
  shows "ensures (sellram E k n s) (frame E X W s0)"
proof (rule ensuresI)
  fix s' assume a: "sellram E k n s = Inr s'"
  obtain s1 m a b row q j s4 where u: "update_ram_supply E s = Inr s1" and k: "has_auth E k"
    and s4: "s4 = send_transfer E [lit E ''eosio.ram'', k] (lit E ''eosio.ram'') k q ''sell ram''
       (sync_ram_limit k j (put_userres k row (s1\<lparr>rammarket := m, vs := (vs s1)\<lparr>gst :=
         (gst (vs s1))\<lparr>total_ram_bytes_reserved := a, total_ram_stake := b\<rparr>\<rparr>\<rparr>)))"
    and s': "s' = s4 \<or> (\<exists>fq. s' = channel_to_rex E (lit E ''eosio.ramfee'') fq
                 (send_transfer E [k] k (lit E ''eosio.ramfee'') fq ''sell ram fee'' s4))"
    using a unfolding sellram_def Let_def rbind_Inr_iff check_Inr_iff require_auth_Inr_iff case_prod_beta
    by (elim exE conjE) (fastforce simp: rbind_Inr_iff split: if_splits)
  have "frame E X W s0 s4"
    unfolding s4 using frame_ram_supply [OF u assms(2)] bw_mayD [OF assms(1)] assms(3,5)
    by (intro frame_send frame_sync frame_bw_helpers frame_ram_totals) auto
  then show "frame E X W s0 s'" using s' bw_mayD [OF assms(1)] k assms(4) by (auto intro!: frame_intros)
qed

section \<open>Stakes\<close>

lemma frame_delegation:
  assumes "changebw_delegation E f r n c s = Inr s'" "frame E' X W s0 s" "Stakes \<in> W"
  shows "frame E' X W s0 s'"
  using assms(1)
  by (auto simp: changebw_delegation_def rbind_Inr_iff check_Inr_iff ram_sum_def intro!: frame_bw assms(2,3))

lemma totals_shape:
  assumes "changebw_totals E r n c s = Inr s'"
  obtains t s1 where "(case t_get (userres (bw s)) r of
         None \<Rightarrow> Inr \<lparr>net_weight = n, cpu_weight = c, ram_bytes = 0\<rparr>
       | Some t \<Rightarrow> rbind (asset_plus E (net_weight t) n) (\<lambda>n. rbind (asset_plus E (cpu_weight t) c) (\<lambda>c.
           Inr (t\<lparr>net_weight := n, cpu_weight := c\<rparr>)))) = Inr t"
    "ram_bytes t = (case t_get (userres (bw s)) r of None \<Rightarrow> 0 | Some q \<Rightarrow> ram_bytes q)"
    "s1 = put_userres r t s \<or> (\<exists>x y z. s1 = set_resource_limits r x y z (put_userres r t s))" "s' = drop_if_empty r t s1"
proof -
  obtain t where row: "(case t_get (userres (bw s)) r of
         None \<Rightarrow> Inr \<lparr>net_weight = n, cpu_weight = c, ram_bytes = 0\<rparr>
       | Some t \<Rightarrow> rbind (asset_plus E (net_weight t) n) (\<lambda>n. rbind (asset_plus E (cpu_weight t) c) (\<lambda>c.
           Inr (t\<lparr>net_weight := n, cpu_weight := c\<rparr>)))) = Inr t"
    and s': "s' = drop_if_empty r t
      (if managed net_managed r (put_userres r t s) \<and> managed cpu_managed r (put_userres r t s) then put_userres r t s
       else case limits (bw (put_userres r t s)) r of (ram, net, cpu) \<Rightarrow>
         set_resource_limits r
           (if managed ram_managed r (put_userres r t s) then ram else max (wrap64 (ram_bytes t + ram_gift_bytes)) ram)
           (if managed net_managed r (put_userres r t s) then net else amount (net_weight t))
           (if managed cpu_managed r (put_userres r t s) then cpu else amount (cpu_weight t)) (put_userres r t s))"
    using assms(1) unfolding changebw_totals_def Let_def rbind_Inr_iff check_Inr_iff by (elim exE conjE) auto
  have t: "ram_bytes t = (case t_get (userres (bw s)) r of None \<Rightarrow> 0 | Some q \<Rightarrow> ram_bytes q)"
    using row by (auto simp: res_simps split: option.splits)
  show ?thesis by (rule that [OF row t _ s']) (auto split: prod.split)
qed

lemma frame_totals:
  assumes "changebw_totals E r n c s = Inr s'" "frame E' X W s0 s"
  shows "frame E' X W s0 s'"
proof -
  obtain t s1 where t: "ram_bytes t = (case t_get (userres (bw s)) r of None \<Rightarrow> 0 | Some q \<Rightarrow> ram_bytes q)"
    and s1: "s1 = put_userres r t s \<or> (\<exists>x y z. s1 = set_resource_limits r x y z (put_userres r t s))"
    and s': "s' = drop_if_empty r t s1"
    by (rule totals_shape [OF assms(1)]) blast
  have 1: "frame E' X W s0 (put_userres r t s)" using assms(2) t by (auto intro!: frame_intros simp: ram_sum_put)
  then show ?thesis unfolding s' using s1 by (auto intro!: frame_intros)
qed

lemma frame_request:
  assumes "changebw_request E cs f b n c s = Inr (bn, bc, d, s')" "frame E' X W s0 s" "Stakes \<in> W"
  shows "frame E' X W s0 s'"
  using assms(1,2)
  by (auto simp: changebw_request_def res_simps Let_def case_prod_beta ram_sum_def intro!: frame_bw assms(2,3)
      split: option.splits if_splits)

lemma frame_bw_refund:
  assumes "changebw_refund E cs src f b n c s = Inr s'" "frame E' X W s0 s" "Stakes \<in> W" "src \<in> X"
    "Bids \<in> W \<or> src \<noteq> lit E' ''eosio.names''"
  shows "frame E' X W s0 s'"
proof (cases "lit E ''eosio.stake'' = src")
  case False
  then obtain bn bc d s1 q where r: "changebw_request E cs f b n c s = Inr (bn, bc, d, s1)"
    and s': "s' = (let s2 = emit (CancelDeferred (uint f)) s1;
        s3 = (if d then emit (SendDeferred (uint f) f refund_delay_sec (DeferRefund f)) s2 else s2)
      in if 0 < amount q then send_transfer E [src] src (lit E ''eosio.stake'') q ''stake bandwidth'' s3 else s3)"
    using assms(1) by (auto simp: changebw_refund_def res_simps Let_def)
  show ?thesis unfolding s' Let_def using frame_request [OF r assms(2,3)] assms(4,5) by (auto intro!: frame_intros)
qed (use assms(1,2) in \<open>simp add: changebw_refund_def\<close>)

lemma frame_changebw:
  assumes "bw_may E X W" "frame E X W s0 s" "Stakes \<in> W"
  shows "ensures (changebw E k r n c x s) (frame E X W s0)"
  unfolding changebw_def Let_def
  apply (intro ensures_intros ensuresI)
  apply (erule frame_power)
  apply (erule frame_rex_stake)
  apply (erule frame_bw_refund)
  apply (erule frame_totals)
  apply (erule frame_delegation)
  using assms bw_mayD [OF assms(1)] apply auto
  done

lemma frame_delegatebw:
  assumes "bw_may E X W" "frame E X W s0 s" "Stakes \<in> W"
  shows "ensures (delegatebw E k r n c x s) (frame E X W s0)"
  unfolding delegatebw_def by (intro ensures_base frame_changebw assms)

lemma blocks_sum_put:
  "put_producer k (p\<lparr>producer_key := y, is_active := b\<rparr>) v = Inr v' \<Longrightarrow> t_get (producers v) k = Some p \<Longrightarrow>
   blocks_sum v' = blocks_sum v \<and> gst v' = gst v \<and> pv v' = pv v \<and> unpaid_sum v' = unpaid_sum v \<and> (rows_ok v \<longrightarrow> rows_ok v')"
  by (auto simp: put_producer_iff blocks_sum_def t_sum_set rows_ok_def)

lemma frame_deactivate [frame_calls]:
  "on_vs (put_producer k (deactivate E p)) s = Inr s' \<Longrightarrow> t_get (producers (vs s)) k = Some p \<Longrightarrow>
   frame E' X W s0 s \<Longrightarrow> frame E' X W s0 s'"
  by (auto simp: on_vs_Inr_iff deactivate_def intro!: frame_vs_parts dest: blocks_sum_put)

lemma frame_undelegatebw:
  assumes "bw_may E X W" "frame E X W s0 s" "Stakes \<in> W"
  shows "ensures (undelegatebw E k r n c s) (frame E X W s0)"
  unfolding undelegatebw_def
  apply (rule ensures_base(5) ensures_base(3) | clarsimp)+
  apply (rule frame_changebw [OF assms(1) _ assms(3)])
  apply (use assms(2) in \<open>auto simp: res_simps intro: frame_deactivate split: if_splits\<close>)
  done

lemma frame_refund:
  assumes "bw_may E X W" "frame E X W s0 s" "Stakes \<in> W" "lit E ''eosio.stake'' \<in> X"
  shows "ensures (refund E k s) (frame E X W s0)"
  unfolding refund_def Let_def
  using assms bw_mayD [OF assms(1)] by (intro ensures_intros frame_bw frame_send) (auto simp: ram_sum_def send_transfer_def emit_def)

fun bw_writes :: "bw_action \<Rightarrow> part set" where
  "bw_writes (Buyrambytes _ _ _) = {Ram}"
| "bw_writes (Buyram _ _ _) = {Ram}"
| "bw_writes (Sellram _ _) = {Ram}"
| "bw_writes _ = {Stakes}"

fun bw_senders :: "sys_env \<Rightarrow> bw_action \<Rightarrow> name set" where
  "bw_senders E (Buyrambytes _ _ _) = {lit E ''eosio.ramfee''}"
| "bw_senders E (Buyram _ _ _) = {lit E ''eosio.ramfee''}"
| "bw_senders E (Sellram _ _) = {lit E ''eosio.ram'', lit E ''eosio.ramfee''}"
| "bw_senders E (Refund _) = {lit E ''eosio.stake''}"
| "bw_senders E _ = {}"

lemma bw_exec_frame:
  assumes "bw_exec E a s = Inr s'" "Bids \<in> W \<or> apart E" "signers E \<union> bw_senders E a \<subseteq> X" "bw_writes a \<subseteq> W"
  shows "frame E X W s s'"
proof -
  have m: "bw_may E X W" using assms(2,3) by (simp add: bw_may_def)
  note acts = frame_buyrambytes frame_buyram frame_sellram frame_delegatebw frame_undelegatebw frame_refund
  show ?thesis
    using assms(1,3,4) by (cases a) (auto intro: acts [OF m frame_refl, THEN ensuresD])
qed

end
