(* ===== verification/SysFrames.thy ===== *)
theory SysFrames
  imports BwFrames
begin

text \<open>
  The write sets of the remaining actions (producers and proxies, pay, oracles, administration) and of
  the dispatcher of the system contract.
\<close>

section \<open>Global state\<close>

lemma frame_gst:
  assumes "frame E X W s0 s"
    "Ram \<in> W \<or> total_ram_bytes_reserved g = total_ram_bytes_reserved (gst (vs s)) \<and> total_ram_stake g = total_ram_stake (gst (vs s))"
    "Blocks \<in> W \<or> total_unpaid_blocks g = total_unpaid_blocks (gst (vs s))"
    "Unpaid \<in> W \<or> total_unpaid_votes g = total_unpaid_votes (gst (vs s))"
  shows "frame E X W s0 (put_gst g s)"
  unfolding put_gst_def using assms by (intro frame_vs_parts) auto

lemma put_gst_simps [simp]: "gst (vs (put_gst g s)) = g" "rx (put_gst g s) = rx s" "bw (put_gst g s) = bw s"
  "oracles (put_gst g s) = oracles s" "rammarket (put_gst g s) = rammarket s" "namebids (put_gst g s) = namebids s"
  "bidrefunds (put_gst g s) = bidrefunds s" "sys_out (put_gst g s) = sys_out s"
  by (simp_all add: put_gst_def)

section \<open>Producers and proxies\<close>

lemma regproducer_frame:
  assumes "regproducer E k y u l v = Inr v'"
  shows "blocks_sum v' = blocks_sum v \<and> gst v' = gst v \<and> unpaid_sum v' = unpaid_sum v \<and> (rows_ok v \<longrightarrow> rows_ok v')"
proof -
  have "blocks_sum v' = blocks_sum v \<and> gst v' = gst v \<and> voters v' = voters v"
    using assms by (auto simp: regproducer_def res_simps Let_def blocks_sum_def t_sum_set split: option.splits if_splits)
  moreover obtain q where "producers v' = t_set k q (producers v)" "total_votes q \<noteq> NaN"
      "p_owner q = (case t_get (producers v) k of None \<Rightarrow> k | Some p \<Rightarrow> p_owner p)"
    using assms by (auto simp: regproducer_def res_simps Let_def split: option.splits if_splits)
  moreover from this have "rows_ok v \<Longrightarrow> rows_ok v'" by (cases "t_get (producers v) k") (auto simp: rows_ok_def)
  ultimately show ?thesis using unpaid_sum_cong [of v' v] by simp
qed

lemma unregprod_frame: "unregprod E k v = Inr v' \<Longrightarrow> blocks_sum v' = blocks_sum v \<and> gst v' = gst v \<and>
    unpaid_sum v' = unpaid_sum v \<and> (rows_ok v \<longrightarrow> rows_ok v')"
  by (auto simp: unregprod_def deactivate_def require_auth_Inr_iff rbind_Inr_iff rget_Inr_iff dest: blocks_sum_put)

lemma regproxy_keeps:
  assumes "regproxy E k b s = Inr s'"
  shows "vote_keeps s s'"
proof (cases "t_get (voters s) k")
  case None
  then show ?thesis using assms by (simp add: regproxy_def res_simps) (auto simp: vote_keeps_put_voter)
next
  case (Some v)
  then obtain s2 s3 w where p: "propagate (current_time E) k (put_voter k (v\<lparr>is_proxy := b\<rparr>) s) = Inr s2"
    and sh: "shift_witnesses (current_time E) (witnesses (put_voter k (v\<lparr>is_proxy := b\<rparr>) s)) (witnesses s2) s2 = Inr (s3, w)"
    and s': "s' = snd (update_total_witnesspay_share (current_time E) 0 w s3)"
    using assms by (auto simp: regproxy_def res_simps Let_def)
  have "vote_keeps s s2" using propagate_keeps [OF p [unfolded propagate_def]] by (simp add: vote_keeps_put_voter)
  moreover have "vote_keeps s2 s'"
    using shift_witnesses_voters [OF sh] by (auto simp: s' intro: vote_keeps_same)
  ultimately show ?thesis by (rule vote_keeps_trans)
qed

lemma regproxy_unpaid:
  assumes "regproxy E k b s = Inr s'"
  shows "unpaid_sum s' = unpaid_sum s"
proof (cases "t_get (voters s) k")
  case None
  then show ?thesis using assms by (auto simp: regproxy_def res_simps unpaid_sum_put new_voter_def)
next
  case (Some v)
  then obtain s2 s3 w where p: "propagate (current_time E) k (put_voter k (v\<lparr>is_proxy := b\<rparr>) s) = Inr s2"
    and sh: "shift_witnesses (current_time E) (witnesses (put_voter k (v\<lparr>is_proxy := b\<rparr>) s)) (witnesses s2) s2 = Inr (s3, w)"
    and s': "s' = snd (update_total_witnesspay_share (current_time E) 0 w s3)"
    using assms by (auto simp: regproxy_def res_simps Let_def)
  have "unpaid_sum s' = unpaid_sum s2" using shift_witnesses_voters [OF sh] by (intro unpaid_sum_cong) (simp add: s')
  also have "\<dots> = unpaid_sum (put_voter k (v\<lparr>is_proxy := b\<rparr>) s)"
    by (rule unpaid_sum_cores [OF propagate_cores [OF p [unfolded propagate_def]]])
  finally have "unpaid_sum s' = unpaid_sum (put_voter k (v\<lparr>is_proxy := b\<rparr>) s)" .
  then show ?thesis using Some by (simp add: unpaid_sum_put)
qed

fun vote_writes :: "vote_action \<Rightarrow> part set" where
  "vote_writes (Regproxy _ _) = {Graph}"
| "vote_writes _ = {}"

lemma vote_exec_frame:
  assumes "on_vs (vote_exec E a) s = Inr s'" "vote_writes a \<subseteq> W"
  shows "frame E' X W s s'"
proof -
  obtain v where v: "vote_exec E a (vs s) = Inr v" and s': "s' = s\<lparr>vs := v\<rparr>"
    using assms(1) by (auto simp: on_vs_Inr_iff)
  show ?thesis
  proof (cases a)
    case (Regproxy k b)
    then show ?thesis unfolding s' using v assms(2) by (intro frame_vs [OF frame_refl]) (auto dest: regproxy_keeps regproxy_unpaid)
  qed (use v assms(2) in \<open>auto simp: s' intro!: frame_vs_parts [OF frame_refl]
      dest: regproducer_frame regproducer_pv unregprod_frame unregprod_pv\<close>)
qed

section \<open>Pay\<close>

definition pay_may :: "sys_env \<Rightarrow> name set \<Rightarrow> part set \<Rightarrow> bool" where
  "pay_may E X W \<longleftrightarrow> {self_acct E, lit E ''eosio.net'', lit E ''eosio.infra'', lit E ''eosio.comm''} \<subseteq> X \<and> (Bids \<in> W \<or> apart E)"

lemma pay_mayD:
  assumes "pay_may E X W"
  shows "self_acct E \<in> X" "lit E ''eosio.net'' \<in> X" "lit E ''eosio.infra'' \<in> X" "lit E ''eosio.comm'' \<in> X"
    "Bids \<in> W \<or> self_acct E \<noteq> lit E ''eosio.names''" "Bids \<in> W \<or> lit E ''eosio.net'' \<noteq> lit E ''eosio.names''"
    "Bids \<in> W \<or> lit E ''eosio.infra'' \<noteq> lit E ''eosio.names''" "Bids \<in> W \<or> lit E ''eosio.comm'' \<noteq> lit E ''eosio.names''"
    "f \<in> {''eosio.bpay'', ''eosio.wpay'', ''eosio.oracle'', ''eosio.dpay'', ''eosio.vpay''} \<Longrightarrow> Bids \<in> W \<or> lit E f \<noteq> lit E ''eosio.names''"
  using assms by (auto simp: pay_may_def fund_names_def apart_distinct [unfolded fund_names_def] dest: apart_not_self)

lemma frame_pay_share:
  assumes "pay_share E cs (from, to, d, m) s = Inr s'" "frame E X W s0 s" "from \<in> X" "Bids \<in> W \<or> from \<noteq> lit E ''eosio.names''"
  shows "frame E X W s0 s'"
  using assms(1) by (auto simp: pay_share_def res_simps intro!: frame_send assms(2-))

lemma frame_inflate:
  assumes "pay_may E X W" "frame E X W s0 s"
  shows "ensures (inflate E u s) (frame E X W s0)"
proof (rule ensuresI)
  fix s' assume "inflate E u s = Inr s'"
  then obtain cs xs e s1 b1 b2 b3 b4 b5 b6 where f: "rfold (pay_share E cs) xs (emit e s) = Inr s1" and e: "effect_transfer e = None"
    and xs: "fst ` set xs \<subseteq> {self_acct E, lit E ''eosio.net'', lit E ''eosio.infra'', lit E ''eosio.comm''}"
    and s': "s' = put_gst ((gst (vs s1))\<lparr>perblock_bucket := b1, dapps_per_transfer_rewards_bucket := b2,
       dapps_per_user_rewards_bucket := b3, perwitness_bucket := b4, pervote_bucket := b5, oracle_bucket := b6\<rparr>) s1"
    unfolding inflate_def Let_def rbind_Inr_iff
    by (elim exE conjE) (rule that, assumption, auto simp: effect_transfer_def)
  have "frame E X W s0 s1"
  proof (rule rfold_inv [OF f])
    show "frame E X W s0 (emit e s)" by (rule frame_emit [OF assms(2) e])
    fix x s s' assume x: "x \<in> set xs" "frame E X W s0 s" "pay_share E cs x s = Inr s'"
    obtain a b d m where q: "x = (a, b, d, m)" by (cases x)
    have "a \<in> {self_acct E, lit E ''eosio.net'', lit E ''eosio.infra'', lit E ''eosio.comm''}" using xs x(1) q by force
    then show "frame E X W s0 s'" using pay_mayD [OF assms(1)] x q by (auto intro: frame_pay_share)
  qed
  then show "frame E X W s0 s'" unfolding s' by (intro frame_gst) auto
qed

lemma frame_share_inflation:
  assumes "pay_may E X W" "frame E X W s0 s"
  shows "ensures (share_inflation E s) (frame E X W s0)"
  unfolding share_inflation_def Let_def
  by (intro ensures_base ensures_cases(1) ensures_call [OF frame_inflate [OF assms]] assms(2)) (auto intro: frame_gst)

lemma elected_frame:
  "blocks_sum (update_elected_producers E n v) = blocks_sum v" "pv (update_elected_producers E n v) = pv v"
  "total_ram_bytes_reserved (gst (update_elected_producers E n v)) = total_ram_bytes_reserved (gst v)"
  "total_ram_stake (gst (update_elected_producers E n v)) = total_ram_stake (gst v)"
  "total_unpaid_blocks (gst (update_elected_producers E n v)) = total_unpaid_blocks (gst v)"
  "total_unpaid_votes (gst (update_elected_producers E n v)) = total_unpaid_votes (gst v)"
  "unpaid_sum (update_elected_producers E n v) = unpaid_sum v" "rows_ok (update_elected_producers E n v) = rows_ok v"
  by (simp_all add: update_elected_producers_def Let_def)

lemma frame_close_auction:
  assumes "frame E X W s0 s" "Bids \<in> W"
  shows "frame E X W s0 (close_auction E' n s)"
proof -
  have rx: "frame E X W s0 s1 \<Longrightarrow> frame E X W s0 (put_rx r s1)" for r s1
  proof (erule frame_step)
    show "same p E s1 (put_rx r s1)" if "p \<notin> W" for p using that assms(2) by (cases p) (auto simp: put_rx_def)
  qed (simp_all add: put_rx_def)
  show ?thesis
    unfolding close_auction_def Let_def using assms
    by (auto intro!: rx frame_bids frame_gst split: option.split)
qed

lemma frame_onblock:
  assumes "frame E X W s0 s" "Bids \<in> W" "Blocks \<in> W"
  shows "ensures (onblock E' n p s) (frame E X W s0)"
proof (rule ensuresI)
  fix s' assume a: "onblock E' n p s = Inr s'"
  define s1 where "s1 = s\<lparr>vs := (vs s)\<lparr>gst2 := (gst2 (vs s))\<lparr>last_block_num := n\<rparr>\<rparr>\<rparr>"
  define g where "g = (gst (vs s1))\<lparr>
      last_pervote_bucket_fill := (if last_pervote_bucket_fill (gst (vs s1)) = 0 then current_time E' else last_pervote_bucket_fill (gst (vs s1))),
      last_dapp_bucket_fill := (if last_dapp_bucket_fill (gst (vs s1)) = 0 then current_time E' else last_dapp_bucket_fill (gst (vs s1)))\<rparr>"
  define s2 where "s2 = (case t_get (producers (vs (put_gst g s1))) p of
       None \<Rightarrow> put_gst g s1
     | Some q \<Rightarrow> (put_gst g s1)\<lparr>vs := (vs (put_gst g s1))\<lparr>
           gst := (gst (vs (put_gst g s1)))\<lparr>total_unpaid_blocks := u32 (total_unpaid_blocks (gst (vs (put_gst g s1))) + 1)\<rparr>,
           producers := t_set p (q\<lparr>unpaid_blocks := u32 (unpaid_blocks q + 1)\<rparr>) (producers (vs (put_gst g s1)))\<rparr>\<rparr>)"
  define s3 where "s3 = s2\<lparr>vs := update_elected_producers E' n (vs s2)\<rparr>"
  have s': "s' = s1 \<or> s' = s2 \<or> s' = s3 \<or> s' = close_auction E' n s3"
    using a unfolding onblock_def Let_def require_auth_Inr_iff s1_def [symmetric] g_def [symmetric] s2_def [symmetric] s3_def [symmetric]
    by (auto split: if_splits)
  have 1: "frame E X W s0 s1"
    unfolding s1_def using assms(1) by (intro frame_vs_parts) (auto simp: blocks_sum_def unpaid_sum_def rows_ok_def)
  then have "frame E X W s0 (put_gst g s1)" by (intro frame_gst) (auto simp: g_def)
  then have 2: "frame E X W s0 s2"
    unfolding s2_def using assms(3)
    by (auto simp: unpaid_sum_def rows_ok_def intro!: frame_vs_parts split: option.split)
  then have 3: "frame E X W s0 s3" unfolding s3_def by (intro frame_vs_parts) (auto simp: elected_frame)
  show "frame E X W s0 s'" using s' 1 2 3 frame_close_auction [OF 3 assms(2)] by auto
qed


lemma frame_pay_from:
  assumes "pay_from E cs f k n m s = Inr s'" "frame E X W s0 s" "lit E f \<in> X" "Bids \<in> W \<or> lit E f \<noteq> lit E ''eosio.names''"
  shows "frame E X W s0 s'"
  using assms by (auto simp: pay_from_def res_simps intro!: frame_send split: if_splits)

lemma claimrewards_parts:
  assumes "claimrewards E k s0 = Inr s'"
  obtains s v ors n cs b w r s1 s2 where "share_inflation E s0 = Inr s"
    "voters v = voters (vs s)" "total_ram_bytes_reserved (gst v) = total_ram_bytes_reserved (gst (vs s))"
    "total_ram_stake (gst v) = total_ram_stake (gst (vs s))" "total_unpaid_votes (gst v) = total_unpaid_votes (gst (vs s))"
    "rows_ok (vs s) \<longrightarrow> rows_ok v"
    "pay_from E cs ''eosio.bpay'' k b ''producer block pay'' (s\<lparr>vs := v, oracles := ors, total_successful_requests := n\<rparr>) = Inr s1"
    "pay_from E cs ''eosio.wpay'' k w ''producer witness pay'' s1 = Inr s2"
    "pay_from E cs ''eosio.oracle'' k r ''producer oracle pay'' s2 = Inr s'" "sys_core s = Inr cs"
  using assms unfolding claimrewards_def Let_def require_auth_Inr_iff check_Inr_iff rbind_Inr_iff rget_Inr_iff case_prod_beta
  apply (elim exE conjE)
  apply (rule that)
  apply assumption
  prefer 6
  apply assumption
  prefer 6
  apply assumption
  prefer 6
  apply assumption
  apply (auto simp: sys_core_def rows_ok_def split: prod.splits if_splits dest!: votepay_voters witpay_voters)
  done


lemma frame_claimrewards:
  assumes "pay_may E X W" "frame E X W s0 s" "{Blocks, Answers} \<subseteq> W" "{lit E ''eosio.bpay'', lit E ''eosio.wpay'', lit E ''eosio.oracle''} \<subseteq> X"
  shows "ensures (claimrewards E k s) (frame E X W s0)"
proof (rule ensuresI)
  fix s' assume a: "claimrewards E k s = Inr s'"
  obtain s1 v ors n cs b w r s2 s3 where 1: "share_inflation E s = Inr s1"
    and v: "voters v = voters (vs s1)" "total_ram_bytes_reserved (gst v) = total_ram_bytes_reserved (gst (vs s1))"
    "total_ram_stake (gst v) = total_ram_stake (gst (vs s1))" "total_unpaid_votes (gst v) = total_unpaid_votes (gst (vs s1))"
    "rows_ok (vs s1) \<longrightarrow> rows_ok v"
    and 2: "pay_from E cs ''eosio.bpay'' k b ''producer block pay'' (s1\<lparr>vs := v, oracles := ors, total_successful_requests := n\<rparr>) = Inr s2"
    and 3: "pay_from E cs ''eosio.wpay'' k w ''producer witness pay'' s2 = Inr s3"
    and 4: "pay_from E cs ''eosio.oracle'' k r ''producer oracle pay'' s3 = Inr s'"
    by (rule claimrewards_parts [OF a]) blast
  have "frame E X W s0 (s1\<lparr>vs := v, oracles := ors, total_successful_requests := n\<rparr>)"
    using ensuresD [OF frame_share_inflation [OF assms(1,2)] 1] assms(3) pv_voters [OF v(1)] unpaid_sum_cong [OF v(1)] v
    by (intro frame_answers frame_vs_parts) auto
  then show "frame E X W s0 s'"
    using pay_mayD(9) [OF assms(1)] assms(4) by (intro frame_pay_from [OF 4] frame_pay_from [OF 3] frame_pay_from [OF 2]) auto
qed

lemma frame_claimdapprwd:
  assumes "pay_may E X W" "frame E X W s0 s" "lit E ''eosio.dpay'' \<in> X"
  shows "ensures (claimdapprwd E reg k d s) (frame E X W s0)"
  unfolding claimdapprwd_def Let_def
  apply (intro ensures_auth ensures_base(1-4) ensures_cases(1) ensures_call [OF frame_inflate [OF assms(1,2)]] assms(2))
  apply (rule ensures_auth ensures_base ensures_cases(3))+
  apply (intro frame_send frame_emit frame_gst)
  using assms(3) pay_mayD(9) [OF assms(1), of "''eosio.dpay''"] apply (auto simp: res_simps effect_transfer_def split: if_splits)
  done

lemma frame_claimvoterwd:
  assumes "pay_may E X W" "frame E X W s0 s" "lit E ''eosio.vpay'' \<in> X" "Unpaid \<in> W"
  shows "ensures (claimvoterwd E k s) (frame E X W s0)"
proof (rule ensuresI)
  fix s' assume a: "claimvoterwd E k s = Inr s'"
  obtain s1 v q m n where 1: "share_inflation E s = Inr s1" and v: "t_get (voters (vs s1)) k = Some v"
    and s': "s' = (send_transfer E [lit E ''eosio.vpay''] (lit E ''eosio.vpay'') k q ''Voter reward transfer'' s1)
      \<lparr>vs := (put_voter k (v\<lparr>unpaid_votes := 0, v_last_claim_time := current_time E\<rparr>) (vs s1))
         \<lparr>gst := (gst (vs s1))\<lparr>pervote_bucket := m, total_unpaid_votes := n\<rparr>\<rparr>\<rparr>"
    using a by (auto simp: claimvoterwd_def res_simps Let_def)
  show "frame E X W s0 s'"
    unfolding s' using ensuresD [OF frame_share_inflation [OF assms(1,2)] 1] pay_mayD(9) [OF assms(1), of "''eosio.vpay''"] assms(3,4) v
    by (intro frame_vs_parts frame_send) (auto simp: pv_put_same pv_Some blocks_sum_def)
qed

lemma frame_setvclaimprd:
  "frame E X W s0 s \<Longrightarrow> ensures (setvclaimprd E' n s) (frame E X W s0)"
  unfolding setvclaimprd_def by (intro ensures_intros frame_gst) auto


fun pay_writes :: "pay_action \<Rightarrow> part set" where
  "pay_writes (Onblock _ _) = {Bids, Blocks}"
| "pay_writes (Claimrewards _) = {Blocks, Answers}"
| "pay_writes (Claimvoterwd _) = {Unpaid}"
| "pay_writes _ = {}"

fun pay_senders :: "sys_env \<Rightarrow> pay_action \<Rightarrow> name set" where
  "pay_senders E (Onblock _ _) = {}"
| "pay_senders E (SetVclaimprd _) = {}"
| "pay_senders E (Claimrewards _) = {self_acct E, lit E ''eosio.net'', lit E ''eosio.infra'', lit E ''eosio.comm'',
     lit E ''eosio.bpay'', lit E ''eosio.wpay'', lit E ''eosio.oracle''}"
| "pay_senders E (Claimdapprwd _ _ _) = {self_acct E, lit E ''eosio.net'', lit E ''eosio.infra'', lit E ''eosio.comm'', lit E ''eosio.dpay''}"
| "pay_senders E (Claimvoterwd _) = {self_acct E, lit E ''eosio.net'', lit E ''eosio.infra'', lit E ''eosio.comm'', lit E ''eosio.vpay''}"

lemma pay_exec_frame:
  assumes "pay_exec E a s = Inr s'" "Bids \<in> W \<or> apart E" "pay_senders E a \<subseteq> X" "pay_writes a \<subseteq> W"
  shows "frame E X W s s'"
proof (cases a)
  case (Onblock n p)
  then show ?thesis using assms(1,4) by (auto intro: ensuresD [OF frame_onblock [OF frame_refl]])
next
  case (SetVclaimprd n)
  then show ?thesis using assms(1) by (auto intro: ensuresD [OF frame_setvclaimprd [OF frame_refl]])
next
  case (Claimrewards k)
  then have "pay_may E X W" using assms(2,3) by (simp add: pay_may_def)
  then show ?thesis using assms(1,3,4) Claimrewards by (auto intro: ensuresD [OF frame_claimrewards [OF _ frame_refl]])
next
  case (Claimdapprwd r k d)
  then have "pay_may E X W" using assms(2,3) by (simp add: pay_may_def)
  then show ?thesis using assms(1,3) Claimdapprwd by (auto intro: ensuresD [OF frame_claimdapprwd [OF _ frame_refl]])
next
  case (Claimvoterwd k)
  then have "pay_may E X W" using assms(2,3) by (simp add: pay_may_def)
  then show ?thesis using assms(1,3,4) Claimvoterwd by (auto intro: ensuresD [OF frame_claimvoterwd [OF _ frame_refl]])
qed

section \<open>Oracles\<close>

lemma frame_put_oracle [frame_intros]: "frame E X W s0 s \<Longrightarrow> Answers \<in> W \<Longrightarrow> frame E X W s0 (put_oracle k oc s)"
  by (simp add: put_oracle_def frame_intros)

lemma frame_reply:
  assumes "frame E X W s0 s" "Answers \<in> W"
  shows "ensures (reply E' k n b s) (frame E X W s0)"
  unfolding reply_def
  apply (rule ensures_intros)+
  apply (use assms in \<open>auto intro!: frame_intros simp: check_Inr_iff split: option.splits if_splits prod.splits\<close>)
  done

lemma frame_addrequest:
  assumes "frame E X W s0 s" "Answers \<in> W"
  shows "ensures (addrequest E' i k as r ag p t s) (frame E X W s0)"
proof -
  have as: "ensures m P \<Longrightarrow> ensures (check_apis as m) P" for m :: "sys_state res" and P
    by (induction as) (auto intro: ensures_intros)
  show ?thesis
    unfolding addrequest_def check_response_type_def Let_def
    by (intro ensures_intros as frame_intros assms)
qed

lemma oracle_exec_frame: "oracle_exec E a s = Inr s' \<Longrightarrow> Answers \<in> W \<Longrightarrow> frame E' X W s s'"
  by (cases a) (auto simp: setoracle_def res_simps intro: ensuresD [OF frame_reply [OF frame_refl]]
      ensuresD [OF frame_addrequest [OF frame_refl]] frame_put_oracle)

section \<open>Administration\<close>

lemma frame_set_flag [frame_intros]: "frame E X W s0 s \<Longrightarrow> frame E X W s0 (set_flag k f b s)"
  by (auto simp: set_flag_def Let_def vote_keeps_put_voter pv_put_same pv_def unpaid_sum_put new_voter_def intro!: frame_vs split: option.split)

lemma frame_setacct:
  assumes "frame E X W s0 s"
  shows "ensures (setacctram E' k n s) (frame E X W s0)" "ensures (setacctnet E' k n s) (frame E X W s0)"
    "ensures (setacctcpu E' k n s) (frame E X W s0)"
  by (auto simp: setacctram_def setacctnet_def setacctcpu_def Let_def case_prod_beta
      intro!: ensures_intros frame_intros assms)

lemma frame_bidname:
  assumes "signers E \<subseteq> X" "frame E X W s0 s" "Bids \<in> W"
  shows "ensures (bidname E k n q s) (frame E X W s0)"
  unfolding bidname_def Let_def
  by (intro ensures_intros frame_intros assms) (use assms in \<open>auto simp: signers_def\<close>)

lemma frame_bidrefund:
  assumes "lit E ''eosio.names'' \<in> X" "frame E X W s0 s" "Bids \<in> W"
  shows "ensures (bidrefund E k n s) (frame E X W s0)"
  unfolding bidrefund_def Let_def
  by (intro ensures_intros frame_intros assms) (use assms in auto)

lemma frame_newaccount:
  assumes "frame E X W s0 s" "Bids \<in> W"
  shows "ensures (newaccount E' k n s) (frame E X W s0)"
proof (rule ensuresI)
  fix s' assume a: "newaccount E' k n s = Inr s'"
  obtain s1 cs where 1: "s1 = s \<or> s1 = s\<lparr>namebids := t_del n (namebids s)\<rparr>"
    and e: "t_get (userres (bw s1)) n = None"
    and s': "s' = set_resource_limits n 0 0 0 (s1\<lparr>bw := (bw s1)\<lparr>userres := t_set n
        \<lparr>net_weight = mk_asset 0 cs, cpu_weight = mk_asset 0 cs, ram_bytes = 0\<rparr> (userres (bw s1))\<rparr>\<rparr>)"
    using a by (auto simp: newaccount_def rbind_Inr_iff check_Inr_iff t_emplace_Inr_iff split: if_splits)
  have "frame E X W s0 s1" using 1 assms by (auto intro: frame_intros)
  then show "frame E X W s0 s'" unfolding s' using e by (intro frame_bw_helpers frame_bw) (auto simp: ram_sum_def t_sum_set_new)
qed

lemma rmvproducer_frame: "rmvproducer E k v = Inr v' \<Longrightarrow> blocks_sum v' = blocks_sum v \<and> gst v' = gst v \<and> pv v' = pv v \<and>
    unpaid_sum v' = unpaid_sum v \<and> (rows_ok v \<longrightarrow> rows_ok v')"
  by (auto simp: rmvproducer_def deactivate_def require_auth_Inr_iff rbind_Inr_iff rget_Inr_iff dest: blocks_sum_put)

lemma updtrevision_frame: "updtrevision E r v = Inr v' \<Longrightarrow> blocks_sum v' = blocks_sum v \<and> gst v' = gst v \<and> pv v' = pv v \<and>
    unpaid_sum v' = unpaid_sum v \<and> (rows_ok v \<longrightarrow> rows_ok v')"
  by (auto simp: updtrevision_def res_simps blocks_sum_def unpaid_sum_def rows_ok_def)

lemma frame_settings:
  assumes "frame E X W s0 s"
  shows "ensures (setabi E' k b s) (frame E X W s0)" "ensures (init E' n y s) (frame E X W s0)"
    "ensures (setram E' m s) (frame E X W s0)" "ensures (setramrate E' m s) (frame E X W s0)"
    "ensures (setparams E' ps s) (frame E X W s0)" "ensures (setpriv E' k m s) (frame E X W s0)"
    "ensures (setalimits E' k a d c s) (frame E X W s0)"
  unfolding setabi_def init_def setram_def setramrate_def setparams_def setpriv_def setalimits_def Let_def
  by (intro ensures_intros frame_intros frame_gst frame_vs_parts assms; (use assms in \<open>auto dest: frame_calls simp: effect_transfer_def blocks_sum_def\<close>; fail)?)+

fun admin_writes :: "admin_action \<Rightarrow> part set" where
  "admin_writes (Newaccount _ _) = {Bids}"
| "admin_writes (Bidname _ _ _) = {Bids}"
| "admin_writes (Bidrefund _ _) = {Bids}"
| "admin_writes _ = {}"

fun admin_senders :: "sys_env \<Rightarrow> admin_action \<Rightarrow> name set" where
  "admin_senders E (Bidrefund _ _) = {lit E ''eosio.names''}"
| "admin_senders E _ = {}"

lemma admin_exec_frame:
  assumes "admin_exec E a s = Inr s'" "signers E \<union> admin_senders E a \<subseteq> X" "admin_writes a \<subseteq> W"
  shows "frame E X W s s'"
  using assms
  by (cases a) (auto simp: on_vs_Inr_iff intro: ensuresD [OF frame_bidname [OF _ frame_refl]]
      ensuresD [OF frame_bidrefund [OF _ frame_refl]] ensuresD [OF frame_newaccount [OF frame_refl]]
      frame_settings [OF frame_refl, THEN ensuresD] frame_setacct [OF frame_refl, THEN ensuresD]
      intro!: frame_vs_parts [OF frame_refl] dest: rmvproducer_frame updtrevision_frame)

section \<open>The dispatcher\<close>

fun sys_writes :: "sys_action \<Rightarrow> part set" where
  "sys_writes (AdminAct a) = admin_writes a"
| "sys_writes (RexAct a) = rex_writes a"
| "sys_writes (BwAct a) = bw_writes a"
| "sys_writes (VoteAct a) = vote_writes a"
| "sys_writes (PayAct a) = pay_writes a"
| "sys_writes (OracleAct a) = {Answers}"
| "sys_writes _ = {}"

fun sys_senders :: "sys_env \<Rightarrow> sys_action \<Rightarrow> name set" where
  "sys_senders E (AdminAct a) = admin_senders E a"
| "sys_senders E (RexAct a) = rex_senders E a"
| "sys_senders E (BwAct a) = bw_senders E a"
| "sys_senders E (PayAct a) = pay_senders E a"
| "sys_senders E _ = {}"

text \<open>Every action sends only from its signers and the accounts of its component, and writes only its parts.\<close>

lemma sys_exec_frame:
  assumes "sys_exec E a s = Inr s'" "Bids \<in> W \<or> apart E" "signers E \<union> sys_senders E a \<subseteq> X" "sys_writes a \<subseteq> W"
  shows "frame E X W s s'"
  using assms
  by (cases a) (auto intro: admin_exec_frame rex_exec_frame bw_exec_frame pay_exec_frame vote_exec_frame oracle_exec_frame)

end
