(* ===== verification/RexActs.thy ===== *)
theory RexActs
  imports RexSys
begin

text \<open>
  Every REX action conserves tokens and keeps the invariant, and so does every sequence of them.
\<close>

section \<open>Settling an account\<close>

definition open_amount :: "rex_state \<Rightarrow> name \<Rightarrow> int" where
  "open_amount r k = (case t_get (rexorders r) k of
     None \<Rightarrow> 0 | Some ord \<Rightarrow> if is_open ord then amount (rex_requested ord) else 0)"

definition drop_closed :: "name \<Rightarrow> rex_state \<Rightarrow> rex_state" where
  "drop_closed k r = (case t_get (rexorders r) k of
     None \<Rightarrow> r | Some ord \<Rightarrow> if is_open ord then r else r\<lparr>rexorders := t_del k (rexorders r)\<rparr>)"

definition closed_amount :: "rex_state \<Rightarrow> name \<Rightarrow> int" where
  "closed_amount r k = (case t_get (rexorders r) k of
     None \<Rightarrow> 0 | Some ord \<Rightarrow> if is_open ord then 0 else amount (proceeds ord))"

lemma drop_closed_spec:
  assumes "rex_rows cs X r"
  shows "rex_rows cs X (drop_closed k r)" "liab (drop_closed k r) = liab r - closed_amount r k"
    "0 \<le> closed_amount r k" "closed_amount r k \<le> liab r"
    "rexbalance (drop_closed k r) = rexbalance r" "rexpool (drop_closed k r) = rexpool r"
    "rexfunds (drop_closed k r) = rexfunds r"
proof -
  note N = rex_parts_nonneg [OF assms] rex_parts_nonneg(3) [OF assms, of CPU] rex_parts_nonneg(3) [OF assms, of NET]
  have nn: "0 \<le> liab r" using N by (simp add: liab_def)
  have "rex_rows cs X (drop_closed k r) \<and> liab (drop_closed k r) = liab r - closed_amount r k \<and>
    0 \<le> closed_amount r k \<and> closed_amount r k \<le> liab r \<and> rexbalance (drop_closed k r) = rexbalance r \<and>
    rexpool (drop_closed k r) = rexpool r \<and> rexfunds (drop_closed k r) = rexfunds r"
  proof (cases "t_get (rexorders r) k")
    case (Some ord)
    note O = order_le_liab [OF assms Some]
    show ?thesis
    proof (cases "is_open ord")
      case False
      then show ?thesis
        using Some O rex_rows_del_order [OF assms, of X k] liab_del_order [OF Some]
        by (auto simp: drop_closed_def closed_amount_def closed_proceeds_def order_ok_def)
    qed (use Some assms nn in \<open>simp add: drop_closed_def closed_amount_def\<close>)
  qed (use assms nn in \<open>simp add: drop_closed_def closed_amount_def\<close>)
  then show "rex_rows cs X (drop_closed k r)" "liab (drop_closed k r) = liab r - closed_amount r k"
    "0 \<le> closed_amount r k" "closed_amount r k \<le> liab r"
    "rexbalance (drop_closed k r) = rexbalance r" "rexpool (drop_closed k r) = rexpool r"
    "rexfunds (drop_closed k r) = rexfunds r" by blast+
qed

lemma update_rex_account_unfold:
  assumes "update_rex_account E cs k prc d force s = Inr (pend, s')"
  obtains fund r1 f where "amount pend = open_amount (rx s) k" "symb fund = symb prc"
    "amount fund = amount prc \<and> closed_amount (rx s) k = 0 \<or> amount fund = wrap64 (amount prc + closed_amount (rx s) k)"
    "(if amount fund > 0 then transfer_to_fund cs k fund (drop_closed k (rx s)) else Inr (drop_closed k (rx s))) = Inr r1"
    "s' = put_rx r1 s \<or> on_vs f (put_rx r1 s) = Inr s'"
proof -
  define fund where "fund = (case t_get (rexorders (rx s)) k of None \<Rightarrow> prc
    | Some ord \<Rightarrow> if is_open ord then prc else add_amt (amount (proceeds ord)) prc)"
  define st where "st = (case t_get (rexorders (rx s)) k of None \<Rightarrow> d
    | Some ord \<Rightarrow> if is_open ord then d else add_amt (amount (stake_change ord)) d)"
  have "rbind (if amount fund > 0 then transfer_to_fund cs k fund (drop_closed k (rx s)) else Inr (drop_closed k (rx s)))
     (\<lambda>r1. rbind (if force \<or> amount st \<noteq> 0 then on_vs (update_voting_power E k st) (put_rx r1 s) else Inr (put_rx r1 s))
        (\<lambda>s1. Inr (mk_asset (open_amount (rx s) k) rex_symbol, s1))) = Inr (pend, s')"
  proof (cases "t_get (rexorders (rx s)) k")
    case (Some ord)
    show ?thesis
      using assms unfolding update_rex_account_def fund_def st_def drop_closed_def open_amount_def Some
      by (cases "is_open ord") (simp_all only: option.case if_True if_False simp_thms Let_def prod.case)
  next
    case None
    show ?thesis
      using assms unfolding update_rex_account_def fund_def st_def drop_closed_def open_amount_def None
      by (simp only: option.case Let_def prod.case)
  qed
  then obtain r1 where r1: "(if amount fund > 0 then transfer_to_fund cs k fund (drop_closed k (rx s)) else Inr (drop_closed k (rx s))) = Inr r1"
    and s': "(if force \<or> amount st \<noteq> 0 then on_vs (update_voting_power E k st) (put_rx r1 s) else Inr (put_rx r1 s)) = Inr s'"
    and pend: "amount pend = open_amount (rx s) k"
    by (auto simp: rbind_Inr_iff)
  show thesis
  proof (rule that [OF pend _ _ r1])
    show "symb fund = symb prc" by (simp add: fund_def split: option.split)
    show "amount fund = amount prc \<and> closed_amount (rx s) k = 0 \<or> amount fund = wrap64 (amount prc + closed_amount (rx s) k)"
      by (auto simp: fund_def closed_amount_def split: option.split)
    show "s' = put_rx r1 s \<or> on_vs (update_voting_power E k st) (put_rx r1 s) = Inr s'"
      using s' by (auto split: if_splits)
  qed
qed

lemma update_rex_account_spec:
  assumes "sys_core s = Inr cs" "update_rex_account E cs k prc d force s = Inr (pend, s')"
  shows "rex_trans E (X, amount prc, s) (X, 0, s')" "amount pend = open_amount (rx s) k"
    "rexbalance (rx s') = rexbalance (rx s)" "rexorders (rx s') = rexorders (drop_closed k (rx s))"
proof -
  obtain fund r1 f where pend: "amount pend = open_amount (rx s) k"
    and fund: "amount fund = amount prc \<and> closed_amount (rx s) k = 0 \<or> amount fund = wrap64 (amount prc + closed_amount (rx s) k)"
    and r1: "(if amount fund > 0 then transfer_to_fund cs k fund (drop_closed k (rx s)) else Inr (drop_closed k (rx s))) = Inr r1"
    and s': "s' = put_rx r1 s \<or> on_vs f (put_rx r1 s) = Inr s'"
    using update_rex_account_unfold [OF assms(2)] by metis
  have rx: "rx s' = r1" and fr: "rammarket s' = rammarket s" "sys_out s' = sys_out s"
    using s' by (auto simp: on_vs_Inr_iff)
  show "amount pend = open_amount (rx s) k" by (rule pend)
  have "rexbalance r1 = rexbalance (drop_closed k (rx s)) \<and> rexorders r1 = rexorders (drop_closed k (rx s))"
    using r1 by (auto simp: transfer_to_fund_def res_simps split: if_splits option.splits)
  then show "rexbalance (rx s') = rexbalance (rx s)" "rexorders (rx s') = rexorders (drop_closed k (rx s))"
    by (auto simp: rx drop_closed_def split: option.split)
  show "rex_trans E (X, amount prc, s) (X, 0, s')"
  proof (rule rex_trans_rx [OF fr])
    fix c
    assume a: "sys_core s = Inr c" "rex_rows c X (rx s)" "0 \<le> amount prc" "liab (rx s) + amount prc \<le> rex_cap"
    have c: "c = cs" using a(1) assms(1) by simp
    note D = drop_closed_spec [OF a(2), of k]
    have "wrap64 (amount prc + closed_amount (rx s) k) = amount prc + closed_amount (rx s) k"
      using D(3,4) a(3,4) by (intro wrap_small) (auto simp: rex_cap_def)
    then have am: "amount fund = amount prc + closed_amount (rx s) k" using fund by auto
    show "rex_rows c X (rx s') \<and> (0::int) \<le> 0 \<and> liab (rx s') + 0 = liab (rx s) + amount prc"
    proof (cases "amount fund > 0")
      case True
      then have t: "transfer_to_fund cs k fund (drop_closed k (rx s)) = Inr r1" using r1 by simp
      show ?thesis
        using transfer_to_fund_spec(1,2) [OF D(1) [unfolded c] _ _ t] D am a(3,4) c by (simp add: rx)
    next
      case False
      then show ?thesis using r1 D am a(3) by (simp add: rx)
    qed
  qed
qed

lemma rex_trans_core: "rex_trans E (X, p, s) (X', p', s') \<Longrightarrow> sys_core s' = sys_core s"
  by (simp add: rex_trans_def)

lemma sys_core_rx [simp]: "sys_core (s\<lparr>rx := r\<rparr>) = sys_core s"
  by (simp add: sys_core_def)

text \<open>Settling with nothing pending.\<close>

lemma settle_trans:
  "sys_core s = Inr cs \<Longrightarrow> update_rex_account E cs k (mk_asset 0 cs) d force s = Inr (pend, s') \<Longrightarrow>
   rex_trans E (X, 0, s) (X, 0, s')"
  using update_rex_account_spec(1) [of s cs E k "mk_asset 0 cs"] by fastforce

section \<open>Funds\<close>

lemma rex_trans_deposit:
  assumes "deposit E k q s = Inr s'"
  shows "rex_trans E ({}, 0, s) ({}, 0, s')"
proof -
  obtain cs r where cs: "sys_core s = Inr cs" and t: "transfer_to_fund cs k q (rx s) = Inr r"
    and s': "s' = (send_transfer E [k] k (lit E ''eosio.rex'') q ''deposit to REX fund'' s)\<lparr>rx := r\<rparr>"
    using assms by (auto simp: deposit_def res_simps)
  show ?thesis
  proof (rule rex_trans_emit)
    show "rammarket s' = rammarket s" "sys_out s' = sys_out s @ [Inline (lit E ''eosio.token'') (map (at_active E) [k])
        (TokenTransfer k (lit E ''eosio.rex'') q ''deposit to REX fund'')]" (is "_ = _ @ [?e]")
      by (simp_all add: s' send_transfer_def emit_def)
    fix c
    assume a: "sys_core s = Inr c" "transfers_ok [?e]" "rex_rows c {} (rx s)" "liab (rx s) + 0 + moved_in (lit E ''eosio.rex'') [?e] \<le> rex_cap"
    have c: "c = cs" using a(1) cs by simp
    have m: "moved_in (lit E ''eosio.rex'') [?e] = amount q" "moved_out (lit E ''eosio.rex'') [?e] = 0" "0 < amount q"
      using a(2) by (auto simp: moved_one transfers_ok_one)
    have "0 \<le> liab (rx s)" using lendable_le_liab [OF a(3)] rex_parts_nonneg(2) [OF a(3)] by simp
    then show "rex_rows c {} (rx s') \<and> (0::int) \<le> 0 \<and> liab (rx s') + 0 =
        liab (rx s) + 0 + moved_in (lit E ''eosio.rex'') [?e] - moved_out (lit E ''eosio.rex'') [?e]"
      using transfer_to_fund_spec(1,2) [OF a(3) [unfolded c] _ _ t] a(4) m c by (simp add: s')
  qed
qed

lemma rex_trans_withdraw:
  assumes "asset_laws E" "withdraw E k q s = Inr s'"
  shows "rex_trans E ({}, 0, s) ({}, 0, s')"
proof -
  obtain cs pend s1 r where cs: "sys_core s = Inr cs"
    and u: "update_rex_account E cs k (mk_asset 0 cs) (mk_asset 0 cs) False s = Inr (pend, s1)"
    and t: "transfer_from_fund E cs k q (rx s1) = Inr r"
    and s': "s' = send_transfer E [lit E ''eosio.rex''] (lit E ''eosio.rex'') k q ''withdraw from REX fund'' (s1\<lparr>rx := r\<rparr>)"
    using assms(2) by (auto simp: withdraw_def res_simps)
  note t1 = settle_trans [OF cs u, of "{}"]
  have "rex_trans E ({}, 0, s1) ({}, 0, s')"
  proof (rule rex_trans_emit)
    show "rammarket s' = rammarket s1" "sys_out s' = sys_out s1 @ [Inline (lit E ''eosio.token'')
        (map (at_active E) [lit E ''eosio.rex'']) (TokenTransfer (lit E ''eosio.rex'') k q ''withdraw from REX fund'')]" (is "_ = _ @ [?e]")
      by (simp_all add: s' send_transfer_def emit_def)
    fix c
    assume a: "sys_core s1 = Inr c" "transfers_ok [?e]" "rex_rows c {} (rx s1)" "liab (rx s1) + 0 + moved_in (lit E ''eosio.rex'') [?e] \<le> rex_cap"
    have c: "c = cs" using a(1) cs rex_trans_core [OF t1] by simp
    have m: "moved_in (lit E ''eosio.rex'') [?e] = 0" "moved_out (lit E ''eosio.rex'') [?e] = amount q"
      using a(2) by (auto simp: moved_one transfers_ok_one)
    show "rex_rows c {} (rx s') \<and> (0::int) \<le> 0 \<and> liab (rx s') + 0 =
        liab (rx s1) + 0 + moved_in (lit E ''eosio.rex'') [?e] - moved_out (lit E ''eosio.rex'') [?e]"
      using transfer_from_fund_spec(1,2) [OF assms(1) a(3) [unfolded c] _ t] a(4) m c by (simp add: s')
  qed
  with t1 show ?thesis by (rule rex_trans_trans)
qed

section \<open>Buying\<close>

lemma rex_trans_buyrex:
  assumes "asset_laws E" "buyrex E k q s = Inr s'"
  shows "rex_trans E ({}, 0, s) ({}, 0, s')"
proof -
  obtain cs r1 rec d r2 s1 pend s2 where cs: "sys_core s = Inr cs" and q: "symb q = cs" "0 < amount q"
    and t: "transfer_from_fund E cs k q (rx s) = Inr r1" and b: "buy_into_pool E cs k q r1 = Inr ((rec, d), r2)"
    and rr: "runrex E 2 (put_rx r2 s) = Inr s1"
    and u: "update_rex_account E cs k (mk_asset 0 cs) d False s1 = Inr (pend, s2)"
    and s': "s' = send_result E (RexBuyResult rec) s2"
    using assms(2) by (auto simp: buyrex_def res_simps)
  have "rex_trans E ({}, 0, s) ({}, 0, put_rx r2 s)"
  proof (rule rex_trans_rx)
    fix c
    assume a: "sys_core s = Inr c" "rex_rows c {} (rx s)" "liab (rx s) + 0 \<le> rex_cap"
    have c: "c = cs" using a(1) cs by simp
    have cap: "liab (rx s) \<le> rex_cap" using a by simp
    note T = transfer_from_fund_spec [OF assms(1) a(2) [unfolded c] cap t]
    have "liab r1 + amount q \<le> rex_cap" using T(2) cap by simp
    note B = buy_into_pool_spec [OF assms(1) T(1) this q(2,1) b]
    show "rex_rows c {} (rx (put_rx r2 s)) \<and> (0::int) \<le> 0 \<and> liab (rx (put_rx r2 s)) + 0 = liab (rx s) + 0"
      using B T(2) c by simp
  qed simp_all
  also note rr1 = rex_trans_runrex [OF assms(1) rr, of 0]
  also have cs1: "sys_core s1 = Inr cs" using rex_trans_core [OF rr1] cs by simp
  note settle_trans [OF cs1 u, of "{}"]
  also have "rex_trans E ({}, 0, s2) ({}, 0, s')" unfolding s' by (rule rex_trans_result) simp
  finally show ?thesis .
qed

lemma rex_trans_unstaketorex:
  assumes "asset_laws E" "unstaketorex E k j n c s = Inr s'"
  shows "rex_trans E ({}, 0, s) ({}, 0, s')"
proof -
  obtain cs d1 s2 pay rec d r1 s4 pend s5 where cs: "sys_core s = Inr cs" and syms: "symb n = cs"
    and lim: "update_resource_limits E j (wrap64 (- amount n)) (wrap64 (- amount c)) (s\<lparr>bw := (bw s)\<lparr>delband := d1\<rparr>\<rparr>) = Inr s2"
    and pay: "asset_plus E n c = Inr pay"
    and b: "buy_into_pool E cs k pay (rx s2) = Inr ((rec, d), r1)"
    and rr: "runrex E 2 (put_rx r1 (send_transfer E [lit E ''eosio.stake''] (lit E ''eosio.stake'') (lit E ''eosio.rex'') pay
                ''buy REX with staked tokens'' s2)) = Inr s4"
    and u: "update_rex_account E cs k (mk_asset 0 cs) (mk_asset 0 cs) True s4 = Inr (pend, s5)"
    and s': "s' = send_result E (RexBuyResult rec) s5"
    using assms(2) unfolding unstaketorex_def by (auto simp: res_simps Let_def)
  have sp: "symb pay = cs" using pay syms assms(1) by (simp add: asset_plus_iff)
  have fr: "rx s2 = rx s" "rammarket s2 = rammarket s" "sys_out s2 = sys_out s"
    using update_resource_limits_frame [OF lim] by simp_all
  let ?s3 = "put_rx r1 (send_transfer E [lit E ''eosio.stake''] (lit E ''eosio.stake'') (lit E ''eosio.rex'') pay
                ''buy REX with staked tokens'' s2)"
  have "rex_trans E ({}, 0, s) ({}, 0, ?s3)"
  proof (rule rex_trans_emit)
    show "rammarket ?s3 = rammarket s" "sys_out ?s3 = sys_out s @ [Inline (lit E ''eosio.token'')
        (map (at_active E) [lit E ''eosio.stake'']) (TokenTransfer (lit E ''eosio.stake'') (lit E ''eosio.rex'') pay
                ''buy REX with staked tokens'')]" (is "_ = _ @ [?e]")
      using fr by (simp_all add: send_transfer_def emit_def)
    fix y
    assume a: "sys_core s = Inr y" "transfers_ok [?e]" "rex_rows y {} (rx s)" "liab (rx s) + 0 + moved_in (lit E ''eosio.rex'') [?e] \<le> rex_cap"
    have y: "y = cs" using a(1) cs by simp
    have m: "moved_in (lit E ''eosio.rex'') [?e] = amount pay" "moved_out (lit E ''eosio.rex'') [?e] = 0" "0 < amount pay"
      using a(2) by (auto simp: moved_one transfers_ok_one)
    show "rex_rows y {} (rx ?s3) \<and> (0::int) \<le> 0 \<and> liab (rx ?s3) + 0 =
        liab (rx s) + 0 + moved_in (lit E ''eosio.rex'') [?e] - moved_out (lit E ''eosio.rex'') [?e]"
      using buy_into_pool_spec(1,2) [OF assms(1) a(3) [unfolded y] _ m(3) sp b [unfolded fr]] a(4) m y by simp
  qed
  also note rr1 = rex_trans_runrex [OF assms(1) rr, of 0]
  also have cs4: "sys_core s4 = Inr cs" using rex_trans_core [OF rr1] cs fr by (simp add: sys_core_def send_transfer_def emit_def)
  note settle_trans [OF cs4 u, of "{}"]
  also have "rex_trans E ({}, 0, s5) ({}, 0, s')" unfolding s' by (rule rex_trans_result) simp
  finally show ?thesis .
qed

section \<open>Selling\<close>

lemma rex_trans_put_bal:
  assumes "\<And>cs. rex_rows cs {} (rx s) \<Longrightarrow> t_get (rexbalance (rx s)) k = Some b \<and> bal_off 0 b' \<and>
      rex_amount b' = rex_amount b \<and> covers (rx s) k b'"
  shows "rex_trans E ({}, 0, s) ({}, 0, put_rx (put_bal k b' (rx s)) s)"
proof (rule rex_trans_rx)
  fix cs
  assume a: "rex_rows cs {} (rx s)"
  then show "rex_rows cs {} (rx (put_rx (put_bal k b' (rx s)) s)) \<and> (0::int) \<le> 0 \<and>
      liab (rx (put_rx (put_bal k b' (rx s)) s)) + 0 = liab (rx s) + 0"
    using assms [OF a] by (auto intro: rex_rows_same_bal [OF a])
qed simp_all

lemma rex_trans_mature:
  assumes "t_get (rexbalance (rx s)) k = Some b"
  shows "rex_trans E ({}, 0, s) ({}, 0, put_rx (put_bal k (process_rex_maturities E b) (rx s)) s)"
proof (rule rex_trans_put_bal)
  fix cs assume a: "rex_rows cs {} (rx s)"
  have "covered (rx s) k" using a by (simp add: rex_rows_def)
  then show "t_get (rexbalance (rx s)) k = Some b \<and> bal_off 0 (process_rex_maturities E b) \<and>
      rex_amount (process_rex_maturities E b) = rex_amount b \<and> covers (rx s) k (process_rex_maturities E b)"
    using assms process_off [OF bal_le_total(1) [OF a assms], of E] covered_covers [OF _ assms] by simp
qed

lemma rex_trans_fill:
  assumes "asset_laws E" "sys_core s = Inr cs" "fill_rex_order E cs k rex (rx s) = Inr (out, r')"
    and "t_get (rexbalance (rx s)) k = Some b" "0 < amount rex" "amount rex \<le> matured_rex b"
  shows "rex_trans E ({}, 0, s) (if success out then {k} else {}, amount (out_proceeds out), put_rx r' s)"
proof (rule rex_trans_rx)
  fix c
  assume a: "sys_core s = Inr c" "rex_rows c {} (rx s)" "liab (rx s) + 0 \<le> rex_cap"
  have c: "c = cs" and cap: "liab (rx s) \<le> rex_cap" using a assms(2) by simp_all
  note F = fill_rex_order_spec [OF assms(1) a(2) [unfolded c] cap assms(5,4,6,3)]
  show "rex_rows c (if success out then {k} else {}) (rx (put_rx r' s)) \<and> 0 \<le> amount (out_proceeds out) \<and>
      liab (rx (put_rx r' s)) + amount (out_proceeds out) = liab (rx s) + 0"
    using F(1-3,6) a(2) c by auto
qed simp_all

lemma rex_trans_covered:
  assumes "t_get (rexbalance (rx s)) k = Some b" "open_amount (rx s) k \<le> matured_rex b"
  shows "rex_trans E ({k}, p, s) ({}, p, s)"
proof (rule rex_trans_rx)
  fix cs assume a: "rex_rows cs {k} (rx s)" "0 \<le> p"
  have "covered (rx s) k" using assms by (auto simp: covered_def open_amount_def)
  then show "rex_rows cs {} (rx s) \<and> 0 \<le> p \<and> liab (rx s) + p = liab (rx s) + p"
    using a by (auto intro: rex_rows_settled)
qed simp_all

lemma matured_small:
  assumes "rex_rows cs X r" "liab r \<le> rex_cap" "t_get (rexbalance r) k = Some b"
  shows "matured_rex b \<le> 4000000000000000000" "amount (rex_amount b) \<le> 4000000000000000000"
proof -
  obtain p where p: "rexpool r = Some p" using assms(1,3) by (cases "rexpool r") (auto simp: rex_rows_def)
  note B = pool_bounds [OF assms(1) p assms(2)] bal_le_total [OF assms(1,3)]
  show "matured_rex b \<le> 4000000000000000000" "amount (rex_amount b) \<le> 4000000000000000000"
    using B bucket_sum_nonneg [of "rex_maturities b"] by (auto simp: bal_off_def)
qed

text \<open>The order of a seller that the pool cannot serve at once.\<close>

lemma rex_trans_queue:
  assumes "sys_core s = Inr cs" "0 < amount rex" "t_get (rexbalance (rx s)) k = Some b" "amount rex \<le> matured_rex b"
    and "\<And>o1. t_get (rexorders (rx s)) k = Some o1 \<Longrightarrow> is_open o1"
    and "ord = (case t_get (rexorders (rx s)) k of
                    None \<Rightarrow> \<lparr>order_owner = k, rex_requested = rex, proceeds = mk_asset 0 cs,
                             stake_change = mk_asset 0 cs, order_time = now, is_open = True\<rparr>
                  | Some ord \<Rightarrow> ord\<lparr>rex_requested := add_amt (amount rex) (rex_requested ord)\<rparr>)"
    and "amount (rex_requested ord) \<le> matured_rex b"
  shows "rex_trans E ({}, 0, s) ({}, 0, put_rx ((rx s)\<lparr>rexorders := t_set k ord (rexorders (rx s))\<rparr>) s)"
proof (rule rex_trans_rx)
  fix c
  assume a: "sys_core s = Inr c" "rex_rows c {} (rx s)" "liab (rx s) + 0 \<le> rex_cap"
  have c: "c = cs" and cap: "liab (rx s) \<le> rex_cap" using a assms(1) by simp_all
  have "is_open ord \<and> order_ok c k ord \<and> (\<forall>o1. t_get (rexorders (rx s)) k = Some o1 \<longrightarrow> is_open o1)"
  proof (cases "t_get (rexorders (rx s)) k")
    case (Some o1)
    have o1: "is_open o1" using assms(5) Some .
    note O = order_le_liab(1) [OF a(2) Some]
    have pos: "0 < amount (rex_requested o1)" using O o1 by (simp add: order_ok_def)
    have "covered (rx s) k" using a(2) by (simp add: rex_rows_def)
    then have m: "amount (rex_requested o1) \<le> matured_rex b" using Some o1 assms(3) by (auto simp: covered_def)
    have "wrap64 (amount (rex_requested o1) + amount rex) = amount (rex_requested o1) + amount rex"
      using pos m assms(2,4) matured_small [OF a(2) cap assms(3)] by (intro wrap_small) auto
    then show ?thesis using Some o1 O pos assms(2) by (simp add: assms(6) order_ok_def)
  qed (simp add: assms(2,6) order_ok_def c)
  then have o: "is_open ord" "order_ok c k ord" "\<And>o1. t_get (rexorders (rx s)) k = Some o1 \<Longrightarrow> is_open o1" by blast+
  show "rex_rows c {} (rx (put_rx ((rx s)\<lparr>rexorders := t_set k ord (rexorders (rx s))\<rparr>) s)) \<and> (0::int) \<le> 0 \<and>
      liab (rx (put_rx ((rx s)\<lparr>rexorders := t_set k ord (rexorders (rx s))\<rparr>) s)) + 0 = liab (rx s) + 0"
    using rex_rows_put_order [OF a(2) o(2), of "{}"] o(1,3) assms(3,7)
    by (auto simp: liab_put_order closed_proceeds_def split: option.splits)
qed simp_all

lemma rex_trans_sellrex:
  assumes "asset_laws E" "sellrex E k rex s = Inr s'"
  shows "rex_trans E ({}, 0, s) ({}, 0, s')"
proof -
  let ?ord = "\<lambda>cs (r :: rex_state). case t_get (rexorders r) k of
                    None \<Rightarrow> \<lparr>order_owner = k, rex_requested = rex, proceeds = mk_asset 0 cs,
                             stake_change = mk_asset 0 cs, order_time = current_time E, is_open = True\<rparr>
                  | Some ord \<Rightarrow> ord\<lparr>rex_requested := add_amt (amount rex) (rex_requested ord)\<rparr>"
  obtain s1 b cs cur r3 pend s4 b5 total s5 where rr: "runrex E 2 s = Inr s1"
    and b: "t_get (rexbalance (rx s1)) k = Some b" and pos: "0 < amount rex"
    and m: "amount rex \<le> matured_rex (process_rex_maturities E b)" and cs: "sys_core s1 = Inr cs"
    and fill: "fill_rex_order E cs k rex (put_bal k (process_rex_maturities E b) (rx s1)) = Inr (cur, r3)"
    and u: "update_rex_account E cs k (out_proceeds cur) (out_stake_change cur) False (put_rx r3 s1) = Inr (pend, s4)"
    and br: "(total, s5) = (if success cur then (amount pend, s4)
      else (amount (rex_requested (?ord cs (rx s4))),
            put_rx ((rx s4)\<lparr>rexorders := t_set k (?ord cs (rx s4)) (rexorders (rx s4))\<rparr>) s4))"
    and b5: "t_get (rexbalance (rx s5)) k = Some b5" "total \<le> matured_rex b5"
    and s': "s' = (if success cur then send_result E (RexSellResult (out_proceeds cur)) s5 else s5)"
    using assms(2) by (auto simp: sellrex_def res_simps Let_def split: if_splits)
  define s2 where "s2 = put_rx (put_bal k (process_rex_maturities E b) (rx s1)) s1"
  have b2: "t_get (rexbalance (rx s2)) k = Some (process_rex_maturities E b)" by (simp add: s2_def)
  have cs2: "sys_core s2 = Inr cs" using cs by (simp add: s2_def)
  have s23: "put_rx r3 s1 = put_rx r3 s2" by (simp add: s2_def put_rx_def)
  have fill2: "fill_rex_order E cs k rex (rx s2) = Inr (cur, r3)" using fill by (simp add: s2_def)
  have cs3: "sys_core (put_rx r3 s2) = Inr cs" using cs2 by simp
  note A = update_rex_account_spec [OF cs3 u [unfolded s23]]
  have "rex_trans E ({}, 0, s) ({}, 0, s1)" by (rule rex_trans_runrex [OF assms(1) rr])
  also have "rex_trans E ({}, 0, s1) ({}, 0, s2)" unfolding s2_def by (rule rex_trans_mature [OF b])
  also note rex_trans_fill [OF assms(1) cs2 fill2 b2 pos m]
  also have "rex_trans E (if success cur then {k} else {}, amount (out_proceeds cur), put_rx r3 s2)
      (if success cur then {k} else {}, 0, s4)"
    by (rule A(1))
  also have "rex_trans E (if success cur then {k} else {}, 0, s4) ({}, 0, s5)"
  proof (cases "success cur")
    case True
    have oa: "open_amount (rx s4) k = amount pend"
      using A(2,4) by (auto simp: open_amount_def drop_closed_def split: option.splits)
    show ?thesis using True br b5 oa by (auto intro!: rex_trans_covered)
  next
    case False
    then have r3: "r3 = rx s2" using fill2 b2 by (auto simp: fill_rex_order_def res_simps Let_def split: if_splits)
    have b4: "t_get (rexbalance (rx s4)) k = Some (process_rex_maturities E b)" using A(3) r3 b2 by simp
    have o4: "is_open o1" if "t_get (rexorders (rx s4)) k = Some o1" for o1
      using that A(4) by (auto simp: drop_closed_def split: option.splits if_splits)
    have "rexbalance (rx s5) = rexbalance (rx s4)" using br False by simp
    then have "amount (rex_requested (?ord cs (rx s4))) \<le> matured_rex (process_rex_maturities E b)"
      using b5 b4 br False by simp
    moreover have "sys_core s4 = Inr cs" using rex_trans_core [OF A(1)] cs3 by simp
    ultimately show ?thesis
      using False br rex_trans_queue [OF _ pos b4 m o4 refl, of cs "current_time E"] by simp
  qed
  also have "rex_trans E ({}, 0, s5) ({}, 0, s')" unfolding s' by (auto intro: rex_trans_result)
  finally show ?thesis .
qed

lemma rex_trans_cnclrexorder:
  assumes "cnclrexorder E k s = Inr s'"
  shows "rex_trans E ({}, 0, s) ({}, 0, s')"
proof -
  obtain ord where ord: "t_get (rexorders (rx s)) k = Some ord" "is_open ord"
    and s': "s' = put_rx ((rx s)\<lparr>rexorders := t_del k (rexorders (rx s))\<rparr>) s"
    using assms by (auto simp: cnclrexorder_def res_simps)
  show ?thesis
    by (rule rex_trans_rx) (use ord in \<open>auto simp: s' liab_del_order closed_proceeds_def intro: rex_rows_del_order\<close>)
qed

end
