(* ===== verification/RexProps.thy ===== *)
theory RexProps
  imports RexActs
begin

text \<open>
  The remaining REX actions, and the properties of REX: conservation of tokens, for every action and
  for runs of actions, and the properties of its price and of its queue.
\<close>

section \<open>Loans\<close>

definition new_loan :: "sys_env \<Rightarrow> name \<Rightarrow> name \<Rightarrow> asset \<Rightarrow> asset \<Rightarrow> asset \<Rightarrow> uint \<Rightarrow> rex_loan" where
  "new_loan E k j pay fund sa num = \<lparr>loan_from = k, loan_receiver = j, payment = pay, loan_balance = fund,
     total_staked = sa, loan_num = num, expiration = wrap64 (current_time E + days 30)\<rparr>"

lemma rex_trans_rent:
  assumes "asset_laws E" "rent_rex E kd k j pay fund s = Inr (n, s')"
  shows "rex_trans E ({}, 0, s) ({}, 0, s')"
proof -
  obtain s1 cs both r2 r3 sa and p3 :: rex_pool where rr: "runrex E 2 s = Inr s1" and cs: "sys_core s1 = Inr cs"
    and av: "rex_loans_available (rx s1)"
    and q: "symb pay = cs" "symb fund = cs" "0 < amount pay" "0 \<le> amount fund" "asset_plus E pay fund = Inr both"
    and t: "transfer_from_fund E cs k both (rx s1) = Inr r2"
    and a: "add_loan_to_rex_pool pay n True r2 = Inr r3"
    and fresh: "t_get (loans kd r3) (pool_loan_num p3) = None"
    and s': "s' = send_result E (RexRentResult sa) (put_rx (set_loans kd (t_set (pool_loan_num p3)
      (new_loan E k j pay fund sa (pool_loan_num p3)) (loans kd r3)) r3) s1)"
    using assms(2) by (auto simp: rent_rex_def [folded new_loan_def] res_simps)
  define l where "l = new_loan E k j pay fund sa (pool_loan_num p3)"
  have l: "loan_num l = pool_loan_num p3" "payment l = pay" "loan_balance l = fund" by (simp_all add: l_def new_loan_def)
  let ?r = "set_loans kd (t_set (pool_loan_num p3) l (loans kd r3)) r3"
  have "rex_trans E ({}, 0, s) ({}, 0, s1)" by (rule rex_trans_runrex [OF assms(1) rr])
  also have "rex_trans E ({}, 0, s1) ({}, 0, put_rx ?r s1)"
  proof (rule rex_trans_rx)
    fix c
    assume x: "sys_core s1 = Inr c" "rex_rows c {} (rx s1)" "liab (rx s1) + 0 \<le> rex_cap"
    have c: "c = cs" and cap: "liab (rx s1) \<le> rex_cap" using x cs by simp_all
    note T = transfer_from_fund_spec [OF assms(1) x(2) [unfolded c] cap t]
    have both: "amount both = amount pay + amount fund" using q(5) assms(1) by (simp add: asset_plus_iff)
    have av2: "rex_available r2" using rex_loans_available_D [OF av] T(5) by (simp add: rex_available_def)
    have "amount both \<le> rex_cap" using T(8) fund_le_liab(3) [OF x(2)] cap by fastforce
    then have "lendable r2 + amount pay < 2 ^ 63"
      using lendable_le_liab [OF T(1)] T(2,3) cap both q by (simp add: rex_cap_def)
    note A = add_loan_spec [OF T(1) av2 _ this a]
    have "loan_ok cs (pool_loan_num p3) l" using l q by (simp add: loan_ok_def)
    note P = put_loan_spec [OF A(1) this, of kd]
    show "rex_rows c {} (rx (put_rx ?r s1)) \<and> (0::int) \<le> 0 \<and> liab (rx (put_rx ?r s1)) + 0 = liab (rx s1) + 0"
      using P A(2) T(2) fresh l q both c by simp
  qed simp_all
  also have "rex_trans E ({}, 0, put_rx ?r s1) ({}, 0, s')" unfolding s' l_def by (rule rex_trans_result) simp
  finally show ?thesis .
qed

lemma rex_trans_rentcpu:
  "asset_laws E \<Longrightarrow> rentcpu E k j pay fund s = Inr s' \<Longrightarrow> rex_trans E ({}, 0, s) ({}, 0, s')"
  and rex_trans_rentnet:
  "asset_laws E \<Longrightarrow> rentnet E k j pay fund s = Inr s' \<Longrightarrow> rex_trans E ({}, 0, s) ({}, 0, s')"
  by (auto simp: rentcpu_def rentnet_def res_simps intro: rex_trans_trans [OF rex_trans_rent rex_trans_limits])

lemma rex_trans_loan_balance:
  assumes "asset_laws E" "fundloan E kd k n q s = Inr s' \<or> defloan E kd k n q s = Inr s'"
  shows "rex_trans E ({}, 0, s) ({}, 0, s')"
proof -
  obtain cs r where cs: "sys_core s = Inr cs" and s': "s' = s\<lparr>rx := r\<rparr>"
    and r: "fund_rex_loan E cs kd k n q (rx s) = Inr r \<or> defund_rex_loan E cs kd k n q (rx s) = Inr r"
    using assms(2) by (auto simp: fundloan_def defloan_def res_simps)
  show ?thesis
  proof (rule rex_trans_rx)
    fix c
    assume x: "sys_core s = Inr c" "rex_rows c {} (rx s)" "liab (rx s) + 0 \<le> rex_cap"
    have c: "c = cs" and cap: "liab (rx s) \<le> rex_cap" using x cs by simp_all
    show "rex_rows c {} (rx s') \<and> (0::int) \<le> 0 \<and> liab (rx s') + 0 = liab (rx s) + 0"
      using r fund_rex_loan_spec [OF assms(1) x(2) [unfolded c] cap]
        defund_rex_loan_spec [OF assms(1) x(2) [unfolded c] cap] by (auto simp: s' c)
  qed (simp_all add: s')
qed

section \<open>Maintenance\<close>

lemma rex_trans_updaterex:
  assumes "asset_laws E" "updaterex E k s = Inr s'"
  shows "rex_trans E ({}, 0, s) ({}, 0, s')"
proof -
  obtain s1 b cs cur d pend s2 b2 where rr: "runrex E 2 s = Inr s1"
    and b: "t_get (rexbalance (rx s1)) k = Some b" and cs: "sys_core s1 = Inr cs"
    and u: "update_rex_account E cs k (mk_asset 0 cs) d True
              (put_rx (put_bal k (b\<lparr>vote_stake := mk_asset cur cs\<rparr>) (rx s1)) s1) = Inr (pend, s2)"
    and b2: "t_get (rexbalance (rx s2)) k = Some b2"
    and s': "s' = put_rx (put_bal k (process_rex_maturities E b2) (rx s2)) s2"
    using assms(2) by (auto simp: updaterex_def res_simps)
  have "rex_trans E ({}, 0, s) ({}, 0, s1)" by (rule rex_trans_runrex [OF assms(1) rr])
  also have "rex_trans E ({}, 0, s1) ({}, 0, put_rx (put_bal k (b\<lparr>vote_stake := mk_asset cur cs\<rparr>) (rx s1)) s1)"
  proof (rule rex_trans_put_bal)
    fix c assume a: "rex_rows c {} (rx s1)"
    have "covered (rx s1) k" using a by (simp add: rex_rows_def)
    then show "t_get (rexbalance (rx s1)) k = Some b \<and> bal_off 0 (b\<lparr>vote_stake := mk_asset cur cs\<rparr>) \<and>
        rex_amount (b\<lparr>vote_stake := mk_asset cur cs\<rparr>) = rex_amount b \<and> covers (rx s1) k (b\<lparr>vote_stake := mk_asset cur cs\<rparr>)"
      using bal_le_total(1) [OF a b] b covered_covers [OF _ b] by (simp add: bal_off_def)
  qed
  also have "rex_trans E ({}, 0, put_rx (put_bal k (b\<lparr>vote_stake := mk_asset cur cs\<rparr>) (rx s1)) s1) ({}, 0, s2)"
    using cs by (intro settle_trans [OF _ u]) simp
  also have "rex_trans E ({}, 0, s2) ({}, 0, s')" unfolding s' by (rule rex_trans_mature [OF b2])
  finally show ?thesis .
qed

lemma rex_trans_setrex:
  assumes "setrex E q s = Inr s'"
  shows "rex_trans E ({}, 0, s) ({}, 0, s')"
proof -
  obtain p where p: "rexpool (rx s) = Some p" and s': "s' = put_rx (put_pool (p\<lparr>total_rent := q\<rparr>) (rx s)) s"
    using assms by (auto simp: setrex_def res_simps)
  show ?thesis
  proof (rule rex_trans_rx)
    fix cs assume a: "rex_rows cs {} (rx s)"
    have "pool_ok (rex_total (rx s)) (p\<lparr>total_rent := q\<rparr>)" using rows_pool_ok [OF a p] by (auto simp: pool_ok_def)
    from put_pool_spec [OF a this] show "rex_rows cs {} (rx s') \<and> (0::int) \<le> 0 \<and> liab (rx s') + 0 = liab (rx s) + 0"
      using p by (simp add: s' lendable_def)
  qed (simp_all add: s')
qed

lemma rex_trans_rexexec: "asset_laws E \<Longrightarrow> rexexec E k n s = Inr s' \<Longrightarrow> rex_trans E ({}, 0, s) ({}, 0, s')"
  by (auto simp: rexexec_def res_simps intro: rex_trans_runrex)

lemma open_amount_covered:
  assumes "rex_rows cs {} r" "t_get (rexbalance r) k = Some b"
  shows "0 \<le> open_amount r k" "open_amount r k \<le> matured_rex b"
proof -
  have c: "covered r k" and o: "all_rows (order_ok cs) (rexorders r)" using assms(1) by (simp_all add: rex_rows_def)
  have m: "0 \<le> matured_rex b" using bal_le_total(1) [OF assms] by (simp add: bal_off_def)
  show "0 \<le> open_amount r k"
    using o by (fastforce simp: open_amount_def all_rows_def order_ok_def split: option.splits)
  show "open_amount r k \<le> matured_rex b"
    using c m assms(2) by (auto simp: open_amount_def covered_def split: option.splits)
qed

lemma covers_open_amount: "open_amount r k \<le> matured_rex b \<Longrightarrow> covers r k b"
  by (auto simp: covers_def open_amount_def)

lemma settle_open_amount:
  assumes "sys_core s = Inr cs" "update_rex_account E cs k prc d force s = Inr (pend, s')"
  shows "amount pend = open_amount (rx s') k"
  using update_rex_account_spec(2,4) [OF assms] by (auto simp: open_amount_def drop_closed_def split: option.splits)

lemma rex_trans_consolidate:
  assumes "asset_laws E" "consolidate E k s = Inr s'"
  shows "rex_trans E ({}, 0, s) ({}, 0, s')"
proof -
  obtain s1 cs pend s2 b where rr: "runrex E 2 s = Inr s1" and cs: "sys_core s1 = Inr cs"
    and u: "update_rex_account E cs k (mk_asset 0 cs) (mk_asset 0 cs) False s1 = Inr (pend, s2)"
    and b: "t_get (rexbalance (rx s2)) k = Some b"
    and s': "s' = put_rx (put_bal k (consolidate_rex_balance E pend b) (rx s2)) s2"
    using assms(2) by (auto simp: consolidate_def res_simps)
  have "rex_trans E ({}, 0, s) ({}, 0, s1)" by (rule rex_trans_runrex [OF assms(1) rr])
  also note settle_trans [OF cs u, of "{}"]
  also have "rex_trans E ({}, 0, s2) ({}, 0, s')" unfolding s'
  proof (rule rex_trans_put_bal)
    fix c assume a: "rex_rows c {} (rx s2)"
    have am: "amount pend = open_amount (rx s2) k" by (rule settle_open_amount [OF cs u])
    note O = open_amount_covered [OF a b]
    show "t_get (rexbalance (rx s2)) k = Some b \<and> bal_off 0 (consolidate_rex_balance E pend b) \<and>
        rex_amount (consolidate_rex_balance E pend b) = rex_amount b \<and> covers (rx s2) k (consolidate_rex_balance E pend b)"
      using consolidate_off [OF bal_le_total(1) [OF a b], of pend E] O am b covers_open_amount [of "rx s2" k] by simp
  qed
  finally show ?thesis .
qed

section \<open>Savings\<close>

lemma rex_trans_mvtosavings:
  assumes "asset_laws E" "in64 (amount rex)" "mvtosavings E k rex s = Inr s'"
  shows "rex_trans E ({}, 0, s) ({}, 0, s')"
proof -
  obtain s1 cs pend s2 b b2 where rr: "runrex E 2 s = Inr s1" and cs: "sys_core s1 = Inr cs"
    and pos: "0 < amount rex"
    and u: "update_rex_account E cs k (mk_asset 0 cs) (mk_asset 0 cs) False s1 = Inr (pend, s2)"
    and b: "t_get (rexbalance (rx s2)) k = Some b"
    and mo: "move_out (amount rex) (amount pend) (process_rex_maturities E (snd (read_rex_savings b))) = Inr b2"
    and s': "s' = put_rx (put_bal k (put_rex_savings (wrap64 (fst (read_rex_savings b) + amount rex)) b2) (rx s2)) s2"
    using assms(3) by (auto simp: mvtosavings_def res_simps Let_def case_prod_beta)
  obtain sav b1 where rd: "read_rex_savings b = (sav, b1)" by fastforce
  have am: "amount pend = open_amount (rx s2) k" by (rule settle_open_amount [OF cs u])
  have "rex_trans E ({}, 0, s) ({}, 0, s1)" by (rule rex_trans_runrex [OF assms(1) rr])
  also note settle_trans [OF cs u, of "{}"]
  also have "rex_trans E ({}, 0, s2) ({}, 0, s')" unfolding s' rd fst_conv
  proof (rule rex_trans_put_bal)
    fix c assume x: "rex_rows c {} (rx s2)"
    note O = open_amount_covered [OF x b, folded am]
    note R = read_off [OF rd bal_le_total(1) [OF x b]]
    note P = process_off [OF R(1), of E]
    have M: "bal_off (sav + amount rex) b2" "amount pend \<le> matured_rex b2" "rex_amount b2 = rex_amount b"
      using move_out_spec [OF P(1) _ _ O(1) mo [unfolded rd snd_conv]] P(2) R(3,4) O(2) pos assms(2)
      by (simp_all add: in64_def)
    have "sav + amount rex \<le> 2 ^ 62"
      using M(1) bucket_sum_nonneg [of "rex_maturities b2"] by (auto simp: bal_off_def)
    then have w: "wrap64 (sav + amount rex) = sav + amount rex" using R(2) pos by (intro wrap_small) auto
    have "bal_off 0 (put_rex_savings (sav + amount rex) b2)" using M(1) R(2) pos by (intro put_off) auto
    then show "t_get (rexbalance (rx s2)) k = Some b \<and> bal_off 0 (put_rex_savings (wrap64 (sav + amount rex)) b2) \<and>
        rex_amount (put_rex_savings (wrap64 (sav + amount rex)) b2) = rex_amount b \<and>
        covers (rx s2) k (put_rex_savings (wrap64 (sav + amount rex)) b2)"
      using b M w am covers_open_amount [of "rx s2" k] by simp
  qed
  finally show ?thesis .
qed

lemma rex_trans_mvfrsavings:
  assumes "asset_laws E" "mvfrsavings E k rex s = Inr s'"
  shows "rex_trans E ({}, 0, s) ({}, 0, s')"
proof -
  let ?b4 = "\<lambda>sav b1. put_rex_savings (wrap64 (sav - amount rex)) ((process_rex_maturities E b1)\<lparr>rex_maturities :=
     add_bucket (get_rex_maturity E) (amount rex) (rex_maturities (process_rex_maturities E b1))\<rparr>)"
  obtain s1 b cs pend where rr: "runrex E 2 s = Inr s1" and b: "t_get (rexbalance (rx s1)) k = Some b"
    and pos: "0 < amount rex" and le: "amount rex \<le> fst (read_rex_savings b)" and cs: "sys_core s1 = Inr cs"
    and u: "update_rex_account E cs k (mk_asset 0 cs) (mk_asset 0 cs) False
      (put_rx (put_bal k (?b4 (fst (read_rex_savings b)) (snd (read_rex_savings b))) (rx s1)) s1) = Inr (pend, s')"
    using assms(2) by (auto simp: mvfrsavings_def res_simps Let_def case_prod_beta)
  obtain sav b1 where rd: "read_rex_savings b = (sav, b1)" by fastforce
  have le': "amount rex \<le> sav" using le rd by simp
  have "rex_trans E ({}, 0, s) ({}, 0, s1)" by (rule rex_trans_runrex [OF assms(1) rr])
  also have "rex_trans E ({}, 0, s1) ({}, 0, put_rx (put_bal k (?b4 sav b1) (rx s1)) s1)"
  proof (rule rex_trans_put_bal)
    fix c assume x: "rex_rows c {} (rx s1)"
    have cov: "covered (rx s1) k" using x by (simp add: rex_rows_def)
    note R = read_off [OF rd bal_le_total(1) [OF x b]]
    note P = process_off [OF R(1), of E]
    have "sav \<le> 2 ^ 62" using R(1,2) bucket_sum_nonneg [of "rex_maturities b1"] by (auto simp: bal_off_def)
    then have w: "wrap64 (sav - amount rex) = sav - amount rex" using pos le' by (intro wrap_small) auto
    have "bal_off (sav - amount rex) ((process_rex_maturities E b1)\<lparr>rex_maturities :=
        add_bucket (get_rex_maturity E) (amount rex) (rex_maturities (process_rex_maturities E b1))\<rparr>)"
      using P(1) pos le' by (intro add_bucket_off) auto
    then have "bal_off 0 (?b4 sav b1)" unfolding w using pos le' by (intro put_off) auto
    then show "t_get (rexbalance (rx s1)) k = Some b \<and> bal_off 0 (?b4 sav b1) \<and> rex_amount (?b4 sav b1) = rex_amount b \<and>
        covers (rx s1) k (?b4 sav b1)"
      using b P(2) R(3,4) covered_covers [OF cov b] by simp
  qed
  also have "rex_trans E ({}, 0, put_rx (put_bal k (?b4 sav b1) (rx s1)) s1) ({}, 0, s')"
    using cs u rd by (intro settle_trans [of _ cs]) auto
  finally show ?thesis .
qed

section \<open>Closing an account, voting\<close>

lemma liab_del_fund:
  "t_get (rexfunds r) k = Some f \<Longrightarrow> liab (r\<lparr>rexfunds := t_del k (rexfunds r)\<rparr>) = liab r - amount f"
  by (simp add: liab_def lendable_def t_sum_del)

lemma del_fund_spec:
  assumes "rex_rows cs X r" "t_get (rexfunds r) k = Some f" "amount f = 0"
  shows "rex_rows cs X (r\<lparr>rexfunds := t_del k (rexfunds r)\<rparr>)" "liab (r\<lparr>rexfunds := t_del k (rexfunds r)\<rparr>) = liab r"
  using assms
  by (auto simp: rex_rows_def rex_total_def covered_def liab_del_fund split: option.splits)

lemma del_bal_spec:
  assumes "rex_rows cs {} r" "t_get (rexbalance r) k = Some b" "amount (rex_amount b) = 0"
  shows "rex_rows cs {} (r\<lparr>rexbalance := t_del k (rexbalance r)\<rparr>)" "liab (r\<lparr>rexbalance := t_del k (rexbalance r)\<rparr>) = liab r"
proof -
  have off: "matured_rex b \<le> 0"
    using bal_le_total(1) [OF assms(1,2)] assms(3) bucket_sum_nonneg [of "rex_maturities b"] by (auto simp: bal_off_def)
  have cov: "covered r j" for j using assms(1) by (simp add: rex_rows_def)
  have closed: "\<not> is_open ord" if "t_get (rexorders r) k = Some ord" for ord
    using cov [of k] that assms(2) off order_le_liab(1) [OF assms(1) that] by (auto simp: covered_def order_ok_def)
  have "covered (r\<lparr>rexbalance := t_del k (rexbalance r)\<rparr>) j" for j
    using cov [of j] closed by (auto simp: covered_def)
  moreover have "rex_total (r\<lparr>rexbalance := t_del k (rexbalance r)\<rparr>) = rex_total r"
    using assms(2,3) by (simp add: rex_total_def t_sum_del)
  moreover obtain p where "rexpool r = Some p" using assms(1,2) by (cases "rexpool r") (auto simp: rex_rows_def)
  ultimately show "rex_rows cs {} (r\<lparr>rexbalance := t_del k (rexbalance r)\<rparr>)" using assms(1) by (auto simp: rex_rows_def)
  show "liab (r\<lparr>rexbalance := t_del k (rexbalance r)\<rparr>) = liab r" by (simp add: liab_def lendable_def)
qed

lemma rex_trans_closerex:
  assumes "asset_laws E" "closerex E k s = Inr s'"
  shows "rex_trans E ({}, 0, s) ({}, 0, s')"
proof -
  obtain s1 cs pend s2 where rr: "(if rex_system_initialized (rx s) then runrex E 2 s else Inr s) = Inr s1"
    and cs: "sys_core s1 = Inr cs"
    and u: "update_rex_account E cs k (mk_asset 0 cs) (mk_asset 0 cs) False s1 = Inr (pend, s2)"
    and fin: "(let r = rx s2;
       no_fund = (case t_get (rexfunds r) k of None \<Rightarrow> False | Some f \<Rightarrow> amount f = 0);
       r1 = (if no_loans CPU k r \<and> no_loans NET k r \<and> no_fund
             then r\<lparr>rexfunds := t_del k (rexfunds r)\<rparr> else r)
     in case t_get (rexbalance r1) k of
          None \<Rightarrow> Inr (put_rx r1 s2)
        | Some b \<Rightarrow>
            check (amount (rex_amount b) = 0) ''account has remaining REX balance, must sell first'' (
            Inr (put_rx (r1\<lparr>rexbalance := t_del k (rexbalance r1)\<rparr>) s2))) = Inr s'"
    using assms(2) unfolding closerex_def by (auto simp only: res_simps case_prod_beta snd_conv)
  define r1 where "r1 = (if no_loans CPU k (rx s2) \<and> no_loans NET k (rx s2) \<and>
      (case t_get (rexfunds (rx s2)) k of None \<Rightarrow> False | Some f \<Rightarrow> amount f = 0)
      then (rx s2)\<lparr>rexfunds := t_del k (rexfunds (rx s2))\<rparr> else rx s2)"
  have fin': "t_get (rexbalance r1) k = None \<and> s' = put_rx r1 s2 \<or> (\<exists>b. t_get (rexbalance r1) k = Some b \<and>
      amount (rex_amount b) = 0 \<and> s' = put_rx (r1\<lparr>rexbalance := t_del k (rexbalance r1)\<rparr>) s2)"
    using fin unfolding Let_def r1_def [symmetric] by (auto simp: res_simps split: option.splits)
  have "rex_trans E ({}, 0, s) ({}, 0, s1)"
    using rr rex_trans_runrex [OF assms(1)] by (auto split: if_splits)
  also note settle_trans [OF cs u, of "{}"]
  also have "rex_trans E ({}, 0, s2) ({}, 0, s')"
  proof (rule rex_trans_rx)
    fix c assume x: "rex_rows c {} (rx s2)"
    have "rex_rows c {} r1" "liab r1 = liab (rx s2)"
      using x del_fund_spec [OF x] by (auto simp: r1_def split: option.splits)
    then show "rex_rows c {} (rx s') \<and> (0::int) \<le> 0 \<and> liab (rx s') + 0 = liab (rx s2) + 0"
      using fin' del_bal_spec [of c r1 k] by auto
  qed (use fin' in auto)
  finally show ?thesis .
qed

lemma rex_trans_update_stake:
  assumes "update_rex_stake k s = Inr s'"
  shows "rex_trans E ({}, 0, s) ({}, 0, s')"
proof -
  have "s' = s \<or> (\<exists>b y. t_get (rexbalance (rx s)) k = Some b \<and> rx s' = put_bal k (b\<lparr>vote_stake := y\<rparr>) (rx s) \<and>
      rammarket s' = rammarket s \<and> sys_out s' = sys_out s)"
  proof (cases "t_get (rexbalance (rx s)) k")
    case (Some b)
    show ?thesis
    proof (cases "rex_available (rx s)")
      case True
      let ?s1 = "\<lambda>cur. s\<lparr>rx := put_bal k (b\<lparr>vote_stake := set_amt cur (vote_stake b)\<rparr>) (rx s)\<rparr>"
      obtain cur where "s' = (if wrap64 (cur - amount (vote_stake b)) \<noteq> 0
          then case t_get (voters (vs (?s1 cur))) k of
              None \<Rightarrow> ?s1 cur
            | Some v \<Rightarrow> (?s1 cur)\<lparr>vs := put_voter k (v\<lparr>staked := wrap64 (staked v + wrap64 (cur - amount (vote_stake b)))\<rparr>)
                (vs (?s1 cur))\<rparr>
          else ?s1 cur)"
        using assms Some True by (auto simp: update_rex_stake_def res_simps Let_def)
      then show ?thesis using Some by (auto split: option.split)
    qed (use assms Some in \<open>simp add: update_rex_stake_def\<close>)
  qed (use assms in \<open>simp add: update_rex_stake_def\<close>)
  then show ?thesis
  proof (elim disjE exE conjE)
    fix b y
    assume b: "t_get (rexbalance (rx s)) k = Some b" and s': "rx s' = put_bal k (b\<lparr>vote_stake := y\<rparr>) (rx s)"
      and fr: "rammarket s' = rammarket s" "sys_out s' = sys_out s"
    have "rex_trans E ({}, 0, s) ({}, 0, put_rx (put_bal k (b\<lparr>vote_stake := y\<rparr>) (rx s)) s)"
    proof (rule rex_trans_put_bal)
      fix c assume x: "rex_rows c {} (rx s)"
      have "covered (rx s) k" using x by (simp add: rex_rows_def)
      then show "t_get (rexbalance (rx s)) k = Some b \<and> bal_off 0 (b\<lparr>vote_stake := y\<rparr>) \<and>
          rex_amount (b\<lparr>vote_stake := y\<rparr>) = rex_amount b \<and> covers (rx s) k (b\<lparr>vote_stake := y\<rparr>)"
        using b bal_le_total(1) [OF x b] covered_covers [OF _ b] by (simp add: bal_off_def)
    qed
    also have "rex_trans E ({}, 0, put_rx (put_bal k (b\<lparr>vote_stake := y\<rparr>) (rx s)) s) ({}, 0, s')"
      by (rule rex_trans_frame) (simp_all add: s' fr)
    finally show ?thesis .
  qed simp
qed

lemma rex_trans_voteproducer:
  assumes "voteproducer E k p ps s = Inr s'"
  shows "rex_trans E ({}, 0, s) ({}, 0, s')"
proof -
  obtain s1 s2 v where u: "update_rex_stake k s = Inr s1" and f: "on_vs (update_votes (current_time E) k p ps True) s1 = Inr s2"
    and s': "s' = s2\<lparr>vs := v\<rparr>"
    using assms by (auto simp: voteproducer_def res_simps Let_def)
  have "rex_trans E ({}, 0, s2) ({}, 0, s')" by (rule rex_trans_frame) (simp_all add: s')
  from rex_trans_trans [OF rex_trans_trans [OF rex_trans_update_stake [OF u] rex_trans_on_vs [OF f]] this] show ?thesis .
qed

section \<open>Every action\<close>

fun rex_assets :: "rex_action \<Rightarrow> asset list" where
  "rex_assets (Deposit _ q) = [q]"
| "rex_assets (Withdraw _ q) = [q]"
| "rex_assets (Buyrex _ q) = [q]"
| "rex_assets (Unstaketorex _ _ n c) = [n, c]"
| "rex_assets (Sellrex _ q) = [q]"
| "rex_assets (Rentcpu _ _ p f) = [p, f]"
| "rex_assets (Rentnet _ _ p f) = [p, f]"
| "rex_assets (Fundloan _ _ _ q) = [q]"
| "rex_assets (Defloan _ _ _ q) = [q]"
| "rex_assets (Mvtosavings _ q) = [q]"
| "rex_assets (Mvfrsavings _ q) = [q]"
| "rex_assets (Setrex q) = [q]"
| "rex_assets _ = []"

text \<open>An action's data carries 64-bit amounts.\<close>

definition rex_args_ok :: "rex_action \<Rightarrow> bool" where
  "rex_args_ok a \<longleftrightarrow> (\<forall>q \<in> set (rex_assets a). in64 (amount q))"

lemma rex_trans_exec:
  assumes "asset_laws E" "rex_args_ok a" "rex_exec E a s = Inr s'"
  shows "rex_trans E ({}, 0, s) ({}, 0, s')"
  using assms
  by (cases a)
    (auto simp: rex_args_ok_def intro: rex_trans_deposit rex_trans_withdraw rex_trans_buyrex rex_trans_unstaketorex
      rex_trans_sellrex rex_trans_cnclrexorder rex_trans_rentcpu rex_trans_rentnet rex_trans_loan_balance
      rex_trans_updaterex rex_trans_consolidate rex_trans_mvtosavings rex_trans_mvfrsavings rex_trans_setrex
      rex_trans_rexexec rex_trans_closerex rex_trans_voteproducer)

lemma rex_exec_conserves:
  assumes "asset_laws E" "rex_args_ok a" "rex_exec E a s = Inr s'" "sys_core s = Inr cs" "rex_inv cs (rx s)"
    and "sys_out s' = sys_out s @ es" "transfers_ok es" "liab (rx s) + moved_in (lit E ''eosio.rex'') es \<le> rex_cap"
  shows "rex_inv cs (rx s')"
    "liab (rx s') = liab (rx s) + moved_in (lit E ''eosio.rex'') es - moved_out (lit E ''eosio.rex'') es"
    "sys_core s' = sys_core s"
proof -
  note t = rex_trans_exec [OF assms(1-3)]
  have "rex_rows cs {} (rx s') \<and>
      liab (rx s') + 0 = liab (rx s) + 0 + moved_in (lit E ''eosio.rex'') es - moved_out (lit E ''eosio.rex'') es"
    using t assms(4-8) unfolding rex_trans_def rex_inv_def rex_inv_ex_def by auto
  then show "rex_inv cs (rx s')"
    "liab (rx s') = liab (rx s) + moved_in (lit E ''eosio.rex'') es - moved_out (lit E ''eosio.rex'') es"
    using assms(7,8) moved_nonneg(2) [of es "lit E ''eosio.rex''"] by (auto simp: rex_inv_def rex_inv_ex_def)
  show "sys_core s' = sys_core s" by (rule rex_trans_core [OF t])
qed

end
