(* ===== verification/Custody.thy ===== *)
theory Custody
  imports SysFrames RexProps
begin

text \<open>
  Accounts that hold tokens the system contract owes. \<open>custody\<close> is the contract of such an account: an
  action changes what is owed by at most the tokens it moves in or out of the account. The locale
  derives solvency in every reachable state; the RAM market is its first instance.
\<close>

section \<open>Transactions seen from one account\<close>

definition income :: "name \<Rightarrow> sys_state \<Rightarrow> int" where
  "income a s = moved_in a (sys_out s)"

text \<open>The amounts of an action are 64-bit integers.\<close>

fun sys_amounts :: "sys_action \<Rightarrow> asset list" where
  "sys_amounts (BwAct (Delegatebw _ _ n c _)) = [n, c]"
| "sys_amounts (BwAct (Undelegatebw _ _ n c)) = [n, c]"
| "sys_amounts (RexAct a) = rex_assets a"
| "sys_amounts (AdminAct (Bidname _ _ q)) = [q]"
| "sys_amounts _ = []"

definition sys_args_ok :: "sys_action \<Rightarrow> bool" where
  "sys_args_ok a \<longleftrightarrow> (\<forall>q \<in> set (sys_amounts a). in64 (amount q))"

text \<open>
  A transaction is an action with its inline transfers; \<open>bal\<close> is the balance of the account \<open>acct\<close>, which
  cannot exceed \<open>cap\<close>, the greatest supply of the core token.
\<close>

definition sys_txn :: "string \<Rightarrow> int \<Rightarrow> sys_env \<Rightarrow> sys_action \<Rightarrow> sys_state \<times> int \<Rightarrow> (sys_state \<times> int) res" where
  "sys_txn acct cap E a c = (case c of (s, bal) \<Rightarrow>
     check (sys_args_ok a) ''action data'' (
     rbind (sys_exec E a (s\<lparr>sys_out := []\<rparr>)) (\<lambda>s'.
     check (transfers_ok (sys_out s')) ''token transfer'' (
     check (bal + income (lit E acct) s' - outgo (lit E acct) s' \<le> cap) ''token supply'' (
     Inr (s', bal + income (lit E acct) s' - outgo (lit E acct) s'))))))"

definition sys_ok :: "sys_env \<Rightarrow> bool" where
  "sys_ok E \<longleftrightarrow> asset_laws E \<and> apart E"

definition solvent :: "(sys_state \<Rightarrow> int) \<Rightarrow> (sys_state \<Rightarrow> bool) \<Rightarrow> int \<Rightarrow> sys_state \<times> int \<Rightarrow> bool" where
  "solvent due ok cap c \<longleftrightarrow> (case c of (s, bal) \<Rightarrow> ok s \<and> due s \<le> bal \<and> bal \<le> cap)"

locale custody =
  fixes acct :: string and due :: "sys_state \<Rightarrow> int" and inv :: "sys_state \<Rightarrow> bool" and cap :: int
  assumes due_out: "due (s\<lparr>sys_out := []\<rparr>) = due s"
    and inv_out: "inv s \<Longrightarrow> inv (s\<lparr>sys_out := []\<rparr>)"
    and due_nonneg: "inv s \<Longrightarrow> 0 \<le> due s"
    and cap_nonneg: "0 \<le> cap"
    and step: "sys_ok E \<Longrightarrow> sys_args_ok a \<Longrightarrow> inv s \<Longrightarrow> sys_out s = [] \<Longrightarrow> sys_exec E a s = Inr s' \<Longrightarrow>
      transfers_ok (sys_out s') \<Longrightarrow> due s \<le> cap \<Longrightarrow> due s + income (lit E acct) s' - outgo (lit E acct) s' \<le> cap \<Longrightarrow>
      inv s' \<and> due s' + outgo (lit E acct) s' \<le> due s + income (lit E acct) s'"
begin

lemma txn_solvent:
  assumes "sys_ok E" "solvent due inv cap c" "sys_txn acct cap E a c = Inr c'"
  shows "solvent due inv cap c'"
proof -
  obtain s bal where c: "c = (s, bal)" and i: "inv s" "due s \<le> bal" "bal \<le> cap"
    using assms(2) by (cases c) (auto simp: solvent_def)
  obtain s' where a: "sys_args_ok a" and x: "sys_exec E a (s\<lparr>sys_out := []\<rparr>) = Inr s'" and t: "transfers_ok (sys_out s')"
    and le: "bal + income (lit E acct) s' - outgo (lit E acct) s' \<le> cap"
    and c': "c' = (s', bal + income (lit E acct) s' - outgo (lit E acct) s')"
    using assms(3) by (auto simp: sys_txn_def c res_simps)
  have "inv s' \<and> due s' + outgo (lit E acct) s' \<le> due s + income (lit E acct) s'"
    using step [OF assms(1) a inv_out [OF i(1)] _ x t] le i by (simp add: due_out)
  then show ?thesis using i le by (auto simp: solvent_def c')
qed

lemma solvent_reachable:
  "reachable (sys_txn acct cap) sys_ok c0 c \<Longrightarrow> solvent due inv cap c0 \<Longrightarrow> solvent due inv cap c"
  by (induction rule: reachable.induct) (auto intro: txn_solvent)

lemma covered:
  assumes "reachable (sys_txn acct cap) sys_ok (s0, b0) (s, b)" "inv s0" "due s0 \<le> b0" "b0 \<le> cap"
  shows "0 \<le> due s \<and> due s \<le> b"
  using solvent_reachable [OF assms(1)] assms(2-) due_nonneg by (auto simp: solvent_def)

end

section \<open>Actions that leave an account alone\<close>

lemma sys_okD: "sys_ok E \<Longrightarrow> asset_laws E" "sys_ok E \<Longrightarrow> apart E"
  by (simp_all add: sys_ok_def)

lemma frame_from_empty:
  assumes "sys_ok E" "sys_exec E a s = Inr s'"
  shows "frame E (signers E \<union> sys_senders E a) (sys_writes a) s s'"
  using assms by (intro sys_exec_frame) (auto simp: sys_ok_def)

lemma signer_not_fund: "sys_ok E \<Longrightarrow> f \<in> set fund_names \<Longrightarrow> lit E f \<notin> signers E"
  by (auto simp: sys_ok_def apart_def signers_def)

lemma lit_eq: "sys_ok E \<Longrightarrow> f \<in> set fund_names \<Longrightarrow> g \<in> set fund_names \<Longrightarrow> lit E f = lit E g \<longleftrightarrow> f = g"
  by (simp add: sys_ok_def apart_distinct)

lemma fund_names_mem [simp]: "f \<in> set fund_names \<longleftrightarrow> f = ''eosio.stake'' \<or> f = ''eosio.ram'' \<or> f = ''eosio.ramfee'' \<or>
    f = ''eosio.names'' \<or> f = ''eosio.rex'' \<or> f = ''eosio.net'' \<or> f = ''eosio.infra'' \<or> f = ''eosio.comm'' \<or>
    f = ''eosio.bpay'' \<or> f = ''eosio.wpay'' \<or> f = ''eosio.vpay'' \<or> f = ''eosio.dpay'' \<or> f = ''eosio.oracle''"
  by (auto simp: fund_names_def)

lemma lit_not_self: "sys_ok E \<Longrightarrow> f \<in> set fund_names \<Longrightarrow> lit E f \<noteq> self_acct E"
  by (auto simp: sys_ok_def dest: apart_not_self)

text \<open>An account whose part the action does not write and that is not one of its senders.\<close>

lemma untouched:
  assumes "sys_ok E" "sys_exec E a s = Inr s'" "sys_out s = []" "p \<notin> sys_writes a"
    "f \<in> set fund_names" "lit E f \<notin> sys_senders E a"
  shows "same p E s s'" "outgo (lit E f) s' = 0"
proof -
  note F = frame_from_empty [OF assms(1,2)]
  show "same p E s s'" using F assms(4) by (rule frame_same)
  have "outgo (lit E f) s' = outgo (lit E f) s"
    using signer_not_fund [OF assms(1,5)] assms(6) by (intro frame_outgo [OF F]) simp
  then show "outgo (lit E f) s' = 0" using assms(3) by (simp add: outgo_def)
qed

lemma income_nonneg: "transfers_ok (sys_out s) \<Longrightarrow> 0 \<le> income a s"
  unfolding income_def by (rule moved_nonneg)

lemma income_simps [simp]:
  "income a (s\<lparr>vs := v\<rparr>) = income a s" "income a (s\<lparr>rx := r\<rparr>) = income a s" "income a (s\<lparr>bw := b\<rparr>) = income a s"
  "income a (s\<lparr>rammarket := mk\<rparr>) = income a s" "income a (s\<lparr>namebids := n\<rparr>) = income a s"
  "income a (s\<lparr>bidrefunds := br\<rparr>) = income a s" "income a (put_rx r s) = income a s"
  "income a (put_userres k w s) = income a s" "income a (set_resource_limits k x y z s) = income a s"
  "income a (drop_if_empty k w s) = income a s" "income a (put_gst g s) = income a s"
  "income a (send_transfer E as f t q m s) = income a s + (if t = a then amount q else 0)"
  by (simp_all add: income_def put_rx_def send_transfer_def emit_def moved_one put_userres_def set_resource_limits_def
      drop_if_empty_def put_gst_def)

lemma income_emit [simp]: "effect_transfer e = None \<Longrightarrow> income a (emit e s) = income a s"
  by (simp add: income_def emit_def moved_one)

section \<open>The RAM market\<close>

text \<open>\<open>total_ram_stake\<close> is what \<open>eosio.ram\<close> holds for the RAM in use.\<close>

definition ram_due :: "sys_state \<Rightarrow> int" where
  "ram_due s = total_ram_stake (gst (vs s))"

definition ram_inv :: "sys_state \<Rightarrow> bool" where
  "ram_inv s \<longleftrightarrow> 0 \<le> ram_due s"

lemma ram_supply_frame:
  assumes "update_ram_supply E s = Inr s'"
  shows "ram_due s' = ram_due s \<and> sys_out s' = sys_out s"
  using assms by (auto simp: update_ram_supply_def Let_def ram_due_def res_simps split: if_splits)

lemma sync_simps [simp]:
  "sys_out (sync_ram_limit a n s) = sys_out s" "vs (sync_ram_limit a n s) = vs s" "rx (sync_ram_limit a n s) = rx s"
  by (simp_all add: sync_ram_limit_def split: prod.split)

lemma channel_effects:
  "sys_out (channel_to_rex E a q s) = sys_out s \<or>
   sys_out (channel_to_rex E a q s) = sys_out (send_transfer E [a] a (lit E ''eosio.rex'') q (''transfer from '' @ name_str E a @ '' to eosio.rex'') s)"
  "vs (channel_to_rex E a q s) = vs s"
  by (auto simp: channel_to_rex_def send_transfer_def emit_def)

lemma buyram_parts:
  assumes "buyram E k t q s = Inr s'"
  obtains s1 s2 p where "update_ram_supply E s = Inr s1" "has_auth E k" "0 < amount q" "p = add_amt (- fee_of (amount q)) q"
    "s2 = send_transfer E [k, lit E ''eosio.ram''] k (lit E ''eosio.ram'') p ''buy ram'' s1"
    "ram_due s' = wrap64 (ram_due s + amount p)"
    "sys_out s' = sys_out s2 \<or> (\<exists>fee. sys_out s' = sys_out (channel_to_rex E (lit E ''eosio.ramfee'') fee
       (send_transfer E [k] k (lit E ''eosio.ramfee'') fee ''ram fee'' s2)))"
proof -
  define fee where "fee = set_amt (fee_of (amount q)) q"
  define p where "p = add_amt (- amount fee) q"
  obtain s1 s3 m a row n where u: "update_ram_supply E s = Inr s1" and k: "has_auth E k" "0 < amount q"
    and 3: "s3 = (if amount fee > 0
             then channel_to_rex E (lit E ''eosio.ramfee'') fee
                    (send_transfer E [k] k (lit E ''eosio.ramfee'') fee ''ram fee''
                      (send_transfer E [k, lit E ''eosio.ram''] k (lit E ''eosio.ram'') p ''buy ram'' s1))
             else send_transfer E [k, lit E ''eosio.ram''] k (lit E ''eosio.ram'') p ''buy ram'' s1)"
    and s': "s' = sync_ram_limit t n (put_userres t row (s3\<lparr>rammarket := m, vs := (vs s3)\<lparr>gst :=
       (gst (vs s3))\<lparr>total_ram_bytes_reserved := a, total_ram_stake := wrap64 (total_ram_stake (gst (vs s3)) + wrap64 (amount q - fee_of (amount q)))\<rparr>\<rparr>\<rparr>))"
    using assms unfolding buyram_def Let_def rbind_Inr_iff check_Inr_iff require_auth_Inr_iff fee_def p_def case_prod_beta
    by (elim exE conjE) auto
  have "vs s3 = vs s1" by (simp add: 3 channel_effects)
  then show ?thesis
    using u k ram_supply_frame [OF u]
    by (intro that [of s1 p "send_transfer E [k, lit E ''eosio.ram''] k (lit E ''eosio.ram'') p ''buy ram'' s1"])
      (auto simp: s' 3 fee_def p_def ram_due_def)
qed


lemma convert_range:
  assumes "asset_laws E" "convert E q y m = Inr (out, m')"
  shows "\<bar>amount out\<bar> \<le> max_amount"
proof -
  have one: "convert_to_exchange E d q m = Inr (x, m') \<Longrightarrow> \<bar>amount x\<bar> \<le> max_amount"
    "convert_from_exchange E d q m = Inr (x, m') \<Longrightarrow> \<bar>amount x\<bar> \<le> max_amount" for d q m x m'
    using assms(1) by (auto simp: convert_to_exchange_def convert_from_exchange_def Let_def res_simps asset_new_iff)
  have "\<bar>amount out\<bar> \<le> max_amount" if "convert_n n E q y m = Inr (out, m')" for n q m
    using that by (induction n arbitrary: q m) (auto simp: res_simps Let_def dest: one split: if_splits)
  then show ?thesis using assms(2) unfolding convert_def by blast
qed

lemma sellram_parts:
  assumes "sellram E k n s = Inr s'" "asset_laws E"
  obtains s1 s2 q where "update_ram_supply E s = Inr s1" "has_auth E k" "0 < n" "1 < amount q" "amount q \<le> max_amount"
    "sys_out s2 = sys_out (send_transfer E [lit E ''eosio.ram'', k] (lit E ''eosio.ram'') k q ''sell ram'' s1)"
    "ram_due s' = wrap64 (ram_due s - amount q)" "0 \<le> ram_due s'"
    "sys_out s' = sys_out s2 \<or> (\<exists>fee. sys_out s' = sys_out (channel_to_rex E (lit E ''eosio.ramfee'') fee
       (send_transfer E [k] k (lit E ''eosio.ramfee'') fee ''sell ram fee'' s2)))"
proof -
  obtain s1 m a row q j s4 where u: "update_ram_supply E s = Inr s1" and k: "has_auth E k" "0 < n" "1 < amount q"
    and cv: "\<exists>q0 y mk mk'. convert E q0 y mk = Inr (q, mk')"
    and pos: "0 \<le> wrap64 (total_ram_stake (gst (vs s1)) - amount q)"
    and s4: "s4 = send_transfer E [lit E ''eosio.ram'', k] (lit E ''eosio.ram'') k q ''sell ram''
       (sync_ram_limit k j (put_userres k row (s1\<lparr>rammarket := m, vs := (vs s1)\<lparr>gst :=
         (gst (vs s1))\<lparr>total_ram_bytes_reserved := a, total_ram_stake := wrap64 (total_ram_stake (gst (vs s1)) - amount q)\<rparr>\<rparr>\<rparr>)))"
    and s': "s' = s4 \<or> (\<exists>fq. s' = channel_to_rex E (lit E ''eosio.ramfee'') fq
                 (send_transfer E [k] k (lit E ''eosio.ramfee'') fq ''sell ram fee'' s4))"
    using assms(1) unfolding sellram_def Let_def rbind_Inr_iff check_Inr_iff require_auth_Inr_iff case_prod_beta
    by (elim exE conjE) (fastforce simp: rbind_Inr_iff split: if_splits)
  have qm: "amount q \<le> max_amount" using cv convert_range [OF assms(2)] by fastforce
  have "ram_due s' = ram_due s4" using s' by (auto simp: ram_due_def channel_effects)
  also have "\<dots> = wrap64 (ram_due s - amount q)" using ram_supply_frame [OF u] by (simp add: s4 ram_due_def)
  finally show ?thesis
    using qm u k pos ram_supply_frame [OF u] s'
    by (intro that [of s1 q s4]) (auto simp: s4 ram_due_def send_transfer_def emit_def)
qed

lemma channel_flow:
  assumes "f \<noteq> lit E ''eosio.rex''" "f \<noteq> a"
  shows "income f (channel_to_rex E a q s) = income f s" "outgo f (channel_to_rex E a q s) = outgo f s"
  using channel_effects(1) [of E a q s] assms by (auto simp: income_def outgo_def send_transfer_def emit_def moved_one)

lemma flow_cong: "sys_out s = sys_out t \<Longrightarrow> income f s = income f t \<and> outgo f s = outgo f t"
  by (simp add: income_def outgo_def)

text \<open>Whatever the fee does, it does not concern \<open>eosio.ram\<close>.\<close>

lemma fee_flow:
  assumes "sys_ok E" "has_auth E k"
    and "sys_out s' = sys_out s2 \<or> (\<exists>fee. sys_out s' = sys_out (channel_to_rex E (lit E ''eosio.ramfee'') fee
       (send_transfer E [k] k (lit E ''eosio.ramfee'') fee m s2)))"
  shows "income (lit E ''eosio.ram'') s' = income (lit E ''eosio.ram'') s2"
    "outgo (lit E ''eosio.ram'') s' = outgo (lit E ''eosio.ram'') s2"
proof -
  have "k \<noteq> lit E ''eosio.ram''" using signer_not_fund [OF assms(1), of "''eosio.ram''"] assms(2) by (auto simp: signers_def)
  then have f: "income (lit E ''eosio.ram'') (channel_to_rex E (lit E ''eosio.ramfee'') q (send_transfer E [k] k (lit E ''eosio.ramfee'') q m s2))
      = income (lit E ''eosio.ram'') s2 \<and>
    outgo (lit E ''eosio.ram'') (channel_to_rex E (lit E ''eosio.ramfee'') q (send_transfer E [k] k (lit E ''eosio.ramfee'') q m s2))
      = outgo (lit E ''eosio.ram'') s2" for q
    using lit_eq [OF assms(1), of "''eosio.ram''" "''eosio.rex''"] lit_eq [OF assms(1), of "''eosio.ram''" "''eosio.ramfee''"]
    by (simp add: channel_flow)
  from assms(3) show "income (lit E ''eosio.ram'') s' = income (lit E ''eosio.ram'') s2"
    "outgo (lit E ''eosio.ram'') s' = outgo (lit E ''eosio.ram'') s2"
    using f flow_cong [of s'] by metis+
qed

lemma ram_market_step:
  assumes "sys_ok E" "bw_exec E b s = Inr s'" "Ram \<in> bw_writes b" "ram_inv s" "sys_out s = []"
    "transfers_ok (sys_out s')" "ram_due s \<le> max_amount"
    "ram_due s + income (lit E ''eosio.ram'') s' - outgo (lit E ''eosio.ram'') s' \<le> max_amount"
  shows "ram_inv s' \<and> ram_due s' + outgo (lit E ''eosio.ram'') s' = ram_due s + income (lit E ''eosio.ram'') s'"
proof -
  let ?r = "lit E ''eosio.ram''"
  have inc: "0 \<le> income ?r s'" using assms(6) by (rule income_nonneg)
  consider (buy) k t q where "buyram E k t q s = Inr s'" | (sell) k n where "sellram E k n s = Inr s'"
    using assms(2,3) by (cases b) (auto simp: buyrambytes_def res_simps)
  then show ?thesis
  proof cases
    case buy
    obtain s1 s2 p where u: "update_ram_supply E s = Inr s1" and k: "has_auth E k"
      and s2: "s2 = send_transfer E [k, ?r] k ?r p ''buy ram'' s1" and d: "ram_due s' = wrap64 (ram_due s + amount p)"
      and o: "sys_out s' = sys_out s2 \<or> (\<exists>fee. sys_out s' = sys_out (channel_to_rex E (lit E ''eosio.ramfee'') fee
       (send_transfer E [k] k (lit E ''eosio.ramfee'') fee ''ram fee'' s2)))"
      by (rule buyram_parts [OF buy])
    have kr: "k \<noteq> ?r" using signer_not_fund [OF assms(1), of "''eosio.ram''"] k by (auto simp: signers_def)
    have f: "income ?r s' = amount p" "outgo ?r s' = 0"
      using fee_flow [OF assms(1) k o] ram_supply_frame [OF u] assms(5) kr
      by (auto simp: s2 income_def outgo_def send_transfer_def emit_def moved_one)
    have "wrap64 (ram_due s + amount p) = ram_due s + amount p"
      using assms(4,8) inc f by (intro wrap_small) (auto simp: ram_inv_def max_amount_def)
    then show ?thesis using d f inc assms(4) by (simp add: ram_inv_def)
  next
    case sell
    obtain s1 s2 q where u: "update_ram_supply E s = Inr s1" and k: "has_auth E k" "1 < amount q" "amount q \<le> max_amount"
      and s2: "sys_out s2 = sys_out (send_transfer E [?r, k] ?r k q ''sell ram'' s1)"
      and d: "ram_due s' = wrap64 (ram_due s - amount q)" "0 \<le> ram_due s'"
      and o: "sys_out s' = sys_out s2 \<or> (\<exists>fee. sys_out s' = sys_out (channel_to_rex E (lit E ''eosio.ramfee'') fee
       (send_transfer E [k] k (lit E ''eosio.ramfee'') fee ''sell ram fee'' s2)))"
      by (rule sellram_parts [OF sell sys_okD(1) [OF assms(1)]])
    have kr: "k \<noteq> ?r" using signer_not_fund [OF assms(1), of "''eosio.ram''"] k by (auto simp: signers_def)
    have f: "income ?r s' = 0" "outgo ?r s' = amount q"
      using fee_flow [OF assms(1) k(1) o] ram_supply_frame [OF u] assms(5) kr s2
      by (auto simp: income_def outgo_def send_transfer_def emit_def moved_one)
    have "wrap64 (ram_due s - amount q) = ram_due s - amount q"
      using assms(4,7) k(2,3) by (intro wrap_small) (auto simp: ram_inv_def max_amount_def)
    then show ?thesis using d f by (simp add: ram_inv_def)
  qed
qed


lemma ram_writers [simp]:
  "Ram \<notin> admin_writes x" "Ram \<notin> rex_writes y" "Ram \<notin> vote_writes z" "Ram \<notin> pay_writes w"
proof -
  show "Ram \<notin> admin_writes x" by (cases x) simp_all
  show "Ram \<notin> rex_writes y" by (cases y) simp_all
  show "Ram \<notin> vote_writes z" by (cases z) simp_all
  show "Ram \<notin> pay_writes w" by (cases w) simp_all
qed

text \<open>Which accounts an action cannot send from.\<close>

lemma fund_senders:
  assumes "sys_ok E"
  shows "Ram \<notin> sys_writes a \<Longrightarrow> lit E ''eosio.ram'' \<notin> sys_senders E a"
    "Stakes \<notin> sys_writes a \<Longrightarrow> lit E ''eosio.stake'' \<notin> sys_senders E a"
proof -
  note d = lit_eq [OF assms] lit_not_self [OF assms]
  have admin: "lit E ''eosio.ram'' \<notin> admin_senders E b" "lit E ''eosio.stake'' \<notin> admin_senders E b" for b
    by (cases b; simp add: d)+
  have rex: "lit E ''eosio.ram'' \<notin> rex_senders E b" "Stakes \<notin> rex_writes b \<Longrightarrow> lit E ''eosio.stake'' \<notin> rex_senders E b" for b
    by (cases b; simp add: d)+
  have bw: "Ram \<notin> bw_writes b \<Longrightarrow> lit E ''eosio.ram'' \<notin> bw_senders E b"
    "Stakes \<notin> bw_writes b \<Longrightarrow> lit E ''eosio.stake'' \<notin> bw_senders E b" for b
    by (cases b; simp add: d)+
  have pay: "lit E ''eosio.ram'' \<notin> pay_senders E b" "lit E ''eosio.stake'' \<notin> pay_senders E b" for b
    by (cases b; simp add: d)+
  show "Ram \<notin> sys_writes a \<Longrightarrow> lit E ''eosio.ram'' \<notin> sys_senders E a"
    "Stakes \<notin> sys_writes a \<Longrightarrow> lit E ''eosio.stake'' \<notin> sys_senders E a"
    using admin rex bw pay by (cases a; simp)+
qed

lemma ram_step:
  assumes "sys_ok E" "sys_args_ok a" "ram_inv s" "sys_out s = []" "sys_exec E a s = Inr s'"
    "transfers_ok (sys_out s')" "ram_due s \<le> max_amount"
    "ram_due s + income (lit E ''eosio.ram'') s' - outgo (lit E ''eosio.ram'') s' \<le> max_amount"
  shows "ram_inv s' \<and> ram_due s' + outgo (lit E ''eosio.ram'') s' \<le> ram_due s + income (lit E ''eosio.ram'') s'"
proof (cases "Ram \<in> sys_writes a")
  case True
  then obtain b where "a = BwAct b" "Ram \<in> bw_writes b" by (cases a) auto
  then show ?thesis using ram_market_step [OF assms(1) _ _ assms(3,4,6,7,8), of b] assms(5) by simp
next
  case False
  then have "same Ram E s s'" "outgo (lit E ''eosio.ram'') s' = 0"
    using untouched [OF assms(1,5,4) False, of "''eosio.ram''"] fund_senders(1) [OF assms(1)] by simp_all
  then show ?thesis using assms(3) income_nonneg [OF assms(6)] by (simp add: ram_inv_def ram_due_def)
qed

interpretation ram: custody "''eosio.ram''" ram_due ram_inv max_amount
  by unfold_locales (use ram_step in \<open>auto simp: ram_inv_def ram_due_def max_amount_def\<close>)

text \<open>The bytes of the accounts against the total; both wrap at 64 bits.\<close>

definition ram_balanced :: "sys_state \<Rightarrow> bool" where
  "ram_balanced s \<longleftrightarrow> u64 (ram_sum s) = total_ram_bytes_reserved (gst (vs s))"

lemma u64_add: "u64 (u64 x + y) = u64 (x + y)" "u64 (x + u64 y) = u64 (x + y)" "u64 (u64 x - y) = u64 (x - y)"
  by (simp_all add: u64_def mod_simps)

lemma u64_wrap: "u64 (x + wrap64 y) = u64 (x + y)"
proof -
  have "wrap64 y = y - 2 ^ 64 * ((y + 2 ^ 63) div 2 ^ 64)"
    by (simp add: wrap64_def minus_mult_div_eq_mod [symmetric])
  then have "x + wrap64 y = x + y + 2 ^ 64 * (- ((y + 2 ^ 63) div 2 ^ 64))" by simp
  then show ?thesis unfolding u64_def by (simp only: mod_mult_self2)
qed

lemma ram_sum_sync [simp]: "ram_sum (sync_ram_limit a n s) = ram_sum s"
  by (simp add: sync_ram_limit_def split: prod.split)

lemma ram_supply_bytes:
  assumes "update_ram_supply E s = Inr s'"
  shows "ram_sum s' = ram_sum s \<and> total_ram_bytes_reserved (gst (vs s')) = total_ram_bytes_reserved (gst (vs s)) \<and> bw s' = bw s"
  using assms by (auto simp: update_ram_supply_def Let_def res_simps split: if_splits)

lemma channel_bytes [simp]: "ram_sum (channel_to_rex E a q s) = ram_sum s" "bw (channel_to_rex E a q s) = bw s"
  by (simp_all add: channel_to_rex_def)

lemma ram_row_moves:
  assumes "u64 (ram_sum s) = b" "ram_bytes r' = wrap64 ((case t_get (userres (bw s)) k of None \<Rightarrow> 0 | Some r \<Rightarrow> ram_bytes r) + n)"
  shows "u64 (ram_sum (put_userres k r' s)) = u64 (b + n)"
proof -
  let ?old = "case t_get (userres (bw s)) k of None \<Rightarrow> 0 | Some r \<Rightarrow> ram_bytes r"
  have "u64 (ram_sum (put_userres k r' s)) = u64 (ram_sum s - ?old + wrap64 (?old + n))"
    by (simp add: ram_sum_put assms(2) algebra_simps)
  also have "\<dots> = u64 (ram_sum s + n)" by (simp add: u64_wrap)
  finally show ?thesis by (simp add: assms(1) [symmetric] u64_add)
qed

lemma balanced_simps [simp]:
  "ram_balanced (send_transfer E as f t q m s) = ram_balanced s" "ram_balanced (channel_to_rex E a q s) = ram_balanced s"
  by (simp_all add: ram_balanced_def channel_effects)

lemma supply_balanced: "update_ram_supply E s = Inr s' \<Longrightarrow> ram_balanced s \<Longrightarrow> ram_balanced s'"
  by (simp add: ram_balanced_def ram_supply_bytes)

lemma buy_balanced:
  assumes "ram_balanced s" "convert E p y mk = Inr (out, m)" "asset_laws E"
    and "row = (case t_get (userres (bw s)) t of
                None \<Rightarrow> \<lparr>net_weight = n0, cpu_weight = c0, ram_bytes = amount out\<rparr>
              | Some r \<Rightarrow> r\<lparr>ram_bytes := wrap64 (ram_bytes r + amount out)\<rparr>)"
  shows "ram_balanced (sync_ram_limit t n (put_userres t row (s\<lparr>rammarket := m', vs := (vs s)\<lparr>gst :=
       (gst (vs s))\<lparr>total_ram_bytes_reserved := u64 (total_ram_bytes_reserved (gst (vs s)) + amount out), total_ram_stake := st\<rparr>\<rparr>\<rparr>)))"
    (is "ram_balanced ?s'")
proof -
  have "wrap64 (amount out) = amount out"
    using convert_range [OF assms(3,2)] by (intro wrap_small) (auto simp: max_amount_def)
  then have r: "ram_bytes row = wrap64 ((case t_get (userres (bw s)) t of None \<Rightarrow> 0 | Some r \<Rightarrow> ram_bytes r) + amount out)"
    by (simp add: assms(4) split: option.split)
  have "u64 (ram_sum (put_userres t row s)) = u64 (total_ram_bytes_reserved (gst (vs s)) + amount out)"
    using r by (rule ram_row_moves [rotated]) (use assms(1) in \<open>simp add: ram_balanced_def\<close>)
  moreover have "ram_sum ?s' = ram_sum (put_userres t row s)" by (simp add: ram_sum_put)
  ultimately show ?thesis by (simp add: ram_balanced_def)
qed

lemma buyram_balanced:
  assumes "ram_balanced s" "asset_laws E"
  shows "ensures (buyram E k t q s) ram_balanced"
  unfolding buyram_def
  apply (rule ensures_intros)+
  apply hypsubst
  apply (rule buy_balanced [OF _ _ assms(2)])
  apply (use assms in \<open>auto dest: supply_balanced\<close>)
  done

lemma sellram_balanced:
  assumes "sellram E k n s = Inr s'" "ram_balanced s"
  shows "ram_balanced s'"
proof -
  obtain s1 r m st q s4 where u: "update_ram_supply E s = Inr s1" and r: "t_get (userres (bw s1)) k = Some r"
    and s4: "s4 = send_transfer E [lit E ''eosio.ram'', k] (lit E ''eosio.ram'') k q ''sell ram''
       (sync_ram_limit k (wrap64 (ram_bytes r - n)) (put_userres k (r\<lparr>ram_bytes := wrap64 (ram_bytes r - n)\<rparr>)
         (s1\<lparr>rammarket := m, vs := (vs s1)\<lparr>gst :=
         (gst (vs s1))\<lparr>total_ram_bytes_reserved := u64 (total_ram_bytes_reserved (gst (vs s1)) - n), total_ram_stake := st\<rparr>\<rparr>\<rparr>)))"
    and s': "s' = s4 \<or> (\<exists>fq. s' = channel_to_rex E (lit E ''eosio.ramfee'') fq
                 (send_transfer E [k] k (lit E ''eosio.ramfee'') fq ''sell ram fee'' s4))"
    using assms unfolding sellram_def Let_def rbind_Inr_iff check_Inr_iff require_auth_Inr_iff rget_Inr_iff case_prod_beta
    by (elim exE conjE) (fastforce simp: rbind_Inr_iff split: if_splits)
  have eq: "ram_sum s1 = ram_sum s" "total_ram_bytes_reserved (gst (vs s1)) = total_ram_bytes_reserved (gst (vs s))"
    using ram_supply_bytes [OF u] by auto
  have "u64 (ram_sum (put_userres k (r\<lparr>ram_bytes := wrap64 (ram_bytes r - n)\<rparr>) s1)) = u64 (total_ram_bytes_reserved (gst (vs s)) + (- n))"
    by (rule ram_row_moves) (use assms(2) eq r in \<open>simp_all add: ram_balanced_def\<close>)
  moreover have "ram_sum s' = ram_sum s4" "vs s' = vs s4" using s' by (auto simp: channel_effects)
  ultimately show ?thesis using eq by (simp add: ram_balanced_def s4 ram_sum_put)
qed

lemma sys_exec_balanced:
  assumes "asset_laws E" "ram_balanced s" "sys_exec E a s = Inr s'"
  shows "ram_balanced s'"
proof (cases "Ram \<in> sys_writes a")
  case True
  then obtain b where b: "a = BwAct b" "Ram \<in> bw_writes b"
    by (cases a) auto
  then show ?thesis
    using assms by (cases b) (auto simp: buyrambytes_def res_simps intro: ensuresD [OF buyram_balanced] sellram_balanced)
next
  case False
  have F: "frame E UNIV (insert Bids (sys_writes a)) s s'" using assms(3) by (rule sys_exec_frame) auto
  have "same Ram E s s'" using frame_same [OF F, of Ram] False by simp
  then show ?thesis using assms(2) by (simp add: ram_balanced_def)
qed

interpretation rambytes: action_system sys_exec asset_laws ram_balanced
  by unfold_locales (rule sys_exec_balanced)

end
