(* ===== verification/NamesCustody.thy ===== *)
theory NamesCustody
  imports Custody
begin

text \<open>
  The tokens at \<open>eosio.names\<close>: the highest bids of open auctions, the refunds of outbid bidders and the
  proceeds of closed auctions that REX has not fetched.
\<close>

section \<open>What is owed to bidders\<close>

definition open_bids :: "sys_state \<Rightarrow> int" where
  "open_bids s = t_sum (\<lambda>_ b. max 0 (high_bid b)) (namebids s)"

definition bid_refunds :: "sys_state \<Rightarrow> int" where
  "bid_refunds s = t_sum (\<lambda>_ q. amount q) (bidrefunds s)"

definition names_due :: "sys_state \<Rightarrow> int" where
  "names_due s = open_bids s + bid_refunds s + proceeds_of (rx s)"

definition names_inv :: "sys_state \<Rightarrow> bool" where
  "names_inv s \<longleftrightarrow> (\<forall>k b. t_get (namebids s) k = Some b \<longrightarrow> newname b = k) \<and>
     (\<forall>k q. t_get (bidrefunds s) k = Some q \<longrightarrow> 0 \<le> amount q) \<and> 0 \<le> proceeds_of (rx s)"

lemma names_parts_nonneg: "0 \<le> open_bids s" "names_inv s \<Longrightarrow> 0 \<le> bid_refunds s" "names_inv s \<Longrightarrow> 0 \<le> proceeds_of (rx s)"
  by (auto simp: open_bids_def bid_refunds_def names_inv_def intro!: t_sum_nonneg)

lemma bid_le_open: "t_get (namebids s) k = Some b \<Longrightarrow> high_bid b \<le> open_bids s"
  using tab.total_le_row [of "namebids s" "\<lambda>_ b. max 0 (high_bid b)" k b] by (simp add: open_bids_def)

section \<open>Bids\<close>

lemma bidname_spec:
  assumes "sys_ok E" "bidname E k n q s = Inr s'" "names_inv s"
  shows "names_inv s' \<and> names_due s' - names_due s = income (lit E ''eosio.names'') s' - income (lit E ''eosio.names'') s \<and>
    outgo (lit E ''eosio.names'') s' = outgo (lit E ''eosio.names'') s"
proof -
  let ?n = "lit E ''eosio.names''" and ?s1 = "send_transfer E [k] k (lit E ''eosio.names'') q (''bid name '' @ name_str E n) s"
  note al = sys_okD(1) [OF assms(1)]
  have k: "has_auth E k" and q: "0 < amount q" using assms(2) by (auto simp: bidname_def res_simps)
  have kn: "k \<noteq> ?n" using signer_not_fund [OF assms(1), of "''eosio.names''"] k by (auto simp: signers_def)
  have f1: "income ?n ?s1 = income ?n s + amount q" "outgo ?n ?s1 = outgo ?n s" using kn by simp_all
  show ?thesis
  proof (cases "t_get (namebids s) n")
    case None
    then have s': "s' = ?s1\<lparr>namebids := t_set n \<lparr>newname = n, high_bidder = k, high_bid = amount q,
        last_bid_time = current_time E\<rparr> (namebids ?s1)\<rparr>"
      using assms(2) by (auto simp: bidname_def res_simps Let_def)
    show ?thesis
      using assms(3) None q f1 by (auto simp: s' names_inv_def names_due_def open_bids_def bid_refunds_def t_sum_set)
  next
    case (Some cur)
    obtain cs bk0 due i dd where hb: "0 < high_bid cur" and b: "asset_new E (high_bid cur) cs = Inr bk0"
      and d: "(case t_get (bidrefunds s) (n, high_bidder cur) of None \<Rightarrow> Inr bk0 | Some x \<Rightarrow> asset_plus E x bk0) = Inr due"
      and s': "s' = (emit (SendDeferred i k 0 dd) (emit (CancelDeferred i) (?s1\<lparr>bidrefunds := t_set (n, high_bidder cur) due (bidrefunds ?s1)\<rparr>)))
        \<lparr>namebids := t_set n (cur\<lparr>high_bidder := k, high_bid := amount q, last_bid_time := current_time E\<rparr>) (namebids ?s1)\<rparr>"
      using assms(2) Some by (auto simp: bidname_def res_simps Let_def)
    have bk: "amount bk0 = high_bid cur" using b al by (auto simp: asset_new_iff)
    have due: "amount due = (case t_get (bidrefunds s) (n, high_bidder cur) of None \<Rightarrow> 0 | Some x \<Rightarrow> amount x) + high_bid cur"
      using d bk al by (auto simp: asset_plus_iff split: option.splits)
    have "bid_refunds s' = bid_refunds s + high_bid cur"
      using due by (auto simp: s' bid_refunds_def t_sum_set emit_def split: option.splits)
    moreover have "open_bids s' = open_bids s + amount q - high_bid cur"
      using Some hb q by (simp add: s' open_bids_def t_sum_set)
    moreover have "names_inv s'"
      using assms(3) due hb Some by (auto simp: s' names_inv_def emit_def split: option.splits if_splits)
    ultimately show ?thesis using f1 by (simp add: s' names_due_def emit_senders)
  qed
qed

lemma bidrefund_spec:
  assumes "bidrefund E k n s = Inr s'" "names_inv s" "a = lit E ''eosio.names''" "sys_out s = []" "transfers_ok (sys_out s')"
  shows "names_inv s' \<and> names_due s' + outgo a s' \<le> names_due s + income a s'"
proof -
  obtain q where q: "t_get (bidrefunds s) (n, k) = Some q"
    and s': "s' = (send_transfer E [a, k] a k q (''refund bid on name '' @ name_str E n) s)
      \<lparr>bidrefunds := t_del (n, k) (bidrefunds s)\<rparr>"
    using assms(1,3) by (auto simp: bidrefund_def res_simps Let_def)
  have "0 \<le> income a s'" using assms(5) by (rule income_nonneg)
  moreover have "names_due s' = names_due s - amount q"
    using q by (simp add: s' names_due_def open_bids_def bid_refunds_def t_sum_del)
  moreover have "outgo a s' = amount q" using assms(4) by (simp add: s' outgo_def send_transfer_def emit_def moved_one)
  moreover have "names_inv s'" using assms(2) by (auto simp: s' names_inv_def)
  ultimately show ?thesis by simp
qed

section \<open>The end of an auction\<close>

lemma highest_bid_row:
  assumes "highest_bid s = Some b"
  shows "\<exists>k. t_get (namebids s) k = Some b"
proof -
  have "b \<in> set (t_index (\<lambda>a b. by_high_bid a < by_high_bid b) (namebids s))"
    using assms unfolding highest_bid_def by (auto split: list.splits) (metis list.set_intros(1) set_dropWhileD)
  then show ?thesis by (simp add: set_t_index)
qed

lemma close_auction_spec:
  assumes "names_inv s" "names_due s \<le> max_amount"
  shows "names_inv (close_auction E n s) \<and> names_due (close_auction E n s) \<le> names_due s"
proof (cases "close_auction E n s = s")
  case False
  then obtain b where b: "highest_bid s = Some b" "0 < high_bid b"
    and s': "close_auction E n s = put_rx (channel_namebid_to_rex (high_bid b) (rx s))
       ((put_gst ((gst (vs s))\<lparr>last_name_close := n\<rparr>) s)\<lparr>namebids := t_set (newname b) (b\<lparr>high_bid := wrap64 (- high_bid b)\<rparr>) (namebids s)\<rparr>)"
    unfolding close_auction_def Let_def by (auto split: option.splits if_splits)
  have row: "t_get (namebids s) (newname b) = Some b"
    using highest_bid_row [OF b(1)] assms(1) by (auto simp: names_inv_def)
  note nn = names_parts_nonneg(1) [of s] names_parts_nonneg(2,3) [OF assms(1)]
  have hb: "high_bid b \<le> open_bids s" by (rule bid_le_open [OF row])
  then have small: "high_bid b \<le> max_amount" "proceeds_of (rx s) + high_bid b \<le> max_amount"
    using nn assms(2) by (simp_all add: names_due_def)
  have w: "wrap64 (- high_bid b) = - high_bid b" using small b(2) by (intro wrap_small) (auto simp: max_amount_def)
  have "proceeds_of (channel_namebid_to_rex (high_bid b) (rx s)) =
      (if rex_available (rx s) then proceeds_of (rx s) + high_bid b else proceeds_of (rx s))"
  proof (cases "rex_available (rx s)")
    case True
    then obtain p where p: "rexpool (rx s) = Some p" by (auto simp: rex_available_iff)
    have "wrap64 (amount (namebid_proceeds p) + high_bid b) = amount (namebid_proceeds p) + high_bid b"
      using small nn b(2) p by (intro wrap_small) (auto simp: proceeds_of_def max_amount_def)
    then show ?thesis using True p by (simp add: channel_namebid_to_rex_def proceeds_of_def)
  qed (simp add: channel_namebid_to_rex_def)
  moreover have "open_bids (close_auction E n s) = open_bids s - high_bid b"
    using row b(2) w by (simp add: s' open_bids_def put_rx_def t_sum_set)
  moreover have "bid_refunds (close_auction E n s) = bid_refunds s" by (simp add: s' bid_refunds_def put_rx_def)
  ultimately show ?thesis
    using assms(1) b(2) nn by (auto simp: names_due_def s' names_inv_def put_rx_def split: if_splits)
qed (use assms in simp)

lemma onblock_shape:
  assumes "onblock E n p s = Inr s'"
  obtains t where "namebids t = namebids s" "bidrefunds t = bidrefunds s" "rx t = rx s" "sys_out t = sys_out s"
    "s' = t \<or> s' = close_auction E n t"
proof -
  define s1 where "s1 = s\<lparr>vs := (vs s)\<lparr>gst2 := (gst2 (vs s))\<lparr>last_block_num := n\<rparr>\<rparr>\<rparr>"
  define g where "g = (gst (vs s1))\<lparr>
      last_pervote_bucket_fill := (if last_pervote_bucket_fill (gst (vs s1)) = 0 then current_time E else last_pervote_bucket_fill (gst (vs s1))),
      last_dapp_bucket_fill := (if last_dapp_bucket_fill (gst (vs s1)) = 0 then current_time E else last_dapp_bucket_fill (gst (vs s1)))\<rparr>"
  define s2 where "s2 = (case t_get (producers (vs (put_gst g s1))) p of
       None \<Rightarrow> put_gst g s1
     | Some q \<Rightarrow> (put_gst g s1)\<lparr>vs := (vs (put_gst g s1))\<lparr>
           gst := (gst (vs (put_gst g s1)))\<lparr>total_unpaid_blocks := u32 (total_unpaid_blocks (gst (vs (put_gst g s1))) + 1)\<rparr>,
           producers := t_set p (q\<lparr>unpaid_blocks := u32 (unpaid_blocks q + 1)\<rparr>) (producers (vs (put_gst g s1)))\<rparr>\<rparr>)"
  define s3 where "s3 = s2\<lparr>vs := update_elected_producers E n (vs s2)\<rparr>"
  have s': "s' = s1 \<or> s' = s2 \<or> s' = s3 \<or> s' = close_auction E n s3"
    using assms unfolding onblock_def Let_def require_auth_Inr_iff s1_def [symmetric] g_def [symmetric] s2_def [symmetric] s3_def [symmetric]
    by (auto split: if_splits)
  have 1: "namebids s1 = namebids s" "bidrefunds s1 = bidrefunds s" "rx s1 = rx s" "sys_out s1 = sys_out s"
    by (simp_all add: s1_def)
  have 2: "namebids s2 = namebids s" "bidrefunds s2 = bidrefunds s" "rx s2 = rx s" "sys_out s2 = sys_out s"
    using 1 by (simp_all add: s2_def split: option.split)
  have 3: "namebids s3 = namebids s" "bidrefunds s3 = bidrefunds s" "rx s3 = rx s" "sys_out s3 = sys_out s"
    using 2 by (simp_all add: s3_def)
  from s' show ?thesis by (elim disjE) (use that 1 2 3 in auto)
qed

section \<open>Every action\<close>

lemma newaccount_bids:
  assumes "newaccount E k n s = Inr s'"
  shows "bidrefunds s' = bidrefunds s \<and> rx s' = rx s \<and> sys_out s' = sys_out s \<and>
    (namebids s' = namebids s \<or> (\<exists>b. t_get (namebids s) n = Some b \<and> high_bid b < 0 \<and> namebids s' = t_del n (namebids s)))"
  using assms
  by (auto simp: newaccount_def rbind_Inr_iff check_Inr_iff rget_Inr_iff set_resource_limits_def split: if_splits)

lemma names_step:
  assumes "sys_ok E" "names_inv s" "sys_out s = []" "sys_exec E a s = Inr s'"
    "transfers_ok (sys_out s')" "names_due s \<le> max_amount"
  shows "names_inv s' \<and> names_due s' + outgo (lit E ''eosio.names'') s' \<le> names_due s + income (lit E ''eosio.names'') s'"
proof (cases "Bids \<in> sys_writes a")
  case True
  have inc: "0 \<le> income (lit E ''eosio.names'') s'" using assms(5) by (rule income_nonneg)
  consider (new) k n where "a = AdminAct (Newaccount k n)" | (bid) k n q where "a = AdminAct (Bidname k n q)"
    | (refund) k n where "a = AdminAct (Bidrefund k n)" | (block) n p where "a = PayAct (Onblock n p)"
  proof (cases a)
    case (AdminAct b) then show ?thesis using True that(1-3) by (cases b) auto
  next
    case (RexAct b) then show ?thesis using True by (cases b) auto
  next
    case (BwAct b) then show ?thesis using True by (cases b) auto
  next
    case (VoteAct b) then show ?thesis using True by (cases b) auto
  next
    case (PayAct b) then show ?thesis using True that(4) by (cases b) auto
  qed (use True in simp_all)
  then show ?thesis
  proof cases
    case new
    then have "newaccount E k n s = Inr s'" using assms(4) by simp
    note N = newaccount_bids [OF this]
    then have "open_bids s' = open_bids s" by (auto simp: open_bids_def t_sum_del)
    then show ?thesis
      using N assms(2,3) inc by (auto simp: names_due_def bid_refunds_def names_inv_def outgo_def split: if_splits)
  next
    case bid
    then show ?thesis using bidname_spec [OF assms(1) _ assms(2), of k n q s'] assms(3,4) by (simp add: income_def outgo_def)
  next
    case refund
    then show ?thesis using bidrefund_spec [OF _ assms(2) refl assms(3,5)] assms(4) by simp
  next
    case block
    then have "onblock E n p s = Inr s'" using assms(4) by simp
    then obtain t where t: "namebids t = namebids s" "bidrefunds t = bidrefunds s" "rx t = rx s" "sys_out t = sys_out s"
      and s': "s' = t \<or> s' = close_auction E n t" by (rule onblock_shape)
    have td: "names_due t = names_due s" "names_inv t" using t assms(2) by (simp_all add: names_due_def open_bids_def bid_refunds_def names_inv_def)
    have "sys_out (close_auction E n t) = sys_out t"
      by (simp add: close_auction_def Let_def put_rx_def split: option.split)
    then have "outgo (lit E ''eosio.names'') s' = 0" using s' t assms(3) by (auto simp: outgo_def)
    then show ?thesis using s' close_auction_spec [OF td(2), of E n] td assms(6) inc by auto
  qed
next
  case False
  have "same Bids E s s'" using frame_same [OF frame_from_empty [OF assms(1,4)] False] .
  then show ?thesis
    using assms(2,3) income_nonneg [OF assms(5), of "lit E ''eosio.names''"]
    by (auto simp: names_due_def open_bids_def bid_refunds_def names_inv_def outgo_def)
qed

interpretation names: custody "''eosio.names''" names_due names_inv max_amount
proof unfold_locales
  show "names_due (s\<lparr>sys_out := []\<rparr>) = names_due s" for s
    by (simp add: names_due_def open_bids_def bid_refunds_def)
  show "names_inv s \<Longrightarrow> names_inv (s\<lparr>sys_out := []\<rparr>)" for s by (simp add: names_inv_def)
  show "names_inv s \<Longrightarrow> 0 \<le> names_due s" for s
    using names_parts_nonneg [of s] by (simp add: names_due_def)
qed (use names_step in \<open>auto simp: max_amount_def\<close>)

end
