(* ===== verification/Conform.thy ===== *)
theory Conform
  imports SysFrames
begin

text \<open>
  The typing of the system contract's state: which symbol each amount in its tables and in the calls
  it sends carries. Amounts of REX are in the REX symbol, the RAM market trades RAM for the core
  token through \<open>RAMCORE\<close>, and everything else is in the core symbol. Each part of the state has its own
  conformance predicate, and each function a lemma that it keeps it.
\<close>

section \<open>Tables all of whose rows have a property\<close>

definition t_all :: "('r \<Rightarrow> bool) \<Rightarrow> ('k::linorder, 'r) table \<Rightarrow> bool" where
  "t_all P t \<longleftrightarrow> list_all (\<lambda>x. P (snd x)) (t_list t)"

lemma t_all_iff: "t_all P t \<longleftrightarrow> (\<forall>k r. t_get t k = Some r \<longrightarrow> P r)"
  by (auto simp: t_all_def list_all_iff t_get_iff_list)

lemma t_all_empty [simp]: "t_all P t_empty"
  by (simp add: t_all_def)

lemma t_allD: "t_all P t \<Longrightarrow> t_get t k = Some r \<Longrightarrow> P r"
  by (simp add: t_all_iff)

lemma t_all_set [simp]: "t_all P t \<Longrightarrow> t_all P (t_set k r t) \<longleftrightarrow> P r"
  by (auto simp: t_all_iff)

lemma t_all_del [simp]: "t_all P t \<Longrightarrow> t_all P (t_del k t)"
  by (simp add: t_all_iff)

lemma t_all_index: "t_all P t \<Longrightarrow> r \<in> set (t_index lt t) \<Longrightarrow> P r"
  by (auto simp: t_all_iff set_t_index)

section \<open>Conformance of the parts\<close>

definition pool_conf :: "symbol \<Rightarrow> rex_pool \<Rightarrow> bool" where
  "pool_conf cs p \<longleftrightarrow> symb (total_lent p) = cs \<and> symb (total_unlent p) = cs \<and> symb (total_rent p) = cs \<and>
     symb (total_lendable p) = cs \<and> symb (total_rex p) = rex_symbol \<and> symb (namebid_proceeds p) = cs"

definition bal_conf :: "symbol \<Rightarrow> rex_balance \<Rightarrow> bool" where
  "bal_conf cs b \<longleftrightarrow> symb (vote_stake b) = cs \<and> symb (rex_amount b) = rex_symbol"

definition order_conf :: "symbol \<Rightarrow> rex_order \<Rightarrow> bool" where
  "order_conf cs r \<longleftrightarrow> symb (rex_requested r) = rex_symbol \<and> symb (proceeds r) = cs \<and> symb (stake_change r) = cs"

definition loan_conf :: "symbol \<Rightarrow> rex_loan \<Rightarrow> bool" where
  "loan_conf cs l \<longleftrightarrow> symb (payment l) = cs \<and> symb (loan_balance l) = cs \<and> symb (total_staked l) = cs"

definition core_asset :: "symbol \<Rightarrow> asset \<Rightarrow> bool" where
  "core_asset cs q \<longleftrightarrow> symb q = cs"

definition rx_conf :: "symbol \<Rightarrow> rex_state \<Rightarrow> bool" where
  "rx_conf cs r \<longleftrightarrow> (case rexpool r of None \<Rightarrow> True | Some p \<Rightarrow> pool_conf cs p) \<and>
     t_all (core_asset cs) (rexfunds r) \<and> t_all (bal_conf cs) (rexbalance r) \<and>
     t_all (order_conf cs) (rexorders r) \<and> t_all (loan_conf cs) (cpu_loans r) \<and> t_all (loan_conf cs) (net_loans r)"

definition res_conf :: "symbol \<Rightarrow> user_resources \<Rightarrow> bool" where
  "res_conf cs r \<longleftrightarrow> symb (net_weight r) = cs \<and> symb (cpu_weight r) = cs"

definition dbw_conf :: "symbol \<Rightarrow> delegated_bandwidth \<Rightarrow> bool" where
  "dbw_conf cs d \<longleftrightarrow> symb (dbw_net d) = cs \<and> symb (dbw_cpu d) = cs"

definition refund_conf :: "symbol \<Rightarrow> refund_request \<Rightarrow> bool" where
  "refund_conf cs r \<longleftrightarrow> symb (net_amount r) = cs \<and> symb (cpu_amount r) = cs"

definition bw_conf :: "symbol \<Rightarrow> bw_state \<Rightarrow> bool" where
  "bw_conf cs b \<longleftrightarrow> t_all (res_conf cs) (userres b) \<and> t_all (dbw_conf cs) (delband b) \<and> t_all (refund_conf cs) (refunds b)"

text \<open>\<open>live\<close> says whether \<open>init\<close> has run.\<close>

definition market_conf :: "symbol \<Rightarrow> bool \<Rightarrow> exchange_state option \<Rightarrow> bool" where
  "market_conf cs live m \<longleftrightarrow> (case m of None \<Rightarrow> \<not> live
     | Some x \<Rightarrow> live \<and> symb (ex_supply x) = ramcore_symbol \<and> symb (conn_balance (conn Base x)) = ram_symbol \<and>
         symb (conn_balance (conn Quote x)) = cs)"

fun call_conf :: "symbol \<Rightarrow> call \<Rightarrow> bool" where
  "call_conf cs (TokenTransfer f t q m) \<longleftrightarrow> symb q = cs"
| "call_conf cs (TokenIssue t q m) \<longleftrightarrow> symb q = cs"
| "call_conf cs (TokenOpen a y p) \<longleftrightarrow> y = cs"
| "call_conf cs (RexBuyResult q) \<longleftrightarrow> symb q = rex_symbol"
| "call_conf cs (RexSellResult q) \<longleftrightarrow> symb q = cs"
| "call_conf cs (RexOrderResult a q) \<longleftrightarrow> symb q = cs"
| "call_conf cs (RexRentResult q) \<longleftrightarrow> symb q = cs"
| "call_conf cs _ \<longleftrightarrow> True"

fun effect_conf :: "symbol \<Rightarrow> effect \<Rightarrow> bool" where
  "effect_conf cs (Inline code ps c) \<longleftrightarrow> call_conf cs c"
| "effect_conf cs _ \<longleftrightarrow> True"

definition conf :: "symbol \<Rightarrow> bool \<Rightarrow> sys_state \<Rightarrow> bool" where
  "conf cs live s \<longleftrightarrow> rx_conf cs (rx s) \<and> bw_conf cs (bw s) \<and> market_conf cs live (rammarket s) \<and>
     t_all (core_asset cs) (bidrefunds s) \<and> list_all (effect_conf cs) (sys_out s)"

lemmas conf_rows = pool_conf_def bal_conf_def order_conf_def loan_conf_def core_asset_def res_conf_def dbw_conf_def refund_conf_def

section \<open>The REX part\<close>

named_theorems conf_calls \<open>functions that keep the typing\<close>

lemma rx_confD:
  assumes "rx_conf cs r"
  shows "rexpool r = Some p \<Longrightarrow> pool_conf cs p" "t_get (rexfunds r) k = Some q \<Longrightarrow> symb q = cs"
    "t_get (rexbalance r) k = Some b \<Longrightarrow> bal_conf cs b" "t_get (rexorders r) k = Some ord \<Longrightarrow> order_conf cs ord"
    "t_get (loans kd r) n = Some l \<Longrightarrow> loan_conf cs l"
  using assms by (cases kd; auto simp: rx_conf_def core_asset_def dest: t_allD)+

lemma rx_conf_updates:
  assumes "rx_conf cs r"
  shows "rx_conf cs (put_pool p r) \<longleftrightarrow> pool_conf cs p" "rx_conf cs (r\<lparr>rexpool := Some p\<rparr>) \<longleftrightarrow> pool_conf cs p"
    "rx_conf cs (put_bal k b r) \<longleftrightarrow> bal_conf cs b"
    "rx_conf cs (r\<lparr>rexfunds := t_set k q (rexfunds r)\<rparr>) \<longleftrightarrow> symb q = cs"
    "rx_conf cs (r\<lparr>rexorders := t_set k ord (rexorders r)\<rparr>) \<longleftrightarrow> order_conf cs ord"
    "rx_conf cs (set_loans kd (t_set n l (loans kd r)) r) \<longleftrightarrow> loan_conf cs l"
    "rx_conf cs (r\<lparr>rexfunds := t_del k (rexfunds r)\<rparr>)" "rx_conf cs (r\<lparr>rexorders := t_del k (rexorders r)\<rparr>)"
    "rx_conf cs (r\<lparr>rexbalance := t_del k (rexbalance r)\<rparr>)" "rx_conf cs (set_loans kd (t_del n (loans kd r)) r)"
  using assms by (cases kd; auto simp: rx_conf_def put_pool_def put_bal_def core_asset_def)+

lemma conf_from_fund [conf_calls]:
  assumes "transfer_from_fund E cs' k q r = Inr r'" "rx_conf cs r"
  shows "rx_conf cs r'"
  using assms rx_confD(2) [OF assms(2)] by (auto simp: transfer_from_fund_def res_simps rx_conf_updates)

lemma conf_to_fund [conf_calls]:
  assumes "transfer_to_fund cs k q r = Inr r'" "rx_conf cs r"
  shows "rx_conf cs r'"
  using assms rx_confD(2) [OF assms(2)] by (auto simp: transfer_to_fund_def res_simps rx_conf_updates split: option.splits)

lemma pool_conf_moves [simp]:
  "pool_conf cs p \<Longrightarrow> pool_conf cs (pool_add_loan q n b p)" "pool_conf cs p \<Longrightarrow> pool_conf cs (pool_remove_loan d n p)"
  "pool_conf cs p \<Longrightarrow> pool_conf cs (pool_restart q p)" "pool_conf cs p \<Longrightarrow> pool_conf cs (pool_buy n d p)"
  "pool_conf cs p \<Longrightarrow> pool_conf cs (pool_sell n d p)" "pool_conf cs p \<Longrightarrow> pool_conf cs (pool_channel q p)"
  "symb q = cs \<Longrightarrow> symb u = cs \<Longrightarrow> pool_conf cs (pool_new cs q u)"
  by (simp_all add: pool_conf_def pool_add_loan_def pool_remove_loan_def pool_restart_def pool_buy_def pool_sell_def
      pool_channel_def pool_new_def Let_def)

lemma conf_add_loan [conf_calls]:
  assumes "add_loan_to_rex_pool q n b r = Inr r'" "rx_conf cs r"
  shows "rx_conf cs r'"
  using assms rx_confD(1) [OF assms(2)] by (auto simp: add_loan_to_rex_pool_def pool_row_def res_simps rx_conf_updates)

lemma conf_remove_loan [conf_calls]:
  assumes "remove_loan_from_rex_pool l r = Inr r'" "rx_conf cs r"
  shows "rx_conf cs r'"
  using assms rx_confD(1) [OF assms(2)] by (auto simp: remove_loan_from_rex_pool_def pool_row_def res_simps rx_conf_updates)

lemma conf_add_pool:
  assumes "asset_laws E" "add_to_rex_pool E cs q r = Inr (x, r')" "rx_conf cs r" "symb q = cs"
  shows "rx_conf cs r' \<and> symb x = rex_symbol"
  using assms(2-) rx_confD(1) [OF assms(3)] asset_minus_iff [OF assms(1)]
  by (auto simp: add_to_rex_pool_def res_simps rx_conf_updates Let_def split: option.splits if_splits)

lemma bal_conf_moves [simp]:
  "bal_conf cs (process_rex_maturities E b) = bal_conf cs b" "bal_conf cs (snd (read_rex_savings b)) = bal_conf cs b"
  "bal_conf cs (put_rex_savings n b) = bal_conf cs b" "bal_conf cs (consolidate_rex_balance E q b) = bal_conf cs b"
  "bal_conf cs (b\<lparr>rex_maturities := bs\<rparr>) = bal_conf cs b" "bal_conf cs (b\<lparr>matured_rex := m\<rparr>) = bal_conf cs b"
  "bal_conf cs b \<Longrightarrow> bal_conf cs (b\<lparr>vote_stake := mk_asset n cs\<rparr>)"
  "bal_conf cs (b\<lparr>vote_stake := set_amt n (vote_stake b)\<rparr>) = bal_conf cs b"
  by (simp_all add: bal_conf_def process_rex_maturities_def read_rex_savings_def put_rex_savings_def
      consolidate_rex_balance_def Let_def case_prod_beta)

lemma conf_add_balance:
  assumes "asset_laws E" "add_to_rex_balance E cs k q x r = Inr (d, r')" "rx_conf cs r" "symb q = cs" "symb x = rex_symbol"
  shows "rx_conf cs r' \<and> symb d = cs"
proof (cases "t_get (rexbalance r) k")
  case None
  then show ?thesis using assms(2-) asset_minus_iff [OF assms(1)]
    by (auto simp: add_to_rex_balance_def res_simps rx_conf_updates Let_def case_prod_beta) (simp add: bal_conf_def)
next
  case (Some b)
  then have b: "bal_conf cs b" by (rule rx_confD(3) [OF assms(3)])
  then have "bal_conf cs (b\<lparr>rex_amount := add_amt n (rex_amount b), vote_stake := set_amt m (vote_stake b)\<rparr>)" for n m
    by (simp add: bal_conf_def)
  then show ?thesis using Some assms(2-) asset_minus_iff [OF assms(1)]
    by (auto simp: add_to_rex_balance_def res_simps rx_conf_updates Let_def case_prod_beta)
qed

lemma conf_buy:
  assumes "asset_laws E" "buy_into_pool E cs k q r = Inr ((x, d), r')" "rx_conf cs r" "symb q = cs"
  shows "rx_conf cs r' \<and> symb x = rex_symbol \<and> symb d = cs"
  using assms(2-) by (auto simp: buy_into_pool_def res_simps dest!: conf_add_pool [OF assms(1)] conf_add_balance [OF assms(1)])

lemma conf_fill:
  assumes "asset_laws E" "fill_rex_order E cs k q r = Inr (x, r')" "rx_conf cs r"
  shows "rx_conf cs r' \<and> symb (out_proceeds x) = cs \<and> symb (out_stake_change x) = cs"
proof -
  have b: "bal_conf cs b \<Longrightarrow> bal_conf cs (b\<lparr>vote_stake := set_amt n (vote_stake b), rex_amount := add_amt m (rex_amount b), matured_rex := i\<rparr>)" for b n m i
    by (simp add: bal_conf_def)
  have up: "pool_conf cs p \<Longrightarrow> bal_conf cs b \<Longrightarrow> rx_conf cs (put_bal k b (put_pool (pool_sell n d p) r))" for p b n d
    using assms(3) rx_conf_updates(3) [of cs "put_pool (pool_sell n d p) r" k b] by (simp add: rx_conf_updates(1))
  show ?thesis
    using assms(2,3) asset_new_iff [OF assms(1)] rx_confD(1,3) [OF assms(3)] up b
    by (auto simp: fill_rex_order_def pool_row_def bal_row_def res_simps Let_def split: if_splits)
qed

lemma loan_conf_moves [simp]:
  "loan_conf cs l \<Longrightarrow> loan_conf cs (l\<lparr>loan_balance := add_amt n (loan_balance l)\<rparr>)"
  "loan_conf cs l \<Longrightarrow> loan_conf cs (snd (update_renewed_loan n l))"
  by (simp_all add: loan_conf_def update_renewed_loan_def)

lemma conf_fund_loan [conf_calls]:
  assumes "fund_rex_loan E cs' kd k n q r = Inr r'" "rx_conf cs r"
  shows "rx_conf cs r'"
proof -
  obtain r1 l where 1: "transfer_from_fund E cs' k q r = Inr r1" "t_get (loans kd r1) n = Some l"
    and r': "r' = set_loans kd (t_set n (l\<lparr>loan_balance := add_amt (amount q) (loan_balance l)\<rparr>) (loans kd r1)) r1"
    using assms(1) by (auto simp: fund_rex_loan_def res_simps)
  have "rx_conf cs r1" by (rule conf_from_fund [OF 1(1) assms(2)])
  then show ?thesis using rx_confD(5) [OF _ 1(2)] by (simp add: r' rx_conf_updates)
qed

lemma conf_defund_loan [conf_calls]:
  assumes "defund_rex_loan E cs kd k n q r = Inr r'" "rx_conf cs r"
  shows "rx_conf cs r'"
proof -
  obtain l where 1: "t_get (loans kd r) n = Some l"
    and t: "transfer_to_fund cs k q (set_loans kd (t_set n (l\<lparr>loan_balance := add_amt (- amount q) (loan_balance l)\<rparr>) (loans kd r)) r) = Inr r'"
    using assms(1) by (auto simp: defund_rex_loan_def res_simps)
  show ?thesis using rx_confD(5) [OF assms(2) 1] by (intro conf_to_fund [OF t]) (simp add: rx_conf_updates [OF assms(2)])
qed

lemma conf_expired [conf_calls]:
  assumes "process_expired_loan E cs kd l r = Inr (x, r')" "rx_conf cs r" "loan_conf cs l"
  shows "rx_conf cs r'"
proof -
  obtain r1 where 1: "remove_loan_from_rex_pool l r = Inr r1"
    and 2: "(\<exists>n r2. add_loan_to_rex_pool (payment l) n False r1 = Inr r2 \<and>
        r' = set_loans kd (t_set (loan_num l) (snd (update_renewed_loan n l)) (loans kd r2)) r2) \<or>
      transfer_to_fund cs (loan_from l) (loan_balance l) r1 = Inr r' \<or> r' = r1"
    using assms(1) by (auto simp: process_expired_loan_def res_simps Let_def case_prod_beta split: if_splits)
  have "rx_conf cs r1" by (rule conf_remove_loan [OF 1 assms(2)])
  then show ?thesis using 2 assms(3) by (auto simp: rx_conf_updates dest: conf_add_loan conf_to_fund)
qed

section \<open>The whole state\<close>

named_theorems conf_intros \<open>changes of the state that keep the typing\<close>

lemma confD:
  assumes "conf cs b s"
  shows "rx_conf cs (rx s)" "bw_conf cs (bw s)" "market_conf cs b (rammarket s)" "t_all (core_asset cs) (bidrefunds s)"
    "sys_core s = Inr c \<Longrightarrow> c = cs" "rammarket s = Some m \<Longrightarrow> symb (ex_supply m) = ramcore_symbol"
    "rammarket s = Some m \<Longrightarrow> symb (conn_balance (conn Base m)) = ram_symbol"
    "rammarket s = Some m \<Longrightarrow> symb (conn_balance (conn Quote m)) = cs"
  using assms by (auto simp: conf_def market_conf_def sys_core_def core_symbol_Inr_iff)

lemma conf_vs [conf_intros]: "conf cs b s \<Longrightarrow> conf cs b (s\<lparr>vs := v\<rparr>)"
  by (simp add: conf_def)

lemma conf_rx [conf_intros]:
  "conf cs b s \<Longrightarrow> rx_conf cs r \<Longrightarrow> conf cs b (s\<lparr>rx := r\<rparr>)" "conf cs b s \<Longrightarrow> rx_conf cs r \<Longrightarrow> conf cs b (put_rx r s)"
  by (simp_all add: conf_def put_rx_def)

lemma conf_bw [conf_intros]: "conf cs b s \<Longrightarrow> bw_conf cs w \<Longrightarrow> conf cs b (s\<lparr>bw := w\<rparr>)"
  by (simp add: conf_def)

lemma conf_market [conf_intros]: "conf cs b s \<Longrightarrow> market_conf cs b m \<Longrightarrow> conf cs b (s\<lparr>rammarket := m\<rparr>)"
  by (simp add: conf_def)

lemma conf_other [conf_intros]:
  assumes "conf cs b s"
  shows "conf cs b (s\<lparr>namebids := n\<rparr>)" "conf cs b (s\<lparr>oracles := os\<rparr>)" "conf cs b (s\<lparr>total_successful_requests := u\<rparr>)"
    "conf cs b (s\<lparr>requests := rq\<rparr>)" "conf cs b (s\<lparr>abihash := h\<rparr>)" "conf cs b (s\<lparr>host_params := hp\<rparr>)"
    "conf cs b (s\<lparr>privileged := pr\<rparr>)" "conf cs b (put_gst g s)" "conf cs b (s\<lparr>bidrefunds := t_del k2 (bidrefunds s)\<rparr>)"
    "symb q = cs \<Longrightarrow> conf cs b (s\<lparr>bidrefunds := t_set k2 q (bidrefunds s)\<rparr>)"
  using assms by (simp_all add: conf_def put_gst_def core_asset_def)

lemma conf_emit [conf_intros]:
  "conf cs b s \<Longrightarrow> effect_conf cs e \<Longrightarrow> conf cs b (emit e s)"
  by (simp add: conf_def emit_def)

lemma conf_send [conf_intros]:
  "conf cs b s \<Longrightarrow> symb q = cs \<Longrightarrow> conf cs b (send_transfer E as f t q m s)"
  "conf cs b s \<Longrightarrow> call_conf cs c \<Longrightarrow> conf cs b (send_result E c s)"
  by (simp_all add: send_transfer_def send_result_def conf_emit)

lemma conf_limits [conf_intros]:
  "conf cs b s \<Longrightarrow> conf cs b (set_resource_limits k x y z s)"
  "conf cs b s \<Longrightarrow> res_conf cs w \<Longrightarrow> conf cs b (put_userres k w s)"
  "conf cs b s \<Longrightarrow> conf cs b (drop_if_empty k w s)" "conf cs b s \<Longrightarrow> conf cs b (sync_ram_limit k n s)"
  by (auto simp: conf_def set_resource_limits_def put_userres_def drop_if_empty_def sync_ram_limit_def bw_conf_def
      split: prod.split)

lemma conf_channel [conf_intros]:
  assumes "conf cs b s" "symb q = cs"
  shows "conf cs b (channel_to_rex E k q s)"
proof -
  have "rx_conf cs ((rx s)\<lparr>rexpool := map_option (pool_channel q) (rexpool (rx s))\<rparr>)"
    using confD(1) [OF assms(1)] by (cases "rexpool (rx s)") (simp_all add: rx_conf_def)
  then show ?thesis using assms by (auto simp: channel_to_rex_def intro!: conf_intros)
qed

lemma conf_on [conf_calls]:
  "on_vs f s = Inr s' \<Longrightarrow> conf cs b s \<Longrightarrow> conf cs b s'"
  "on_rx g s = Inr s' \<Longrightarrow> conf cs b s \<Longrightarrow> (\<And>r. g (rx s) = Inr r \<Longrightarrow> rx_conf cs r) \<Longrightarrow> conf cs b s'"
  by (auto simp: on_vs_Inr_iff on_rx_Inr_iff intro: conf_intros)

lemma conf_rex_stake [conf_calls]:
  assumes "update_rex_stake k s = Inr s'" "conf cs b s"
  shows "conf cs b s'"
  using assms confD(1) [OF assms(2)] rx_confD(3) [OF confD(1) [OF assms(2)]]
  by (auto simp: update_rex_stake_def res_simps Let_def rx_conf_updates intro!: conf_intros split: option.splits if_splits)

lemma conf_resource_limits [conf_calls]:
  assumes "asset_laws E" "update_resource_limits E k dn dc s = Inr s'" "conf cs b s"
  shows "conf cs b s'"
  using assms(2)
proof (cases rule: limits_shape)
  case (row t s1)
  have "res_conf cs t"
    using row(1) confD(2,5) [OF assms(3)] asset_new_iff [OF assms(1)]
    by (auto simp: res_simps res_conf_def bw_conf_def split: option.splits dest: t_allD)
  then show ?thesis using row assms(3) by (auto intro!: conf_intros)
qed (use assms in simp)

section \<open>The RAM market\<close>

lemma conn_set_base: "conn Base (m\<lparr>base := c\<rparr>) = c" "conn Quote (m\<lparr>base := c\<rparr>) = conn Quote m"
  by (simp_all add: conn.simps del: conn_simps)

lemma market_conf_base:
  "market_conf cs b (Some m) \<Longrightarrow> market_conf cs b (Some (m\<lparr>base := c\<lparr>conn_balance := add_amt n (conn_balance (conn Base m))\<rparr>\<rparr>))"
  by (simp add: market_conf_def conn_set_base)

lemma conf_ram_supply [conf_calls]:
  assumes "update_ram_supply E s = Inr s'" "conf cs b s"
  shows "conf cs b s'"
  using assms confD(3) [OF assms(2)] by (auto simp: update_ram_supply_def Let_def res_simps conf_def market_conf_base split: if_splits)

lemma market_conf_step:
  assumes "asset_laws E" "market_conf cs b (Some m)"
    "convert_to_exchange E d q m = Inr (x, m') \<or> convert_from_exchange E d q m = Inr (x, m')"
  shows "market_conf cs b (Some m')"
  using assms(2,3) by (auto simp: market_conf_def dest: to_exchange_symb [OF assms(1)] from_exchange_symb [OF assms(1)])

lemma conf_convert:
  assumes "asset_laws E" "convert E q y m = Inr (x, m')" "market_conf cs b (Some m)"
  shows "symb x = y \<and> market_conf cs b (Some m')"
proof -
  have "symb x = y \<and> market_conf cs b (Some m')"
    if "convert_n n E q y m = Inr (x, m')" "market_conf cs b (Some m)" for n q m
    using that
  proof (induction n arbitrary: q m)
    case (Suc n)
    obtain q1 m1 where 1: "(\<exists>d. convert_to_exchange E d q m = Inr (q1, m1)) \<or> (\<exists>d. convert_from_exchange E d q m = Inr (q1, m1))"
      and 2: "(if y \<noteq> symb q1 then convert_n n E q1 y m1 else Inr (q1, m1)) = Inr (x, m')"
      using Suc.prems(1) unfolding convert_n.simps Let_def rbind_Inr_iff case_prod_beta
      by (elim exE conjE) (erule that [rotated], auto split: if_splits)
    have "market_conf cs b (Some m1)" using 1 market_conf_step [OF assms(1) Suc.prems(2)] by blast
    then show ?case using 2 Suc.IH by (auto split: if_splits)
  qed simp
  then show ?thesis using assms(2,3) unfolding convert_def by blast
qed

lemma let_Inr_iff: "(let z = x in f z) = Inr y \<longleftrightarrow> (\<exists>z. z = x \<and> f z = Inr y)"
  by simp

lemma conf_put_market:
  assumes "conf cs b s" "market_conf cs b (Some m)"
  shows "conf cs b (s\<lparr>rammarket := Some m, vs := v\<rparr>)"
  using conf_vs [OF conf_market [OF assms], of v] by simp

lemma conf_buyram:
  assumes "asset_laws E" "conf cs b s"
  shows "ensures (buyram E k t q s) (conf cs b)"
proof (rule ensuresI)
  fix s' assume a: "buyram E k t q s = Inr s'"
  obtain s1 c fee p s2 s3 m x v g s4 w where u: "update_ram_supply E s = Inr s1" and c: "sys_core s1 = Inr c" "symb q = c"
    and fee: "fee = set_amt (fee_of (amount q)) q" "p = add_amt (- amount fee) q"
    and 2: "s2 = send_transfer E [k, lit E ''eosio.ram''] k (lit E ''eosio.ram'') p ''buy ram'' s1"
    and 3: "s3 = (if amount fee > 0
             then channel_to_rex E (lit E ''eosio.ramfee'') fee
                    (send_transfer E [k] k (lit E ''eosio.ramfee'') fee ''ram fee'' s2)
             else s2)"
    and m: "rammarket s3 = Some m" "convert E p ram_symbol m = Inr x"
    and s4: "s4 = s3\<lparr>rammarket := Some (snd x), vs := (vs s3)\<lparr>gst := g\<lparr>
              total_ram_bytes_reserved := u64 (total_ram_bytes_reserved g + v),
              total_ram_stake := wrap64 (total_ram_stake g + amount p)\<rparr>\<rparr>\<rparr>"
    and w: "w = (case t_get (userres (bw s4)) t of
                None \<Rightarrow> \<lparr>net_weight = mk_asset 0 c, cpu_weight = mk_asset 0 c, ram_bytes = v\<rparr>
              | Some r \<Rightarrow> r\<lparr>ram_bytes := wrap64 (ram_bytes r + v)\<rparr>)"
    and s': "sync_ram_limit t (ram_bytes w) (put_userres t w s4) = s'"
    using a unfolding buyram_def let_Inr_iff rbind_Inr_iff check_Inr_iff require_auth_Inr_iff case_prod_beta rget_Inr_iff sum.inject
    by (elim exE conjE) (rule that, assumption+)
  have 1: "conf cs b s1" by (rule conf_ram_supply [OF u assms(2)])
  have q: "symb q = cs" using confD(5) [OF 1] c by simp
  have s3: "conf cs b s3" unfolding 3 2 using 1 q by (auto intro!: conf_intros simp: fee)
  have "market_conf cs b (Some (snd x))" using conf_convert [OF assms(1), of p ram_symbol m "fst x" "snd x"] confD(3) [OF s3] m by simp
  then have s4: "conf cs b s4" unfolding s4 by (rule conf_put_market [OF s3])
  then have "res_conf cs w" using confD(2) [OF s4] c q by (auto simp: w res_conf_def bw_conf_def dest: t_allD split: option.split)
  then show "conf cs b s'" using s4 by (auto intro: conf_intros simp: s' [symmetric])
qed

lemma conf_sellram:
  assumes "asset_laws E" "conf cs b s"
  shows "ensures (sellram E k n s) (conf cs b)"
proof (rule ensuresI)
  fix s' assume a: "sellram E k n s = Inr s'"
  obtain s1 r m y c q0 q m1 g w j s4 where u: "update_ram_supply E s = Inr s1" and r: "t_get (userres (bw s1)) k = Some r"
    and m: "rammarket s1 = Some m" "sys_core s1 = Inr c" "convert E q0 c m = Inr (q, m1)"
    and w: "w = r\<lparr>ram_bytes := y\<rparr>"
    and s4: "s4 = send_transfer E [lit E ''eosio.ram'', k] (lit E ''eosio.ram'') k q ''sell ram''
       (sync_ram_limit k j (put_userres k w (s1\<lparr>rammarket := Some m1, vs := (vs s1)\<lparr>gst := g\<rparr>\<rparr>)))"
    and s': "s' = s4 \<or> (\<exists>fq i. asset_new E i c = Inr fq \<and> s' = channel_to_rex E (lit E ''eosio.ramfee'') fq
                 (send_transfer E [k] k (lit E ''eosio.ramfee'') fq ''sell ram fee'' s4))"
    using a unfolding sellram_def Let_def rbind_Inr_iff check_Inr_iff require_auth_Inr_iff rget_Inr_iff case_prod_beta
    by (elim exE conjE) (fastforce simp: rbind_Inr_iff split: if_splits)
  have 1: "conf cs b s1" by (rule conf_ram_supply [OF u assms(2)])
  have c: "c = cs" by (rule confD(5) [OF 1 m(2)])
  have x: "symb q = c" "market_conf cs b (Some m1)" using conf_convert [OF assms(1) m(3)] confD(3) [OF 1] m(1) by auto
  have "res_conf cs w" using confD(2) [OF 1] r by (auto simp: w res_conf_def bw_conf_def dest: t_allD)
  then have "conf cs b s4" unfolding s4 using x(1) c by (intro conf_intros(5-) conf_put_market [OF 1 x(2)] conf_send(1) conf_limits) auto
  then show "conf cs b s'" using s' c asset_new_iff [OF assms(1)] by (auto intro!: conf_intros)
qed

section \<open>Stakes\<close>

lemma bw_confD:
  assumes "conf cs b s"
  shows "t_get (userres (bw s)) k = Some r \<Longrightarrow> res_conf cs r" "t_get (delband (bw s)) k2 = Some d \<Longrightarrow> dbw_conf cs d"
    "t_get (refunds (bw s)) k = Some rf \<Longrightarrow> refund_conf cs rf" "t_get (bidrefunds s) k2 = Some q \<Longrightarrow> symb q = cs"
  using confD(2,4) [OF assms] by (auto simp: bw_conf_def core_asset_def dest: t_allD)

lemma conf_bw_rows [conf_intros]:
  assumes "conf cs b s"
  shows "dbw_conf cs d \<Longrightarrow> conf cs b (s\<lparr>bw := (bw s)\<lparr>delband := t_set k d (delband (bw s))\<rparr>\<rparr>)"
    "conf cs b (s\<lparr>bw := (bw s)\<lparr>delband := t_del k (delband (bw s))\<rparr>\<rparr>)"
    "refund_conf cs r \<Longrightarrow> conf cs b (s\<lparr>bw := (bw s)\<lparr>refunds := t_set n r (refunds (bw s))\<rparr>\<rparr>)"
    "conf cs b (s\<lparr>bw := (bw s)\<lparr>refunds := t_del n (refunds (bw s))\<rparr>\<rparr>)"
  using assms by (auto simp: conf_def bw_conf_def)

lemma conf_delegation:
  assumes "asset_laws E" "changebw_delegation E f r n c s = Inr s'" "conf cs b s" "symb n = cs" "symb c = cs"
  shows "conf cs b s'"
proof -
  obtain d where row: "(case t_get (delband (bw s)) (f, r) of None \<Rightarrow> Inr \<lparr>dbw_net = n, dbw_cpu = c\<rparr>
       | Some d \<Rightarrow> rbind (asset_plus E (dbw_net d) n) (\<lambda>n. rbind (asset_plus E (dbw_cpu d) c) (\<lambda>c.
           Inr (d\<lparr>dbw_net := n, dbw_cpu := c\<rparr>)))) = Inr d"
    and s': "s' = s\<lparr>bw := (bw s)\<lparr>delband := t_del (f, r) (delband (bw s))\<rparr>\<rparr> \<or> s' = s\<lparr>bw := (bw s)\<lparr>delband := t_set (f, r) d (delband (bw s))\<rparr>\<rparr>"
    using assms(2) by (auto simp: changebw_delegation_def rbind_Inr_iff check_Inr_iff)
  have "dbw_conf cs d"
    using row assms(4,5) bw_confD(2) [OF assms(3)] asset_plus_iff [OF assms(1)]
    by (auto simp: res_simps dbw_conf_def split: option.splits)
  then show ?thesis using s' assms(3) by (auto intro: conf_intros)
qed

lemma conf_totals:
  assumes "asset_laws E" "changebw_totals E r n c s = Inr s'" "conf cs b s" "symb n = cs" "symb c = cs"
  shows "conf cs b s'"
proof -
  obtain t s1 where row: "(case t_get (userres (bw s)) r of
         None \<Rightarrow> Inr \<lparr>net_weight = n, cpu_weight = c, ram_bytes = 0\<rparr>
       | Some t \<Rightarrow> rbind (asset_plus E (net_weight t) n) (\<lambda>n. rbind (asset_plus E (cpu_weight t) c) (\<lambda>c.
           Inr (t\<lparr>net_weight := n, cpu_weight := c\<rparr>)))) = Inr t"
    and s': "s1 = put_userres r t s \<or> (\<exists>x y z. s1 = set_resource_limits r x y z (put_userres r t s))" "s' = drop_if_empty r t s1"
    by (rule totals_shape [OF assms(2)]) blast
  have "res_conf cs t"
    using row assms(4,5) bw_confD(1) [OF assms(3)] asset_plus_iff [OF assms(1)]
    by (auto simp: res_simps res_conf_def split: option.splits)
  then show ?thesis using s' assms(3) by (auto intro!: conf_intros)
qed

lemma conf_refund_half:
  "asset_laws E \<Longrightarrow> refund_half E x q = Inr p \<Longrightarrow> symb q = cs \<Longrightarrow> symb (fst p) = cs \<and> symb (snd p) = cs"
  "symb q = cs \<Longrightarrow> symb (fst (new_refund_half cs q)) = cs \<and> symb (snd (new_refund_half cs q)) = cs"
  by (auto simp: refund_half_def new_refund_half_def res_simps asset_minus_iff split: if_splits)

lemma conf_request:
  assumes "asset_laws E" "changebw_request E cs f x n c s = Inr (bn, bc, d, s')" "conf cs b s" "symb n = cs" "symb c = cs"
  shows "conf cs b s' \<and> symb bn = cs \<and> symb bc = cs"
proof -
  have s': "(s' = s\<lparr>bw := (bw s)\<lparr>refunds := t_del f (refunds (bw s))\<rparr>\<rparr> \<or>
      s' = s\<lparr>bw := (bw s)\<lparr>refunds := t_set f z (refunds (bw s))\<rparr>\<rparr>) \<Longrightarrow> refund_conf cs z \<Longrightarrow> conf cs b s'" for z
    using conf_bw_rows(3,4) [OF assms(3)] by auto
  show ?thesis
  proof (cases "x \<or> wrap64 (amount n + amount c) < 0")
    case True
    show ?thesis
    proof (cases "t_get (refunds (bw s)) f")
      case None
      then show ?thesis
        using True assms(2-) conf_refund_half(2) [OF assms(4)] conf_refund_half(2) [OF assms(5)] conf_bw_rows(3) [OF assms(3)]
        by (auto simp: changebw_request_def Let_def case_prod_beta refund_conf_def split: if_splits)
    next
      case (Some y)
      obtain p q z where "refund_half E (net_amount y) n = Inr p" "refund_half E (cpu_amount y) c = Inr q"
        and z: "z = y\<lparr>request_time := (if amount n < 0 \<or> amount c < 0 then time_sec E (current_time E) else request_time y),
             net_amount := fst p, cpu_amount := fst q\<rparr>"
        and r: "(if refund_is_empty z then Inr (snd p, snd q, False, s\<lparr>bw := (bw s)\<lparr>refunds := t_del f (refunds (bw s))\<rparr>\<rparr>)
          else Inr (snd p, snd q, True, s\<lparr>bw := (bw s)\<lparr>refunds := t_set f z (refunds (bw s))\<rparr>\<rparr>)) = (Inr (bn, bc, d, s') :: (asset \<times> asset \<times> bool \<times> sys_state) res)"
        using assms(2) unfolding changebw_request_def Some option.case if_P [OF True] let_Inr_iff rbind_Inr_iff check_Inr_iff case_prod_beta
        by (elim exE conjE) (rule that, assumption+)
      then have "refund_conf cs z \<and> symb (snd p) = cs \<and> symb (snd q) = cs"
        using conf_refund_half(1) [OF assms(1)] assms(4,5) by (simp add: refund_conf_def)
      then show ?thesis using r s' by (auto split: if_splits)
    qed
  qed (use assms(2-) in \<open>simp add: changebw_request_def\<close>)
qed

lemma conf_bw_refund:
  assumes "asset_laws E" "changebw_refund E cs src f x n c s = Inr s'" "conf cs b s" "symb n = cs" "symb c = cs"
  shows "conf cs b s'"
proof (cases "lit E ''eosio.stake'' = src")
  case False
  then obtain bn bc d s1 q where r: "changebw_request E cs f x n c s = Inr (bn, bc, d, s1)" and q: "asset_plus E bn bc = Inr q"
    and s': "s' = (let s2 = emit (CancelDeferred (uint f)) s1;
        s3 = (if d then emit (SendDeferred (uint f) f refund_delay_sec (DeferRefund f)) s2 else s2)
      in if 0 < amount q then send_transfer E [src] src (lit E ''eosio.stake'') q ''stake bandwidth'' s3 else s3)"
    using assms(2) by (auto simp: changebw_refund_def res_simps Let_def)
  have "conf cs b s1 \<and> symb q = cs" using conf_request [OF assms(1) r assms(3-)] q asset_plus_iff [OF assms(1)] by auto
  then show ?thesis unfolding s' Let_def by (auto intro!: conf_intros)
qed (use assms(2,3) in \<open>simp add: changebw_refund_def\<close>)

lemma conf_changebw:
  assumes "asset_laws E" "conf cs b s" "symb n = cs" "symb c = cs"
  shows "ensures (changebw E k r n c x s) (conf cs b)"
proof (rule ensuresI)
  fix s' assume a: "changebw E k r n c x s = Inr s'"
  obtain f s1 s2 cs' y s3 s4 q where 1: "changebw_delegation E f r n c s = Inr s1" and 2: "changebw_totals E r n c s1 = Inr s2"
    and y: "sys_core s2 = Inr cs'" and 3: "changebw_refund E cs' k f y n c s2 = Inr s3"
    and 4: "update_rex_stake f s3 = Inr s4" and 5: "on_vs (update_voting_power E f q) s4 = Inr s'"
    using a unfolding changebw_def Let_def rbind_Inr_iff check_Inr_iff require_auth_Inr_iff
    by (elim exE conjE) (rule that, assumption+)
  have s2: "conf cs b s2" by (rule conf_totals [OF assms(1) 2 conf_delegation [OF assms(1) 1 assms(2-)] assms(3,4)])
  have "conf cs b s3" using 3 confD(5) [OF s2 y] by (intro conf_bw_refund [OF assms(1) _ s2 assms(3,4)]) simp
  then show "conf cs b s'" by (rule conf_on(1) [OF 5 conf_rex_stake [OF 4]])
qed

lemma conf_delegatebw:
  assumes "asset_laws E" "conf cs b s"
  shows "ensures (delegatebw E k r n c x s) (conf cs b)"
  unfolding delegatebw_def
  by (intro ensures_base conf_changebw assms) (use confD(5) [OF assms(2)] asset_le_iff [OF assms(1)] in auto)

lemma conf_undelegatebw:
  assumes "asset_laws E" "conf cs b s"
  shows "ensures (undelegatebw E k r n c s) (conf cs b)"
  unfolding undelegatebw_def
  by (intro ensures_base conf_changebw assms(1))
    (use confD(5) [OF assms(2)] assms(2) asset_le_iff [OF assms(1)] in
      \<open>auto simp: asset_neg_def res_simps intro: conf_vs split: if_splits\<close>)

lemma conf_refund:
  assumes "asset_laws E" "conf cs b s"
  shows "ensures (refund E k s) (conf cs b)"
  unfolding refund_def Let_def
  by (intro ensures_intros conf_bw_rows conf_send assms)
    (use bw_confD(3) [OF assms(2)] asset_plus_iff [OF assms(1)] in \<open>auto simp: refund_conf_def res_simps\<close>)

end
