(* ===== verification/SysDemo.thy ===== *)
theory SysDemo
  imports Admin
begin

text \<open>
  A concrete environment and a concrete initial state of the system contract, in which the witnesses
  of its properties are evaluated: time is in seconds, the core symbol is \<open>(5, 4)\<close>, no account is
  privileged.
\<close>

definition core_sym :: symbol where
  "core_sym = \<lparr>sym_code = 5, sym_precision = 4\<rparr>"

definition no_registry :: registry_state where
  "no_registry = registry_init"

definition sys_ref :: "name list \<Rightarrow> i64 \<Rightarrow> sys_env" where
  "sys_ref auths t = env.extend (ref_env 99 auths t)
     \<lparr>token_of = token_init, suffix = (\<lambda>n. n), name_str = (\<lambda>n. []), dpow = (\<lambda>x y. x * y),
      propose_schedule = (\<lambda>ps. 0), null_key = [0], host_defaults = \<lparr>max_authority_depth = 6, other_params = []\<rparr>,
      sort_pending = (\<lambda>xs. sort_key (\<lambda>x. - snd x) xs), sha256 = (\<lambda>b. b), end_total_votes = 0,
      registry_of = (\<lambda>n. no_registry)\<rparr>"

lemma sys_ref_laws [simp]: "asset_laws (sys_ref auths t)"
  using ref_env_laws [of 99 auths t] by (simp add: sys_ref_def env.defs asset_laws_def)

lemma sys_ref_simps [simp]:
  "self_acct (sys_ref auths t) = 99" "has_auth (sys_ref auths t) n \<longleftrightarrow> n \<in> set auths"
  "is_account (sys_ref auths t) n \<longleftrightarrow> n \<noteq> 0"
  "current_time (sys_ref auths t) = t" "lit (sys_ref auths t) = ref_lit"
  "asset_plus (sys_ref auths t) = ref_op (+)" "asset_minus (sys_ref auths t) = ref_op (-)"
  "asset_le (sys_ref auths t) a b = check (symb a = symb b) ''asset comparison'' (Inr (amount a \<le> amount b))"
  "asset_new (sys_ref auths t) i y = check (sym_code y \<noteq> 0 \<and> \<bar>i\<bar> \<le> max_amount) ''asset'' (Inr (mk_asset i y))"
  "time_sec (sys_ref auths t) u = u32 (cdiv u 1000000)"
  "block_slot (sys_ref auths t) u = u32 (cdiv (cdiv u 1000 - 946684800000) 500)"
  "suffix (sys_ref auths t) n = n" "name_str (sys_ref auths t) n = []"
  "sort_pending (sys_ref auths t) xs = sort_key (\<lambda>x. - snd x) xs" "null_key (sys_ref auths t) = [0]"
  "propose_schedule (sys_ref auths t) ps = 0"
  by (simp_all add: sys_ref_def env.defs ref_env_def)

definition demo_params :: blockchain_parameters where
  "demo_params = \<lparr>max_authority_depth = 6, other_params = []\<rparr>"

definition demo_market :: exchange_state where
  "demo_market = \<lparr>ex_supply = mk_asset 100000000000000 ramcore_symbol,
     base = \<lparr>conn_balance = mk_asset 68719476736 ram_symbol, weight = dlit (1 / 2)\<rparr>,
     quote = \<lparr>conn_balance = mk_asset 1000000 core_sym, weight = dlit (1 / 2)\<rparr>\<rparr>"

definition demo_sys :: sys_state where
  "demo_sys = (sys_init_state demo_params)\<lparr>rammarket := Some demo_market\<rparr>"

lemma demo_market_core [simp]: "symb (conn_balance (conn Quote demo_market)) = core_sym"
  by (simp add: demo_market_def conn.simps del: conn_simps)

lemma demo_sys_simps [simp]:
  "rammarket demo_sys = Some demo_market" "sys_core demo_sys = Inr core_sym" "sys_out demo_sys = []"
  "rexpool (rx demo_sys) = None" "rexfunds (rx demo_sys) = t_empty" "rexbalance (rx demo_sys) = t_empty"
  "rexorders (rx demo_sys) = t_empty" "cpu_loans (rx demo_sys) = t_empty" "net_loans (rx demo_sys) = t_empty"
  "namebids demo_sys = t_empty" "bidrefunds demo_sys = t_empty" "oracles demo_sys = t_empty"
  "voters (vs demo_sys) = t_empty" "producers (vs demo_sys) = t_empty"
  "userres (bw demo_sys) = t_empty" "delband (bw demo_sys) = t_empty" "refunds (bw demo_sys) = t_empty"
  "limits (bw demo_sys) = (\<lambda>_. (-1, -1, -1))" "gst (vs demo_sys) = default_gstate demo_params"
  by (simp_all add: demo_sys_def sys_init_state_def sys_core_def)

end
