(* ===== verification/Typing.thy ===== *)
theory Typing
  imports Conform SysDemo
begin

text \<open>
  The typing of amounts is kept by every action: REX, pay, names and the rest, and the dispatcher. Before
  \<open>init\<close> no table holds an amount; afterwards all of them are in the symbol \<open>init\<close> has chosen.
\<close>

section \<open>REX: maintenance\<close>

lemma conf_namebids:
  assumes "run_namebids E s = Inr s'" "conf cs b s"
  shows "conf cs b s'"
proof -
  obtain p where p: "rexpool (rx s) = Some p" using assms(1) by (auto simp: run_namebids_def pool_row_def res_simps)
  have pc: "pool_conf cs p" by (rule rx_confD(1) [OF confD(1) [OF assms(2)] p])
  let ?s1 = "channel_to_rex E (lit E ''eosio.names'') (namebid_proceeds p) s"
  have 1: "conf cs b ?s1" using assms(2) pc by (intro conf_channel) (simp_all add: pool_conf_def)
  show ?thesis
  proof (cases "amount (namebid_proceeds p) > 0")
    case True
    then obtain p1 where p1: "rexpool (rx ?s1) = Some p1"
      and s': "s' = put_rx (put_pool (p1\<lparr>namebid_proceeds := set_amt 0 (namebid_proceeds p1)\<rparr>) (rx ?s1)) ?s1"
      using assms(1) p by (auto simp: run_namebids_def pool_row_def res_simps Let_def)
    have "pool_conf cs p1" by (rule rx_confD(1) [OF confD(1) [OF 1] p1])
    then show ?thesis unfolding s' using rx_conf_updates(1) [OF confD(1) [OF 1]]
      by (intro conf_rx(2) 1) (simp add: pool_conf_def)
  qed (use assms p in \<open>simp add: run_namebids_def pool_row_def\<close>)
qed

lemma conf_loans:
  assumes "asset_laws E"
  shows "run_loans E cs kd n s = Inr s' \<Longrightarrow> conf cs b s \<Longrightarrow> conf cs b s'"
proof (induction n arbitrary: s)
  case (Suc n)
  show ?case
  proof (cases "loans_by_expr kd (rx s)")
    case (Cons l ls)
    show ?thesis
    proof (cases "expiration l > current_time E")
      case False
      then obtain del d r1 s1 where pe: "process_expired_loan E cs kd l (rx s) = Inr ((del, d), r1)"
        and s1: "if d \<noteq> 0 then update_resource_limits E (loan_receiver l) (fst (limit_delta kd d)) (snd (limit_delta kd d)) (put_rx r1 s) = Inr s1
          else s1 = put_rx r1 s"
        and rest: "run_loans E cs kd n (if del then put_rx (set_loans kd (t_del (loan_num l) (loans kd (rx s1))) (rx s1)) s1 else s1) = Inr s'"
        using Suc.prems Cons by (auto simp: res_simps case_prod_beta split: if_splits)
      obtain k where "t_get (loans kd (rx s)) k = Some l"
        using Cons set_t_index [of l "\<lambda>a b. by_expr a < by_expr b" "loans kd (rx s)"] by (auto simp: loans_by_expr_def)
      then have "loan_conf cs l" by (rule rx_confD(5) [OF confD(1) [OF Suc.prems(2)]])
      then have "conf cs b (put_rx r1 s)" using conf_expired [OF pe confD(1) [OF Suc.prems(2)]] Suc.prems(2) by (intro conf_intros)
      then have 1: "conf cs b s1" using s1 by (auto dest: conf_resource_limits [OF assms] split: if_splits)
      then have "conf cs b (if del then put_rx (set_loans kd (t_del (loan_num l) (loans kd (rx s1))) (rx s1)) s1 else s1)"
        using rx_conf_updates(10) [OF confD(1) [OF 1]] by (simp add: conf_intros)
      then show ?thesis by (rule Suc.IH [OF rest])
    qed (use Suc.prems Cons in simp)
  qed (use Suc.prems in simp)
qed simp

lemma conf_order:
  assumes "asset_laws E" "run_order E cs ord s = Inr s'" "conf cs b s" "order_conf cs ord"
  shows "conf cs b s'"
proof (cases "t_has (rexbalance (rx s)) (order_owner ord)")
  case True
  then obtain x r1 where f: "fill_rex_order E cs (order_owner ord) (rex_requested ord) (rx s) = Inr (x, r1)"
    and s': "s' = (if success x
             then send_result E (RexOrderResult (order_owner ord) (out_proceeds x))
                    (put_rx (r1\<lparr>rexorders := t_set (order_owner ord)
                      (ord\<lparr>proceeds := set_amt (amount (out_proceeds x)) (proceeds ord),
                           stake_change := set_amt (amount (out_stake_change x)) (stake_change ord),
                           is_open := False\<rparr>) (rexorders r1)\<rparr>) s)
             else put_rx r1 s)"
    using assms(2) by (auto simp: run_order_def res_simps case_prod_beta)
  note F = conf_fill [OF assms(1) f confD(1) [OF assms(3)]]
  then show ?thesis unfolding s' using assms(3,4) rx_conf_updates(5) [of cs r1]
    by (auto intro!: conf_intros simp: order_conf_def)
qed (use assms in \<open>simp add: run_order_def\<close>)

lemma conf_runrex:
  assumes "asset_laws E" "runrex E n s = Inr s'" "conf cs b s"
  shows "conf cs b s'"
proof -
  obtain c s1 s2 s3 where c: "sys_core s = Inr c"
    and 1: "run_namebids E s = Inr s1" "run_loans E c CPU n s1 = Inr s2" "run_loans E c NET n s2 = Inr s3"
    and f: "rfold (run_order E c) (takeWhile is_open (take n (orders_by_time (rx s3)))) s3 = Inr s'"
    using assms(2) by (auto simp: runrex_def res_simps)
  have cs: "c = cs" by (rule confD(5) [OF assms(3) c])
  have 3: "conf cs b s3"
    using conf_loans [OF assms(1) 1(3)] conf_loans [OF assms(1) 1(2)] conf_namebids [OF 1(1) assms(3)] cs by simp
  have o: "order_conf cs ord" if "ord \<in> set (takeWhile is_open (take n (orders_by_time (rx s3))))" for ord
    using that t_all_index [of "order_conf cs" "rexorders (rx s3)" ord] confD(1) [OF 3]
    by (auto simp: orders_by_time_def rx_conf_def dest!: set_takeWhileD in_set_takeD)
  show ?thesis by (rule rfold_inv [OF f, of "conf cs b"]) (use 3 o cs conf_order [OF assms(1)] in auto)
qed

lemma conf_rex_account:
  assumes "update_rex_account E cs k q d force s = Inr (x, s')" "conf cs b s"
  shows "conf cs b s' \<and> symb x = rex_symbol"
proof -
  obtain to_fund to_stake r r1 where
    c: "(case t_get (rexorders (rx s)) k of
           None \<Rightarrow> (q, d, mk_asset 0 rex_symbol, rx s)
         | Some ord \<Rightarrow> if is_open ord then (q, d, mk_asset (amount (rex_requested ord)) rex_symbol, rx s)
             else (add_amt (amount (proceeds ord)) q, add_amt (amount (stake_change ord)) d,
                   mk_asset 0 rex_symbol, (rx s)\<lparr>rexorders := t_del k (rexorders (rx s))\<rparr>)) = (to_fund, to_stake, x, r)"
    and f: "(if amount to_fund > 0 then transfer_to_fund cs k to_fund r else Inr r) = Inr r1"
    and p: "(if force \<or> amount to_stake \<noteq> 0 then on_vs (update_voting_power E k to_stake) (put_rx r1 s) else Inr (put_rx r1 s)) = Inr s'"
    using assms(1) by (auto simp: update_rex_account_def Let_def rbind_Inr_iff split: prod.splits)
  have "rx_conf cs r \<and> symb x = rex_symbol"
    using c confD(1) [OF assms(2)] rx_conf_updates(8) [OF confD(1) [OF assms(2)]] by (auto split: option.splits if_splits)
  then have r1: "rx_conf cs r1 \<and> symb x = rex_symbol" using f by (auto dest: conf_to_fund split: if_splits)
  then have "conf cs b (put_rx r1 s)" using assms(2) by (intro conf_intros) auto
  then show ?thesis using p r1 by (auto dest: conf_on(1) split: if_splits)
qed

section \<open>REX: actions\<close>

lemma conf_deposit:
  assumes "asset_laws E" "conf cs b s"
  shows "ensures (deposit E k q s) (conf cs b)"
  unfolding deposit_def
  by (intro ensures_intros ensuresI) (use assms(2) confD(1,5) [OF assms(2)] in
    \<open>auto simp: on_rx_Inr_iff intro!: conf_intros dest: conf_to_fund\<close>)

lemma conf_withdraw:
  assumes "asset_laws E" "conf cs b s"
  shows "ensures (withdraw E k q s) (conf cs b)"
proof (rule ensuresI)
  fix s' assume "withdraw E k q s = Inr s'"
  then obtain c x s1 r where c: "sys_core s = Inr c" "symb q = c"
    and 1: "update_rex_account E c k (mk_asset 0 c) (mk_asset 0 c) False s = Inr (x, s1)"
    and r: "transfer_from_fund E c k q (rx s1) = Inr r"
    and s': "s' = send_transfer E [lit E ''eosio.rex''] (lit E ''eosio.rex'') k q ''withdraw from REX fund'' (s1\<lparr>rx := r\<rparr>)"
    by (auto simp: withdraw_def res_simps)
  have cs: "c = cs" by (rule confD(5) [OF assms(2) c(1)])
  have 1: "conf cs b s1" using conf_rex_account [OF 1 [unfolded cs] assms(2)] by simp
  show "conf cs b s'" unfolding s' using 1 conf_from_fund [OF r confD(1) [OF 1]] c(2) cs by (intro conf_intros) auto
qed

lemma conf_buyrex:
  assumes "asset_laws E" "conf cs b s"
  shows "ensures (buyrex E k q s) (conf cs b)"
proof (rule ensuresI)
  fix s' assume "buyrex E k q s = Inr s'"
  then obtain c r1 x d r2 s1 y s2 where c: "sys_core s = Inr c" "symb q = c" and 1: "transfer_from_fund E c k q (rx s) = Inr r1"
    and 2: "buy_into_pool E c k q r1 = Inr ((x, d), r2)" and 3: "runrex E 2 (put_rx r2 s) = Inr s1"
    and 4: "update_rex_account E c k (mk_asset 0 c) d False s1 = Inr (y, s2)" and s': "s' = send_result E (RexBuyResult x) s2"
    by (auto simp: buyrex_def res_simps)
  have cs: "c = cs" by (rule confD(5) [OF assms(2) c(1)])
  note B = conf_buy [OF assms(1) 2 [unfolded cs] conf_from_fund [OF 1 confD(1) [OF assms(2)]]]
  have "conf cs b s1" using B c cs by (intro conf_runrex [OF assms(1) 3] conf_intros assms(2)) simp
  then show "conf cs b s'" unfolding s' using conf_rex_account [OF 4 [unfolded cs]] B c cs by (intro conf_intros) auto
qed

lemma conf_unstaketorex:
  assumes "asset_laws E" "conf cs b s"
  shows "ensures (unstaketorex E k r n c s) (conf cs b)"
proof (rule ensuresI)
  fix s' assume "unstaketorex E k r n c s = Inr s'"
  then obtain y d d1 s1 s2 pay s3 x z r1 s4 w s5 where y: "sys_core s = Inr y" "symb n = y"
    and d: "t_get (delband (bw s)) (k, r) = Some d"
    and d1: "d1 = d\<lparr>dbw_net := add_amt (- amount n) (dbw_net d), dbw_cpu := add_amt (- amount c) (dbw_cpu d)\<rparr>"
    and s1: "s1 = s\<lparr>bw := (bw s)\<lparr>delband := (if dbw_is_empty d1 then t_del (k, r) (delband (bw s))
                                        else t_set (k, r) d1 (delband (bw s)))\<rparr>\<rparr>"
    and 2: "update_resource_limits E r (wrap64 (- amount n)) (wrap64 (- amount c)) s1 = Inr s2"
    and pay: "asset_plus E n c = Inr pay"
    and s3: "s3 = send_transfer E [lit E ''eosio.stake''] (lit E ''eosio.stake'') (lit E ''eosio.rex'') pay
                ''buy REX with staked tokens'' s2"
    and buy: "buy_into_pool E y k pay (rx s3) = Inr ((x, z), r1)" and 4: "runrex E 2 (put_rx r1 s3) = Inr s4"
    and 5: "update_rex_account E y k (mk_asset 0 y) (mk_asset 0 y) True s4 = Inr (w, s5)"
    and s': "s' = send_result E (RexBuyResult x) s5"
    by (auto simp: unstaketorex_def res_simps Let_def)
  have cs: "y = cs" by (rule confD(5) [OF assms(2) y(1)])
  have "dbw_conf cs d1" using bw_confD(2) [OF assms(2) d] by (simp add: d1 dbw_conf_def)
  then have "conf cs b s1" unfolding s1 using conf_bw_rows(1,2) [OF assms(2)] by auto
  then have "conf cs b s2" by (rule conf_resource_limits [OF assms(1) 2])
  moreover have p: "symb pay = cs" using pay y(2) cs asset_plus_iff [OF assms(1)] by auto
  ultimately have s3: "conf cs b s3" unfolding s3 by (rule conf_send(1))
  note B = conf_buy [OF assms(1) buy [unfolded cs] confD(1) [OF s3] p]
  have "conf cs b s4" using B s3 by (intro conf_runrex [OF assms(1) 4] conf_rx(2)) auto
  then show "conf cs b s'" unfolding s' using conf_rex_account [OF 5 [unfolded cs]] B by (intro conf_intros) auto
qed

lemma conf_sellrex:
  assumes "asset_laws E" "conf cs b s"
  shows "ensures (sellrex E k q s) (conf cs b)"
proof (rule ensuresI)
  fix s' assume a: "sellrex E k q s = Inr s'"
  obtain s1 w w1 r2 c cur p z where 1: "runrex E 2 s = Inr s1" and w: "t_get (rexbalance (rx s1)) k = Some w"
    and q: "symb q = symb (rex_amount w)" and w1: "w1 = process_rex_maturities E w" and r2: "r2 = put_bal k w1 (rx s1)"
    and c: "sys_core s1 = Inr c" and 3: "fill_rex_order E c k q r2 = Inr cur"
    and 4: "update_rex_account E c k (out_proceeds (fst cur)) (out_stake_change (fst cur)) False (put_rx (snd cur) s1) = Inr p"
    and 5: "(if success (fst cur) then Inr (amount (fst p), snd p)
       else check (k \<noteq> lit E ''b1'') ''b1 sellrex orders should not be queued'' (
         let ord = (case t_get (rexorders (rx (snd p))) k of
               None \<Rightarrow> \<lparr>order_owner = k, rex_requested = q, proceeds = mk_asset 0 c, stake_change = mk_asset 0 c,
                        order_time = current_time E, is_open = True\<rparr>
             | Some ord \<Rightarrow> ord\<lparr>rex_requested := add_amt (amount q) (rex_requested ord)\<rparr>)
         in Inr (amount (rex_requested ord), put_rx ((rx (snd p))\<lparr>rexorders := t_set k ord (rexorders (rx (snd p)))\<rparr>) (snd p)))) = Inr z"
    and s': "(if success (fst cur) then send_result E (RexSellResult (out_proceeds (fst cur))) (snd z) else snd z) = s'"
    using a unfolding sellrex_def rbind_Inr_iff check_Inr_iff require_auth_Inr_iff rget_Inr_iff case_prod_beta
      let_Inr_iff [of "process_rex_maturities E _"] let_Inr_iff [of "put_bal _ _ _"] sum.inject
    by (elim exE conjE) (rule that, assumption+)
  have s1: "conf cs b s1" by (rule conf_runrex [OF assms(1) 1 assms(2)])
  have cs: "c = cs" by (rule confD(5) [OF s1 c])
  have wc: "bal_conf cs w" by (rule rx_confD(3) [OF confD(1) [OF s1] w])
  then have "rx_conf cs r2" by (simp add: r2 w1 rx_conf_updates(3) [OF confD(1) [OF s1]])
  then have F: "rx_conf cs (snd cur)" "symb (out_proceeds (fst cur)) = cs"
    using conf_fill [OF assms(1), of cs k q r2 "fst cur" "snd cur"] 3 cs by auto
  have p: "conf cs b (snd p)"
    using conf_rex_account [of E cs k _ _ _ "put_rx (snd cur) s1" "fst p" "snd p"] 4 cs conf_rx(2) [OF s1 F(1)] by auto
  have "order_conf cs (case t_get (rexorders (rx (snd p))) k of
       None \<Rightarrow> \<lparr>order_owner = k, rex_requested = q, proceeds = mk_asset 0 c, stake_change = mk_asset 0 c,
                order_time = current_time E, is_open = True\<rparr>
     | Some ord \<Rightarrow> ord\<lparr>rex_requested := add_amt (amount q) (rex_requested ord)\<rparr>)"
    using wc q cs rx_confD(4) [OF confD(1) [OF p]] by (auto simp: order_conf_def bal_conf_def split: option.split)
  then have "conf cs b (snd z)"
    using 5 p rx_conf_updates(5) [OF confD(1) [OF p]] by (auto simp: check_Inr_iff Let_def intro!: conf_rx split: if_splits)
  then show "conf cs b s'" using F by (auto simp: s' [symmetric] intro: conf_intros)
qed

lemma conf_cnclrexorder:
  assumes "conf cs b s"
  shows "ensures (cnclrexorder E k s) (conf cs b)"
  unfolding cnclrexorder_def
  by (intro ensures_intros conf_rx assms rx_conf_updates(8) confD(1) [OF assms])

lemma conf_rent:
  assumes "asset_laws E" "conf cs b s"
  shows "ensures (rent_rex E kd k t p f s) (\<lambda>x. conf cs b (snd x))"
proof (rule ensuresI)
  fix x assume a: "rent_rex E kd k t p f s = Inr x"
  obtain s1 c both r2 n r3 st i u e where 1: "runrex E 2 s = Inr s1" and c: "sys_core s1 = Inr c" "symb p = c" "symb f = c"
    and 2: "transfer_from_fund E c k both (rx s1) = Inr r2" and 3: "add_loan_to_rex_pool p n True r2 = Inr r3"
    and st: "asset_new E n c = Inr st"
    and u: "u = t_set i \<lparr>loan_from = k, loan_receiver = t, payment = p, loan_balance = f, total_staked = st, loan_num = i,
        expiration = e\<rparr> (loans kd r3)"
    and x: "snd x = send_result E (RexRentResult st) (put_rx (set_loans kd u r3) s1)"
    using a by (auto simp: rent_rex_def res_simps)
  have s1: "conf cs b s1" by (rule conf_runrex [OF assms(1) 1 assms(2)])
  have cs: "c = cs" by (rule confD(5) [OF s1 c(1)])
  have r3: "rx_conf cs r3" by (rule conf_add_loan [OF 3 conf_from_fund [OF 2 confD(1) [OF s1]]])
  have "symb st = cs" using st cs asset_new_iff [OF assms(1)] by auto
  then show "conf cs b (snd x)"
    unfolding x u using c cs s1 by (intro conf_intros) (simp_all add: rx_conf_updates(6) [OF r3] loan_conf_def)
qed

lemma conf_rentals:
  assumes "asset_laws E" "conf cs b s"
  shows "ensures (rentcpu E k t p f s) (conf cs b)" "ensures (rentnet E k t p f s) (conf cs b)"
  unfolding rentcpu_def rentnet_def
  by (intro ensures_auth ensures_call [OF conf_rent [OF assms]] ensuresI; auto dest: conf_resource_limits [OF assms(1)] split: prod.splits)+

lemma conf_loan_funds:
  assumes "conf cs b s"
  shows "ensures (fundloan E kd k n q s) (conf cs b)" "ensures (defloan E kd k n q s) (conf cs b)"
  unfolding fundloan_def defloan_def
  by (intro ensures_auth ensures_base(5) ensuresI;
      use assms confD(1,5) [OF assms] in \<open>auto elim!: conf_on(2) dest: conf_fund_loan conf_defund_loan\<close>)+

text \<open>The maintenance actions end by writing the owner's balance back.\<close>

lemma conf_put_bal:
  assumes "conf cs b s" "bal_conf cs w"
  shows "conf cs b (put_rx (put_bal k w (rx s)) s)"
  using assms rx_conf_updates(3) [OF confD(1) [OF assms(1)]] by (intro conf_intros) auto

lemma conf_bal_row: "conf cs b s \<Longrightarrow> bal_row k (rx s) = Inr w \<Longrightarrow> bal_conf cs w"
  by (auto simp: bal_row_def res_simps intro: rx_confD(3) [OF confD(1)])

lemma bal_conf_move_out: "move_out n m w = Inr w' \<Longrightarrow> bal_conf cs w \<Longrightarrow> bal_conf cs w'"
  by (auto simp: move_out_def Let_def case_prod_beta res_simps split: if_splits)

lemma conf_updaterex:
  assumes "asset_laws E" "conf cs b s"
  shows "ensures (updaterex E k s) (conf cs b)"
proof (rule ensuresI)
  fix s' assume "updaterex E k s = Inr s'"
  then obtain s1 w c cur d x s2 w2 where 1: "runrex E 2 s = Inr s1" and w: "t_get (rexbalance (rx s1)) k = Some w"
    and c: "sys_core s1 = Inr c"
    and 2: "update_rex_account E c k (mk_asset 0 c) d True (put_rx (put_bal k (w\<lparr>vote_stake := mk_asset cur c\<rparr>) (rx s1)) s1) = Inr (x, s2)"
    and w2: "bal_row k (rx s2) = Inr w2" and s': "s' = put_rx (put_bal k (process_rex_maturities E w2) (rx s2)) s2"
    by (auto simp: updaterex_def require_auth_Inr_iff rbind_Inr_iff rget_Inr_iff)
  have s1: "conf cs b s1" by (rule conf_runrex [OF assms(1) 1 assms(2)])
  have cs: "c = cs" by (rule confD(5) [OF s1 c])
  have "bal_conf cs (w\<lparr>vote_stake := mk_asset cur cs\<rparr>)" using rx_confD(3) [OF confD(1) [OF s1] w] by simp
  then have "conf cs b s2" using conf_rex_account [OF 2 [unfolded cs] conf_put_bal [OF s1]] by simp
  then show "conf cs b s'" unfolding s' using conf_bal_row [OF _ w2] by (intro conf_put_bal) auto
qed

lemma conf_consolidate:
  assumes "asset_laws E" "conf cs b s"
  shows "ensures (consolidate E k s) (conf cs b)"
proof (rule ensuresI)
  fix s' assume "consolidate E k s = Inr s'"
  then obtain s1 c x s2 w where 1: "runrex E 2 s = Inr s1" and c: "sys_core s1 = Inr c"
    and 2: "update_rex_account E c k (mk_asset 0 c) (mk_asset 0 c) False s1 = Inr (x, s2)"
    and w: "bal_row k (rx s2) = Inr w" and s': "s' = put_rx (put_bal k (consolidate_rex_balance E x w) (rx s2)) s2"
    by (auto simp: consolidate_def require_auth_Inr_iff rbind_Inr_iff rget_Inr_iff)
  have s1: "conf cs b s1" by (rule conf_runrex [OF assms(1) 1 assms(2)])
  have "conf cs b s2" using conf_rex_account [OF 2 [unfolded confD(5) [OF s1 c]] s1] by simp
  then show "conf cs b s'" unfolding s' using conf_bal_row [OF _ w] by (intro conf_put_bal) auto
qed

lemma conf_mvtosavings:
  assumes "asset_laws E" "conf cs b s"
  shows "ensures (mvtosavings E k q s) (conf cs b)"
proof (rule ensuresI)
  fix s' assume a: "mvtosavings E k q s = Inr s'"
  obtain s1 c x w n w2 where 1: "runrex E 2 s = Inr s1" and c: "sys_core s1 = Inr c"
    and 2: "update_rex_account E c k (mk_asset 0 c) (mk_asset 0 c) False s1 = Inr x"
    and w: "bal_row k (rx (snd x)) = Inr w" "move_out (amount q) (amount (fst x)) (process_rex_maturities E (snd (read_rex_savings w))) = Inr w2"
    and s': "put_rx (put_bal k (put_rex_savings n w2) (rx (snd x))) (snd x) = s'"
    using a unfolding mvtosavings_def require_auth_Inr_iff rbind_Inr_iff rget_Inr_iff check_Inr_iff case_prod_beta Let_def sum.inject
    by (elim exE conjE) (rule that, assumption+)
  have s1: "conf cs b s1" by (rule conf_runrex [OF assms(1) 1 assms(2)])
  have s2: "conf cs b (snd x)" using conf_rex_account [of E cs k _ _ _ s1 "fst x" "snd x"] 2 confD(5) [OF s1 c] s1 by simp
  have "bal_conf cs w2" using bal_conf_move_out [OF w(2)] conf_bal_row [OF s2 w(1)] by simp
  then show "conf cs b s'" unfolding s' [symmetric] by (intro conf_put_bal s2) simp
qed

lemma conf_mvfrsavings:
  assumes "asset_laws E" "conf cs b s"
  shows "ensures (mvfrsavings E k q s) (conf cs b)"
proof (rule ensuresI)
  fix s' assume a: "mvfrsavings E k q s = Inr s'"
  obtain s1 w u j c x where 1: "runrex E 2 s = Inr s1" and w: "t_get (rexbalance (rx s1)) k = Some w"
    and c: "sys_core s1 = Inr c"
    and 2: "update_rex_account E c k (mk_asset 0 c) (mk_asset 0 c) False
      (put_rx (put_bal k (put_rex_savings j ((process_rex_maturities E (snd (read_rex_savings w)))\<lparr>rex_maturities := u\<rparr>)) (rx s1)) s1) = Inr x"
    and s': "snd x = s'"
    using a unfolding mvfrsavings_def require_auth_Inr_iff rbind_Inr_iff rget_Inr_iff check_Inr_iff case_prod_beta Let_def sum.inject
    by (elim exE conjE) (rule that, assumption+)
  have s1: "conf cs b s1" by (rule conf_runrex [OF assms(1) 1 assms(2)])
  have "bal_conf cs (snd (read_rex_savings w))" using rx_confD(3) [OF confD(1) [OF s1] w] by simp
  then show "conf cs b s'"
    using conf_rex_account [of E cs k _ _ _ _ "fst x" "snd x", OF _ conf_put_bal [OF s1]] 2 confD(5) [OF s1 c] by (auto simp: s' [symmetric])
qed

lemma conf_setrex:
  assumes "conf cs b s"
  shows "ensures (setrex E q s) (conf cs b)"
  unfolding setrex_def
  by (intro ensures_intros conf_rx assms) (use confD(5) [OF assms] rx_confD(1) [OF confD(1) [OF assms]] in
      \<open>auto simp: rx_conf_updates(1) [OF confD(1) [OF assms]] pool_row_def res_simps pool_conf_def\<close>)

lemma conf_rexexec:
  "asset_laws E \<Longrightarrow> conf cs b s \<Longrightarrow> ensures (rexexec E k n s) (conf cs b)"
  unfolding rexexec_def by (intro ensures_auth ensuresI) (rule conf_runrex)

lemma conf_closerex:
  assumes "asset_laws E" "conf cs b s"
  shows "ensures (closerex E k s) (conf cs b)"
proof (rule ensuresI)
  fix s' assume a: "closerex E k s = Inr s'"
  obtain s1 c x s2 r where 1: "(if rex_system_initialized (rx s) then runrex E 2 s else Inr s) = Inr s1" and c: "sys_core s1 = Inr c"
    and 2: "update_rex_account E c k (mk_asset 0 c) (mk_asset 0 c) False s1 = Inr (x, s2)"
    and r: "r = rx s2 \<or> r = (rx s2)\<lparr>rexfunds := t_del k (rexfunds (rx s2))\<rparr>"
    and s': "s' = put_rx r s2 \<or> s' = put_rx (r\<lparr>rexbalance := t_del k (rexbalance r)\<rparr>) s2"
    using a unfolding closerex_def Let_def rbind_Inr_iff require_auth_Inr_iff case_prod_beta
    by (elim conjE exE) (fastforce split: option.splits if_splits simp: check_Inr_iff)
  have s1: "conf cs b s1" using 1 conf_runrex [OF assms(1) _ assms(2)] assms(2) by (auto split: if_splits)
  have s2: "conf cs b s2" using conf_rex_account [OF 2 [unfolded confD(5) [OF s1 c]] s1] by simp
  then have "rx_conf cs r" using r confD(1) [OF s2] rx_conf_updates(7) [OF confD(1) [OF s2]] by auto
  then show "conf cs b s'" using s' rx_conf_updates(9) [of cs r] s2 by (auto intro: conf_rx)
qed

lemma conf_voteproducer:
  assumes "conf cs b s"
  shows "ensures (voteproducer E k p ps s) (conf cs b)"
proof (rule ensuresI)
  fix s' assume "voteproducer E k p ps s = Inr s'"
  then obtain s1 v2 v where "update_rex_stake k s = Inr s1" and "s' = s1\<lparr>vs := v\<rparr>"
    by (auto simp: voteproducer_def res_simps Let_def)
  then show "conf cs b s'" using conf_rex_stake assms by (auto intro: conf_vs)
qed

lemma rex_exec_conf:
  assumes "asset_laws E" "rex_exec E a s = Inr s'" "conf cs b s"
  shows "conf cs b s'"
proof -
  note acts = conf_deposit conf_withdraw conf_buyrex conf_unstaketorex conf_sellrex conf_rentals conf_updaterex conf_consolidate
    conf_mvtosavings conf_mvfrsavings conf_rexexec conf_closerex
  note others = conf_cnclrexorder conf_loan_funds conf_setrex conf_voteproducer
  show ?thesis
    using assms(2) by (cases a) (auto intro: acts [OF assms(1,3), THEN ensuresD] others [OF assms(3), THEN ensuresD])
qed

section \<open>The other components\<close>

lemma bw_exec_conf:
  assumes "asset_laws E" "bw_exec E a s = Inr s'" "conf cs b s"
  shows "conf cs b s'"
proof -
  have bytes: "ensures (buyrambytes E k t n s) (conf cs b)" for k t n
    unfolding buyrambytes_def case_prod_beta by (intro ensures_base(5) conf_buyram assms)
  note acts = conf_buyram conf_sellram conf_delegatebw conf_undelegatebw conf_refund
  show ?thesis
    using assms(2) by (cases a) (auto intro: acts [OF assms(1,3), THEN ensuresD] bytes [THEN ensuresD])
qed

lemma conf_inflate:
  assumes "asset_laws E" "conf cs b s"
  shows "ensures (inflate E u s) (conf cs b)"
proof (rule ensuresI)
  fix s' assume a: "inflate E u s = Inr s'"
  obtain c n t ps m xs s1 g where c: "sys_core s = Inr c" and n: "asset_new E n c = Inr t"
    and f: "rfold (pay_share E c) xs (emit (Inline (lit E ''eosio.token'') ps (TokenIssue (self_acct E) t m)) s) = Inr s1"
    and s': "put_gst g s1 = s'"
    using a unfolding inflate_def Let_def rbind_Inr_iff sum.inject by (elim exE conjE) (rule that, assumption+)
  have cs: "c = cs" by (rule confD(5) [OF assms(2) c])
  have "conf cs b s1"
  proof (rule rfold_inv [OF f])
    show "conf cs b (emit (Inline (lit E ''eosio.token'') ps (TokenIssue (self_acct E) t m)) s)"
      using n cs asset_new_iff [OF assms(1)] by (intro conf_emit assms(2)) auto
    show "conf cs b z'" if "conf cs b z" "pay_share E c x z = Inr z'" for x z z'
      using that cs asset_new_iff [OF assms(1)] by (cases x) (auto simp: pay_share_def res_simps intro: conf_send)
  qed
  then show "conf cs b s'" unfolding s' [symmetric] by (rule conf_other)
qed

lemma conf_share_inflation:
  assumes "asset_laws E" "conf cs b s"
  shows "ensures (share_inflation E s) (conf cs b)"
  unfolding share_inflation_def Let_def
  by (intro ensures_base ensures_cases(1) ensures_call [OF conf_inflate [OF assms]] assms(2) conf_other)

lemma conf_onblock:
  assumes "conf cs b s"
  shows "ensures (onblock E n p s) (conf cs b)"
proof -
  have np: "rx_conf cs r \<Longrightarrow> rx_conf cs (channel_namebid_to_rex i r)" for i r
    by (cases "rexpool r") (auto simp: channel_namebid_to_rex_def rx_conf_def pool_conf_def)
  have close: "conf cs b (close_auction E n z)" if "conf cs b z" for z
    unfolding close_auction_def Let_def
    using that np confD(1) [OF that] by (auto intro!: conf_rx conf_other split: option.split)
  have branch: "conf cs b x \<Longrightarrow> conf cs b y \<Longrightarrow> conf cs b (if c then x else y)"
    "conf cs b x \<Longrightarrow> (\<And>q. conf cs b (f q)) \<Longrightarrow> conf cs b (case opt of None \<Rightarrow> x | Some q \<Rightarrow> f q)" for x y c f opt
    by (auto split: option.split)
  show ?thesis
    unfolding onblock_def Let_def
    by (intro ensures_auth ensures_base(2) ensures_cases(1) branch close conf_vs conf_other assms)
qed

lemma conf_pay_from:
  assumes "asset_laws E" "pay_from E cs f k n m s = Inr s'" "conf cs b s"
  shows "conf cs b s'"
  using assms(2,3) asset_new_iff [OF assms(1)] by (auto simp: pay_from_def res_simps intro: conf_send split: if_splits)

lemma pay_exec_conf:
  assumes "asset_laws E" "pay_exec E a s = Inr s'" "conf cs b s"
  shows "conf cs b s'"
proof (cases a)
  case (Claimrewards k)
  then have c: "claimrewards E k s = Inr s'" using assms(2) by simp
  obtain s1 v ors n c i w r s2 s3 where 1: "share_inflation E s = Inr s1" and c: "sys_core s1 = Inr c"
    and 2: "pay_from E c ''eosio.bpay'' k i ''producer block pay'' (s1\<lparr>vs := v, oracles := ors, total_successful_requests := n\<rparr>) = Inr s2"
    and 3: "pay_from E c ''eosio.wpay'' k w ''producer witness pay'' s2 = Inr s3"
    and 4: "pay_from E c ''eosio.oracle'' k r ''producer oracle pay'' s3 = Inr s'"
    by (rule claimrewards_parts [OF c]) blast
  have s1: "conf cs b s1" by (rule ensuresD [OF conf_share_inflation [OF assms(1,3)] 1])
  then have "conf cs b (s1\<lparr>vs := v, oracles := ors, total_successful_requests := n\<rparr>)"
    by (intro conf_other conf_vs)
  then show ?thesis using 2 3 4 confD(5) [OF s1 c] conf_pay_from [OF assms(1)] by blast
next
  case (Claimdapprwd reg k d)
  then have a: "claimdapprwd E reg k d s = Inr s'" using assms(2) by simp
  consider "s' = s" | u s1 c i q g t where "inflate E u s = Inr s1" "sys_core s1 = Inr c" "asset_new E i c = Inr q"
      "s' = send_transfer E [lit E ''eosio.dpay''] (lit E ''eosio.dpay'') t q ''DApp reward transfer''
              (emit (Inline reg [at_active E k] (RegistryClaim k d i)) (put_gst g s1))"
    using a unfolding claimdapprwd_def Let_def require_auth_Inr_iff check_Inr_iff
    by (auto simp: rbind_Inr_iff require_auth_Inr_iff split: if_splits)
  then show ?thesis
  proof cases
    case 2
    have s1: "conf cs b s1" by (rule ensuresD [OF conf_inflate [OF assms(1,3)] 2(1)])
    show ?thesis unfolding 2(4) using confD(5) [OF s1 2(2)] 2(3) asset_new_iff [OF assms(1)]
      by (intro conf_send conf_emit conf_other s1) auto
  qed (use assms(3) in simp)
next
  case (Claimvoterwd k)
  then obtain s1 c q i v where 1: "share_inflation E s = Inr s1" and c: "sys_core s1 = Inr c" and q: "asset_new E i c = Inr q"
    and s': "s' = (send_transfer E [lit E ''eosio.vpay''] (lit E ''eosio.vpay'') k q ''Voter reward transfer'' s1)\<lparr>vs := v\<rparr>"
    using assms(2) by (auto simp: claimvoterwd_def res_simps Let_def)
  have s1: "conf cs b s1" by (rule ensuresD [OF conf_share_inflation [OF assms(1,3)] 1])
  then show ?thesis unfolding s' using confD(5) [OF s1 c] q asset_new_iff [OF assms(1)] by (intro conf_vs conf_send) auto
qed (use assms in \<open>auto simp: setvclaimprd_def res_simps intro: conf_other ensuresD [OF conf_onblock]\<close>)

lemma oracle_exec_conf:
  assumes "oracle_exec E a s = Inr s'" "conf cs b s"
  shows "conf cs b s'"
proof -
  have put: "conf cs b z \<Longrightarrow> conf cs b (put_oracle k oc z)" for k oc z by (simp add: put_oracle_def conf_other)
  have as: "ensures m P \<Longrightarrow> ensures (check_apis as m) P" for as and m :: "sys_state res" and P
    by (induction as) (auto intro: ensures_intros)
  have add: "ensures (addrequest E i k as r ag p t s) (conf cs b)" for i k as r ag p t
    unfolding addrequest_def check_response_type_def Let_def
    by (intro ensures_intros as put conf_other assms(2))
  have rep: "ensures (reply E k n y s) (conf cs b)" for k n y
    unfolding reply_def
    by (rule ensures_intros)+ (use assms(2) in \<open>auto intro!: put conf_other conf_emit simp: check_Inr_iff split: option.splits if_splits prod.splits\<close>)
  show ?thesis
    using assms by (cases a) (auto simp: setoracle_def res_simps intro: put ensuresD [OF add] ensuresD [OF rep])
qed

section \<open>Administration and dispatch\<close>

lemma conf_set_flag: "conf cs b s \<Longrightarrow> conf cs b (set_flag k f v s)"
  by (simp add: set_flag_def Let_def conf_vs)

lemma conf_setacct:
  assumes "conf cs b s"
  shows "ensures (setacctram E k n s) (conf cs b)" "ensures (setacctnet E k n s) (conf cs b)"
    "ensures (setacctcpu E k n s) (conf cs b)"
  by (auto simp: setacctram_def setacctnet_def setacctcpu_def Let_def case_prod_beta
      intro!: ensures_intros conf_limits(1) conf_set_flag assms)

lemma conf_settings:
  assumes "conf cs b s"
  shows "ensures (setabi E k y s) (conf cs b)" "ensures (setparams E ps s) (conf cs b)" "ensures (setpriv E k m s) (conf cs b)"
    "ensures (setalimits E k a d c s) (conf cs b)"
  unfolding setabi_def setparams_def setpriv_def setalimits_def Let_def
  by (intro ensures_intros conf_other conf_limits(1) assms)+

lemma conf_ram_settings:
  assumes "conf cs b s"
  shows "ensures (setram E m s) (conf cs b)" "ensures (setramrate E m s) (conf cs b)"
proof -
  show "ensures (setram E m s) (conf cs b)"
    unfolding setram_def Let_def
    by (intro ensures_intros conf_other conf_market assms)
      (use confD(3) [OF assms] market_conf_base in \<open>auto simp: rget_Inr_iff\<close>)
  show "ensures (setramrate E m s) (conf cs b)"
    unfolding setramrate_def by (intro ensures_auth ensures_base conf_vs) (rule conf_ram_supply [OF _ assms])
qed

lemma conf_bidname:
  assumes "asset_laws E" "conf cs b s"
  shows "ensures (bidname E k n q s) (conf cs b)"
proof (rule ensuresI)
  fix s' assume a: "bidname E k n q s = Inr s'"
  define s1 where "s1 = send_transfer E [k] k (lit E ''eosio.names'') q (''bid name '' @ name_str E n) s"
  obtain c where c: "sys_core s = Inr c" "symb q = c" using a by (auto simp: bidname_def res_simps)
  have cs: "c = cs" by (rule confD(5) [OF assms(2) c(1)])
  have s1: "conf cs b s1" unfolding s1_def using c cs by (intro conf_send assms(2)) simp
  show "conf cs b s'"
  proof (cases "t_get (namebids s1) n")
    case None
    then show ?thesis
      using a s1 unfolding bidname_def Let_def s1_def [symmetric]
      by (auto simp: check_Inr_iff require_auth_Inr_iff rbind_Inr_iff intro: conf_other)
  next
    case (Some cur)
    obtain c' old due e1 e2 t where c': "sys_core s = Inr c'" and r: "asset_new E (high_bid cur) c' = Inr old"
      "(case t_get (bidrefunds s1) (n, high_bidder cur) of None \<Rightarrow> Inr old | Some q \<Rightarrow> asset_plus E q old) = Inr due"
      and s': "(emit (SendDeferred e1 k 0 (DeferBidRefund (high_bidder cur) n)) (emit (CancelDeferred e2)
         (s1\<lparr>bidrefunds := t_set (n, high_bidder cur) due (bidrefunds s1)\<rparr>)))\<lparr>namebids := t\<rparr> = s'"
      using a unfolding bidname_def Let_def s1_def [symmetric] Some option.case rbind_Inr_iff check_Inr_iff require_auth_Inr_iff sum.inject
      by (elim exE conjE) (rule that, assumption+)
    have "symb due = cs"
      using r confD(5) [OF assms(2) c'] asset_new_iff [OF assms(1)] asset_plus_iff [OF assms(1)] bw_confD(4) [OF s1]
      by (auto split: option.splits)
    then show ?thesis unfolding s' [symmetric] by (intro conf_other conf_emit s1) auto
  qed
qed

lemma conf_bidrefund:
  assumes "conf cs b s"
  shows "ensures (bidrefund E k n s) (conf cs b)"
  unfolding bidrefund_def Let_def
  by (intro ensures_intros conf_other conf_send assms) (auto simp: rget_Inr_iff dest: bw_confD(4) [OF assms])

lemma conf_newaccount:
  assumes "conf cs b s"
  shows "ensures (newaccount E k n s) (conf cs b)"
proof (rule ensuresI)
  fix s' assume a: "newaccount E k n s = Inr s'"
  obtain s1 c where 1: "s1 = s \<or> s1 = s\<lparr>namebids := t_del n (namebids s)\<rparr>" and c: "sys_core s1 = Inr c"
    and s': "s' = set_resource_limits n 0 0 0 (s1\<lparr>bw := (bw s1)\<lparr>userres := t_set n
        \<lparr>net_weight = mk_asset 0 c, cpu_weight = mk_asset 0 c, ram_bytes = 0\<rparr> (userres (bw s1))\<rparr>\<rparr>)"
    using a by (auto simp: newaccount_def rbind_Inr_iff check_Inr_iff t_emplace_Inr_iff split: if_splits)
  have s1: "conf cs b s1" using 1 assms by (auto intro: conf_other)
  have "res_conf cs \<lparr>net_weight = mk_asset 0 c, cpu_weight = mk_asset 0 c, ram_bytes = 0\<rparr>"
    using confD(5) [OF s1 c] by (simp add: res_conf_def)
  then show "conf cs b s'"
    unfolding s' using conf_limits(2) [OF s1, of _ n] by (intro conf_limits(1)) (simp add: put_userres_def)
qed

lemma sys_exec_conf:
  assumes "asset_laws E" "sys_exec E a s = Inr s'" "conf cs b s" "\<nexists>v y. a = AdminAct (Init v y)"
  shows "conf cs b s'"
proof (cases a)
  case (AdminAct x)
  note settings = conf_setacct conf_settings conf_ram_settings conf_bidrefund conf_newaccount
  show ?thesis
    using assms(2,4) AdminAct
    by (cases x) (auto intro: settings [OF assms(3), THEN ensuresD] ensuresD [OF conf_bidname [OF assms(1,3)]] dest: conf_on(1) [OF _ assms(3)])
next
  case (Native x)
  then show ?thesis using assms(2,3) by (cases x) auto
qed (use assms in \<open>auto dest: rex_exec_conf bw_exec_conf pay_exec_conf oracle_exec_conf conf_on(1) [OF _ assms(3)]\<close>)

section \<open>From deployment on\<close>

text \<open>Before \<open>init\<close> the state conforms to every symbol, as it holds no amount; \<open>init\<close> chooses one.\<close>

definition well_typed :: "sys_state \<Rightarrow> bool" where
  "well_typed s \<longleftrightarrow> (case rammarket s of None \<Rightarrow> (\<forall>cs. conf cs False s) | Some m \<Rightarrow> conf (symb (conn_balance (conn Quote m))) True s)"

lemma well_typed_conf: "well_typed s \<longleftrightarrow> (if rammarket s = None then \<forall>cs. conf cs False s else \<exists>cs. conf cs True s)"
proof (cases "rammarket s")
  case (Some m)
  then have "conf cs True s \<Longrightarrow> symb (conn_balance (conn Quote m)) = cs" for cs using confD(8) by blast
  then show ?thesis using Some by (auto simp: well_typed_def)
qed (simp add: well_typed_def)

lemma conf_live: "conf cs b s \<Longrightarrow> b \<longleftrightarrow> rammarket s \<noteq> None"
  by (auto simp: conf_def market_conf_def split: option.splits)

lemma conf_core: "conf cs True s \<Longrightarrow> sys_core s = Inr cs"
  using conf_live [of cs True s] confD(5) [of cs True s] by (auto simp: sys_core_def core_symbol_Inr_iff)

lemma well_typed_idle: "well_typed s \<Longrightarrow> rammarket s = None \<Longrightarrow> conf cs False s"
  by (simp add: well_typed_def)

lemma well_typed_core: "well_typed s \<Longrightarrow> sys_core s = Inr cs \<Longrightarrow> conf cs True s"
  by (auto simp: sys_core_def core_symbol_Inr_iff well_typed_def)

lemma well_typed_out: "well_typed s \<Longrightarrow> well_typed (s\<lparr>sys_out := []\<rparr>)"
  by (auto simp: well_typed_def conf_def split: option.splits)

lemma init_parts:
  assumes "init E v y s = Inr s'"
  obtains m ps i where "rammarket s = None" "market_conf y True (Some m)"
    "s' = emit (Inline (lit E ''eosio.token'') ps (TokenOpen (lit E ''eosio.rex'') y i)) (s\<lparr>rammarket := Some m\<rparr>)"
proof -
  obtain m n i where m: "rammarket s = None"
    and mk: "m = \<lparr>ex_supply = mk_asset 100000000000000 ramcore_symbol,
              base = \<lparr>conn_balance = mk_asset (wrap64 n) ram_symbol, weight = dlit (1 / 2)\<rparr>,
              quote = \<lparr>conn_balance = mk_asset i y, weight = dlit (1 / 2)\<rparr>\<rparr>"
    and s': "emit (Inline (lit E ''eosio.token'') [at_active E (self_acct E)] (TokenOpen (lit E ''eosio.rex'') y (self_acct E)))
       (s\<lparr>rammarket := Some m\<rparr>) = s'"
    using assms unfolding init_def let_Inr_iff check_Inr_iff rbind_Inr_iff require_auth_Inr_iff sum.inject
    by (elim exE conjE) (rule that, assumption+)
  have "market_conf y True (Some m)" by (simp add: mk market_conf_def conn.simps del: conn_simps)
  then show ?thesis using m s' by (intro that) auto
qed

lemma init_typed:
  assumes "init E v y s = Inr s'" "well_typed s"
  shows "conf y True s'" "well_typed s'"
proof -
  obtain m ps i where m: "rammarket s = None" "market_conf y True (Some m)"
    and s': "s' = emit (Inline (lit E ''eosio.token'') ps (TokenOpen (lit E ''eosio.rex'') y i)) (s\<lparr>rammarket := Some m\<rparr>)"
    by (rule init_parts [OF assms(1)])
  show "conf y True s'" using well_typed_idle [OF assms(2) m(1), of y] m(2) by (simp add: s' conf_def emit_def)
  then show "well_typed s'" using conf_live by (fastforce simp: well_typed_conf)
qed

lemma sys_exec_typed:
  assumes "asset_laws E" "sys_exec E a s = Inr s'" "well_typed s"
  shows "well_typed s'"
proof (cases "\<exists>v y. a = AdminAct (Init v y)")
  case True
  then show ?thesis using assms(2) init_typed(2) [OF _ assms(3)] by auto
next
  case False
  then have c: "conf cs b s \<Longrightarrow> conf cs b s'" for cs b using sys_exec_conf [OF assms(1,2)] by blast
  show ?thesis
  proof (cases "rammarket s = None")
    case True
    then have "conf cs False s'" for cs using assms(3) c by (simp add: well_typed_conf)
    then show ?thesis using conf_live [of undefined False s'] by (simp add: well_typed_conf)
  next
    case False
    then obtain cs where "conf cs True s'" using assms(3) c by (auto simp: well_typed_conf split: if_splits)
    then show ?thesis using conf_live [of cs True s'] by (auto simp: well_typed_conf)
  qed
qed

text \<open>Before \<open>init\<close> no amount is well-typed, so that no table has a row with one and no transfer is sent.\<close>

lemma two_symbols: "\<exists>cs :: symbol. cs \<noteq> y"
  by (rule exI [of _ "y\<lparr>sym_code := sym_code y + 1\<rparr>"]) (cases y, simp)

lemma launch_silent:
  assumes "asset_laws E" "sys_exec E a s = Inr s'" "well_typed s" "rammarket s = None" "sys_out s = []" "e \<in> set (sys_out s')"
  shows "effect_transfer e = None"
proof (cases "\<exists>v y. a = AdminAct (Init v y)")
  case True
  then obtain v y where "init E v y s = Inr s'" using assms(2) by auto
  then show ?thesis using assms(5,6) by (auto simp: emit_def effect_transfer_def elim!: init_parts)
next
  case False
  have "conf cs False s'" for cs
    using sys_exec_conf [OF assms(1,2) well_typed_idle [OF assms(3,4)]] False by blast
  then have c: "effect_conf cs e" for cs using assms(6) by (simp add: conf_def list_all_iff)
  show ?thesis
  proof (cases "effect_transfer e")
    case (Some x)
    then obtain code ps f t q m where e: "e = Inline code ps (TokenTransfer f t q m)"
      by (auto simp: effect_transfer_def split: effect.splits call.splits)
    obtain cs where "cs \<noteq> symb q" using two_symbols by blast
    then show ?thesis using c [of cs] e by simp
  qed
qed

interpretation types: action_system sys_exec asset_laws well_typed
  by unfold_locales (rule sys_exec_typed)

lemma init_state_typed: "well_typed (sys_init_state p)"
  by (simp add: well_typed_def sys_init_state_def conf_def rx_conf_def bw_conf_def market_conf_def)

text \<open>The core symbol is chosen once.\<close>

lemma core_kept:
  assumes "reachable sys_exec asset_laws s s'" "well_typed s" "sys_core s = Inr cs"
  shows "sys_core s' = Inr cs \<and> conf cs True s'"
proof -
  have s: "rammarket s \<noteq> None" "conf cs True s"
    using assms(2,3) by (auto simp: sys_core_def core_symbol_Inr_iff well_typed_def)
  have "conf cs True s'" using assms(1)
  proof (induction rule: reachable.induct)
    case (reach_step z E a z')
    have "\<nexists>v y. a = AdminAct (Init v y)"
      using reach_step.hyps(3) conf_live [OF reach_step.IH] by (auto simp: init_def res_simps)
    then show ?case by (rule sys_exec_conf [OF reach_step.hyps(2,3) reach_step.IH])
  qed (rule s(2))
  then show ?thesis using conf_core by simp
qed

text \<open>
  C11. The typing of amounts: from the deployment of the system contract on, once \<open>init\<close> has chosen the core
  symbol it never changes, and every amount in the tables and in the calls the contract has sent is in its
  symbol: REX amounts in the REX symbol, the RAM market in RAM and \<open>RAMCORE\<close>, all others in the core symbol.
\<close>

theorem amounts_typed:
  assumes "reachable sys_exec asset_laws (sys_init_state p) s" and "sys_core s = Inr cs"
    and "reachable sys_exec asset_laws s s'"
  shows "sys_core s' = Inr cs \<and> conf cs True s'"
  using core_kept [OF assms(3) types.reachable_inv [OF assms(1) init_state_typed] assms(2)] .

definition typing_env :: sys_env where
  "typing_env = (sys_ref [99] 0)\<lparr>token_of := token_init\<lparr>stats := t_set 5 \<lparr>st_supply = mk_asset 1000 core_sym,
     st_max_supply = mk_asset 5000 core_sym, st_issuer = 1\<rparr> t_empty\<rparr>\<rparr>"

lemma typing_env_simps [simp]:
  "asset_laws typing_env" "has_auth typing_env n \<longleftrightarrow> n = 99" "self_acct typing_env = 99"
  "get_supply 5 (token_of typing_env) = Inr (mk_asset 1000 core_sym)"
  using sys_ref_laws [of "[99]" 0] by (simp_all add: typing_env_def asset_laws_def get_supply_def)

lemma typing_init:
  "\<exists>s. sys_exec typing_env (AdminAct (Init 0 core_sym)) (sys_init_state demo_params) = Inr s \<and> sys_core s = Inr core_sym \<and>
     userres (bw s) = t_empty"
  by (simp add: init_def require_auth_def Let_def sys_core_def)
    (simp add: core_sym_def sys_init_state_def emit_def conn.simps del: conn_simps)

theorem amounts_typed_witness:
  "\<exists>s s' r. reachable sys_exec asset_laws (sys_init_state demo_params) s \<and> reachable sys_exec asset_laws s s' \<and>
     t_get (userres (bw s')) 7 = Some r \<and> conf core_sym True s'"
proof -
  obtain s where 1: "sys_exec typing_env (AdminAct (Init 0 core_sym)) (sys_init_state demo_params) = Inr s"
    and c: "sys_core s = Inr core_sym" "userres (bw s) = t_empty"
    using typing_init by blast
  have r: "reachable sys_exec asset_laws (sys_init_state demo_params) s"
    by (rule reach_one [where exec = sys_exec and ok = asset_laws, OF 1]) simp
  obtain s' q where 2: "sys_exec typing_env (AdminAct (Newaccount 99 7)) s = Inr s'" and q: "t_get (userres (bw s')) 7 = Some q"
    using c by (simp add: newaccount_def t_emplace_def set_resource_limits_def)
  have "reachable sys_exec asset_laws s s'" by (rule reach_one [where exec = sys_exec and ok = asset_laws, OF 2]) simp
  then show ?thesis using amounts_typed [OF r c(1)] r q by blast
qed

end
