(* ===== verification/RexCustody.thy ===== *)
theory RexCustody
  imports NamesCustody Typing
begin

text \<open>
  The tokens at \<open>eosio.rex\<close>: what REX owes its users, against every action of the system contract. Besides
  the actions of REX, the fees of the RAM market and the proceeds of name auctions go there, and a change
  of bandwidth settles the stake of a REX balance; the other actions leave REX alone.
\<close>

section \<open>Actions that leave REX alone\<close>

lemma rx_on_vs: "on_vs f s = Inr s' \<Longrightarrow> rx s' = rx s"
  by (auto simp: on_vs_Inr_iff)

lemma rx_inflate:
  assumes "inflate E u s = Inr s'"
  shows "rx s' = rx s"
proof -
  obtain c xs e s1 g where f: "rfold (pay_share E c) xs (emit e s) = Inr s1" and s': "put_gst g s1 = s'"
    using assms unfolding inflate_def Let_def rbind_Inr_iff sum.inject by (elim exE conjE) (rule that, assumption+)
  have "rx s1 = rx s"
    by (rule rfold_inv [OF f, of "\<lambda>z. rx z = rx s"]) (auto simp: pay_share_def res_simps)
  then show ?thesis by (simp add: s' [symmetric])
qed

lemma rx_share_inflation: "share_inflation E s = Inr s' \<Longrightarrow> rx s' = rx s"
  by (auto simp: share_inflation_def Let_def rbind_Inr_iff dest!: rx_inflate split: if_splits)

lemma rx_pay_from: "pay_from E cs f k n m s = Inr s' \<Longrightarrow> rx s' = rx s"
  by (auto simp: pay_from_def res_simps split: if_splits)

lemma rx_claims:
  shows "claimrewards E k s = Inr s' \<Longrightarrow> rx s' = rx s" "claimdapprwd E reg k d s = Inr s' \<Longrightarrow> rx s' = rx s"
    "claimvoterwd E k s = Inr s' \<Longrightarrow> rx s' = rx s"
proof -
  assume "claimrewards E k s = Inr s'"
  then show "rx s' = rx s" by (rule claimrewards_parts) (auto dest!: rx_pay_from rx_share_inflation)
next
  assume "claimdapprwd E reg k d s = Inr s'"
  then show "rx s' = rx s"
    unfolding claimdapprwd_def Let_def
    by (auto simp: rbind_Inr_iff check_Inr_iff require_auth_Inr_iff dest: rx_inflate split: if_splits)
next
  assume "claimvoterwd E k s = Inr s'"
  then show "rx s' = rx s" by (auto simp: claimvoterwd_def res_simps Let_def dest: rx_share_inflation)
qed

lemma rx_flags [simp]: "rx (put_oracle k oc s) = rx s" "rx (set_flag k f v s) = rx s"
  by (simp_all add: put_oracle_def set_flag_def Let_def)

lemma rx_oracle:
  assumes "oracle_exec E a s = Inr s'"
  shows "rx s' = rx s"
proof -
  have as: "ensures m P \<Longrightarrow> ensures (check_apis as m) P" for as and m :: "sys_state res" and P
    by (induction as) (auto intro: ensures_intros)
  have add: "ensures (addrequest E i k as r ag p t s) (\<lambda>z. rx z = rx s)" for i k as r ag p t
    unfolding addrequest_def check_response_type_def Let_def by (intro ensures_intros as) simp_all
  have rep: "ensures (reply E k n y s) (\<lambda>z. rx z = rx s)" for k n y
    unfolding reply_def
    by (rule ensures_intros)+ (auto simp: check_Inr_iff split: option.splits if_splits prod.splits)
  show ?thesis
    using assms by (cases a) (auto simp: setoracle_def res_simps dest: ensuresD [OF add] ensuresD [OF rep])
qed

lemma rx_admin:
  assumes "admin_exec E a s = Inr s'"
  shows "rx s' = rx s"
proof -
  have acct: "ensures (setacctram E k n s) (\<lambda>z. rx z = rx s)" "ensures (setacctnet E k n s) (\<lambda>z. rx z = rx s)"
    "ensures (setacctcpu E k n s) (\<lambda>z. rx z = rx s)" for k n
    by (auto simp: setacctram_def setacctnet_def setacctcpu_def Let_def case_prod_beta intro!: ensures_intros)
  have settings: "ensures (setabi E k y s) (\<lambda>z. rx z = rx s)" "ensures (setparams E ps s) (\<lambda>z. rx z = rx s)"
    "ensures (setpriv E k m s) (\<lambda>z. rx z = rx s)" "ensures (setalimits E k i d c s) (\<lambda>z. rx z = rx s)"
    "ensures (init E n sy s) (\<lambda>z. rx z = rx s)" "ensures (setram E n s) (\<lambda>z. rx z = rx s)"
    for k y ps m i d c n sy
    unfolding setabi_def setparams_def setpriv_def setalimits_def init_def setram_def Let_def
    by (intro ensures_intros; simp add: emit_def)+
  have rate: "setramrate E n s = Inr s' \<Longrightarrow> rx s' = rx s" for n
    by (auto simp: setramrate_def update_ram_supply_def Let_def res_simps split: if_splits)
  have bid: "ensures (bidname E k n q s) (\<lambda>z. rx z = rx s)" "ensures (bidrefund E k n s) (\<lambda>z. rx z = rx s)" for k n q
    unfolding bidname_def bidrefund_def Let_def by (intro ensures_intros; simp)+
  show ?thesis
    using assms
    by (cases a) (auto dest: rx_on_vs newaccount_bids rate acct [THEN ensuresD] settings [THEN ensuresD] bid [THEN ensuresD])
qed

section \<open>Bandwidth, RAM and names\<close>

lemma rex_trans_outside:
  "sys_core s' = sys_core s \<Longrightarrow> sys_out s' = sys_out s \<Longrightarrow> rx s' = rx s \<Longrightarrow> rex_trans E (X, p, s) (X, p, s')"
  by (auto simp: rex_trans_def)

lemma rex_trans_effect:
  assumes "case effect_transfer e of None \<Rightarrow> True | Some (f, t, q) \<Rightarrow> f \<noteq> lit E ''eosio.rex'' \<and> t \<noteq> lit E ''eosio.rex''"
  shows "rex_trans E (X, p, s) (X, p, emit e s)"
  by (rule rex_trans_emit [where e = e]) (use assms in \<open>auto simp: emit_def moved_one split: option.splits\<close>)

lemma rex_trans_send:
  "f \<noteq> lit E ''eosio.rex'' \<Longrightarrow> t \<noteq> lit E ''eosio.rex'' \<Longrightarrow> rex_trans E (X, p, s) (X, p, send_transfer E as f t q m s)"
  by (simp add: send_transfer_def rex_trans_effect)

lemma rex_trans_changebw:
  assumes "sys_ok E" "changebw E k r n c x s = Inr s'"
  shows "rex_trans E ({}, 0, s) ({}, 0, s')"
proof -
  obtain tot f s1 s2 cs s3 s4 where k: "has_auth E k" and 1: "changebw_delegation E f r n c s = Inr s1"
    and 2: "changebw_totals E r n c s1 = Inr s2"
    and 3: "changebw_refund E cs k f (\<not> x \<and> f = r) n c s2 = Inr s3" and 4: "update_rex_stake f s3 = Inr s4"
    and 5: "on_vs (update_voting_power E f tot) s4 = Inr s'"
    using assms(2) unfolding changebw_def let_Inr_iff rbind_Inr_iff check_Inr_iff require_auth_Inr_iff
    by (elim exE conjE) (rule that, assumption+)
  have kr: "k \<noteq> lit E ''eosio.rex''" "lit E ''eosio.stake'' \<noteq> lit E ''eosio.rex''"
    using signer_not_fund [OF assms(1), of "''eosio.rex''"] k lit_eq [OF assms(1)] by (auto simp: signers_def)
  have "rex_trans E ({}, 0, s) ({}, 0, s1)"
    by (rule rex_trans_frame) (use 1 in \<open>auto simp: changebw_delegation_def res_simps\<close>)
  also have "rex_trans E ({}, 0, s1) ({}, 0, s2)"
    by (rule totals_shape [OF 2], rule rex_trans_frame) auto
  also have "rex_trans E ({}, 0, s2) ({}, 0, s3)"
  proof (cases "lit E ''eosio.stake'' = k")
    case False
    then obtain a b d t q where t: "changebw_request E cs f (\<not> x \<and> f = r) n c s2 = Inr (a, b, d, t)"
      and s3: "s3 = (let u = emit (CancelDeferred (uint f)) t;
          v = (if d then emit (SendDeferred (uint f) f refund_delay_sec (DeferRefund f)) u else u)
        in if 0 < amount q then send_transfer E [k] k (lit E ''eosio.stake'') q ''stake bandwidth'' v else v)"
      using 3 by (auto simp: changebw_refund_def res_simps Let_def)
    define u where "u = emit (CancelDeferred (uint f)) t"
    define v where "v = (if d then emit (SendDeferred (uint f) f refund_delay_sec (DeferRefund f)) u else u)"
    have "rex_trans E ({}, 0, s2) ({}, 0, t)"
      by (rule rex_trans_frame) (use t in \<open>auto simp: changebw_request_def res_simps Let_def split: if_splits option.splits prod.splits\<close>)
    also have "rex_trans E ({}, 0, t) ({}, 0, u)" unfolding u_def by (rule rex_trans_effect) simp
    also have "rex_trans E ({}, 0, u) ({}, 0, v)" unfolding v_def by (simp add: rex_trans_effect)
    also have "rex_trans E ({}, 0, v) ({}, 0, s3)"
      unfolding s3 Let_def u_def [symmetric] v_def [symmetric] using rex_trans_send [OF kr] by simp
    finally show ?thesis .
  qed (use 3 in \<open>simp add: changebw_refund_def\<close>)
  also note rex_trans_update_stake [OF 4]
  also note rex_trans_on_vs [OF 5]
  finally show ?thesis .
qed

lemma ram_fee_trans:
  assumes "sys_ok E" "has_auth E k"
  shows "rex_trans E (X, p, s) (X, p, channel_to_rex E a q (send_transfer E [k] k (lit E ''eosio.ramfee'') q' m s))"
proof -
  have "k \<noteq> lit E ''eosio.rex''" "lit E ''eosio.ramfee'' \<noteq> lit E ''eosio.rex''"
    using signer_not_fund [OF assms(1), of "''eosio.rex''"] assms(2) lit_eq [OF assms(1)] by (auto simp: signers_def)
  then show ?thesis by (rule rex_trans_trans [OF rex_trans_send rex_trans_channel])
qed

lemma supply_trans:
  assumes "update_ram_supply E s = Inr s'" "conf cs True s"
  shows "rex_trans E (X, p, s) (X, p, s')"
proof (rule rex_trans_outside)
  show "sys_core s' = sys_core s" using conf_core [OF conf_ram_supply [OF assms]] conf_core [OF assms(2)] by simp
  show "sys_out s' = sys_out s" "rx s' = rx s"
    using assms(1) by (auto simp: update_ram_supply_def Let_def res_simps split: if_splits)
qed

lemma rex_trans_ram:
  assumes "sys_ok E" "conf cs True s"
  shows "ensures (buyram E k t q s) (\<lambda>z. rex_trans E ({}, 0, s) ({}, 0, z))"
    "ensures (sellram E k n s) (\<lambda>z. rex_trans E ({}, 0, s) ({}, 0, z))"
proof -
  let ?rex = "lit E ''eosio.rex''"
  note al = sys_okD(1) [OF assms(1)]
  have kr: "has_auth E k \<Longrightarrow> k \<noteq> ?rex" and rr: "lit E ''eosio.ram'' \<noteq> ?rex"
    using signer_not_fund [OF assms(1), of "''eosio.rex''"] lit_eq [OF assms(1)] by (auto simp: signers_def)
  show "ensures (buyram E k t q s) (\<lambda>z. rex_trans E ({}, 0, s) ({}, 0, z))"
  proof (rule ensuresI)
    fix s' assume a: "buyram E k t q s = Inr s'"
    obtain s1 fee p s2 s3 m g y s4 w where k: "has_auth E k" and u: "update_ram_supply E s = Inr s1"
      and 2: "s2 = send_transfer E [k, lit E ''eosio.ram''] k (lit E ''eosio.ram'') p ''buy ram'' s1"
      and 3: "s3 = (if amount fee > 0
               then channel_to_rex E (lit E ''eosio.ramfee'') fee
                      (send_transfer E [k] k (lit E ''eosio.ramfee'') fee ''ram fee'' s2)
               else s2)"
      and s4: "s4 = s3\<lparr>rammarket := Some m, vs := (vs s3)\<lparr>gst := g\<lparr>
                total_ram_bytes_reserved := u64 (total_ram_bytes_reserved g + y),
                total_ram_stake := wrap64 (total_ram_stake g + amount p)\<rparr>\<rparr>\<rparr>"
      and s': "sync_ram_limit t (ram_bytes w) (put_userres t w s4) = s'"
      using a unfolding buyram_def let_Inr_iff rbind_Inr_iff check_Inr_iff require_auth_Inr_iff case_prod_beta sum.inject
      by (elim exE conjE) (rule that, assumption+)
    have c: "sys_core s = sys_core s'"
      using conf_core ensuresD [OF conf_buyram [OF al assms(2)] a] assms(2) by metis
    have "rex_trans E ({}, 0, s) ({}, 0, s1)" by (rule supply_trans [OF u assms(2)])
    also have "rex_trans E ({}, 0, s1) ({}, 0, s2)" unfolding 2 using kr [OF k] rr by (rule rex_trans_send)
    also have "rex_trans E ({}, 0, s2) ({}, 0, s3)" unfolding 3 using ram_fee_trans [OF assms(1) k] by simp
    finally have t: "rex_trans E ({}, 0, s) ({}, 0, s3)" .
    also have "rex_trans E ({}, 0, s3) ({}, 0, s')"
    proof (rule rex_trans_outside)
      have "sys_core s3 = sys_core s" using t by (simp add: rex_trans_def)
      then show "sys_core s' = sys_core s3" using c by simp
    qed (simp_all add: s' [symmetric] s4 sync_ram_limit_def split: prod.split)
    finally show "rex_trans E ({}, 0, s) ({}, 0, s')" .
  qed
  show "ensures (sellram E k n s) (\<lambda>z. rex_trans E ({}, 0, s) ({}, 0, z))"
  proof (rule ensuresI)
    fix s' assume a: "sellram E k n s = Inr s'"
    obtain s1 r m1 q s4 j w y g where u: "update_ram_supply E s = Inr s1" and k: "has_auth E k"
      and "t_get (userres (bw s1)) k = Some r" "w = r\<lparr>ram_bytes := y\<rparr>"
      and s4: "s4 = send_transfer E [lit E ''eosio.ram'', k] (lit E ''eosio.ram'') k q ''sell ram''
         (sync_ram_limit k j (put_userres k w (s1\<lparr>rammarket := Some m1, vs := (vs s1)\<lparr>gst := g\<rparr>\<rparr>)))"
      and s': "s' = s4 \<or> (\<exists>fq. s' = channel_to_rex E (lit E ''eosio.ramfee'') fq
                 (send_transfer E [k] k (lit E ''eosio.ramfee'') fq ''sell ram fee'' s4))"
      using a unfolding sellram_def Let_def rbind_Inr_iff check_Inr_iff require_auth_Inr_iff rget_Inr_iff case_prod_beta
      by (elim exE conjE) (fastforce simp: rbind_Inr_iff split: if_splits)
    let ?z = "sync_ram_limit k j (put_userres k w (s1\<lparr>rammarket := Some m1, vs := (vs s1)\<lparr>gst := g\<rparr>\<rparr>))"
    have c: "sys_core s = sys_core s'"
      using conf_core ensuresD [OF conf_sellram [OF al assms(2)] a] assms(2) by metis
    have "rammarket s' = rammarket ?z" using s' by (auto simp: s4 channel_to_rex_def send_transfer_def emit_def)
    then have z: "sys_core ?z = sys_core s" using c by (simp add: sys_core_def)
    have "rex_trans E ({}, 0, s) ({}, 0, s1)" by (rule supply_trans [OF u assms(2)])
    then have c1: "sys_core s1 = sys_core s" by (simp add: rex_trans_def)
    have "rex_trans E ({}, 0, s) ({}, 0, s1)" by fact
    also have "rex_trans E ({}, 0, s1) ({}, 0, ?z)"
      by (rule rex_trans_outside) (simp only: z c1, simp_all add: sync_ram_limit_def split: prod.split)
    also have "rex_trans E ({}, 0, ?z) ({}, 0, s4)" unfolding s4 using kr [OF k] rr by (intro rex_trans_send)
    also have "rex_trans E ({}, 0, s4) ({}, 0, s')" using s' ram_fee_trans [OF assms(1) k] by auto
    finally show "rex_trans E ({}, 0, s) ({}, 0, s')" .
  qed
qed

lemma rex_trans_bw:
  assumes "sys_ok E" "conf cs True s" "bw_exec E a s = Inr s'"
  shows "rex_trans E ({}, 0, s) ({}, 0, s')"
proof (cases a)
  case (Delegatebw k r n c x)
  then show ?thesis using assms(3) by (auto simp: delegatebw_def res_simps intro: rex_trans_changebw [OF assms(1)])
next
  case (Undelegatebw k r n c)
  obtain v :: voter_info and s1 where 1: "(if staked v > 1000000
       then rbind (rget (NoRow ''unable to find key'') (t_get (producers (vs s)) k)) (\<lambda>p. on_vs (put_producer k (deactivate E p)) s)
       else Inr s) = Inr s1"
    and 2: "changebw E k r (asset_neg n) (asset_neg c) False s1 = Inr s'"
    using assms(3) unfolding Undelegatebw bw_exec.simps undelegatebw_def rbind_Inr_iff check_Inr_iff
    by (elim exE conjE) (rule that; assumption)
  have "rex_trans E ({}, 0, s) ({}, 0, s1)" using 1 by (auto simp: rbind_Inr_iff intro: rex_trans_on_vs split: if_splits)
  also note rex_trans_changebw [OF assms(1) 2]
  finally show ?thesis .
next
  case (Refund k)
  then obtain q b where k: "has_auth E k" and s': "s' = (send_transfer E [lit E ''eosio.stake'', k] (lit E ''eosio.stake'') k q ''unstake'' s)\<lparr>bw := b\<rparr>"
    using assms(3) by (auto simp: refund_def res_simps Let_def)
  have kr: "lit E ''eosio.stake'' \<noteq> lit E ''eosio.rex''" "k \<noteq> lit E ''eosio.rex''"
    using signer_not_fund [OF assms(1), of "''eosio.rex''"] k lit_eq [OF assms(1)] by (auto simp: signers_def)
  show ?thesis unfolding s' by (rule rex_trans_trans [OF rex_trans_send [OF kr] rex_trans_frame]) simp_all
qed (use assms(3) rex_trans_ram [OF assms(1,2), THEN ensuresD] in \<open>auto simp: buyrambytes_def res_simps\<close>)

section \<open>What is owed by REX\<close>

definition rex_due :: "sys_state \<Rightarrow> int" where
  "rex_due s = liab (rx s)"

definition rex_held :: "sys_state \<Rightarrow> bool" where
  "rex_held s \<longleftrightarrow> well_typed (s\<lparr>sys_out := []\<rparr>) \<and> (\<forall>cs. sys_core s = Inr cs \<longrightarrow> rex_inv cs (rx s))"

lemma untyped_empty:
  assumes "\<And>cs. t_all (P cs) t" "\<And>r. \<exists>cs. \<not> P cs r"
  shows "t = t_empty"
  using assms by (intro t_ext) (metis not_None_eq t_allD t_get_empty)

lemma idle_rex:
  assumes "well_typed s" "rammarket s = None"
  shows "liab (rx s) = 0" "rex_inv cs (rx s)"
proof -
  have c: "rx_conf y (rx s)" for y using assms by (simp add: well_typed_def conf_def)
  have t: "t_all (core_asset y) (rexfunds (rx s))" "t_all (bal_conf y) (rexbalance (rx s))" "t_all (order_conf y) (rexorders (rx s))"
    "t_all (loan_conf y) (cpu_loans (rx s))" "t_all (loan_conf y) (net_loans (rx s))" for y
    using c by (simp_all add: rx_conf_def)
  have "rexfunds (rx s) = t_empty"
    by (rule untyped_empty [of core_asset, OF t(1)]) (metis core_asset_def two_symbols)
  moreover have "rexbalance (rx s) = t_empty"
    by (rule untyped_empty [of bal_conf, OF t(2)]) (metis bal_conf_def two_symbols)
  moreover have "rexorders (rx s) = t_empty"
    by (rule untyped_empty [of order_conf, OF t(3)]) (metis order_conf_def two_symbols)
  moreover have l: "\<exists>y. \<not> loan_conf y l" for l by (metis loan_conf_def two_symbols)
  moreover have "cpu_loans (rx s) = t_empty" "net_loans (rx s) = t_empty"
    by (rule untyped_empty [of loan_conf, OF t(4) l], rule untyped_empty [of loan_conf, OF t(5) l])
  moreover have "rexpool (rx s) = None"
  proof (cases "rexpool (rx s)")
    case (Some p)
    then have "pool_conf y p" for y using c [of y] by (simp add: rx_conf_def)
    then show ?thesis using two_symbols by (metis pool_conf_def)
  qed simp
  ultimately show "liab (rx s) = 0" "rex_inv cs (rx s)"
    by (simp_all add: rex_inv_def rex_inv_ex_def rex_rows_def covered_def liab_def lendable_def rex_cap_def)
qed

lemma channel_names_rex:
  assumes "rex_inv cs r"
  shows "liab (channel_namebid_to_rex i r) = liab r \<and> rex_inv cs (channel_namebid_to_rex i r)"
proof (cases "rex_available r")
  case True
  then obtain p where p: "rexpool r = Some p" by (auto simp: rex_available_iff)
  define p1 where "p1 = p\<lparr>namebid_proceeds := add_amt i (namebid_proceeds p)\<rparr>"
  have c: "channel_namebid_to_rex i r = put_pool p1 r" using True p by (simp add: channel_namebid_to_rex_def p1_def put_pool_def)
  have rows: "rex_rows cs {} r" using assms by (simp add: rex_inv_def rex_inv_ex_def)
  have "pool_ok (rex_total r) p1" using rows_pool_ok [OF rows p] by (auto simp: pool_ok_def p1_def)
  then show ?thesis
    using put_pool_spec [OF rows, of p1] p assms by (simp add: c p1_def lendable_def rex_inv_def rex_inv_ex_def)
qed (use assms in \<open>simp add: channel_namebid_to_rex_def\<close>)

section \<open>Every action\<close>

lemma moved_silent:
  "\<forall>e \<in> set es. effect_transfer e = None \<Longrightarrow> moved_out a es = 0" "\<forall>e \<in> set es. effect_transfer e = None \<Longrightarrow> moved_in a es = 0"
  by (induction es) (simp_all add: moved_out_def moved_in_def)

lemma update_rex_account_out:
  assumes "update_rex_account E cs k p d b s = Inr (pend, s')"
  shows "sys_out s' = sys_out s"
  by (rule update_rex_account_unfold [OF assms]) (auto simp: on_vs_Inr_iff)

text \<open>Only a withdrawal pays out of REX, and it receives nothing.\<close>

lemma rex_sender:
  assumes "sys_ok E" "lit E ''eosio.rex'' \<in> sys_senders E a"
  shows "\<exists>k q. a = RexAct (Withdraw k q)"
proof -
  note d = lit_eq [OF assms(1)] lit_not_self [OF assms(1)]
  have "lit E ''eosio.rex'' \<notin> admin_senders E b" "lit E ''eosio.rex'' \<notin> bw_senders E c" "lit E ''eosio.rex'' \<notin> pay_senders E p"
    "lit E ''eosio.rex'' \<in> rex_senders E r \<Longrightarrow> \<exists>k q. r = Withdraw k q" for b c p r
    subgoal by (cases b) (simp_all add: d)
    subgoal by (cases c) (simp_all add: d)
    subgoal by (cases p) (simp_all add: d)
    subgoal by (cases r) (simp_all add: d)
    done
  then show ?thesis using assms(2) by (cases a) auto
qed

lemma rex_no_outgo:
  assumes "sys_ok E" "sys_exec E a s = Inr s'" "sys_out s = []" "\<nexists>k q. a = RexAct (Withdraw k q)"
  shows "outgo (lit E ''eosio.rex'') s' = 0"
proof -
  have "lit E ''eosio.rex'' \<notin> signers E \<union> sys_senders E a"
    using signer_not_fund [OF assms(1), of "''eosio.rex''"] rex_sender [OF assms(1), of a] assms(4) by auto
  then have "outgo (lit E ''eosio.rex'') s' = outgo (lit E ''eosio.rex'') s"
    by (rule frame_outgo [OF frame_from_empty [OF assms(1,2)]])
  then show ?thesis using assms(3) by (simp add: outgo_def)
qed

lemma rex_one_way:
  assumes "sys_ok E" "sys_exec E a s = Inr s'" "sys_out s = []" "transfers_ok (sys_out s')"
  shows "outgo (lit E ''eosio.rex'') s' = 0 \<or> income (lit E ''eosio.rex'') s' = 0"
proof (cases "\<exists>k q. a = RexAct (Withdraw k q)")
  case True
  then obtain k q where w: "withdraw E k q s = Inr s'" using assms(2) by auto
  then obtain cs pend s1 s2 where u: "update_rex_account E cs k (mk_asset 0 cs) (mk_asset 0 cs) False s = Inr (pend, s1)"
    and 2: "on_rx (transfer_from_fund E cs k q) s1 = Inr s2"
    and s': "s' = send_transfer E [lit E ''eosio.rex''] (lit E ''eosio.rex'') k q ''withdraw from REX fund'' s2"
    by (auto simp: withdraw_def res_simps)
  have "sys_out s2 = []" using update_rex_account_out [OF u] 2 assms(3) by (auto simp: on_rx_def res_simps)
  then show ?thesis using assms(4) by (auto simp: s' send_transfer_def emit_def income_def moved_one transfers_ok_one)
qed (use rex_no_outgo [OF assms(1-3)] in simp)

text \<open>Of the actions that are not of REX or bandwidth, only the end of an auction writes to REX.\<close>

lemma rx_other:
  assumes "sys_exec E a s = Inr s'" "\<nexists>b. a = RexAct b" "\<nexists>b. a = BwAct b"
  shows "rx s' = rx s \<or> (\<exists>i. rx s' = channel_namebid_to_rex i (rx s))"
proof (cases "\<exists>n p. a = PayAct (Onblock n p)")
  case True
  then obtain n p where "onblock E n p s = Inr s'" using assms(1) by auto
  then obtain t where t: "rx t = rx s" "s' = t \<or> s' = close_auction E n t" by (rule onblock_shape)
  have "rx (close_auction E n t) = rx t \<or> (\<exists>i. rx (close_auction E n t) = channel_namebid_to_rex i (rx t))"
    by (auto simp: close_auction_def Let_def put_rx_def put_gst_def split: option.split)
  then show ?thesis using t by auto
next
  case False
  have "rx s' = rx s" if "pay_exec E b s = Inr s'" "a = PayAct b" for b
    using that False by (cases b) (auto simp: setvclaimprd_def res_simps dest: rx_claims)
  then show ?thesis using assms by (cases a) (auto dest: rx_admin rx_oracle rx_on_vs)
qed

lemma rex_trans_held:
  assumes "rex_trans E ({}, 0, s) ({}, 0, s')" "sys_core s = Inr cs" "rex_inv cs (rx s)" "sys_out s = []" "transfers_ok (sys_out s')"
    "liab (rx s) + income (lit E ''eosio.rex'') s' \<le> rex_cap"
  shows "rex_inv cs (rx s') \<and> liab (rx s') + outgo (lit E ''eosio.rex'') s' = liab (rx s) + income (lit E ''eosio.rex'') s'"
  using assms moved_nonneg(2) [OF assms(5), of "lit E ''eosio.rex''"]
  by (auto simp: rex_trans_def rex_inv_def rex_inv_ex_def income_def outgo_def)

lemma rex_live_step:
  assumes "sys_ok E" "sys_args_ok a" "conf cs True s" "rex_inv cs (rx s)" "sys_out s = []" "sys_exec E a s = Inr s'"
    "transfers_ok (sys_out s')" "liab (rx s) \<le> rex_cap"
    "liab (rx s) + income (lit E ''eosio.rex'') s' - outgo (lit E ''eosio.rex'') s' \<le> rex_cap"
  shows "rex_inv cs (rx s') \<and> liab (rx s') + outgo (lit E ''eosio.rex'') s' \<le> liab (rx s) + income (lit E ''eosio.rex'') s'"
proof (cases "(\<exists>b. a = RexAct b) \<or> (\<exists>b. a = BwAct b)")
  case True
  have "rex_trans E ({}, 0, s) ({}, 0, s')"
    using True assms(2,6) rex_trans_exec [OF sys_okD(1) [OF assms(1)]] rex_trans_bw [OF assms(1,3)]
    by (auto simp: sys_args_ok_def rex_args_ok_def)
  moreover have "liab (rx s) + income (lit E ''eosio.rex'') s' \<le> rex_cap"
    using rex_one_way [OF assms(1,6,5,7)] assms(8,9) by auto
  ultimately show ?thesis using rex_trans_held [OF _ conf_core [OF assms(3)] assms(4,5,7)] by simp
next
  case False
  then have "outgo (lit E ''eosio.rex'') s' = 0" using rex_no_outgo [OF assms(1,6,5)] by blast
  moreover have "rex_inv cs (rx s') \<and> liab (rx s') = liab (rx s)"
    using rx_other [OF assms(6)] False channel_names_rex [OF assms(4)] assms(4) by auto
  ultimately show ?thesis using income_nonneg [OF assms(7)] by simp
qed

lemma rex_step:
  assumes "sys_ok E" "sys_args_ok a" "rex_held s" "sys_out s = []" "sys_exec E a s = Inr s'"
    "transfers_ok (sys_out s')" "rex_due s \<le> rex_cap"
    "rex_due s + income (lit E ''eosio.rex'') s' - outgo (lit E ''eosio.rex'') s' \<le> rex_cap"
  shows "rex_held s' \<and> rex_due s' + outgo (lit E ''eosio.rex'') s' \<le> rex_due s + income (lit E ''eosio.rex'') s'"
proof -
  note al = sys_okD(1) [OF assms(1)]
  have "s\<lparr>sys_out := []\<rparr> = s" using assms(4) by (cases s) simp
  then have w: "well_typed s" using assms(3) by (simp add: rex_held_def)
  have w': "well_typed s'" by (rule sys_exec_typed [OF al assms(5) w])
  show ?thesis
  proof (cases "rammarket s = None")
    case True
    have "\<forall>e \<in> set (sys_out s'). effect_transfer e = None"
      using launch_silent [OF al assms(5) w True assms(4)] by blast
    then have out: "outgo (lit E ''eosio.rex'') s' = 0" unfolding outgo_def by (rule moved_silent)
    have "liab (rx s') = 0 \<and> (\<forall>cs. sys_core s' = Inr cs \<longrightarrow> rex_inv cs (rx s'))"
    proof (cases "rammarket s' = None")
      case False
      then obtain v y where "a = AdminAct (Init v y)"
        using sys_exec_conf [OF al assms(5) well_typed_idle [OF w True]] conf_live True by blast
      then have "rx s' = rx s" using assms(5) rx_admin [of E "Init v y"] by simp
      then show ?thesis using idle_rex [OF w True] by simp
    qed (use idle_rex [OF w'] in simp)
    then show ?thesis
      using well_typed_out [OF w'] out income_nonneg [OF assms(6)] idle_rex(1) [OF w True] by (simp add: rex_held_def rex_due_def)
  next
    case False
    then obtain cs where "conf cs True s" using w by (auto simp: well_typed_conf)
    note c = conf_core [OF this] this
    have "sys_core s' = Inr cs"
      using core_kept [OF reach_one [where exec = sys_exec and ok = asset_laws, OF assms(5) al] w c(1)] by simp
    then show ?thesis
      using rex_live_step [OF assms(1,2) c(2) _ assms(4-7) [unfolded rex_due_def]] assms(3,8) c(1) well_typed_out [OF w']
      by (simp add: rex_held_def rex_due_def)
  qed
qed

lemma rex_held_rows: "rex_held s \<Longrightarrow> \<exists>cs. rex_rows cs {} (rx s)"
proof (cases "rammarket s = None")
  case True
  assume "rex_held s"
  then show ?thesis using idle_rex(2) [of "s\<lparr>sys_out := []\<rparr>"] True by (auto simp: rex_held_def rex_inv_def rex_inv_ex_def)
next
  case False
  assume h: "rex_held s"
  then obtain cs where "conf cs True (s\<lparr>sys_out := []\<rparr>)" using False by (auto simp: rex_held_def well_typed_conf)
  then have "sys_core s = Inr cs" using conf_core by (fastforce simp: sys_core_def)
  then show ?thesis using h by (auto simp: rex_held_def rex_inv_def rex_inv_ex_def)
qed

lemma rex_due_nonneg: "rex_held s \<Longrightarrow> 0 \<le> rex_due s"
  using rex_held_rows [of s] rex_parts_nonneg(2) lendable_le_liab by (fastforce simp: rex_due_def)

interpretation rex: custody "''eosio.rex''" rex_due rex_held rex_cap
proof unfold_locales
  show "rex_due (s\<lparr>sys_out := []\<rparr>) = rex_due s" for s by (simp add: rex_due_def)
  show "rex_held s \<Longrightarrow> rex_held (s\<lparr>sys_out := []\<rparr>)" for s by (simp add: rex_held_def sys_core_def)
qed (use rex_due_nonneg rex_step in \<open>auto simp: rex_cap_def\<close>)

end
