(* ===== verification/StakeCustody.thy ===== *)
theory StakeCustody
  imports Custody
begin

text \<open>
  The tokens at \<open>eosio.stake\<close>: what is delegated plus what waits to be refunded. Delegating adds what
  comes in or is taken back from a pending refund, undelegating turns a delegation into a refund, and
  only a refund or the purchase of REX with staked tokens pays out.
\<close>

section \<open>What is owed to stakers\<close>

definition delegated :: "sys_state \<Rightarrow> int" where
  "delegated s = t_sum (\<lambda>_ d. amount (dbw_net d) + amount (dbw_cpu d)) (delband (bw s))"

definition pending :: "sys_state \<Rightarrow> int" where
  "pending s = t_sum (\<lambda>_ r. amount (net_amount r) + amount (cpu_amount r)) (refunds (bw s))"

definition stake_due :: "sys_state \<Rightarrow> int" where
  "stake_due s = delegated s + pending s"

definition half_ok :: "asset \<Rightarrow> bool" where
  "half_ok q \<longleftrightarrow> 0 \<le> amount q \<and> amount q \<le> max_amount"

definition stake_inv :: "sys_state \<Rightarrow> bool" where
  "stake_inv s \<longleftrightarrow>
     (\<forall>k d. t_get (delband (bw s)) k = Some d \<longrightarrow> half_ok (dbw_net d) \<and> half_ok (dbw_cpu d)) \<and>
     (\<forall>k r. t_get (refunds (bw s)) k = Some r \<longrightarrow> half_ok (net_amount r) \<and> half_ok (cpu_amount r))"

lemma stake_cong: "delband (bw s') = delband (bw s) \<Longrightarrow> refunds (bw s') = refunds (bw s) \<Longrightarrow>
    stake_due s' = stake_due s \<and> stake_inv s' = stake_inv s"
  by (simp add: stake_due_def delegated_def pending_def stake_inv_def)

lemma stake_due_nonneg: "stake_inv s \<Longrightarrow> 0 \<le> stake_due s"
  unfolding stake_due_def delegated_def pending_def stake_inv_def half_ok_def
  by (intro add_nonneg_nonneg t_sum_nonneg) auto

text \<open>A row that is replaced, or deleted when it has become empty.\<close>

lemma t_sum_put_or_del:
  assumes "f k d = (case t_get t k of None \<Rightarrow> 0 | Some q \<Rightarrow> f k q) + n" "e \<Longrightarrow> f k d = 0"
  shows "t_sum f (if e then t_del k t else t_set k d t) = t_sum f t + n"
proof (cases e)
  case True
  then show ?thesis using assms by (cases "t_get t k") (auto simp: tab.del_absent t_sum_del)
qed (use assms(1) in \<open>simp add: t_sum_set split: option.split\<close>)

section \<open>Delegation\<close>

lemma delegation_spec:
  assumes "asset_laws E" "changebw_delegation E f r n c s = Inr s'" "stake_inv s" "\<bar>amount n\<bar> \<le> max_amount" "\<bar>amount c\<bar> \<le> max_amount"
  shows "stake_inv s' \<and> delegated s' = delegated s + amount n + amount c \<and> refunds (bw s') = refunds (bw s) \<and>
    sys_out s' = sys_out s"
proof -
  obtain d where row: "(case t_get (delband (bw s)) (f, r) of
         None \<Rightarrow> Inr \<lparr>dbw_net = n, dbw_cpu = c\<rparr>
       | Some d \<Rightarrow> rbind (asset_plus E (dbw_net d) n) (\<lambda>n. rbind (asset_plus E (dbw_cpu d) c) (\<lambda>c.
           Inr (d\<lparr>dbw_net := n, dbw_cpu := c\<rparr>)))) = Inr d"
    and pos: "0 \<le> amount (dbw_net d)" "0 \<le> amount (dbw_cpu d)"
    and s': "s' = s\<lparr>bw := (bw s)\<lparr>delband := (if dbw_is_empty d then t_del (f, r) (delband (bw s))
                                       else t_set (f, r) d (delband (bw s)))\<rparr>\<rparr>"
    using assms(2) unfolding changebw_delegation_def rbind_Inr_iff check_Inr_iff by auto
  have d: "half_ok (dbw_net d)" "half_ok (dbw_cpu d)"
    "amount (dbw_net d) + amount (dbw_cpu d) =
      (case t_get (delband (bw s)) (f, r) of None \<Rightarrow> 0 | Some q \<Rightarrow> amount (dbw_net q) + amount (dbw_cpu q)) + (amount n + amount c)"
    using row pos assms(1,4,5) by (auto simp: half_ok_def rbind_Inr_iff asset_plus_iff split: option.splits)
  have "delegated s' = delegated s + (amount n + amount c)"
    using t_sum_put_or_del [of "\<lambda>_ d. amount (dbw_net d) + amount (dbw_cpu d)" "(f, r)" d "delband (bw s)" _ "dbw_is_empty d"] d(3)
    by (auto simp: delegated_def s' dbw_is_empty_def)
  then show ?thesis using assms(3) d by (auto simp: s' stake_inv_def split: if_splits)
qed

section \<open>Refund requests\<close>

lemma refund_half_spec:
  assumes "asset_laws E" "refund_half E a b = Inr (r, x)" "half_ok a" "\<bar>amount b\<bar> \<le> max_amount"
  shows "half_ok r \<and> 0 \<le> amount x \<and> amount x \<le> max_amount \<and> amount r = amount a - amount b + amount x"
proof -
  obtain q where q: "asset_minus E a b = Inr q"
    and rx: "(r, x) = (if amount q < 0 then (set_amt 0 q, set_amt (wrap64 (- amount q)) q) else (q, set_amt 0 b))"
    using assms(2) by (auto simp: refund_half_def res_simps)
  have m: "amount q = amount a - amount b" "\<bar>amount q\<bar> \<le> max_amount" using q assms(1) by (auto simp: asset_minus_iff)
  then have "wrap64 (- amount q) = - amount q" by (intro wrap_small) (auto simp: max_amount_def)
  then show ?thesis using rx m by (auto simp: half_ok_def max_amount_def split: if_splits)
qed

lemma new_half_spec:
  assumes "\<bar>amount b\<bar> \<le> max_amount" "(r, x) = new_refund_half cs b"
  shows "half_ok r \<and> 0 \<le> amount x \<and> amount x \<le> max_amount \<and> amount r = amount x - amount b"
proof -
  have "wrap64 (- amount b) = - amount b" using assms(1) by (intro wrap_small) (auto simp: max_amount_def)
  then show ?thesis using assms by (auto simp: new_refund_half_def half_ok_def max_amount_def split: if_splits)
qed

definition same_sign :: "asset \<Rightarrow> asset \<Rightarrow> bool" where
  "same_sign n c \<longleftrightarrow> (0 \<le> amount n \<and> 0 \<le> amount c) \<or> (amount n \<le> 0 \<and> amount c \<le> 0)"

lemma request_spec:
  assumes "asset_laws E" "changebw_request E cs f b n c s = Inr (x, y, d, s')" "stake_inv s"
    "\<bar>amount n\<bar> \<le> max_amount" "\<bar>amount c\<bar> \<le> max_amount" "same_sign n c" "\<bar>amount n + amount c\<bar> \<le> max_amount"
  shows "stake_inv s' \<and> delband (bw s') = delband (bw s) \<and> sys_out s' = sys_out s \<and> 0 \<le> amount x + amount y \<and>
    pending s' = pending s - (amount n + amount c) + (amount x + amount y)"
proof -
  have w: "wrap64 (amount n + amount c) = amount n + amount c"
    using assms(7) by (intro wrap_small) (auto simp: max_amount_def)
  consider (skip) "x = n" "y = c" "s' = s" "0 \<le> amount n + amount c"
    | (old) r rn rc r1 where "t_get (refunds (bw s)) f = Some r" "refund_half E (net_amount r) n = Inr (rn, x)"
        "refund_half E (cpu_amount r) c = Inr (rc, y)" "net_amount r1 = rn" "cpu_amount r1 = rc"
        "s' = s\<lparr>bw := (bw s)\<lparr>refunds := (if refund_is_empty r1 then t_del f (refunds (bw s)) else t_set f r1 (refunds (bw s)))\<rparr>\<rparr>"
    | (new) rn rc t where "t_get (refunds (bw s)) f = None" "(rn, x) = new_refund_half cs n" "(rc, y) = new_refund_half cs c"
        "s' = s\<lparr>bw := (bw s)\<lparr>refunds := t_set f \<lparr>request_time = t, net_amount = rn, cpu_amount = rc\<rparr> (refunds (bw s))\<rparr>\<rparr>"
  proof (cases "b \<or> wrap64 (amount n + amount c) < 0")
    case False
    then show ?thesis using assms(2) w by (intro that(1)) (auto simp: changebw_request_def)
  next
    case T: True
    show ?thesis
    proof (cases "t_get (refunds (bw s)) f")
      case (Some r)
      define t where "t = (if amount n < 0 \<or> amount c < 0 then time_sec E (current_time E) else request_time r)"
      obtain hn hc where h: "refund_half E (net_amount r) n = Inr hn" "refund_half E (cpu_amount r) c = Inr hc"
        and e: "(if refund_is_empty (r\<lparr>request_time := t, net_amount := fst hn, cpu_amount := fst hc\<rparr>)
           then Inr (snd hn, snd hc, False, s\<lparr>bw := (bw s)\<lparr>refunds := t_del f (refunds (bw s))\<rparr>\<rparr>)
           else Inr (snd hn, snd hc, True, s\<lparr>bw := (bw s)\<lparr>refunds :=
             t_set f (r\<lparr>request_time := t, net_amount := fst hn, cpu_amount := fst hc\<rparr>) (refunds (bw s))\<rparr>\<rparr>)) =
           (Inr (x, y, d, s') :: (asset \<times> asset \<times> bool \<times> sys_state) res)"
        using assms(2) T Some unfolding changebw_request_def Let_def t_def
        by (simp only: if_True option.case rbind_Inr_iff check_Inr_iff case_prod_beta) (elim exE conjE, rule that, assumption, assumption, simp only: t_def)
      show ?thesis
        by (rule that(2) [OF Some, of "fst hn" "fst hc" "r\<lparr>request_time := t, net_amount := fst hn, cpu_amount := fst hc\<rparr>"])
          (use h e in \<open>auto split: if_splits\<close>)
    next
      case None
      show ?thesis
      proof (cases "amount n < 0 \<or> amount c < 0")
        case True
        then show ?thesis using assms(2) T None
          by (auto simp: changebw_request_def Let_def case_prod_beta split: if_splits intro!: that(3))
      next
        case False
        then show ?thesis using assms(2) T None by (intro that(1)) (auto simp: changebw_request_def)
      qed
    qed
  qed
  then show ?thesis
  proof cases
    case skip
    then show ?thesis using assms(3) by simp
  next
    case (old r rn rc r1)
    note s' = old(6)
    have r: "half_ok (net_amount r)" "half_ok (cpu_amount r)" using assms(3) old(1) by (auto simp: stake_inv_def)
    note N = refund_half_spec [OF assms(1) old(2) r(1) assms(4)] and C = refund_half_spec [OF assms(1) old(3) r(2) assms(5)]
    have "pending s' = pending s + (amount x + amount y - (amount n + amount c))"
      using t_sum_put_or_del [of "\<lambda>_ r. amount (net_amount r) + amount (cpu_amount r)" f r1 "refunds (bw s)" _ "refund_is_empty r1"] N C old(1,4,5)
      by (auto simp: pending_def s' refund_is_empty_def)
    then show ?thesis using N C assms(3) old(4,5) by (auto simp: s' stake_inv_def split: if_splits)
  next
    case (new rn rc t)
    note N = new_half_spec [OF assms(4) new(2)] and C = new_half_spec [OF assms(5) new(3)]
    have "pending s' = pending s + (amount rn + amount rc)" using new by (simp add: pending_def t_sum_set)
    then show ?thesis using N C assms(3) by (auto simp: new(4) stake_inv_def split: if_splits)
  qed
qed


section \<open>Changes of bandwidth\<close>

lemma totals_stake:
  assumes "changebw_totals E r n c s = Inr s'"
  shows "delband (bw s') = delband (bw s) \<and> refunds (bw s') = refunds (bw s) \<and> sys_out s' = sys_out s"
  by (rule totals_shape [OF assms]) (auto simp: put_userres_def set_resource_limits_def drop_if_empty_def)

lemma rex_stake_bw: "update_rex_stake k s = Inr s' \<Longrightarrow> bw s' = bw s \<and> sys_out s' = sys_out s"
  by (auto simp: update_rex_stake_def res_simps Let_def split: option.splits if_splits)

lemma on_vs_bw: "on_vs f s = Inr s' \<Longrightarrow> bw s' = bw s \<and> sys_out s' = sys_out s"
  by (auto simp: on_vs_Inr_iff)

lemma flow_out: "sys_out s' = sys_out s \<Longrightarrow> income a s' = income a s" "sys_out s' = sys_out s \<Longrightarrow> outgo a s' = outgo a s"
  by (simp_all add: income_def outgo_def)

text \<open>The tokens that a change takes from the payer are what the delegations and refunds grow by.\<close>

lemma changebw_spec:
  assumes "sys_ok E" "changebw E k r n c x s = Inr s'" "stake_inv s" "same_sign n c"
  shows "stake_inv s' \<and> stake_due s' - stake_due s = income (lit E ''eosio.stake'') s' - income (lit E ''eosio.stake'') s \<and>
    outgo (lit E ''eosio.stake'') s' = outgo (lit E ''eosio.stake'') s"
proof -
  let ?f = "if x then r else k" and ?st = "lit E ''eosio.stake''"
  note al = sys_okD(1) [OF assms(1)]
  obtain tot s1 s2 cs s3 s4 where k: "has_auth E k" and tot: "asset_plus E n c = Inr tot"
    and 1: "changebw_delegation E ?f r n c s = Inr s1" and 2: "changebw_totals E r n c s1 = Inr s2"
    and 3: "changebw_refund E cs k ?f (\<not> x \<and> ?f = r) n c s2 = Inr s3" and 4: "update_rex_stake ?f s3 = Inr s4"
    and 5: "on_vs (update_voting_power E ?f tot) s4 = Inr s'"
    using assms(2) by (auto simp: changebw_def res_simps Let_def)
  have sum: "\<bar>amount n + amount c\<bar> \<le> max_amount" using tot al by (auto simp: asset_plus_iff)
  then have nc: "\<bar>amount n\<bar> \<le> max_amount" "\<bar>amount c\<bar> \<le> max_amount" using assms(4) by (auto simp: same_sign_def)
  note D = delegation_spec [OF al 1 assms(3) nc] and T = totals_stake [OF 2]
  have s2: "stake_inv s2" "delegated s2 = delegated s + amount n + amount c" "pending s2 = pending s" "sys_out s2 = sys_out s"
    using D T stake_cong [of s2 s1] by (auto simp: delegated_def pending_def)
  have kst: "k \<noteq> ?st" using signer_not_fund [OF assms(1), of "''eosio.stake''"] k by (auto simp: signers_def)
  obtain a b d t q where r: "changebw_request E cs ?f (\<not> x \<and> ?f = r) n c s2 = Inr (a, b, d, t)"
    and q: "asset_plus E a b = Inr q"
    and s3: "s3 = (let u = emit (CancelDeferred (uint ?f)) t;
        v = (if d then emit (SendDeferred (uint ?f) ?f refund_delay_sec (DeferRefund ?f)) u else u)
      in if 0 < amount q then send_transfer E [k] k ?st q ''stake bandwidth'' v else v)"
    using 3 kst by (auto simp: changebw_refund_def res_simps Let_def)
  note R = request_spec [OF al r s2(1) nc assms(4) sum]
  have qa: "amount q = amount a + amount b" using q al by (auto simp: asset_plus_iff)
  have bw3: "bw s3 = bw t" by (simp add: s3 Let_def)
  have o3: "income ?st s3 = income ?st s + amount q" "outgo ?st s3 = outgo ?st s"
    using R qa kst flow_out [of t s ?st] s2(4) by (auto simp: s3 Let_def emit_senders)
  have b': "bw s' = bw t" and o': "sys_out s' = sys_out s3"
    using rex_stake_bw [OF 4] on_vs_bw [OF 5] bw3 by auto
  have "stake_due s' = delegated t + pending t" "stake_inv s' = stake_inv t"
    by (simp_all add: stake_due_def delegated_def pending_def stake_inv_def b')
  moreover have "delegated t = delegated s2" using R by (simp add: delegated_def)
  ultimately show ?thesis
    using R s2 qa o3 by (simp add: stake_due_def flow_out [OF o'])
qed

lemma asset_neg_amount: "0 \<le> amount q \<Longrightarrow> in64 (amount q) \<Longrightarrow> amount (asset_neg q) = - amount q"
  by (simp add: asset_neg_def in64_def wrap_small)

lemma refund_action_spec:
  assumes "sys_ok E" "refund E k s = Inr s'" "stake_inv s"
  shows "stake_inv s' \<and> stake_due s' - stake_due s = income (lit E ''eosio.stake'') s' - income (lit E ''eosio.stake'') s
      - (outgo (lit E ''eosio.stake'') s' - outgo (lit E ''eosio.stake'') s)"
proof -
  let ?st = "lit E ''eosio.stake''"
  obtain r q where k: "has_auth E k" and r: "t_get (refunds (bw s)) k = Some r"
    and q: "asset_plus E (net_amount r) (cpu_amount r) = Inr q"
    and s': "s' = (send_transfer E [?st, k] ?st k q ''unstake'' s)\<lparr>bw := (bw s)\<lparr>refunds := t_del k (refunds (bw s))\<rparr>\<rparr>"
    using assms(2) by (auto simp: refund_def res_simps Let_def)
  have kst: "k \<noteq> ?st" using signer_not_fund [OF assms(1), of "''eosio.stake''"] k by (auto simp: signers_def)
  have "amount q = amount (net_amount r) + amount (cpu_amount r)" using q sys_okD(1) [OF assms(1)] by (auto simp: asset_plus_iff)
  then have "stake_due s' = stake_due s - amount q"
    using r by (simp add: stake_due_def s' delegated_def pending_def t_sum_del)
  then show ?thesis using kst assms(3) by (auto simp: s' stake_inv_def)
qed

lemma stake_move_step:
  assumes "sys_ok E" "bw_exec E b s = Inr s'" "Stakes \<in> bw_writes b" "sys_args_ok (BwAct b)" "stake_inv s"
  shows "stake_inv s' \<and> stake_due s' - stake_due s = income (lit E ''eosio.stake'') s' - income (lit E ''eosio.stake'') s
      - (outgo (lit E ''eosio.stake'') s' - outgo (lit E ''eosio.stake'') s)"
proof (cases b)
  case (Delegatebw k r n c x)
  then obtain "changebw E k r n c x s = Inr s'" "0 \<le> amount n" "0 \<le> amount c"
    using assms(2) sys_okD(1) [OF assms(1)] by (auto simp: delegatebw_def res_simps asset_le_iff)
  then show ?thesis using changebw_spec [OF assms(1) _ assms(5), of k r n c x s'] by (auto simp: same_sign_def)
next
  case (Undelegatebw k r n c)
  obtain v s1 where v: "voter_row k (vs s) = Inr v" and e: "(if staked v > 1000000
       then rbind (rget (NoRow ''unable to find key'') (t_get (producers (vs s)) k)) (\<lambda>p. on_vs (put_producer k (deactivate E p)) s)
       else Inr s) = Inr s1"
    and ch: "changebw E k r (asset_neg n) (asset_neg c) False s1 = Inr s'" and nc: "0 \<le> amount n" "0 \<le> amount c"
    using assms(2)
    unfolding Undelegatebw bw_exec.simps undelegatebw_def rbind_Inr_iff check_Inr_iff asset_le_iff [OF sys_okD(1) [OF assms(1)]]
    by (elim exE conjE) (rule that, assumption, assumption, assumption, auto)
  have s1: "bw s1 = bw s" "sys_out s1 = sys_out s"
    using e by (auto simp: rbind_Inr_iff dest: on_vs_bw split: if_splits)
  have "same_sign (asset_neg n) (asset_neg c)"
    using nc assms(4) Undelegatebw by (simp add: same_sign_def sys_args_ok_def asset_neg_amount)
  then show ?thesis
    using changebw_spec [OF assms(1) ch] assms(5) s1 stake_cong [of s1 s] by (simp add: flow_out [OF s1(2)])
next
  case (Refund k)
  then show ?thesis using refund_action_spec [OF assms(1) _ assms(5)] assms(2) by simp
qed (use assms(3) in simp_all)


section \<open>REX bought with staked tokens\<close>

lemma limits_stake:
  assumes "update_resource_limits E k dn dc s = Inr s'"
  shows "delband (bw s') = delband (bw s) \<and> refunds (bw s') = refunds (bw s)"
  using frame_same [OF frame_limits [OF assms frame_refl, of E "{}" "{}"], of Stakes] by simp

lemma unstaketorex_spec:
  assumes "sys_ok E" "unstaketorex E k r n c s = Inr s'" "stake_inv s" "sys_out s = []"
  shows "stake_inv s' \<and> stake_due s' + outgo (lit E ''eosio.stake'') s' = stake_due s"
proof -
  let ?st = "lit E ''eosio.stake''"
  note al = sys_okD(1) [OF assms(1)]
  obtain cs d s2 pay rcv x r1 s4 y s5 where d: "t_get (delband (bw s)) (k, r) = Some d"
    and nc: "0 \<le> amount n" "0 \<le> amount c" "amount n \<le> amount (dbw_net d)" "amount c \<le> amount (dbw_cpu d)"
    and 2: "update_resource_limits E r (wrap64 (- amount n)) (wrap64 (- amount c)) (s\<lparr>bw := (bw s)\<lparr>delband :=
       (let d1 = d\<lparr>dbw_net := add_amt (- amount n) (dbw_net d), dbw_cpu := add_amt (- amount c) (dbw_cpu d)\<rparr> in
        if dbw_is_empty d1 then t_del (k, r) (delband (bw s)) else t_set (k, r) d1 (delband (bw s)))\<rparr>\<rparr>) = Inr s2"
    and pay: "asset_plus E n c = Inr pay"
    and b: "buy_into_pool E cs k pay (rx (send_transfer E [?st] ?st (lit E ''eosio.rex'') pay
                ''buy REX with staked tokens'' s2)) = Inr ((rcv, x), r1)"
    and 4: "runrex E 2 (put_rx r1 (send_transfer E [?st] ?st (lit E ''eosio.rex'') pay
                ''buy REX with staked tokens'' s2)) = Inr s4"
    and 5: "update_rex_account E cs k (mk_asset 0 cs) (mk_asset 0 cs) True s4 = Inr (y, s5)"
    and s': "s' = send_result E (RexBuyResult rcv) s5"
    using assms(2) by (auto simp: unstaketorex_def res_simps Let_def)
  define d1 where "d1 = d\<lparr>dbw_net := add_amt (- amount n) (dbw_net d), dbw_cpu := add_amt (- amount c) (dbw_cpu d)\<rparr>"
  define t where "t = (if dbw_is_empty d1 then t_del (k, r) (delband (bw s)) else t_set (k, r) d1 (delband (bw s)))"
  let ?s1 = "s\<lparr>bw := (bw s)\<lparr>delband := t\<rparr>\<rparr>"
  let ?s3 = "put_rx r1 (send_transfer E [?st] ?st (lit E ''eosio.rex'') pay ''buy REX with staked tokens'' s2)"
  have l: "update_resource_limits E r (wrap64 (- amount n)) (wrap64 (- amount c)) ?s1 = Inr s2"
    using 2 unfolding t_def d1_def Let_def .
  have dok: "half_ok (dbw_net d)" "half_ok (dbw_cpu d)" using assms(3) d by (auto simp: stake_inv_def)
  have am: "amount (dbw_net d1) = amount (dbw_net d) - amount n" "amount (dbw_cpu d1) = amount (dbw_cpu d) - amount c"
    using dok nc by (auto simp: d1_def half_ok_def max_amount_def intro!: wrap_small)
  have del1: "t_sum (\<lambda>_ d. amount (dbw_net d) + amount (dbw_cpu d)) t = delegated s - (amount n + amount c)"
    using t_sum_put_or_del [of "\<lambda>_ d. amount (dbw_net d) + amount (dbw_cpu d)" "(k, r)" d1 "delband (bw s)" "- (amount n + amount c)" "dbw_is_empty d1"] d am
    by (auto simp: delegated_def t_def dbw_is_empty_def)
  have F: "frame E (signers E \<union> {lit E ''eosio.rex'', lit E ''eosio.names''}) {} ?s3 s'"
    unfolding s' by (intro frame_result frame_rex_account [OF 5] frame_runrex [OF 4] frame_refl) auto
  have nst: "?st \<notin> signers E \<union> {lit E ''eosio.rex'', lit E ''eosio.names''}"
    using signer_not_fund [OF assms(1), of "''eosio.stake''"] lit_eq [OF assms(1)] by simp
  have dr: "delband (bw s') = t" "refunds (bw s') = refunds (bw s)"
    using frame_same [OF F, of Stakes] limits_stake [OF l] by (simp_all add: put_rx_def)
  have "amount pay = amount n + amount c" using pay al by (auto simp: asset_plus_iff)
  moreover have "outgo ?st s' = amount pay"
    using frame_outgo [OF F nst] update_resource_limits_frame [OF l] assms(4)
    by (simp add: outgo_def send_transfer_def emit_def moved_one)
  moreover have "stake_due s' = stake_due s - (amount n + amount c)"
    using del1 by (simp add: stake_due_def delegated_def pending_def dr)
  moreover have "stake_inv s'"
    using assms(3) am nc dok by (auto simp: stake_inv_def dr t_def half_ok_def)
  ultimately show ?thesis by simp
qed

section \<open>Every action\<close>

lemma stake_writers [simp]: "Stakes \<notin> admin_writes x" "Stakes \<notin> vote_writes z" "Stakes \<notin> pay_writes w"
proof -
  show "Stakes \<notin> admin_writes x" by (cases x) simp_all
  show "Stakes \<notin> vote_writes z" by (cases z) simp_all
  show "Stakes \<notin> pay_writes w" by (cases w) simp_all
qed

lemma stake_step:
  assumes "sys_ok E" "sys_args_ok a" "stake_inv s" "sys_out s = []" "sys_exec E a s = Inr s'"
    "transfers_ok (sys_out s')"
  shows "stake_inv s' \<and> stake_due s' + outgo (lit E ''eosio.stake'') s' \<le> stake_due s + income (lit E ''eosio.stake'') s'"
proof (cases "Stakes \<in> sys_writes a")
  case True
  then consider (bw) b where "a = BwAct b" "Stakes \<in> bw_writes b" | (unstake) k r n c where "a = RexAct (Unstaketorex k r n c)"
  proof (cases a)
    case (RexAct b)
    then show ?thesis using True that(2) by (cases b) auto
  qed (use True that(1) in auto)
  then show ?thesis
  proof cases
    case bw
    then show ?thesis
      using stake_move_step [OF assms(1) _ bw(2) _ assms(3), of s'] assms(2,4,5) by (auto simp: income_def outgo_def)
  next
    case unstake
    then show ?thesis
      using unstaketorex_spec [OF assms(1) _ assms(3,4), of k r n c s'] assms(5) income_nonneg [OF assms(6), of "lit E ''eosio.stake''"]
      by simp
  qed
next
  case False
  then have "same Stakes E s s'" "outgo (lit E ''eosio.stake'') s' = 0"
    using untouched [OF assms(1,5,4) False, of "''eosio.stake''"] fund_senders(2) [OF assms(1)] by simp_all
  then show ?thesis using assms(3) income_nonneg [OF assms(6)] stake_cong [of s' s] by simp
qed

interpretation stake: custody "''eosio.stake''" stake_due stake_inv max_amount
proof unfold_locales
  show "stake_due (s\<lparr>sys_out := []\<rparr>) = stake_due s" for s
    by (simp add: stake_due_def delegated_def pending_def)
  show "stake_inv s \<Longrightarrow> stake_inv (s\<lparr>sys_out := []\<rparr>)" for s by (simp add: stake_inv_def)
qed (use stake_due_nonneg stake_step in \<open>auto simp: max_amount_def\<close>)

end
