(* ===== verification/FundClaims.thy ===== *)
theory FundClaims
  imports StakeCustody NamesCustody SysDemo
begin

text \<open>
  Properties of the system contract as a whole: whose tokens its actions can move, that the accounts of
  stakes, names and RAM hold what is owed there, and that RAM is accounted for.
\<close>

section \<open>Whose tokens an action moves\<close>

text \<open>
  C8. Authority: every token transfer an action of the system contract sends is made from an account
  that signs the action, or from one of the few accounts of the component that handles it
  (\<open>sys_senders\<close>): a claim of rewards, for one, cannot spend stakes.
\<close>

theorem transfers_authorised:
  assumes "sys_exec E a s = Inr s'" and "sys_out s = []"
    and "Inline c ps (TokenTransfer f t q m) \<in> set (sys_out s')"
  shows "has_auth E f \<or> f \<in> sys_senders E a"
proof -
  have "frame E (signers E \<union> sys_senders E a) UNIV s s'" using assms(1) by (rule sys_exec_frame) auto
  then have "senders s' \<subseteq> signers E \<union> sys_senders E a"
    using assms(2) by (auto simp: frame_def senders_def)
  moreover have "f \<in> senders s'" using assms(3) by (force simp: senders_def)
  ultimately show ?thesis by (auto simp: signers_def)
qed

lemma ref_lit_distinct: "distinct (99 # map ref_lit fund_names)"
  by code_simp

lemma sys_ok_ref [simp]:
  assumes "set auths \<inter> ref_lit ` set fund_names = {}"
  shows "sys_ok (sys_ref auths t)"
  using ref_lit_distinct assms by (auto simp: sys_ok_def apart_def)


definition demo_stake :: sys_action where
  "demo_stake = BwAct (Delegatebw 7 8 (mk_asset 300 core_sym) (mk_asset 200 core_sym) False)"

definition demo_staked :: sys_state where
  "demo_staked =
     (send_transfer (sys_ref [7] 0) [7] 7 (ref_lit ''eosio.stake'') (mk_asset 500 core_sym) ''stake bandwidth''
       (emit (CancelDeferred 7) (demo_sys\<lparr>bw := (bw demo_sys)\<lparr>
          delband := t_set (7, 8) \<lparr>dbw_net = mk_asset 300 core_sym, dbw_cpu = mk_asset 200 core_sym\<rparr> t_empty,
          userres := t_set 8 \<lparr>net_weight = mk_asset 300 core_sym, cpu_weight = mk_asset 200 core_sym, ram_bytes = 0\<rparr> t_empty,
          limits := (\<lambda>_. (-1, -1, -1))(8 := (1400, 300, 200))\<rparr>\<rparr>)))
     \<lparr>vs := put_voter 7 (new_voter\<lparr>staked := 500\<rparr>) (vs demo_sys)\<rparr>"

lemma demo_stake_runs: "sys_exec (sys_ref [7] 0) demo_stake demo_sys = Inr demo_staked"
  by (simp add: demo_stake_def demo_staked_def delegatebw_def changebw_def require_auth_def ref_op_def max_amount_def
     changebw_delegation_def changebw_totals_def changebw_refund_def changebw_request_def wrap64_def Let_def dbw_is_empty_def
     managed_def put_userres_def drop_if_empty_def res_is_empty_def set_resource_limits_def update_rex_stake_def
     on_vs_def update_voting_power_def put_voter_def new_voter_def check_def sys_core_def
     ram_gift_bytes_def)

lemma demo_staked_out: "sys_out demo_staked = [CancelDeferred 7, Inline (ref_lit ''eosio.token'') [at_active (sys_ref [7] 0) 7]
    (TokenTransfer 7 (ref_lit ''eosio.stake'') (mk_asset 500 core_sym) ''stake bandwidth'')]"
  by (simp add: demo_staked_def send_transfer_def emit_def)

theorem transfers_authorised_witness: "has_auth (sys_ref [7] 0) 7 \<or> 7 \<in> sys_senders (sys_ref [7] 0) demo_stake"
  by (rule transfers_authorised [OF demo_stake_runs]) (auto simp: demo_staked_out)

section \<open>Stakes\<close>

text \<open>
  C3. Stakes: from any state in which \<open>eosio.stake\<close> covers all delegations and pending refunds, whatever
  actions of the system contract are executed, in any order and signed by any accounts but the funds
  themselves (\<open>sys_ok\<close>), it keeps covering them, and none of them is negative: no undelegation can fail to
  be paid out for lack of tokens. The branch of \<open>changebw\<close> for \<open>eosio.stake\<close> as the source of a stake is
  never taken then, since the source has to sign.
\<close>

theorem stake_backed:
  assumes "reachable (sys_txn ''eosio.stake'' max_amount) sys_ok (s0, b0) (s, b)"
    and "stake_inv s0" and "stake_due s0 \<le> b0" and "b0 \<le> max_amount"
  shows "stake_inv s \<and> 0 \<le> stake_due s \<and> stake_due s \<le> b"
  using stake.covered [OF assms] stake.solvent_reachable [OF assms(1)] assms(2-) by (simp add: solvent_def)


lemma sys_txnI:
  assumes "sys_exec E a (s\<lparr>sys_out := []\<rparr>) = Inr s'" "sys_args_ok a" "transfers_ok (sys_out s')"
    "n = bal + income (lit E f) s' - outgo (lit E f) s'" "n \<le> cap"
  shows "sys_txn f cap E a (s, bal) = Inr (s', n)"
  using assms by (simp add: sys_txn_def)

lemma demo_sys_out_empty [simp]: "demo_sys\<lparr>sys_out := []\<rparr> = demo_sys"
  by (simp add: demo_sys_def sys_init_state_def)

lemmas flow_eval = transfers_ok_one transfers_ok_def income_def outgo_def moved_one moved_in_def moved_out_def

lemma demo_stake_txn: "sys_txn ''eosio.stake'' max_amount (sys_ref [7] 0) demo_stake (demo_sys, 0) = Inr (demo_staked, 500)"
  by (rule sys_txnI)
    (simp_all only: demo_stake_runs demo_sys_out_empty,
      simp_all add: sys_args_ok_def demo_stake_def in64_def demo_staked_out flow_eval max_amount_def)

lemma sys_ok_7: "sys_ok (sys_ref [7] t)"
  by (rule sys_ok_ref) code_simp

theorem stake_backed_witness: "stake_inv demo_staked \<and> 0 \<le> stake_due demo_staked \<and> stake_due demo_staked \<le> 500"
  by (rule stake_backed [OF reach_one [where exec = "sys_txn ''eosio.stake'' max_amount" and ok = sys_ok, OF demo_stake_txn sys_ok_7]])
    (simp_all add: stake_inv_def stake_due_def delegated_def pending_def max_amount_def)

text \<open>
  C18. Refunds: a refund request is refused until three days after it was made; from then on its owner
  can always cash it, and is paid exactly the NET and CPU amounts of the request, once: the request is
  deleted, and no other request changes.
\<close>

theorem refund_after_three_days:
  assumes "asset_laws E" and "has_auth E k" and "t_get (refunds (bw s)) k = Some r"
    and "0 \<le> request_time r" and "request_time r < 2 ^ 32" and "symb (cpu_amount r) = symb (net_amount r)"
    and "\<bar>amount (net_amount r) + amount (cpu_amount r)\<bar> \<le> max_amount"
  shows "if current_time E < (request_time r + 3 * 24 * 3600) * 1000000
     then refund E k s = Inl (Assert ''refund is not available yet'')
     else \<exists>s'. refund E k s = Inr s' \<and>
        sys_out s' = sys_out s @ [Inline (lit E ''eosio.token'') [at_active E (lit E ''eosio.stake''), at_active E k]
          (TokenTransfer (lit E ''eosio.stake'') k
             (mk_asset (amount (net_amount r) + amount (cpu_amount r)) (symb (net_amount r))) ''unstake'')] \<and>
        (\<forall>j. t_get (refunds (bw s')) j = (if j = k then None else t_get (refunds (bw s)) j))"
proof -
  have w: "wrap64 (wrap64 (request_time r * 1000000) + refund_delay_sec * 1000000) = (request_time r + 3 * 24 * 3600) * 1000000"
    using assms(4,5) by (simp add: refund_delay_sec_def wrap_small)
  have q: "asset_plus E (net_amount r) (cpu_amount r) =
      Inr (mk_asset (amount (net_amount r) + amount (cpu_amount r)) (symb (net_amount r)))"
    using assms(1,6,7) by (simp add: asset_plus_iff)
  show ?thesis
    unfolding refund_def using assms(2,3)
    by (auto simp: w q require_auth_def guard_res_def check_def Let_def send_transfer_def emit_def)
qed

definition demo_pending :: sys_state where
  "demo_pending = demo_sys\<lparr>bw := (bw demo_sys)\<lparr>refunds := t_set 7
     \<lparr>request_time = 1000, net_amount = mk_asset 30 core_sym, cpu_amount = mk_asset 12 core_sym\<rparr> t_empty\<rparr>\<rparr>"

theorem refund_after_three_days_witness:
  "refund (sys_ref [7] 1000000000) 7 demo_pending = Inl (Assert ''refund is not available yet'') \<and>
   (\<exists>s'. refund (sys_ref [7] 260200000000) 7 demo_pending = Inr s' \<and> t_get (refunds (bw s')) 7 = None)"
  using refund_after_three_days [of "sys_ref [7] 1000000000" 7 demo_pending]
    refund_after_three_days [of "sys_ref [7] 260200000000" 7 demo_pending]
  by (auto simp: demo_pending_def max_amount_def)

section \<open>The name auction\<close>

text \<open>
  C5. Bids: from any state in which \<open>eosio.names\<close> covers the highest bids of the open auctions, the
  refunds of outbid bidders and the proceeds set aside for REX, it keeps covering them, whatever actions
  are executed that the funds themselves have not signed (\<open>sys_ok\<close>): a bidder who was outbid can always be
  paid back.
\<close>

theorem names_backed:
  assumes "reachable (sys_txn ''eosio.names'' max_amount) sys_ok (s0, b0) (s, b)"
    and "names_inv s0" and "names_due s0 \<le> b0" and "b0 \<le> max_amount"
  shows "0 \<le> open_bids s \<and> 0 \<le> bid_refunds s \<and> 0 \<le> proceeds_of (rx s) \<and> names_due s \<le> b"
  using names.solvent_reachable [OF assms(1)] assms(2-) names_parts_nonneg [of s] by (simp add: solvent_def)

definition bid_env :: sys_env where
  "bid_env = (sys_ref [7] 0)\<lparr>is_account := (\<lambda>n. n \<in> {7, 8})\<rparr>"

lemma sys_ok_bid: "sys_ok bid_env"
  using sys_ok_7 [of 0] by (simp add: sys_ok_def apart_def bid_env_def asset_laws_def)

definition demo_auction :: sys_state where
  "demo_auction = demo_sys\<lparr>namebids := t_set 512 \<lparr>newname = 512, high_bidder = 8, high_bid = 100, last_bid_time = 0\<rparr> t_empty\<rparr>"

definition demo_outbid :: sys_state where
  "demo_outbid = (emit (SendDeferred (512 * 2 ^ 64 + 8) 7 0 (DeferBidRefund 8 512)) (emit (CancelDeferred (512 * 2 ^ 64 + 8))
     ((send_transfer bid_env [7] 7 (ref_lit ''eosio.names'') (mk_asset 120 core_sym) ''bid name '' demo_auction)
       \<lparr>bidrefunds := t_set (512, 8) (mk_asset 100 core_sym) t_empty\<rparr>)))
     \<lparr>namebids := t_set 512 \<lparr>newname = 512, high_bidder = 7, high_bid = 120, last_bid_time = 0\<rparr> t_empty\<rparr>"

lemma core_sym_code [simp]: "sym_code core_sym \<noteq> 0"
  by (simp add: core_sym_def)

lemma demo_outbid_runs: "sys_exec bid_env (AdminAct (Bidname 7 512 (mk_asset 120 core_sym))) demo_auction = Inr demo_outbid"
  by (simp add: bidname_def require_auth_def bid_env_def demo_auction_def demo_outbid_def name_set_def wrap64_def cdiv_def
      ref_op_def max_amount_def Let_def sys_core_def check_def tab.put_put)

lemma demo_outbid_txn:
  "sys_txn ''eosio.names'' max_amount bid_env (AdminAct (Bidname 7 512 (mk_asset 120 core_sym))) (demo_auction, 100) = Inr (demo_outbid, 220)"
proof (rule sys_txnI)
  have e: "demo_auction\<lparr>sys_out := []\<rparr> = demo_auction" by (simp add: demo_auction_def demo_sys_def sys_init_state_def)
  show "sys_exec bid_env (AdminAct (Bidname 7 512 (mk_asset 120 core_sym))) (demo_auction\<lparr>sys_out := []\<rparr>) = Inr demo_outbid"
    unfolding e by (rule demo_outbid_runs)
qed (simp_all add: sys_args_ok_def in64_def demo_outbid_def demo_auction_def bid_env_def send_transfer_def emit_def flow_eval max_amount_def)

theorem names_backed_witness: "open_bids demo_outbid = 120 \<and> bid_refunds demo_outbid = 100 \<and> names_due demo_outbid \<le> 220"
proof -
  have "0 \<le> open_bids demo_outbid \<and> 0 \<le> bid_refunds demo_outbid \<and> 0 \<le> proceeds_of (rx demo_outbid) \<and> names_due demo_outbid \<le> 220"
    by (rule names_backed [OF reach_one [where exec = "sys_txn ''eosio.names'' max_amount" and ok = sys_ok, OF demo_outbid_txn sys_ok_bid]])
      (simp_all add: names_inv_def names_due_def open_bids_def bid_refunds_def demo_auction_def proceeds_of_def t_sum_set max_amount_def)
  then show ?thesis by (simp add: open_bids_def bid_refunds_def demo_outbid_def t_sum_set)
qed

section \<open>RAM\<close>

text \<open>
  C6. The RAM market: \<open>eosio.ram\<close> always holds the tokens the market counts as staked for RAM, so that
  selling RAM can always be paid, whatever actions are executed that the funds themselves have not signed
  (\<open>sys_ok\<close>).
\<close>

theorem ram_backed:
  assumes "reachable (sys_txn ''eosio.ram'' max_amount) sys_ok (s0, b0) (s, b)"
    and "0 \<le> total_ram_stake (gst (vs s0))" and "total_ram_stake (gst (vs s0)) \<le> b0" and "b0 \<le> max_amount"
  shows "0 \<le> total_ram_stake (gst (vs s)) \<and> total_ram_stake (gst (vs s)) \<le> b"
  using ram.covered [OF assms(1)] assms(2-) by (simp add: ram_inv_def ram_due_def)

text \<open>
  C17. RAM bytes: in every reachable state the bytes reserved in total are the sum of the accounts'
  quotas, modulo the wrap-around of 64-bit unsigned integers.
\<close>

theorem ram_bytes_accounted:
  assumes "reachable sys_exec asset_laws s0 s"
    and "total_ram_bytes_reserved (gst (vs s0)) = u64 (t_sum (\<lambda>_ r. ram_bytes r) (userres (bw s0)))"
  shows "total_ram_bytes_reserved (gst (vs s)) = u64 (t_sum (\<lambda>_ r. ram_bytes r) (userres (bw s)))"
  using rambytes.reachable_inv [OF assms(1)] assms(2) by (simp add: ram_balanced_def ram_sum_def)

text \<open>A purchase of RAM, with a power function that is constant.\<close>

lemma rnd_dyadic:
  assumes "0 < m" "m < 2 ^ 53" "n \<le> 52"
  shows "rnd (of_int m / 2 ^ n) = Fin (of_int m / 2 ^ n)" "rnd (- (of_int m / 2 ^ n)) = Fin (- (of_int m / 2 ^ n))"
proof -
  have e: "of_int m / 2 ^ n = of_int m * (2::rat) powi (- int n)" by (simp add: power_int_minus divide_inverse)
  have p: "0 < of_int m / (2::rat) ^ n" using assms(1) by simp
  have "(of_int m :: rat) < of_int (2 ^ 53)" using assms(2) unfolding of_int_less_iff .
  moreover have "of_int m / (2::rat) ^ n \<le> of_int m" using assms(1) by (simp add: divide_le_eq)
  ultimately have "of_int m / (2::rat) ^ n < dmax" using dmax_bounds by simp
  moreover have "rmag (of_int m / 2 ^ n) = of_int m / 2 ^ n"
    unfolding e using rmag_dyadic [of m "- int n"] assms by simp
  ultimately show "rnd (of_int m / 2 ^ n) = Fin (of_int m / 2 ^ n)" by (simp only: rnd_pos [OF p] if_True)
  then show "rnd (- (of_int m / 2 ^ n)) = Fin (- (of_int m / 2 ^ n))" by (simp add: rnd_neg)
qed

definition ram_env :: sys_env where
  "ram_env = (sys_ref [7] 946684800000000)\<lparr>dpow := (\<lambda>x y. Fin (1048577 / 1048576))\<rparr>"

lemma sys_ok_ram: "sys_ok ram_env"
  using sys_ok_7 [of 946684800000000] by (simp add: sys_ok_def apart_def ram_env_def asset_laws_def)

lemma ram_env_simps [simp]:
  "dpow ram_env x y = Fin (1048577 / 1048576)"
  "asset_new ram_env i z = check (sym_code z \<noteq> 0 \<and> \<bar>i\<bar> \<le> max_amount) ''asset'' (Inr (mk_asset i z))"
  by (simp_all add: ram_env_def)

lemma ram_rounding [simp]:
  "rnd (1 / 1048576) = Fin (1 / 1048576)" "rnd (- (1 / 1048576)) = Fin (- (1 / 1048576))"
  "rnd (6103515625 / 64) = Fin (6103515625 / 64)" "rnd 65536 = Fin 65536"
  using rnd_dyadic [of 1 20] rnd_dyadic [of 6103515625 6] rnd_dyadic [of 65536 0] by simp_all

lemma ram_truncation [simp]: "rtrunc (6103515625 / 64) = 95367431" "rtrunc 65536 = 65536"
  by (simp_all add: rtrunc_def floor_eq_iff)

definition demo_market1 :: exchange_state where
  "demo_market1 = \<lparr>ex_supply = mk_asset 100000095367431 ramcore_symbol,
     base = \<lparr>conn_balance = mk_asset 68719476736 ram_symbol, weight = dlit (1 / 2)\<rparr>,
     quote = \<lparr>conn_balance = mk_asset 1000995 core_sym, weight = dlit (1 / 2)\<rparr>\<rparr>"

definition demo_market2 :: exchange_state where
  "demo_market2 = \<lparr>ex_supply = mk_asset 100000000000000 ramcore_symbol,
     base = \<lparr>conn_balance = mk_asset 68719411200 ram_symbol, weight = dlit (1 / 2)\<rparr>,
     quote = \<lparr>conn_balance = mk_asset 1000995 core_sym, weight = dlit (1 / 2)\<rparr>\<rparr>"

lemma demo_to_exchange:
  "convert_to_exchange ram_env Quote (mk_asset 995 core_sym) demo_market = Inr (mk_asset 95367431 ramcore_symbol, demo_market1)"
  by (simp add: convert_to_exchange_def demo_market_def demo_market1_def conn.simps wrap64_def minus_double_def one_double_def
      in64_def Let_def guard_res_def ramcore_symbol_def max_amount_def add_amt_def mk_asset_def del: conn_simps)

lemma demo_from_exchange:
  "convert_from_exchange ram_env Base (mk_asset 95367431 ramcore_symbol) demo_market1 = Inr (mk_asset 65536 ram_symbol, demo_market2)"
  by (simp add: convert_from_exchange_def demo_market2_def demo_market1_def conn.simps wrap64_def minus_double_def one_double_def
      in64_def Let_def guard_res_def ram_symbol_def max_amount_def add_amt_def mk_asset_def del: conn_simps)

lemma demo_convert: "convert ram_env (mk_asset 995 core_sym) ram_symbol demo_market = Inr (mk_asset 65536 ram_symbol, demo_market2)"
proof -
  have y: "symb (ex_supply demo_market) = ramcore_symbol" "symb (conn_balance (conn Base demo_market)) = ram_symbol"
    "symb (ex_supply demo_market1) = ramcore_symbol" "symb (conn_balance (conn Base demo_market1)) = ram_symbol"
    "core_sym \<noteq> ramcore_symbol" "core_sym \<noteq> ram_symbol" "ram_symbol \<noteq> ramcore_symbol"
    by (simp_all add: demo_market_def demo_market1_def core_sym_def ram_symbol_def ramcore_symbol_def conn.simps del: conn_simps)
  show ?thesis
    by (simp add: convert_def numeral_2_eq_2 demo_to_exchange demo_from_exchange Let_def y y(5-7) [symmetric])
qed

definition demo_buy_ram :: sys_action where
  "demo_buy_ram = BwAct (Buyram 7 8 (mk_asset 1000 core_sym))"

definition demo_ram_bought :: sys_state where
  "demo_ram_bought = (
     let s1 = send_transfer ram_env [7] 7 (ref_lit ''eosio.ramfee'') (mk_asset 5 core_sym) ''ram fee''
            (send_transfer ram_env [7, ref_lit ''eosio.ram''] 7 (ref_lit ''eosio.ram'') (mk_asset 995 core_sym) ''buy ram'' demo_sys);
         g = gst (vs demo_sys)
     in s1\<lparr>rammarket := Some demo_market2,
           vs := (vs demo_sys)\<lparr>gst := g\<lparr>total_ram_bytes_reserved := 65536, total_ram_stake := 995\<rparr>\<rparr>,
           bw := (bw demo_sys)\<lparr>userres := t_set 8 \<lparr>net_weight = mk_asset 0 core_sym, cpu_weight = mk_asset 0 core_sym,
               ram_bytes = 65536\<rparr> t_empty, limits := (\<lambda>_. (-1, -1, -1))(8 := (66936, -1, -1))\<rparr>\<rparr>)"

lemma demo_supply: "update_ram_supply ram_env demo_sys = Inr demo_sys"
  by (simp add: update_ram_supply_def ram_env_def Let_def u32_def cdiv_def demo_sys_def sys_init_state_def)

lemma mk_asset_upd [simp]: "set_amt n (mk_asset m y) = mk_asset n y" "add_amt n (mk_asset m y) = mk_asset (wrap64 (m + n)) y"
  by (simp_all add: set_amt_def add_amt_def mk_asset_def)

lemma demo_gstate [simp]: "total_ram_bytes_reserved (default_gstate p) = 0" "total_ram_stake (default_gstate p) = 0"
  by (simp_all add: default_gstate_def)

lemma demo_buy_ram_runs: "sys_exec ram_env demo_buy_ram demo_sys = Inr demo_ram_bought"
proof -
  have e: "has_auth ram_env 7" "lit ram_env = ref_lit" by (simp_all add: ram_env_def)
  have r: "\<not> rex_available (rx demo_sys)" by (simp add: rex_available_iff)
  show ?thesis
    by (simp add: r demo_buy_ram_def buyram_def require_auth_def demo_supply fee_of_def wrap64_def cdiv_def Let_def channel_to_rex_def
      demo_convert demo_ram_bought_def sync_ram_limit_def managed_def put_userres_def set_resource_limits_def ram_gift_bytes_def
      u64_def e)
qed

lemma demo_ram_out: "sys_out demo_ram_bought =
   [Inline (ref_lit ''eosio.token'') [at_active ram_env 7, at_active ram_env (ref_lit ''eosio.ram'')]
      (TokenTransfer 7 (ref_lit ''eosio.ram'') (mk_asset 995 core_sym) ''buy ram''),
    Inline (ref_lit ''eosio.token'') [at_active ram_env 7]
      (TokenTransfer 7 (ref_lit ''eosio.ramfee'') (mk_asset 5 core_sym) ''ram fee'')]"
  by (simp add: demo_ram_bought_def send_transfer_def emit_def Let_def ram_env_def)

lemma demo_ram_txn: "sys_txn ''eosio.ram'' max_amount ram_env demo_buy_ram (demo_sys, 0) = Inr (demo_ram_bought, 995)"
  by (rule sys_txnI)
    (simp_all only: demo_buy_ram_runs demo_sys_out_empty,
      simp_all add: sys_args_ok_def demo_buy_ram_def demo_ram_out ram_env_def flow_eval max_amount_def)

theorem ram_backed_witness: "0 \<le> total_ram_stake (gst (vs demo_ram_bought)) \<and> total_ram_stake (gst (vs demo_ram_bought)) \<le> 995"
  by (rule ram_backed [OF reach_one [where exec = "sys_txn ''eosio.ram'' max_amount" and ok = sys_ok, OF demo_ram_txn sys_ok_ram]])
    (simp_all add: max_amount_def)

theorem ram_bytes_accounted_witness: "total_ram_bytes_reserved (gst (vs demo_ram_bought)) = 65536 \<and>
    total_ram_bytes_reserved (gst (vs demo_ram_bought)) = u64 (t_sum (\<lambda>_ r. ram_bytes r) (userres (bw demo_ram_bought)))"
proof -
  have a: "asset_laws ram_env" using sys_ok_ram by (rule sys_okD)
  show ?thesis
    using ram_bytes_accounted [OF reach_one [where exec = sys_exec and ok = asset_laws, OF demo_buy_ram_runs a]]
    by (simp add: u64_def demo_ram_bought_def Let_def)
qed

end
