(* ===== verification/RexClaims.thy ===== *)
theory RexClaims
  imports RexCustody FundClaims
begin

text \<open>The properties of REX: its solvency, its bookkeeping of REX tokens and the fairness of its price.\<close>

section \<open>Tokens\<close>

text \<open>
  C12. Conservation: a successful REX action (or vote) changes what REX owes (the users' funds, the
  lendable pool, the balances of loans and the proceeds of filled orders) by exactly the core tokens
  its inline transfers bring to the account \<open>eosio.rex\<close> less those they take from it, as long as REX
  owes at most the supply of the core token.
\<close>

theorem rex_conserves:
  assumes "asset_laws E" and "rex_args_ok a" and "rex_exec E a s = Inr s'" and "sys_core s = Inr cs"
    and "rex_inv cs (rx s)" and "sys_out s' = sys_out s @ es" and "transfers_ok es"
    and "liab (rx s) + moved_in (lit E ''eosio.rex'') es \<le> rex_cap"
  shows "liab (rx s') = liab (rx s) + moved_in (lit E ''eosio.rex'') es - moved_out (lit E ''eosio.rex'') es"
  by (rule rex_exec_conserves(2) [OF assms])

definition demo_deposited :: sys_state where
  "demo_deposited = send_transfer (sys_ref [7] 0) [7] 7 (ref_lit ''eosio.rex'') (mk_asset 500 core_sym) ''deposit to REX fund''
     (demo_sys\<lparr>rx := (rx demo_sys)\<lparr>rexfunds := t_set 7 (mk_asset 500 core_sym) t_empty\<rparr>\<rparr>)"

lemma demo_deposit: "rex_exec (sys_ref [7] 0) (Deposit 7 (mk_asset 500 core_sym)) demo_sys = Inr demo_deposited"
  by (simp add: deposit_def require_auth_def transfer_to_fund_def on_rx_def demo_deposited_def send_transfer_def emit_def)

lemma demo_rex_inv [simp]: "rex_inv core_sym (rx demo_sys)" "liab (rx demo_sys) = 0"
  by (simp_all add: rex_inv_def rex_inv_ex_def rex_rows_def covered_def liab_def lendable_def rex_cap_def)

theorem rex_conserves_witness: "liab (rx demo_deposited) = 500"
proof -
  have "sys_out demo_deposited = sys_out demo_sys @ [Inline (ref_lit ''eosio.token'') [at_active (sys_ref [7] 0) 7]
      (TokenTransfer 7 (ref_lit ''eosio.rex'') (mk_asset 500 core_sym) ''deposit to REX fund'')]"
    by (simp add: demo_deposited_def send_transfer_def emit_def)
  from rex_conserves [OF sys_ref_laws _ demo_deposit _ _ this] show ?thesis
    by (simp add: rex_args_ok_def in64_def transfers_ok_one moved_one rex_cap_def)
qed

text \<open>
  C2. Solvency: from any well-typed state in which REX keeps its books and \<open>eosio.rex\<close> covers what it owes,
  whatever actions of the whole system contract are executed, in any order and signed by any accounts but
  the funds themselves (\<open>sys_ok\<close>), \<open>eosio.rex\<close> goes on covering it, so that no withdrawal can fail for lack
  of tokens. The balance cannot exceed the supply of the core token, \<open>rex_cap\<close> at most.
\<close>

theorem rex_stays_solvent:
  assumes "reachable (sys_txn ''eosio.rex'' rex_cap) sys_ok (s0, b0) (s, b)"
    and "rex_held s0" and "liab (rx s0) \<le> b0" and "b0 \<le> rex_cap"
  shows "0 \<le> liab (rx s) \<and> liab (rx s) \<le> b"
  using rex.covered [OF assms(1)] assms(2-) by (simp add: rex_due_def)

lemma demo_typed: "rx_conf core_sym r \<Longrightarrow> well_typed (put_rx r demo_sys)" "well_typed demo_sys"
  by (simp_all add: well_typed_def put_rx_def conf_def bw_conf_def market_conf_def demo_market_def rx_conf_def conn.simps
      del: conn_simps)

lemma demo_put_rx [simp]: "(put_rx r demo_sys)\<lparr>sys_out := []\<rparr> = put_rx r demo_sys"
  by (simp add: demo_sys_def sys_init_state_def put_rx_def)

lemma demo_held: "rex_held demo_sys"
  using demo_typed(2) by (simp add: rex_held_def)

lemma demo_deposit_txn:
  "sys_txn ''eosio.rex'' rex_cap (sys_ref [7] 0) (RexAct (Deposit 7 (mk_asset 500 core_sym))) (demo_sys, 0) = Inr (demo_deposited, 500)"
proof -
  have o: "sys_out demo_deposited = [Inline (ref_lit ''eosio.token'') [at_active (sys_ref [7] 0) 7]
      (TokenTransfer 7 (ref_lit ''eosio.rex'') (mk_asset 500 core_sym) ''deposit to REX fund'')]"
    by (simp add: demo_deposited_def send_transfer_def emit_def)
  show ?thesis
    by (rule sys_txnI) (use demo_deposit in \<open>simp_all add: o sys_args_ok_def in64_def flow_eval rex_cap_def\<close>)
qed

theorem rex_stays_solvent_witness: "0 \<le> liab (rx demo_deposited) \<and> liab (rx demo_deposited) \<le> 500"
  by (rule rex_stays_solvent [OF reach_one [where exec = "sys_txn ''eosio.rex'' rex_cap" and ok = sys_ok, OF demo_deposit_txn sys_ok_7]])
    (simp_all add: demo_held rex_cap_def)

section \<open>REX tokens\<close>

text \<open>
  C13. Bookkeeping of REX: in every reachable state the REX of a balance is the matured part plus the
  maturity buckets, none of them negative; an open sell order is covered by the owner's matured REX;
  and the REX of the pool is the sum of the balances.
\<close>

theorem rex_tokens_accounted:
  assumes "reachable (sys_txn ''eosio.rex'' rex_cap) sys_ok (s0, b0) (s, b)"
    and "rex_held s0" and "liab (rx s0) \<le> b0" and "b0 \<le> rex_cap"
  shows "(\<forall>k bl. t_get (rexbalance (rx s)) k = Some bl \<longrightarrow>
        0 \<le> matured_rex bl \<and> buckets_ok (rex_maturities bl) \<and>
        amount (rex_amount bl) = matured_rex bl + bucket_sum (rex_maturities bl)) \<and>
     (\<forall>k ord bl. t_get (rexorders (rx s)) k = Some ord \<longrightarrow> is_open ord \<longrightarrow> t_get (rexbalance (rx s)) k = Some bl \<longrightarrow>
        0 < amount (rex_requested ord) \<and> amount (rex_requested ord) \<le> matured_rex bl) \<and>
     (\<forall>p. rexpool (rx s) = Some p \<longrightarrow> amount (total_rex p) = rex_total (rx s))"
proof -
  obtain cs where rows: "rex_rows cs {} (rx s)"
    using rex.solvent_reachable [OF assms(1)] assms(2-) rex_held_rows by (auto simp: solvent_def rex_due_def)
  have cov: "covered (rx s) k" for k using rows by (simp add: rex_rows_def)
  show ?thesis
    using bal_le_total(1) [OF rows] order_le_liab(1) [OF rows] cov rows_pool_ok [OF rows]
    by (fastforce simp: bal_off_def order_ok_def covered_def pool_ok_def)
qed

definition demo_bal :: rex_balance where
  "demo_bal = \<lparr>vote_stake = mk_asset 100 core_sym, rex_amount = mk_asset 1000000 rex_symbol, matured_rex = 0,
     rex_maturities = [(432000, 1000000)]\<rparr>"

definition demo_rx :: rex_state where
  "demo_rx = \<lparr>rexpool = Some (pool_new core_sym (mk_asset 100 core_sym) (mk_asset 100 core_sym)),
     rexfunds = t_empty, rexbalance = t_set 7 demo_bal t_empty, rexorders = t_empty,
     cpu_loans = t_empty, net_loans = t_empty\<rparr>"

definition demo_saved_bal :: rex_balance where
  "demo_saved_bal = demo_bal\<lparr>rex_maturities := [(432000, 600000), (end_of_days, 400000)]\<rparr>"

lemma wrap_num: "wrap64 (numeral n) = (if in64 (numeral n) then numeral n else wrap64 (numeral n))"
  by (simp add: wrap64_id)

lemmas rex_eval = pool_new_def wrap64_def u32_def u64_def rex_ratio_def cdiv_def read_rex_savings_def
  process_rex_maturities_def put_rex_savings_def add_bucket_def end_of_days_def Let_def

lemma demo_rx_simps [simp]:
  "rexpool demo_rx = Some (pool_new core_sym (mk_asset 100 core_sym) (mk_asset 100 core_sym))"
  "rexfunds demo_rx = t_empty" "rexbalance demo_rx = t_set 7 demo_bal t_empty" "rexorders demo_rx = t_empty"
  "cpu_loans demo_rx = t_empty" "net_loans demo_rx = t_empty"
  by (simp_all add: demo_rx_def)

lemma demo_rx_inv: "rex_inv core_sym demo_rx" "liab demo_rx = 100"
  by (auto simp: rex_inv_def rex_inv_ex_def rex_rows_def covered_def liab_def lendable_def rex_cap_def
      pool_ok_def rex_eval rex_total_def t_sum_set demo_bal_def bal_off_def)

lemma run_loans_empty: "loans_by_expr kd (rx s) = [] \<Longrightarrow> run_loans E cs kd n s = Inr s"
  by (cases n) auto

lemma t_index_empty [simp]: "t_index lt t_empty = []"
  by (simp add: t_index_def sort_by_def)

text \<open>Maintenance with nothing to do.\<close>

lemma runrex_idle:
  assumes "rexpool (rx s) = Some p" "amount (namebid_proceeds p) \<le> 0" "sys_core s = Inr cs"
    "rexorders (rx s) = t_empty" "cpu_loans (rx s) = t_empty" "net_loans (rx s) = t_empty"
  shows "runrex E n s = Inr s"
  using assms
  by (simp add: runrex_def rex_system_initialized_def run_namebids_def pool_row_def run_loans_empty loans_by_expr_def
      orders_by_time_def)

lemma demo_update_account:
  assumes "rexorders r = t_empty"
  shows "update_rex_account (sys_ref auths t) core_sym k (mk_asset 0 core_sym) (mk_asset 0 core_sym) False (put_rx r demo_sys)
    = Inr (mk_asset 0 rex_symbol, put_rx r demo_sys)"
  using assms by (simp add: update_rex_account_def put_rx_def)

lemma put_rx_put: "put_rx r (put_rx q s) = put_rx r s"
  by (simp add: put_rx_def)

lemma demo_mvtosavings:
  "rex_exec (sys_ref [7] 0) (Mvtosavings 7 (mk_asset 400000 rex_symbol)) (put_rx demo_rx demo_sys) =
   Inr (put_rx (put_bal 7 demo_saved_bal demo_rx) demo_sys)"
proof -
  have r: "runrex (sys_ref [7] 0) 2 (put_rx demo_rx demo_sys) = Inr (put_rx demo_rx demo_sys)"
    by (rule runrex_idle [where p = "pool_new core_sym (mk_asset 100 core_sym) (mk_asset 100 core_sym)"])
      (simp_all add: pool_new_def)
  show ?thesis
    by (simp add: mvtosavings_def require_auth_def r demo_update_account bal_row_def demo_bal_def rex_eval move_out_def
        demo_saved_bal_def put_rx_put)
qed

lemma demo_rx_held: "rex_held (put_rx demo_rx demo_sys)"
proof -
  have "rx_conf core_sym demo_rx" by (simp add: rx_conf_def pool_conf_def bal_conf_def pool_new_def demo_bal_def)
  then show ?thesis using demo_typed(1) demo_rx_inv by (simp add: rex_held_def)
qed

lemma demo_mvtosavings_txn:
  "sys_txn ''eosio.rex'' rex_cap (sys_ref [7] 0) (RexAct (Mvtosavings 7 (mk_asset 400000 rex_symbol))) (put_rx demo_rx demo_sys, 100) =
   Inr (put_rx (put_bal 7 demo_saved_bal demo_rx) demo_sys, 100)"
  by (rule sys_txnI) (use demo_mvtosavings in \<open>simp_all add: sys_args_ok_def in64_def flow_eval rex_cap_def\<close>)

theorem rex_tokens_accounted_witness:
  "amount (rex_amount demo_saved_bal) = matured_rex demo_saved_bal + bucket_sum (rex_maturities demo_saved_bal) \<and>
   rex_total (put_bal 7 demo_saved_bal demo_rx) = 1000000"
proof -
  note T = rex_tokens_accounted [OF reach_one [where exec = "sys_txn ''eosio.rex'' rex_cap" and ok = sys_ok,
      OF demo_mvtosavings_txn sys_ok_7] demo_rx_held]
  have T: "(\<forall>k bl. t_get (rexbalance (rx (put_rx (put_bal 7 demo_saved_bal demo_rx) demo_sys))) k = Some bl \<longrightarrow>
        0 \<le> matured_rex bl \<and> buckets_ok (rex_maturities bl) \<and>
        amount (rex_amount bl) = matured_rex bl + bucket_sum (rex_maturities bl)) \<and>
     (\<forall>p. rexpool (rx (put_rx (put_bal 7 demo_saved_bal demo_rx) demo_sys)) = Some p \<longrightarrow>
        amount (total_rex p) = rex_total (rx (put_rx (put_bal 7 demo_saved_bal demo_rx) demo_sys)))"
    using T by (simp add: demo_rx_inv rex_cap_def)
  show ?thesis
    using conjunct1 [OF T, rule_format, of 7 demo_saved_bal] conjunct2 [OF T]
    by (simp add: pool_new_def wrap64_def rex_ratio_def)
qed

section \<open>The price of REX\<close>

text \<open>
  C34. A buyer gets at most the REX that the payment is worth at the price before the purchase, and the
  purchase does not lower the price, lendable tokens per REX.
\<close>

theorem buying_is_fair:
  assumes "asset_laws E" and "rex_rows cs X r" and "liab r + amount q \<le> rex_cap" and "0 < amount q" and "symb q = cs"
    and "rexpool r = Some p" and "0 < amount (total_rex p)"
    and "add_to_rex_pool E cs q r = Inr (rec, r')" and "rexpool r' = Some p'"
  shows "amount rec * amount (total_lendable p) \<le> amount q * amount (total_rex p) \<and>
     amount (total_lendable p) * amount (total_rex p') \<le> amount (total_lendable p') * amount (total_rex p)"
proof -
  define S R where "S = amount (total_lendable p)" and "R = amount (total_rex p)"
  note B = pool_bounds [OF assms(2,6)]
  obtain p1 where r': "r' = put_pool p1 r" and ok: "pool_ok (rex_total r + amount rec) p1"
    and l: "amount (total_lendable p1) = lendable r + amount q"
    and f: "lendable r * (rex_total r + amount rec) \<le> (lendable r + amount q) * rex_total r"
    by (rule add_to_rex_pool_spec [OF assms(1-5,8)])
  have p1: "p1 = p'" using assms(9) r' by simp
  have S1: "amount (total_lendable p') = S + amount q" using l p1 assms(6) by (simp add: lendable_def S_def)
  have R1: "amount (total_rex p') = R + amount rec"
    using ok p1 rows_pool_ok [OF assms(2,6)] by (simp add: pool_ok_def R_def)
  have "S * (R + amount rec) \<le> (S + amount q) * R"
    using f rows_pool_ok [OF assms(2,6)] assms(6) by (simp add: lendable_def S_def R_def pool_ok_def)
  then show ?thesis by (simp add: S1 R1 S_def [symmetric] R_def [symmetric] algebra_simps)
qed

lemma demo_rx_rows: "rex_rows core_sym {} demo_rx" "liab demo_rx = 100"
  using demo_rx_inv
  by (auto simp: rex_inv_def rex_inv_ex_def liab_def lendable_def pool_new_def)

definition demo_pool2 :: rex_pool where
  "demo_pool2 = \<lparr>total_lent = mk_asset 0 core_sym, total_unlent = mk_asset 150 core_sym,
     total_rent = mk_asset 200000000 core_sym, total_lendable = mk_asset 150 core_sym,
     total_rex = mk_asset 1500000 rex_symbol, namebid_proceeds = mk_asset 0 core_sym, pool_loan_num = 0\<rparr>"

lemma demo_buy: "add_to_rex_pool (sys_ref auths t) core_sym (mk_asset 50 core_sym) demo_rx =
    Inr (mk_asset 500000 rex_symbol, put_pool demo_pool2 demo_rx)"
proof -
  have m: "mul_div 150 1000000 100 = Inr 1500000"
    using mul_div_exact [of 150 1000000 100] by simp
  have p: "pool_buy 150 1500000 (pool_new core_sym (mk_asset 100 core_sym) (mk_asset 100 core_sym)) = demo_pool2"
    by (simp add: pool_buy_def pool_new_def demo_pool2_def set_amt_def mk_asset_def init_total_rent_def wrap64_def)
  have w: "wrap64 1000000 = 1000000" "wrap64 150 = 150" "wrap64 500000 = 500000"
    by (simp_all add: wrap64_id in64_def)
  show ?thesis
    using p by (simp add: add_to_rex_pool_def rex_available_def pool_new_def rex_ratio_def w m)
qed

theorem buying_is_fair_witness: "(500000::int) * 100 \<le> 50 * 1000000 \<and> (100::int) * 1500000 \<le> 150 * 1000000"
  using buying_is_fair [OF sys_ref_laws demo_rx_rows(1) _ _ _ _ _ demo_buy [of "[]" 0]]
  by (simp add: demo_rx_rows(2) rex_cap_def rex_eval demo_pool2_def)

text \<open>
  C35. A seller gets at most the tokens that the REX is worth at the price before the sale, and the sale
  does not lower the price; what is not paid at once is not taken from the pool.
\<close>

theorem selling_is_fair:
  assumes "asset_laws E" and "rex_rows cs X r" and "liab r \<le> rex_cap" and "0 < amount rex"
    and "t_get (rexbalance r) k = Some b" and "amount rex \<le> matured_rex b" and "rexpool r = Some p"
    and "fill_rex_order E cs k rex r = Inr (out, r')" and "rexpool r' = Some p'"
  shows "amount (out_proceeds out) * amount (total_rex p) \<le> amount rex * amount (total_lendable p) \<and>
     amount (total_lendable p) * amount (total_rex p') \<le> amount (total_lendable p') * amount (total_rex p) \<and>
     (\<not> success out \<longrightarrow> r' = r)"
proof (cases "success out")
  case True
  note F = fill_rex_order_spec [OF assms(1-6,8)]
  define S R where "S = amount (total_lendable p)" and "R = amount (total_rex p)"
  note V = fill_rex_order_value [OF assms(1-6,8,7) True, folded S_def R_def]
  have l: "amount (total_lendable p') = S - amount (out_proceeds out)" "amount (total_rex p') = R - amount rex"
    using V(2,3) assms(9) by simp_all
  show ?thesis using V(1) True by (simp add: l S_def [symmetric] R_def [symmetric] algebra_simps)
next
  case False
  note F = fill_rex_order_spec [OF assms(1-6,8)]
  have "0 \<le> amount rex * amount (total_lendable p)"
    using pool_bounds [OF assms(2,7,3)] assms(4) by simp
  then show ?thesis using F(6) [OF False] assms(7,9) False by simp
qed

definition demo_mature :: rex_state where
  "demo_mature = put_bal 7 (demo_bal\<lparr>matured_rex := 1000000, rex_maturities := []\<rparr>) demo_rx"

definition demo_sold :: rex_state where
  "demo_sold = put_bal 7 (demo_bal\<lparr>rex_maturities := [], vote_stake := mk_asset 75 core_sym,
       rex_amount := mk_asset 750000 rex_symbol, matured_rex := 750000\<rparr>)
     (put_pool \<lparr>total_lent = mk_asset 0 core_sym, total_unlent = mk_asset 75 core_sym,
        total_rent = mk_asset 200000000 core_sym, total_lendable = mk_asset 75 core_sym,
        total_rex = mk_asset 750000 rex_symbol, namebid_proceeds = mk_asset 0 core_sym, pool_loan_num = 0\<rparr> demo_rx)"

definition demo_outcome :: rex_order_outcome where
  "demo_outcome = \<lparr>success = True, out_proceeds = mk_asset 25 core_sym, out_stake_change = mk_asset (- 25) core_sym\<rparr>"

lemma demo_mature_rows: "rex_rows core_sym {} demo_mature" "liab demo_mature = 100"
proof -
  have "bal_off 0 (demo_bal\<lparr>matured_rex := 1000000, rex_maturities := []\<rparr>)" by (simp add: bal_off_def demo_bal_def)
  then show "rex_rows core_sym {} demo_mature"
    unfolding demo_mature_def
    by (intro rex_rows_same_bal [OF demo_rx_rows(1), where b = demo_bal]) (simp_all add: covers_def)
  show "liab demo_mature = 100" by (simp add: demo_mature_def demo_rx_rows(2))
qed

lemma put_bal_pool: "put_bal k b (put_pool p (put_bal k c r)) = put_bal k b (put_pool p r)"
  by (simp add: put_bal_def put_pool_def tab.put_put)

lemma demo_sale: "fill_rex_order (sys_ref auths t) core_sym 7 (mk_asset 250000 rex_symbol) demo_mature = Inr (demo_outcome, demo_sold)"
proof -
  have m: "mul_div 250000 100 1000000 = Inr 25" "mul_div 1000000 100 1000000 = Inr 100"
    using mul_div_exact [of 250000 100 1000000] mul_div_exact [of 1000000 100 1000000] by simp_all
  have w: "wrap64 1000000 = 1000000" "wrap64 750000 = 750000" "wrap64 75 = 75" "wrap64 100 = 100" "wrap64 (- 25) = - 25"
    by (simp_all add: wrap64_id in64_def)
  let ?p = "pool_new core_sym (mk_asset 100 core_sym) (mk_asset 100 core_sym)"
  have p: "rexpool demo_mature = Some ?p" and b: "t_get (rexbalance demo_mature) 7 =
      Some (demo_bal\<lparr>matured_rex := 1000000, rex_maturities := []\<rparr>)" by (simp_all add: demo_mature_def)
  have f: "amount (total_lendable ?p) = 100" "amount (total_rex ?p) = 1000000" "amount (total_lent ?p) = 0"
    "amount (total_unlent ?p) = 100"
    by (simp_all add: pool_new_def w rex_ratio_def)
  have d: "amount (rex_amount demo_bal) = 1000000" "amount (vote_stake demo_bal) = 100" by (simp_all add: demo_bal_def)
  have u: "u128 0 = 0" by (simp add: u128_def)
  have new: "sym_code core_sym \<noteq> 0" "25 \<le> max_amount"
    by (simp_all add: core_sym_def max_amount_def)
  have a: "set_amt 75 (vote_stake demo_bal) = mk_asset 75 core_sym" "add_amt (- 250000) (rex_amount demo_bal) = mk_asset 750000 rex_symbol"
    by (simp_all add: demo_bal_def set_amt_def add_amt_def mk_asset_def w)
  have ps: "pool_sell 75 750000 ?p = \<lparr>total_lent = mk_asset 0 core_sym, total_unlent = mk_asset 75 core_sym,
        total_rent = mk_asset 200000000 core_sym, total_lendable = mk_asset 75 core_sym,
        total_rex = mk_asset 750000 rex_symbol, namebid_proceeds = mk_asset 0 core_sym, pool_loan_num = 0\<rparr>"
    by (simp add: pool_sell_def pool_new_def set_amt_def mk_asset_def init_total_rent_def w)
  have fin: "put_bal 7 c (put_pool q demo_mature) = put_bal 7 c (put_pool q demo_rx)" for c q
    by (simp add: demo_mature_def put_bal_pool)
  show ?thesis
    by (simp add: fill_rex_order_def pool_row_def bal_row_def p b f m w wrap64_0 d u new a ps fin Let_def demo_outcome_def demo_sold_def)
qed

theorem selling_is_fair_witness: "(25::int) * 1000000 \<le> 250000 * 100 \<and> (100::int) * 750000 \<le> 75 * 1000000"
  using selling_is_fair [OF sys_ref_laws demo_mature_rows(1) _ _ _ _ _ demo_sale [of "[]" 0],
      of "demo_bal\<lparr>matured_rex := 1000000, rex_maturities := []\<rparr>"]
  by (simp add: demo_mature_rows(2) rex_cap_def demo_mature_def demo_sold_def demo_outcome_def pool_new_def wrap64_def
      rex_ratio_def)

text \<open>
  C36. Buying REX and selling it at once never gains: the proceeds of the REX received for a payment are
  at most the payment.
\<close>

theorem buy_then_sell_no_gain:
  assumes "asset_laws E" and "rex_rows cs X r" and "liab r + amount q \<le> rex_cap" and "0 < amount q" and "symb q = cs"
    and "add_to_rex_pool E cs q r = Inr (rec, r1)" and "0 < amount rec"
    and "rexpool r2 = rexpool r1" and "rex_rows cs Y r2" and "liab r2 \<le> rex_cap"
    and "t_get (rexbalance r2) k = Some b" and "amount rec \<le> matured_rex b"
    and "fill_rex_order E cs k rec r2 = Inr (out, r3)"
  shows "amount (out_proceeds out) \<le> amount q"
proof (cases "success out")
  case True
  obtain p1 where r1: "r1 = put_pool p1 r" and ok: "pool_ok (rex_total r + amount rec) p1"
    and l: "amount (total_lendable p1) = lendable r + amount q"
    and f: "lendable r * (rex_total r + amount rec) \<le> (lendable r + amount q) * rex_total r"
    by (rule add_to_rex_pool_spec [OF assms(1-6)])
  have p2: "rexpool r2 = Some p1" using assms(8) r1 by simp
  let ?x = "amount (out_proceeds out)" and ?R = "rex_total r + amount rec"
  have R: "amount (total_rex p1) = ?R" using ok by (simp add: pool_ok_def)
  have "?x * ?R \<le> amount rec * (lendable r + amount q)"
    using fill_rex_order_value(1) [OF assms(1,9,10,7,11-13) p2 True] by (simp add: R l)
  also have "\<dots> \<le> amount q * ?R" using f by (simp add: algebra_simps)
  finally have "?x * ?R \<le> amount q * ?R" .
  moreover have "0 < ?R" using rex_parts_nonneg(5) [OF assms(2)] assms(7) by simp
  ultimately show ?thesis by (simp add: mult_le_cancel_right)
next
  case False
  then show ?thesis using fill_rex_order_spec(6) [OF assms(1,9,10,7,11-13)] assms(4) by simp
qed

definition demo_bought :: rex_state where
  "demo_bought = put_bal 7 (demo_bal\<lparr>rex_amount := mk_asset 1500000 rex_symbol, matured_rex := 1500000, rex_maturities := []\<rparr>)
     (put_pool demo_pool2 demo_rx)"

lemma demo_bought_rows: "rex_rows core_sym {} demo_bought" "liab demo_bought = 150"
  by (auto simp: demo_bought_def demo_pool2_def rex_rows_def covered_def liab_def pool_ok_def rex_ratio_def wrap64_def
      rex_total_put_bal rex_total_def t_sum_set demo_bal_def bal_off_def tab.put_put intro!: all_rows_set)

lemma demo_resale: "\<exists>out r. fill_rex_order (sys_ref auths t) core_sym 7 (mk_asset 500000 rex_symbol) demo_bought = Inr (out, r)"
proof -
  have m: "mul_div 500000 150 1500000 = Inr 50" "mul_div 1500000 150 1500000 = Inr 150"
    using mul_div_exact [of 500000 150 1500000] mul_div_exact [of 1500000 150 1500000] by simp_all
  have w: "wrap64 1000000 = 1000000" "wrap64 100 = 100" "wrap64 150 = 150" by (simp_all add: wrap64_id in64_def)
  have u: "u128 0 = 0" by (simp add: u128_def)
  have new: "sym_code core_sym \<noteq> 0" "50 \<le> max_amount" by (simp_all add: core_sym_def max_amount_def)
  show ?thesis
    by (simp add: demo_bought_def demo_pool2_def fill_rex_order_def pool_row_def bal_row_def m w wrap64_0 u new Let_def)
qed

theorem buy_then_sell_no_gain_witness:
  "\<exists>out r. fill_rex_order (sys_ref [] 0) core_sym 7 (mk_asset 500000 rex_symbol) demo_bought = Inr (out, r) \<and>
     amount (out_proceeds out) \<le> 50"
proof -
  obtain out r where f: "fill_rex_order (sys_ref [] 0) core_sym 7 (mk_asset 500000 rex_symbol) demo_bought = Inr (out, r)"
    using demo_resale [of "[]" 0] by blast
  have "amount (out_proceeds out) \<le> amount (mk_asset 50 core_sym)"
    by (rule buy_then_sell_no_gain [OF sys_ref_laws demo_rx_rows(1) _ _ _ demo_buy [of "[]" 0] _ _ demo_bought_rows(1) _ _ _ f,
        where b = "demo_bal\<lparr>rex_amount := mk_asset 1500000 rex_symbol, matured_rex := 1500000, rex_maturities := []\<rparr>"])
      (simp_all add: demo_rx_rows(2) demo_bought_rows(2) rex_cap_def, simp_all add: demo_bought_def)
  then show ?thesis using f by simp
qed

end
