(* ===== verification/Ends.thy ===== *)
theory Ends
  imports Proxies Admin
begin

text \<open>
  The recursions that carry fuel never use it up: the chains of proxies, whose invariant is in
  \<open>Proxies\<close>, and the conversion in the RAM market. \<open>ends m\<close> says that \<open>m\<close> has a result or an error of
  the contract; its rules follow the syntax of contract code, so that an action is split into the calls
  it makes.
\<close>

definition ends :: "'a res \<Rightarrow> bool" where
  "ends m \<longleftrightarrow> m \<noteq> Inl (Undefined ''out of fuel'')"

named_theorems ends_intros \<open>rules for computations that end\<close>

lemma ends_base [ends_intros]:
  "ends (Inr x)" "e \<noteq> Undefined ''out of fuel'' \<Longrightarrow> ends (Inl e)"
  "(c \<Longrightarrow> ends k) \<Longrightarrow> ends (check c m k)"
  "(c \<Longrightarrow> ends k) \<Longrightarrow> e \<noteq> Undefined ''out of fuel'' \<Longrightarrow> ends (guard_res c e k)"
  "(has_auth E n \<Longrightarrow> ends k) \<Longrightarrow> ends (require_auth E n k)"
  "ends m' \<Longrightarrow> (\<And>x. m' = Inr x \<Longrightarrow> ends (f x)) \<Longrightarrow> ends (rbind m' f)"
  "e \<noteq> Undefined ''out of fuel'' \<Longrightarrow> ends (rget e y)"
  by (cases m'; cases y; auto simp: ends_def check_def guard_res_def require_auth_def)+

lemma ends_cases [ends_intros]:
  "(c \<Longrightarrow> ends a) \<Longrightarrow> (\<not> c \<Longrightarrow> ends b) \<Longrightarrow> ends (if c then a else b)"
  "(\<And>x. x = t \<Longrightarrow> ends (g x)) \<Longrightarrow> ends (let x = t in g x)"
  "(\<And>x y. q = (x, y) \<Longrightarrow> ends (h x y)) \<Longrightarrow> ends (case q of (x, y) \<Rightarrow> h x y)"
  "(\<And>x y. q = (x, y) \<Longrightarrow> ends (j x y z)) \<Longrightarrow> ends ((case q of (x, y) \<Rightarrow> j x y) z)"
  "(opt = None \<Longrightarrow> ends a) \<Longrightarrow> (\<And>x. opt = Some x \<Longrightarrow> ends (g' x)) \<Longrightarrow> ends (case opt of None \<Rightarrow> a | Some x \<Rightarrow> g' x)"
  "(xs = [] \<Longrightarrow> ends a) \<Longrightarrow> (\<And>y ys. xs = y # ys \<Longrightarrow> ends (g'' y ys)) \<Longrightarrow> ends (case xs of [] \<Rightarrow> a | y # ys \<Rightarrow> g'' y ys)"
  by (auto split: option.split list.split prod.split)

lemma ends_rfold [ends_intros]:
  assumes "\<And>x s. ends (f x s)"
  shows "ends (rfold f xs s)"
  by (induction xs arbitrary: s) (simp_all add: ends_base assms)

lemma ends_emplace [ends_intros]: "ends (t_emplace k r t)"
  unfolding t_emplace_def by (intro ends_intros) simp

lemma ends_floats [ends_intros]: "ends (to_i64 d)" "ends (to_u32 d)"
  by (cases d; auto intro!: ends_intros)+

text \<open>The asset operations of the host library have errors of their own.\<close>

definition ops_end :: "'z env_scheme \<Rightarrow> bool" where
  "ops_end E \<longleftrightarrow> (\<forall>a b n y. ends (asset_plus E a b) \<and> ends (asset_minus E a b) \<and> ends (asset_le E a b) \<and> ends (asset_new E n y))"

lemma ends_ops [ends_intros]:
  "ops_end E \<Longrightarrow> ends (asset_plus E a b)" "ops_end E \<Longrightarrow> ends (asset_minus E a b)"
  "ops_end E \<Longrightarrow> ends (asset_le E a b)" "ops_end E \<Longrightarrow> ends (asset_new E n y)"
  by (simp_all add: ops_end_def)

section \<open>Votes\<close>

lemma votes_end [ends_intros]:
  "ends (update_producer_votepay_share k ct r b s)" "ends (update_producer_witnesspay_share k ct r b s)"
  "ends (put_producer k p s)" "ends (voter_row k s)" "ends (valid_vote voter prx ps)"
  unfolding update_producer_votepay_share_def update_producer_witnesspay_share_def put_producer_def voter_row_def valid_vote_def
  by (intro ends_intros; simp)+

lemma account_votepay_ends [ends_intros]: "ends (account_votepay k ct lc tv d acc)"
  unfolding account_votepay_def by (intro ends_intros)

lemma apply_delta_ends [ends_intros]: "ends (apply_delta ct voting pd acc)"
  unfolding apply_delta_def by (intro ends_intros)

lemma witness_moves_end [ends_intros]: "ends (leave_witness ct ns w acc)" "ends (enter_witness ct ns w acc)"
  unfolding leave_witness_def enter_witness_def by (intro ends_intros; simp)+

lemma shift_witnesses_ends [ends_intros]: "ends (shift_witnesses ct b a s)"
  unfolding shift_witnesses_def by (intro ends_intros)

lemma propagate_ends: "acyclic (proxy_rel s) \<Longrightarrow> ends (propagate ct k s)"
  using propagate_fuel [OF _ chain_fuel order_refl, of s ct k] by (simp add: propagate_def ends_def)

lemma proxy_rel_put: "t_get (voters s) k = Some p \<Longrightarrow> proxy_rel (put_voter k (p\<lparr>proxied_vote_weight := w\<rparr>) s) = proxy_rel s"
  by (rule proxy_rel_cores [OF put_weight_cores])

lemma undo_vote_ends:
  assumes "acyclic (proxy_rel s)"
  shows "ends (undo_vote ct k s)"
  unfolding undo_vote_def
  by (intro ends_intros propagate_ends) (use assms in \<open>auto simp: rget_Inr_iff proxy_rel_put\<close>)

lemma cast_vote_ends:
  assumes "acyclic (proxy_rel (fst acc))"
  shows "ends (cast_vote ct prx ps voting w acc)"
  unfolding cast_vote_def
  by (intro ends_intros propagate_ends) (use assms in \<open>auto simp: rget_Inr_iff proxy_rel_put\<close>)

lemma update_votes_ends:
  assumes "acyclic (proxy_rel s)"
  shows "ends (update_votes ct voter prx ps voting s)"
proof -
  have a: "proxy_rel (activate_stake ct v s) = proxy_rel s" for v by (rule proxy_rel_cores) simp
  have u: "acyclic (proxy_rel (fst x))" if "undo_vote ct voter (activate_stake ct v s) = Inr x" for v x
  proof -
    have "cores (fst x) = cores s"
      using undo_vote_frame [of ct voter "activate_stake ct v s" "fst x" "snd x"] that by simp
    from proxy_rel_cores [OF this] show ?thesis using assms by simp
  qed
  show ?thesis
    unfolding update_votes_def
    by (intro ends_intros undo_vote_ends cast_vote_ends) (auto simp: a assms rget_Inr_iff dest: u)
qed

lemma regproxy_ends:
  assumes "proxies_ok s"
  shows "ends (regproxy E prx b s)"
proof -
  have "acyclic (proxy_rel (put_voter prx (v\<lparr>is_proxy := b\<rparr>) s))" if "t_get (voters s) prx = Some v" for v
  proof -
    have "proxy_rel (put_voter prx (v\<lparr>is_proxy := b\<rparr>) s) = proxy_rel s"
      using that by (auto simp: proxy_rel_def split: if_splits)
    then show ?thesis using assms by (simp add: proxies_ok_def)
  qed
  then show ?thesis unfolding regproxy_def by (intro ends_intros propagate_ends) simp
qed

lemma vote_exec_ends: "proxies_ok s \<Longrightarrow> ends (vote_exec E a s)"
  by (cases a) (simp_all add: regproducer_def unregprod_def regproxy_ends, (intro ends_intros; simp)+)

lemma power_ends:
  assumes "proxies_ok s"
  shows "ends (update_voting_power E voter q s)"
proof -
  have v: "acyclic (proxy_rel (put_voter voter (case t_get (voters s) voter of
       None \<Rightarrow> new_voter\<lparr>staked := amount q\<rparr> | Some v \<Rightarrow> v\<lparr>staked := wrap64 (staked v + amount q)\<rparr>) s))"
    (is "acyclic (proxy_rel (put_voter voter ?v s))")
  proof -
    have "pv (put_voter voter ?v s) = pv s" by (rule pv_put_same) (simp add: pv_def new_voter_def split: option.split)
    then show ?thesis using proxies_ok_same [OF assms] by (simp add: proxies_ok_def)
  qed
  show ?thesis
    unfolding update_voting_power_def validate_b1_vesting_def
    by (intro ends_intros update_votes_ends) (simp_all add: v)
qed

end
