(* ===== verification/SysEnds.thy ===== *)
theory SysEnds
  imports Ends SysFrames
begin

text \<open>
  Every action of the system contract ends, as long as the proxies form no cycle: the calls of the
  recursive functions inside the actions meet the conditions under which they end.
\<close>

lemma ends_on [ends_intros]: "ends (f (vs s)) \<Longrightarrow> ends (on_vs f s)" "ends (g (rx s)) \<Longrightarrow> ends (on_rx g s)"
  by (simp_all add: on_vs_def on_rx_def ends_intros)

lemma ends_rows [ends_intros]: "ends (pool_row r)" "ends (bal_row k r)" "ends (core_symbol m)" "ends (sys_core s)" "ends (mul_div a b c)"
  "ends (get_bancor_output a b c)"
  unfolding pool_row_def bal_row_def core_symbol_def sys_core_def mul_div_def get_bancor_output_def
  by (intro ends_intros; simp)+

section \<open>The market of RAM\<close>

lemma exchange_ends [ends_intros]:
  "ops_end E \<Longrightarrow> ends (convert_to_exchange E d q m)" "ops_end E \<Longrightarrow> ends (convert_from_exchange E d q m)"
  unfolding convert_to_exchange_def convert_from_exchange_def by (intro ends_intros; assumption)+

text \<open>After a step into the exchange token one step out of it is left: two rounds are enough.\<close>

lemma convert_last_round:
  assumes "asset_laws E" "ops_end E" "symb q = symb (ex_supply m)"
  shows "ends (convert_n (Suc n) E q y m)"
proof -
  have last: "symb x = y" if "(if symb q \<noteq> symb (ex_supply m)
         then if symb q = symb (conn_balance (base m)) then convert_to_exchange E Base q m
              else if symb q = symb (conn_balance (quote m)) then convert_to_exchange E Quote q m
              else Inl (Assert ''invalid sell'')
         else if y = symb (conn_balance (base m)) then convert_from_exchange E Base q m
              else if y = symb (conn_balance (quote m)) then convert_from_exchange E Quote q m
              else Inl (Assert ''invalid conversion'')) = Inr (x, m')" for x m'
    using that assms(3) from_exchange_symb [OF assms(1), of Base q m x m'] from_exchange_symb [OF assms(1), of Quote q m x m']
    by (auto split: if_splits)
  show ?thesis
    unfolding convert_n.simps(2) Let_def
    by (intro ends_intros assms(2)) (hypsubst | drule last | simp)+
qed

lemma convert_ends [ends_intros]:
  assumes "asset_laws E" "ops_end E"
  shows "ends (convert E q y m)"
proof (cases "symb q = symb (ex_supply m)")
  case True
  then show ?thesis unfolding convert_def numeral_2_eq_2 using assms by (rule convert_last_round [rotated 2])
next
  case False
  have "ends (convert_n (Suc 0) E x y m')" if "convert_to_exchange E d q m = Inr (x, m')" for d x m'
    using to_exchange_symb [OF assms(1) that] assms by (intro convert_last_round) simp_all
  then show ?thesis
    unfolding convert_def numeral_2_eq_2 using False assms(2)
    by (subst convert_n.simps) (auto simp: Let_def simp del: convert_n.simps intro!: ends_intros)
qed

section \<open>Functions without recursion\<close>

lemma plain_functions_end [ends_intros]:
  "ends (transfer_to_fund cs k q r)" "ends (add_loan_to_rex_pool q n b r)" "ends (remove_loan_from_rex_pool l r)"
  "ends (update_rex_stake k s)" "ends (update_ram_supply E s)" "ends (add_share i d)" "ends (new_tokens_of n u)"
  "ends (witness_pay d1 d2 n)"
  unfolding transfer_to_fund_def add_loan_to_rex_pool_def remove_loan_from_rex_pool_def update_rex_stake_def
    update_ram_supply_def add_share_def new_tokens_of_def witness_pay_def
  by (intro ends_intros; simp)+

lemma rex_functions_end [ends_intros]:
  assumes "ops_end E"
  shows "ends (transfer_from_fund E cs k q r)" "ends (add_to_rex_pool E cs q r)"
    "ends (add_to_rex_balance E cs k q x r)" "ends (fill_rex_order E cs k q r)"
  unfolding transfer_from_fund_def add_to_rex_pool_def add_to_rex_balance_def fill_rex_order_def
  by (intro ends_intros assms; simp)+

lemma loan_functions_end [ends_intros]:
  assumes "ops_end E"
  shows "ends (fund_rex_loan E cs kd k n q r)" "ends (defund_rex_loan E cs kd k n q r)" "ends (process_expired_loan E cs kd l r)"
    "ends (buy_into_pool E cs k q r)"
  unfolding fund_rex_loan_def defund_rex_loan_def process_expired_loan_def buy_into_pool_def
  by (intro ends_intros assms; simp)+

lemma bandwidth_functions_end [ends_intros]:
  assumes "ops_end E"
  shows "ends (update_resource_limits E k dn dc s)"
    "ends (changebw_delegation E k r n c s)" "ends (changebw_totals E r n c s)" "ends (changebw_request E cs k b n c s)"
  unfolding update_resource_limits_def changebw_delegation_def changebw_totals_def
    changebw_request_def refund_half_def
  by (intro ends_intros assms; simp)+

lemma rex_maintenance_ends [ends_intros]:
  assumes "ops_end E"
  shows "ends (run_loans E cs kd n s)" "ends (run_order E cs ord s)" "ends (run_namebids E s)"
proof -
  show "ends (run_loans E cs kd n s)"
  proof (induction n arbitrary: s)
    case (Suc n)
    then show ?case unfolding run_loans.simps by (intro ends_intros assms)
  qed (simp add: ends_intros)
qed (unfold run_order_def run_namebids_def, (intro ends_intros assms)+)

lemma runrex_ends [ends_intros]: "ops_end E \<Longrightarrow> ends (runrex E n s)"
  unfolding runrex_def by (intro ends_intros; assumption)

lemma pay_functions_end [ends_intros]:
  assumes "ops_end E"
  shows "ends (pay_share E cs x s)" "ends (pay_from E cs f k n m s)"
  unfolding pay_share_def pay_from_def
  by (intro ends_intros assms)+

section \<open>Calls that keep the proxies\<close>

named_theorems graph_calls \<open>functions that keep the invariant of proxies\<close>

lemma frame_graph:
  assumes "frame E UNIV (UNIV - {Graph}) s s'" "proxies_ok (vs s)"
  shows "proxies_ok (vs s')"
  using frame_same [OF assms(1), of Graph] assms(2) by (auto intro: proxies_ok_same)

lemma keep_graph [graph_calls]:
  "runrex E n s = Inr s' \<Longrightarrow> proxies_ok (vs s) \<Longrightarrow> proxies_ok (vs s')"
  "update_resource_limits E k dn dc s = Inr s' \<Longrightarrow> proxies_ok (vs s) \<Longrightarrow> proxies_ok (vs s')"
  "update_rex_stake k s = Inr s' \<Longrightarrow> proxies_ok (vs s) \<Longrightarrow> proxies_ok (vs s')"
  "update_rex_account E cs k q d b s = Inr (x, s') \<Longrightarrow> proxies_ok (vs s) \<Longrightarrow> proxies_ok (vs s')"
  by (blast intro: frame_graph [where E = E] frame_runrex frame_limits frame_rex_stake frame_rex_account frame_refl UNIV_I)+

lemma on_rx_graph [graph_calls]: "on_rx f s = Inr s' \<Longrightarrow> proxies_ok (vs s) \<Longrightarrow> proxies_ok (vs s')"
  by (auto simp: on_rx_Inr_iff)

lemma changebw_graph [graph_calls]:
  "changebw_delegation E k r n c s = Inr s' \<Longrightarrow> proxies_ok (vs s) \<Longrightarrow> proxies_ok (vs s')"
  "changebw_totals E r n c s = Inr s' \<Longrightarrow> proxies_ok (vs s) \<Longrightarrow> proxies_ok (vs s')"
  "changebw_refund E cs p k b n c s = Inr s' \<Longrightarrow> proxies_ok (vs s) \<Longrightarrow> proxies_ok (vs s')"
  by (blast intro: frame_graph [where E = E] frame_delegation frame_totals frame_bw_refund frame_refl UNIV_I)+

lemma rex_account_ends:
  assumes "ops_end E" "proxies_ok (vs s)"
  shows "ends (update_rex_account E cs k q d b s)"
  unfolding update_rex_account_def
  by (intro ends_intros power_ends assms) (simp_all add: assms put_rx_def)

lemma changebw_refund_ends [ends_intros]: "ops_end E \<Longrightarrow> ends (changebw_refund E cs p k b n c s)"
  unfolding changebw_refund_def by (intro ends_intros; assumption)

section \<open>Actions\<close>

lemma graph_simps [simp]: "proxies_ok (v\<lparr>producers := p\<rparr>) = proxies_ok v" "vs (put_rx r s) = vs s" "vs (send_result E c s) = vs s"
  by (simp_all add: proxies_ok_pv put_rx_def send_result_def)

lemma rent_ends [ends_intros]: "ops_end E \<Longrightarrow> ends (rent_rex E kd k r p f s)"
  unfolding rent_rex_def by (intro ends_intros; (assumption | simp))

lemma move_out_ends [ends_intros]: "ends (move_out a b c)"
  unfolding move_out_def by (intro ends_intros)

lemmas action_ends = ends_intros rex_account_ends power_ends

lemma rex_exec_ends:
  assumes "ops_end E" "proxies_ok (vs s)"
  shows "ends (rex_exec E a s)"
proof (cases a)
  case (Voteproducer v p ps)
  have "ends (update_votes (current_time E) v p ps True (vs s1))" if "update_rex_stake v s = Inr s1" for s1
    using keep_graph(3) [OF that assms(2)] by (intro update_votes_ends) (simp add: proxies_ok_def)
  then show ?thesis
    unfolding Voteproducer rex_exec.simps voteproducer_def check_voting_requirement_def by (intro ends_intros) simp_all
next
  case (Withdraw k q)
  show ?thesis unfolding Withdraw rex_exec.simps withdraw_def
    by (intro action_ends assms)
next
  case (Buyrex k q)
  show ?thesis unfolding Buyrex rex_exec.simps buyrex_def check_voting_requirement_def
    by (intro action_ends assms) (hypsubst | erule graph_calls | simp add: assms)+
next
  case (Unstaketorex k r n c)
  show ?thesis unfolding Unstaketorex rex_exec.simps unstaketorex_def check_voting_requirement_def
    by (intro action_ends assms) (hypsubst | erule graph_calls | simp add: assms)+
next
  case (Sellrex k q)
  show ?thesis unfolding Sellrex rex_exec.simps sellrex_def
    by (intro action_ends assms) (hypsubst | erule graph_calls | simp add: assms)+
next
  case (Updaterex k)
  show ?thesis unfolding Updaterex rex_exec.simps updaterex_def
    by (intro action_ends assms) (hypsubst | erule graph_calls | simp add: assms)+
next
  case (Consolidate k)
  show ?thesis unfolding Consolidate rex_exec.simps consolidate_def
    by (intro action_ends assms) (hypsubst | erule graph_calls | simp add: assms)+
next
  case (Mvtosavings k q)
  show ?thesis unfolding Mvtosavings rex_exec.simps mvtosavings_def
    by (intro action_ends assms) (hypsubst | erule graph_calls | simp add: assms)+
next
  case (Mvfrsavings k q)
  show ?thesis unfolding Mvfrsavings rex_exec.simps mvfrsavings_def
    by (intro action_ends assms) (hypsubst | erule graph_calls | simp add: assms)+
next
  case (Closerex k)
  have "proxies_ok (vs s1)" if "(if rex_system_initialized (rx s) then runrex E 2 s else Inr s) = Inr s1" for s1
    using that assms(2) by (auto intro: keep_graph split: if_splits)
  then show ?thesis unfolding Closerex rex_exec.simps closerex_def
    by (intro action_ends assms)
qed (simp_all only: rex_exec.simps, unfold deposit_def cnclrexorder_def rentcpu_def rentnet_def fundloan_def defloan_def setrex_def rexexec_def,
    (intro ends_intros assms; simp)+)

lemma bw_exec_ends:
  assumes "ops_end E" "asset_laws E" "proxies_ok (vs s)"
  shows "ends (bw_exec E a s)"
proof -
  have ch: "ends (changebw E k r n c x t)" if "proxies_ok (vs t)" for k r n c x t
    unfolding changebw_def
    by (intro action_ends assms) (hypsubst | erule graph_calls | simp add: that)+
  show ?thesis
  proof (cases a)
    case (Undelegatebw k r n c)
    show ?thesis unfolding Undelegatebw bw_exec.simps undelegatebw_def
      by (intro ends_intros ch assms) (auto simp: rbind_Inr_iff on_vs_Inr_iff put_producer_iff assms split: if_splits)
  qed (simp_all only: bw_exec.simps, unfold buyrambytes_def buyram_def sellram_def delegatebw_def refund_def,
      (intro ends_intros ch assms; simp)+)
qed

lemma inflation_ends [ends_intros]:
  assumes "ops_end E"
  shows "ends (inflate E u s)" "ends (share_inflation E s)"
  unfolding share_inflation_def inflate_def get_supply_def by (intro ends_intros assms; simp)+

lemma pay_exec_ends:
  assumes "ops_end E"
  shows "ends (pay_exec E a s)"
proof (cases a)
  case (Onblock n p)
  show ?thesis by (simp add: Onblock onblock_def Let_def ends_base(1,5))
next
  case (Claimdapprwd r k d)
  show ?thesis unfolding Claimdapprwd pay_exec.simps claimdapprwd_def get_dapp_info_def get_dapp_rewards_def
    by (intro ends_intros assms) simp_all
qed (simp_all only: pay_exec.simps, unfold claimrewards_def claimvoterwd_def setvclaimprd_def, (intro ends_intros assms; simp)+)

lemma check_apis_ends [ends_intros]: "ends k \<Longrightarrow> ends (check_apis as k)"
  by (induction as) (simp_all add: ends_intros)

lemma oracle_exec_ends: "ends (oracle_exec E a s)"
  by (cases a; simp only: oracle_exec.simps; unfold addrequest_def reply_def setoracle_def check_response_type_def get_current_oracle_def
      choose_oracles_def find_range_def; intro ends_intros; simp)

lemma admin_exec_ends:
  assumes "ops_end E"
  shows "ends (admin_exec E a s)"
  by (cases a; simp only: admin_exec.simps; unfold newaccount_def setabi_def init_def setram_def setramrate_def setparams_def setpriv_def
      setalimits_def setacctram_def setacctnet_def setacctcpu_def rmvproducer_def updtrevision_def bidname_def bidrefund_def
      get_supply_def; intro ends_intros assms; simp)

lemma sys_exec_ends:
  assumes "ops_end E" "asset_laws E" "proxies_ok (vs s)"
  shows "ends (sys_exec E a s)"
proof (cases a)
  case (VoteAct b)
  then show ?thesis using vote_exec_ends [OF assms(3)] by (simp add: ends_on)
qed (simp_all add: ends_base(1) admin_exec_ends rex_exec_ends bw_exec_ends pay_exec_ends oracle_exec_ends assms)

end
