(* ===== verification/Elections.thy ===== *)
theory Elections
  imports VoteFrames
begin

text \<open>
  The election of producers: the index of producers by votes is sorted and lists every producer once, and
  the elected are its longest prefix of active producers with votes, cut at 21. An inactive producer with
  negative votes stands before the active ones with fewer votes and ends the prefix.
\<close>

section \<open>Indexes are sorted\<close>

lemma mset_ins_by [simp]: "mset (ins_by lt x xs) = add_mset x (mset xs)"
  by (induction xs) auto

lemma mset_sort_by [simp]: "mset (sort_by lt xs) = mset xs"
  unfolding sort_by_def by (induction xs) auto

text \<open>A strict weak order on the rows of a set: what an index needs of its comparison.\<close>

definition weak_order :: "('a \<Rightarrow> 'a \<Rightarrow> bool) \<Rightarrow> 'a set \<Rightarrow> bool" where
  "weak_order lt A \<longleftrightarrow> (\<forall>x \<in> A. \<forall>y \<in> A. lt x y \<longrightarrow> \<not> lt y x) \<and>
     (\<forall>x \<in> A. \<forall>y \<in> A. \<forall>z \<in> A. \<not> lt y x \<longrightarrow> \<not> lt z y \<longrightarrow> \<not> lt z x)"

lemma weak_order_subset: "weak_order lt A \<Longrightarrow> B \<subseteq> A \<Longrightarrow> weak_order lt B"
  unfolding weak_order_def by (meson subsetD)

lemma sorted_ins_by:
  assumes "weak_order lt (insert x (set xs))" "sorted_wrt (\<lambda>a b. \<not> lt b a) xs"
  shows "sorted_wrt (\<lambda>a b. \<not> lt b a) (ins_by lt x xs)"
  using assms
proof (induction xs)
  case (Cons y ys)
  have w: "weak_order lt (insert x (set ys))" using Cons.prems(1) by (rule weak_order_subset) auto
  have tr: "\<not> lt b x" if "\<not> lt y x" "\<not> lt b y" "b \<in> set ys" for b
    using Cons.prems(1) that unfolding weak_order_def by (metis insertI1 insert_iff list.set(2))
  have as: "lt y x \<Longrightarrow> \<not> lt x y" using Cons.prems(1) unfolding weak_order_def by simp
  show ?case
  proof (cases "lt y x")
    case True
    then show ?thesis using Cons.IH [OF w] Cons.prems(2) as by simp
  next
    case False
    then have "\<not> lt b x" if "b \<in> set ys" for b using Cons.prems(2) tr [OF False, of b] that by simp
    then show ?thesis using Cons.prems(2) False by simp
  qed
qed simp

lemma sorted_sort_by:
  "weak_order lt (set xs) \<Longrightarrow> sorted_wrt (\<lambda>a b. \<not> lt b a) (sort_by lt xs)"
proof (induction xs)
  case (Cons x xs)
  have "weak_order lt (set xs)" using Cons.prems by (rule weak_order_subset) auto
  then show ?case using Cons sorted_ins_by [of lt x "sort_by lt xs"] by (simp add: sort_by_def [symmetric]) (simp add: sort_by_def)
qed (simp add: sort_by_def)

section \<open>Producers by votes\<close>

lemma double_not_less: "a \<noteq> NaN \<Longrightarrow> b \<noteq> NaN \<Longrightarrow> \<not> a < b \<longleftrightarrow> b \<le> (a :: double)"
  by (cases a; cases b) auto

lemma double_trans: "a \<le> b \<Longrightarrow> b \<le> c \<Longrightarrow> a \<le> (c :: double)"
  by (cases a; cases b; cases c) auto

lemma double_asym: "a < b \<Longrightarrow> \<not> b < (a :: double)"
  by (cases a; cases b) auto

lemma double_less_le: "0 < a \<Longrightarrow> a \<le> b \<Longrightarrow> 0 < (b :: double)"
  by (cases a; cases b) (auto simp: zero_double_def)

lemma votes_weak_order: "\<forall>p \<in> A. total_votes p \<noteq> NaN \<Longrightarrow> weak_order votes_less A"
  unfolding weak_order_def votes_less_def
  by (metis by_votes_NaN double_asym double_not_less double_trans)

lemma rows_iff: "p \<in> set (prototalvote s) \<longleftrightarrow> (\<exists>k. t_get (producers s) k = Some p)"
  by (simp add: prototalvote_def set_t_index)

lemma prototalvote_sorted:
  assumes "rows_ok s"
  shows "sorted_wrt (\<lambda>p q. by_votes p \<le> by_votes q) (prototalvote s)"
proof -
  have ok: "\<forall>p \<in> set (prototalvote s). total_votes p \<noteq> NaN" using rows_okD [OF assms] by (auto simp: rows_iff)
  then have "sorted_wrt (\<lambda>p q. \<not> votes_less q p) (prototalvote s)"
    unfolding prototalvote_def t_index_def by (intro sorted_sort_by votes_weak_order) simp
  then show ?thesis
    by (rule sorted_wrt_mono_rel [rotated]) (use ok in \<open>auto simp: votes_less_def double_not_less\<close>)
qed

lemma prototalvote_distinct:
  assumes "rows_ok s"
  shows "distinct (map p_owner (prototalvote s))"
proof -
  have "map p_owner (map snd (t_list (producers s))) = map fst (t_list (producers s))"
    using rows_okD [OF assms] by (auto simp: t_get_iff_list)
  then have "distinct (map p_owner (map snd (t_list (producers s))))"
    using t_list_sorted [of "producers s"] by (simp add: strict_sorted_iff del: map_map)
  then show ?thesis
    unfolding prototalvote_def t_index_def
    by (metis mset_map mset_sort_by mset_eq_imp_distinct_iff)
qed

section \<open>The elected\<close>

text \<open>
  What stands before an active producer with votes: active producers with at least as many, and inactive
  ones with as many negative votes.
\<close>

lemma votes_order:
  assumes "by_votes p \<le> by_votes q" "is_active q" "0 < total_votes q"
  shows "if is_active p then total_votes q \<le> total_votes p else total_votes p \<le> - total_votes q"
  using assms by (cases "total_votes p"; cases "total_votes q") (auto simp: by_votes_def zero_double_def split: if_splits)

lemma elected_prefix: "elected_rows s = take (length (elected_rows s)) (prototalvote s)"
  unfolding elected_rows_def
  by (metis append_take_drop_id min.absorb2 take_take takeWhile_eq_take length_takeWhile_le length_take min.bounded_iff)

lemma elected_props: "p \<in> set (elected_rows s) \<Longrightarrow>
    is_active p \<and> 0 < total_votes p \<and> (\<exists>k. t_get (producers s) k = Some p)"
  unfolding elected_rows_def using in_set_takeD [of p 21 "prototalvote s"]
  by (auto simp: rows_iff dest: set_takeWhileD)

lemma elected_length: "length (elected_rows s) \<le> 21"
  unfolding elected_rows_def using length_takeWhile_le [of _ "take 21 (prototalvote s)"] by (rule order_trans) simp

lemma elected_distinct: "rows_ok s \<Longrightarrow> distinct (map p_owner (elected_rows s))"
  using prototalvote_distinct elected_prefix by (metis distinct_take take_map)

lemma elected_sorted:
  assumes "rows_ok s"
  shows "sorted_wrt (\<lambda>p q. total_votes q \<le> total_votes p) (elected_rows s)"
proof -
  have "sorted_wrt (\<lambda>p q. by_votes p \<le> by_votes q) (elected_rows s)"
    using prototalvote_sorted [OF assms] elected_prefix [of s] by (metis sorted_wrt_take)
  then show ?thesis
    by (rule sorted_wrt_mono_rel [rotated]) (use votes_order elected_props in \<open>metis (full_types)\<close>)
qed

text \<open>The election stops at the first row of the index that is not active or has no votes.\<close>

lemma election_stops:
  assumes "length (elected_rows s) < 21" "length (elected_rows s) < length (prototalvote s)"
  shows "\<not> (0 < total_votes (prototalvote s ! length (elected_rows s)) \<and> is_active (prototalvote s ! length (elected_rows s)))"
  using nth_length_takeWhile [of "\<lambda>p. 0 < total_votes p \<and> is_active p" "take 21 (prototalvote s)"] assms
  by (simp add: elected_rows_def)

lemma not_elected:
  assumes "rows_ok s" "t_get (producers s) k = Some q" "is_active q" "0 < total_votes q" "q \<notin> set (elected_rows s)"
  shows "(\<forall>p \<in> set (elected_rows s). total_votes q \<le> total_votes p) \<and>
     (length (elected_rows s) = 21 \<or>
      (\<exists>j r. t_get (producers s) j = Some r \<and> \<not> is_active r \<and> total_votes r \<le> - total_votes q))"
proof -
  let ?xs = "prototalvote s" and ?m = "length (elected_rows s)"
  obtain n where n: "n < length ?xs" "?xs ! n = q" using assms(2) by (metis rows_iff in_set_conv_nth)
  have before: "by_votes (?xs ! i) \<le> by_votes q" if "i < n" for i
    using prototalvote_sorted [OF assms(1)] that n by (auto simp: sorted_wrt_iff_nth_less)
  have "\<not> n < ?m" using assms(5) n elected_prefix [of s] by (metis in_set_conv_nth nth_take)
  have "\<exists>i < n. p = ?xs ! i" if p: "p \<in> set (elected_rows s)" for p
  proof -
    obtain i where "i < ?m" "elected_rows s ! i = p" using p by (auto simp: in_set_conv_nth)
    then show ?thesis using \<open>\<not> n < ?m\<close> nth_take [of i ?m ?xs] elected_prefix [of s] by (intro exI [of _ i]) auto
  qed
  then have "\<forall>p \<in> set (elected_rows s). total_votes q \<le> total_votes p"
    using before votes_order [OF _ assms(3,4)] elected_props by (metis (full_types))
  moreover have "\<exists>j r. t_get (producers s) j = Some r \<and> \<not> is_active r \<and> total_votes r \<le> - total_votes q" if "?m < 21"
  proof -
    have stop: "\<not> (0 < total_votes (?xs ! ?m) \<and> is_active (?xs ! ?m))"
      using election_stops [OF that] \<open>\<not> n < ?m\<close> n(1) by simp
    then have "?m < n" using \<open>\<not> n < ?m\<close> assms(3,4) n(2) by (cases "?m = n") auto
    then have "by_votes (?xs ! ?m) \<le> by_votes q" by (rule before)
    then have "\<not> is_active (?xs ! ?m) \<and> total_votes (?xs ! ?m) \<le> - total_votes q"
      using votes_order [OF _ assms(3,4), of "?xs ! ?m"] stop double_less_le [OF assms(4), of "total_votes (?xs ! ?m)"]
      by (auto split: if_splits)
    moreover have "?xs ! ?m \<in> set ?xs" using \<open>?m < n\<close> n(1) by simp
    ultimately show ?thesis by (metis rows_iff)
  qed
  ultimately show ?thesis using elected_length [of s] by (cases "?m = 21") auto
qed

text \<open>The schedule lists the elected by name.\<close>

lemma schedule_names:
  assumes "rows_ok s"
  shows "sorted_wrt (<) (map fst (schedule s)) \<and> set (schedule s) = (\<lambda>p. (p_owner p, producer_key p)) ` set (elected_rows s)"
proof -
  have "distinct (map fst (schedule s))"
    unfolding schedule_def using elected_distinct [OF assms]
    by (metis (no_types, lifting) comp_apply fst_conv map_eq_conv map_map mset_eq_imp_distinct_iff mset_map mset_sort)
  moreover have "sorted (map fst (schedule s))" by (simp add: schedule_def)
  ultimately show ?thesis by (simp add: strict_sorted_iff schedule_def)
qed

end
