(* ===== verification/VoteClaims.thy ===== *)
theory VoteClaims
  imports SysEnds Elections SysDemo
begin

text \<open>
  The properties of voting: the invariant of proxies, the end of every action, the effect of a vote and
  the election of producers.
\<close>

section \<open>Proxies\<close>

lemma sys_exec_proxies_ok:
  assumes "proxies_ok (vs s)" "sys_exec E a s = Inr s'"
  shows "proxies_ok (vs s')"
proof (cases "Graph \<in> sys_writes a")
  case True
  then consider (vote) b where "a = VoteAct b" | (rex) v p ps where "a = RexAct (Voteproducer v p ps)"
  proof (cases a)
    case (RexAct b) then show ?thesis using True that(2) by (cases b) auto
  next
    case (AdminAct b) then show ?thesis using True by (cases b) auto
  next
    case (BwAct b) then show ?thesis using True by (cases b) auto
  next
    case (PayAct b) then show ?thesis using True by (cases b) auto
  qed (use True that in simp_all)
  then show ?thesis
    using assms by cases (auto simp: on_vs_Inr_iff intro: vote_exec_proxies_ok voteproducer_proxies_ok)
next
  case False
  have F: "frame E UNIV (insert Bids (sys_writes a)) s s'" using assms(2) by (rule sys_exec_frame) auto
  have "same Graph E s s'" using False by (intro frame_same [OF F]) simp
  then show ?thesis using proxies_ok_same [OF assms(1)] by simp
qed

interpretation graph: action_system sys_exec "\<lambda>_. True" "\<lambda>s. proxies_ok (vs s)"
  by unfold_locales (rule sys_exec_proxies_ok)

text \<open>
  C7. The invariant of proxies: in every reachable state the proxies form no cycle, and an account
  registered as a proxy has no proxy of its own.
\<close>

theorem proxies_stay_ok:
  assumes "reachable sys_exec (\<lambda>_. True) s0 s" and "proxies_ok (vs s0)"
  shows "acyclic (proxy_rel (vs s)) \<and> (\<forall>k v. t_get (voters (vs s)) k = Some v \<longrightarrow> is_proxy v \<longrightarrow> proxy v = 0)"
  using graph.reachable_inv [OF assms] by (simp add: proxies_ok_def)

text \<open>
  C10. Termination: whatever has happened before, every action of the system contract ends. The
  recursion along the proxies reaches a voter without one before the fuel of the model is used up, and
  a conversion in the RAM market takes at most two rounds.
\<close>

theorem every_action_ends:
  assumes "reachable sys_exec (\<lambda>_. True) s0 s" and "proxies_ok (vs s0)" and "asset_laws E" and "ops_end E"
  shows "sys_exec E a s \<noteq> Inl (Undefined ''out of fuel'')"
  using sys_exec_ends [OF assms(4,3) graph.reachable_inv [OF assms(1,2)]] by (simp add: ends_def)

section \<open>The effect of a vote\<close>










text \<open>A voter with a stake of 500 chooses a registered proxy without votes of its own.\<close>

definition demo_voters :: vote_state where
  "demo_voters = put_voter 7 (new_voter\<lparr>staked := 500\<rparr>) (put_voter 8 (new_voter\<lparr>is_proxy := True\<rparr>) (vs demo_sys))"

lemma no_witnesses: "producers s = t_empty \<Longrightarrow> witnesses s = []"
  by (simp add: witnesses_def prototalvote_def t_index_def sort_by_def)

lemma demo_rnd [simp]: "rnd 500 = Fin 500"
  using rnd_int [of 500] by simp

lemma demo_max_power [simp]: "max_vote_power (default_gstate p) = 10000000"
  by (simp add: default_gstate_def)

lemma new_voter_simps [simp]: "proxy new_voter = 0" "vote_list new_voter = []" "staked new_voter = 0" "last_vote_weight new_voter = Fin 0"
  "proxied_vote_weight new_voter = Fin 0" "\<not> is_proxy new_voter"
  by (simp_all add: new_voter_def zero_double_def)

lemmas vote_eval = voter_weight_def stake2vote_def zero_double_def one_double_def minus_double_def voter_row_def Let_def

definition demo_active :: vote_state where
  "demo_active = activate_stake 0 (new_voter\<lparr>staked := 500\<rparr>) demo_voters"

lemma demo_active_simps [simp]: "voters demo_active = voters demo_voters" "producers demo_active = t_empty"
  "max_vote_power (gst demo_active) = 10000000"
  by (simp_all add: demo_active_def demo_voters_def activate_stake_def Let_def put_voter_def)

lemma demo_voters_simps [simp]: "voters demo_voters = t_set 7 (new_voter\<lparr>staked := 500\<rparr>) (t_set 8 (new_voter\<lparr>is_proxy := True\<rparr>) t_empty)"
  by (simp add: demo_voters_def)

definition demo_cast :: vote_state where
  "demo_cast = put_voter 8 (new_voter\<lparr>is_proxy := True, proxied_vote_weight := Fin 500, last_vote_weight := Fin 500\<rparr>)
     (snd (update_total_votepay_share 0 0 0
       (put_voter 8 (new_voter\<lparr>is_proxy := True, proxied_vote_weight := Fin 500\<rparr>) demo_active)))"

lemma demo_cast_runs: "cast_vote 0 8 [] True (Fin 500) (demo_active, t_empty) = Inr (demo_cast, t_empty)"
  by (simp add: cast_vote_def vote_eval propagate_def vote_fuel_def demo_cast_def)

definition demo_updated :: vote_state where
  "demo_updated = put_voter 7 (new_voter\<lparr>staked := 500, last_vote_weight := Fin 500, vote_list := [], proxy := 8\<rparr>)
     (snd (update_total_votepay_share 0 0 0 (snd (update_total_witnesspay_share 0 0 0 demo_cast))))"

lemma demo_update: "update_votes 0 7 8 [] True demo_voters = Inr demo_updated"
proof -
  have v: "t_get (voters demo_voters) 7 = Some (new_voter\<lparr>staked := 500\<rparr>)" by simp
  have u: "undo_vote 0 7 demo_active = Inr (demo_active, t_empty)" by (simp add: undo_vote_def vote_eval)
  have w: "voter_weight demo_active (new_voter\<lparr>staked := 500\<rparr>) = Fin 500" by (simp add: voter_weight_def stake2vote_def)
  have n: "witnesses demo_voters = []" "witnesses demo_cast = []"
    by (rule no_witnesses, simp add: demo_voters_def demo_cast_def)+
  have m: "- (0::double) = 0" by (simp add: zero_double_def)
  show ?thesis
    unfolding update_votes_def Let_def v rget.simps rbind.simps demo_active_def [symmetric] w
    by (simp add: valid_vote_def u demo_cast_runs n shift_witnesses_def m demo_updated_def voter_row_def)
      (simp add: demo_cast_def)
qed

definition demo_voted :: sys_state where
  "demo_voted = demo_sys\<lparr>vs := (put_voter 7 (new_voter\<lparr>staked := 500, last_vote_weight := Fin 500, vote_list := [], proxy := 8, unpaid_votes := 500\<rparr>)
     demo_updated)\<lparr>gst := (gst demo_updated)\<lparr>total_unpaid_votes := 500\<rparr>\<rparr>\<rparr>"

lemma demo_updated_simps [simp]:
  "t_get (voters demo_updated) 7 = Some (new_voter\<lparr>staked := 500, last_vote_weight := Fin 500, vote_list := [], proxy := 8\<rparr>)"
  "max_vote_power (gst demo_updated) = 10000000" "total_unpaid_votes (gst demo_updated) = 0" "producers demo_voters = t_empty"
  by (simp_all add: demo_updated_def demo_cast_def demo_active_def demo_voters_def activate_stake_def Let_def default_gstate_def)

lemma demo_vote_runs: "voteproducer (sys_ref [7] 0) 7 8 [] (demo_sys\<lparr>vs := demo_voters\<rparr>) = Inr demo_voted"
  by (simp add: voteproducer_def require_auth_def update_rex_stake_def on_vs_def demo_update demo_voted_def Let_def wrap64_def
      new_voter_def)


lemma demo_ops_end: "ops_end (sys_ref auths t)"
  by (auto simp: ops_end_def ref_op_def intro!: ends_base)

lemma demo_proxies_ok: "proxies_ok demo_voters"
proof -
  have "proxy_rel demo_voters = {}" by (auto simp: proxy_rel_def split: if_splits)
  then show ?thesis by (auto simp: proxies_ok_def acyclic_def split: if_splits)
qed

lemma demo_vote_reach: "reachable sys_exec (\<lambda>_. True) (demo_sys\<lparr>vs := demo_voters\<rparr>) demo_voted"
  by (rule reach_step [where exec = sys_exec and e = "sys_ref [7] 0" and a = "RexAct (Voteproducer 7 8 [])", OF reach_init])
    (simp_all add: demo_vote_runs)

theorem proxies_stay_ok_witness: "(7, 8) \<in> proxy_rel (vs demo_voted) \<and> acyclic (proxy_rel (vs demo_voted))"
  using proxies_stay_ok [OF demo_vote_reach] demo_proxies_ok by (simp add: proxy_rel_def demo_voted_def)

theorem every_action_ends_witness:
  "sys_exec (sys_ref [8] 0) (VoteAct (Regproxy 8 False)) demo_voted \<noteq> Inl (Undefined ''out of fuel'')"
  by (rule every_action_ends [OF demo_vote_reach _ sys_ref_laws demo_ops_end]) (simp add: demo_proxies_ok)

section \<open>The election\<close>

text \<open>The rows of producers stay in order: no action writes a row under another name or with a NaN.\<close>

lemma rows_never_written: "Rows \<notin> sys_writes a"
proof (cases a)
  case (AdminAct b) then show ?thesis by (cases b) auto
next
  case (RexAct b) then show ?thesis by (cases b) auto
next
  case (BwAct b) then show ?thesis by (cases b) auto
next
  case (VoteAct b) then show ?thesis by (cases b) auto
next
  case (PayAct b) then show ?thesis by (cases b) auto
qed auto

lemma sys_exec_rows:
  assumes "rows_ok (vs s)" "sys_exec E a s = Inr s'"
  shows "rows_ok (vs s')"
proof -
  have F: "frame E UNIV (insert Bids (sys_writes a)) s s'" using assms(2) by (rule sys_exec_frame) auto
  have "same Rows E s s'" using rows_never_written by (intro frame_same [OF F]) simp
  then show ?thesis using assms(1) by simp
qed

interpretation rows: action_system sys_exec "\<lambda>_. True" "\<lambda>s. rows_ok (vs s)"
  by unfold_locales (rule sys_exec_rows)

text \<open>
  C15. The election, in every state reached from one whose rows of producers stand under their owners'
  names with a number of votes (an empty table has this): at most 21 producers are elected, by falling
  votes, all of them registered, active and with votes. A registered active producer with votes that is
  not elected has no more votes than any that is; and then either 21 are elected, or an inactive producer
  with negative votes, at least as many as the producer has positive ones, stands before it in the index
  and has ended the election. Without such a row the places go to the producers with the most votes.
\<close>

theorem most_voted_elected:
  assumes "reachable sys_exec (\<lambda>_. True) s0 s"
    and "\<forall>k p. t_get (producers (vs s0)) k = Some p \<longrightarrow> p_owner p = k \<and> total_votes p \<noteq> NaN"
  shows "length (elected_rows (vs s)) \<le> 21 \<and>
     sorted_wrt (\<lambda>p q. total_votes q \<le> total_votes p) (elected_rows (vs s)) \<and>
     (\<forall>p \<in> set (elected_rows (vs s)). is_active p \<and> 0 < total_votes p \<and> t_get (producers (vs s)) (p_owner p) = Some p) \<and>
     (\<forall>k q. t_get (producers (vs s)) k = Some q \<longrightarrow> is_active q \<longrightarrow> 0 < total_votes q \<longrightarrow> q \<notin> set (elected_rows (vs s)) \<longrightarrow>
        (\<forall>p \<in> set (elected_rows (vs s)). total_votes q \<le> total_votes p) \<and>
        (length (elected_rows (vs s)) = 21 \<or>
         (\<exists>j r. t_get (producers (vs s)) j = Some r \<and> \<not> is_active r \<and> total_votes r \<le> - total_votes q)))"
proof -
  have ok: "rows_ok (vs s)" using rows.reachable_inv [OF assms(1)] assms(2) by (simp add: rows_ok_def)
  have "t_get (producers (vs s)) (p_owner p) = Some p" if "p \<in> set (elected_rows (vs s))" for p
    using elected_props [OF that] rows_okD [OF ok] by auto
  then show ?thesis using elected_length elected_sorted [OF ok] not_elected [OF ok] elected_props by blast
qed

text \<open>
  C32. The schedule proposed to the chain lists exactly the elected producers with their keys, each once,
  in the order of their names, in every state reached from one whose rows of producers stand under their
  owners' names with a number of votes.
\<close>

theorem schedule_of_elected:
  assumes "reachable sys_exec (\<lambda>_. True) s0 s"
    and "\<forall>k p. t_get (producers (vs s0)) k = Some p \<longrightarrow> p_owner p = k \<and> total_votes p \<noteq> NaN"
  shows "sorted_wrt (<) (map fst (schedule (vs s))) \<and>
     set (schedule (vs s)) = (\<lambda>p. (p_owner p, producer_key p)) ` set (elected_rows (vs s))"
  using rows.reachable_inv [OF assms(1)] assms(2) by (intro schedule_names) (simp add: rows_ok_def)

definition demo_prod :: "name \<Rightarrow> rat \<Rightarrow> bool \<Rightarrow> producer_info" where
  "demo_prod k v b = \<lparr>p_owner = k, total_votes = Fin v, producer_key = [1], is_active = b, url = [], unpaid_blocks = 0,
     unpaid_witness_reward = 0, last_claim_time = 0, location = 0\<rparr>"

definition demo_producers :: vote_state where
  "demo_producers = (vs demo_sys)\<lparr>producers := t_set 1 (demo_prod 1 10 True)
     (t_set 2 (demo_prod 2 20 True) (t_set 3 (demo_prod 3 30 False) t_empty))\<rparr>"

lemma demo_elected: "elected_rows demo_producers = [demo_prod 2 20 True, demo_prod 1 10 True]"
  by (simp add: elected_rows_def prototalvote_def t_index_def demo_producers_def t_list_set sort_by_def votes_less_def by_votes_def
      demo_prod_def zero_double_def)

lemma demo_prod_simps [simp]: "p_owner (demo_prod k v b) = k" "total_votes (demo_prod k v b) = Fin v" "is_active (demo_prod k v b) = b"
  by (simp_all add: demo_prod_def)

text \<open>
  A proxy that voted for 3 takes back its registration. The two votes it stands for never reached 3, each
  too small to be forwarded, but both are subtracted: 3 is left with minus two votes, stands before 2 in
  the index and ends the election.
\<close>

definition demo_unproxied :: sys_state where
  "demo_unproxied = demo_sys\<lparr>vs := put_voter 8 (new_voter\<lparr>is_proxy := True, proxied_vote_weight := Fin 2, last_vote_weight := Fin 2,
       vote_list := [3]\<rparr>) ((vs demo_sys)\<lparr>gst := (default_gstate demo_params)\<lparr>total_producer_vote_weight := Fin 1\<rparr>,
         producers := t_set 2 (demo_prod 2 1 True) (t_set 3 (demo_prod 3 0 False) t_empty),
         producers3 := t_set 2 \<lparr>witnesspay_share = 0, last_witnesspay_share_update = 0\<rparr> t_empty\<rparr>)\<rparr>"

definition demo_negative :: sys_state where
  "demo_negative = (case sys_exec (sys_ref [8] 0) (VoteAct (Regproxy 8 False)) demo_unproxied of Inr s \<Rightarrow> s | Inl _ \<Rightarrow> demo_unproxied)"

lemma half_percent: "dlit (1 / 200) < Fin 1"
proof -
  have "rmag (1 / 200) < 1" using rmag_error [of "1 / 200"] by (simp add: abs_le_iff abs_if split: if_splits)
  then show ?thesis using dmax_bounds by (simp add: dlit_def rnd_pos)
qed

lemma demo_rnds [simp]: "rnd 1 = Fin 1" "rnd (- 1) = Fin (- 1)" "rnd 2 = Fin 2" "rnd (- 2) = Fin (- 2)"
  using rnd_int [of 1] rnd_int [of "- 1"] rnd_int [of 2] rnd_int [of "- 2"] by simp_all

definition demo_proxy :: voter_info where
  "demo_proxy = new_voter\<lparr>is_proxy := True, proxied_vote_weight := Fin 2, last_vote_weight := Fin 2, vote_list := [3]\<rparr>"

lemma demo_proxy_simps [simp]: "proxy demo_proxy = 0" "staked demo_proxy = 0" "last_vote_weight demo_proxy = Fin 2"
  "vote_list demo_proxy = [3]" "is_proxy demo_proxy"
  by (simp_all add: demo_proxy_def)

lemma demo_unproxied_simps [simp]:
  "t_get (voters (vs demo_unproxied)) 8 = Some demo_proxy" "producers2 (vs demo_unproxied) = t_empty"
  "producers (vs demo_unproxied) = t_set 2 (demo_prod 2 1 True) (t_set 3 (demo_prod 3 0 False) t_empty)"
  "producers3 (vs demo_unproxied) = t_set 2 \<lparr>witnesspay_share = 0, last_witnesspay_share_update = 0\<rparr> t_empty"
  "gst (vs demo_unproxied) = (default_gstate demo_params)\<lparr>total_producer_vote_weight := Fin 1\<rparr>"
  by (simp_all add: demo_unproxied_def demo_proxy_def) (simp_all add: demo_sys_def sys_init_state_def)

lemma demo_prod_votes [simp]: "(demo_prod k v b)\<lparr>total_votes := Fin w\<rparr> = demo_prod k w b"
  by (simp add: demo_prod_def)

lemma demo_propagated:
  "\<exists>v. propagate 0 8 (put_voter 8 (demo_proxy\<lparr>is_proxy := False\<rparr>) (vs demo_unproxied)) = Inr v \<and>
     producers v = t_set 3 (demo_prod 3 (- 2) False) (producers (vs demo_unproxied)) \<and>
     producers3 v = producers3 (vs demo_unproxied) \<and> total_producer_vote_weight (gst v) = Fin (- 1)"
  by (simp add: propagate_def vote_fuel_def vote_eval check_def guard_res_def propagate_one_def put_producer_def account_votepay_def
      update_total_votepay_share_def)

lemmas election_eval = prototalvote_def t_index_def t_list_set sort_by_def votes_less_def by_votes_def

lemma demo_withdrawn: "\<exists>v. regproxy (sys_ref [8] 0) 8 False (vs demo_unproxied) = Inr v \<and>
   producers v = t_set 3 (demo_prod 3 (- 2) False) (producers (vs demo_unproxied))"
proof -
  let ?v0 = "put_voter 8 (demo_proxy\<lparr>is_proxy := False\<rparr>) (vs demo_unproxied)"
  obtain v where p: "propagate 0 8 ?v0 = Inr v"
    and v: "producers v = t_set 3 (demo_prod 3 (- 2) False) (producers (vs demo_unproxied))"
     "producers3 v = producers3 (vs demo_unproxied)" "total_producer_vote_weight (gst v) = Fin (- 1)"
    using demo_propagated by blast
  have "witnesses ?v0 = [2]" "witnesses v = []"
    using half_percent
    by (simp_all add: witnesses_def election_eval is_witness_row_def max_witness_count_def divide_double_def v)
  then show ?thesis
    by (simp add: regproxy_def require_auth_def Let_def check_def p shift_witnesses_def leave_witness_def t_has_def v
        update_producer_witnesspay_share_def)
qed

lemma demo_negative_run:
  "sys_exec (sys_ref [8] 0) (VoteAct (Regproxy 8 False)) demo_unproxied = Inr demo_negative"
  "producers (vs demo_negative) = t_set 3 (demo_prod 3 (- 2) False) (producers (vs demo_unproxied))"
proof -
  obtain v where v: "sys_exec (sys_ref [8] 0) (VoteAct (Regproxy 8 False)) demo_unproxied = Inr (demo_unproxied\<lparr>vs := v\<rparr>)"
    "producers v = t_set 3 (demo_prod 3 (- 2) False) (producers (vs demo_unproxied))"
    using demo_withdrawn by (auto simp: on_vs_def)
  then have d: "demo_negative = demo_unproxied\<lparr>vs := v\<rparr>" unfolding demo_negative_def by simp
  show "sys_exec (sys_ref [8] 0) (VoteAct (Regproxy 8 False)) demo_unproxied = Inr demo_negative"
    "producers (vs demo_negative) = t_set 3 (demo_prod 3 (- 2) False) (producers (vs demo_unproxied))"
    unfolding d using v by simp_all
qed

lemmas demo_negative_rows [simp] = demo_negative_run(2)

lemma demo_none_elected: "elected_rows (vs demo_negative) = []"
  by (simp add: elected_rows_def election_eval)

theorem most_voted_elected_witness:
  "elected_rows (vs demo_negative) = [] \<and>
   (\<exists>j r. t_get (producers (vs demo_negative)) j = Some r \<and> \<not> is_active r \<and> total_votes r \<le> - Fin 1)"
proof -
  have r: "reachable sys_exec (\<lambda>_. True) demo_unproxied demo_negative"
    by (rule reach_step [where exec = sys_exec and e = "sys_ref [8] 0" and a = "VoteAct (Regproxy 8 False)", OF reach_init _ demo_negative_run(1)]) simp
  have "\<forall>k p. t_get (producers (vs demo_unproxied)) k = Some p \<longrightarrow> p_owner p = k \<and> total_votes p \<noteq> NaN" by simp
  from most_voted_elected [OF r this, THEN conjunct2, THEN conjunct2, THEN conjunct2, rule_format, of 2 "demo_prod 2 1 True"]
  have "\<exists>j r. t_get (producers (vs demo_negative)) j = Some r \<and> \<not> is_active r \<and> total_votes r \<le> - total_votes (demo_prod 2 1 True)"
    unfolding demo_none_elected by (simp add: zero_double_def)
  then show ?thesis using demo_none_elected by (simp only: demo_prod_simps simp_thms)
qed

theorem schedule_of_elected_witness: "set (schedule demo_producers) = {(1, [1]), (2, [1])}"
proof -
  let ?s = "demo_sys\<lparr>vs := demo_producers\<rparr>"
  have r: "reachable sys_exec (\<lambda>_. True) ?s ?s" by (rule reach_init)
  have "\<forall>k p. t_get (producers (vs ?s)) k = Some p \<longrightarrow> p_owner p = k \<and> total_votes p \<noteq> NaN"
    by (simp add: demo_producers_def)
  from schedule_of_elected [OF r this] show ?thesis by (simp add: demo_elected) (simp add: demo_prod_def insert_commute)
qed

end
