(* ===== verification/PayClaims.thy ===== *)
theory PayClaims
  imports SysFrames SysDemo
begin

text \<open>
  The properties of the pay of producers, witnesses and oracles, and of the oracles' requests.
\<close>

section \<open>Unpaid blocks\<close>

text \<open>The count of unpaid blocks against those of the producers; both are 32-bit counters.\<close>

definition blocks_balanced :: "sys_state \<Rightarrow> bool" where
  "blocks_balanced s \<longleftrightarrow> u32 (blocks_sum (vs s)) = total_unpaid_blocks (gst (vs s))"

lemma u32_add: "u32 (u32 x + y) = u32 (x + y)" "u32 (x + u32 y) = u32 (x + y)" "u32 (u32 x - y) = u32 (x - y)"
  by (simp_all add: u32_def mod_simps)

lemma onblock_blocks:
  assumes "onblock E n p s = Inr s'" "blocks_balanced s"
  shows "blocks_balanced s'"
proof -
  define s1 where "s1 = s\<lparr>vs := (vs s)\<lparr>gst2 := (gst2 (vs s))\<lparr>last_block_num := n\<rparr>\<rparr>\<rparr>"
  define g where "g = (gst (vs s1))\<lparr>
      last_pervote_bucket_fill := (if last_pervote_bucket_fill (gst (vs s1)) = 0 then current_time E else last_pervote_bucket_fill (gst (vs s1))),
      last_dapp_bucket_fill := (if last_dapp_bucket_fill (gst (vs s1)) = 0 then current_time E else last_dapp_bucket_fill (gst (vs s1)))\<rparr>"
  define s2 where "s2 = (case t_get (producers (vs (put_gst g s1))) p of
       None \<Rightarrow> put_gst g s1
     | Some q \<Rightarrow> (put_gst g s1)\<lparr>vs := (vs (put_gst g s1))\<lparr>
           gst := (gst (vs (put_gst g s1)))\<lparr>total_unpaid_blocks := u32 (total_unpaid_blocks (gst (vs (put_gst g s1))) + 1)\<rparr>,
           producers := t_set p (q\<lparr>unpaid_blocks := u32 (unpaid_blocks q + 1)\<rparr>) (producers (vs (put_gst g s1)))\<rparr>\<rparr>)"
  define s3 where "s3 = s2\<lparr>vs := update_elected_producers E n (vs s2)\<rparr>"
  have s': "s' = s1 \<or> s' = s2 \<or> s' = s3 \<or> s' = close_auction E n s3"
    using assms(1) unfolding onblock_def Let_def require_auth_Inr_iff s1_def [symmetric] g_def [symmetric] s2_def [symmetric] s3_def [symmetric]
    by (auto split: if_splits)
  have 1: "blocks_balanced s1" using assms(2) by (simp add: s1_def blocks_balanced_def blocks_sum_def)
  have 2: "blocks_balanced s2"
  proof (cases "t_get (producers (vs s)) p")
    case None
    then show ?thesis using 1 by (simp add: s2_def g_def s1_def blocks_balanced_def blocks_sum_def put_gst_def)
  next
    case (Some q)
    have "u32 (blocks_sum (vs s) + (u32 (unpaid_blocks q + 1) - unpaid_blocks q)) = u32 (blocks_sum (vs s) + 1)"
      using u32_add(2) [of "blocks_sum (vs s) - unpaid_blocks q" "unpaid_blocks q + 1"] by (simp add: algebra_simps)
    also have "\<dots> = u32 (total_unpaid_blocks (gst (vs s)) + 1)"
      using assms(2) u32_add(1) [of "blocks_sum (vs s)" 1] by (simp add: blocks_balanced_def)
    finally show ?thesis
      using Some by (simp add: s2_def g_def s1_def blocks_balanced_def blocks_sum_def put_gst_def t_sum_set algebra_simps)
  qed
  have 3: "blocks_balanced s3" using 2 by (simp add: s3_def blocks_balanced_def elected_frame)
  have F: "frame E UNIV {Bids} s3 (close_auction E n s3)" by (intro frame_close_auction) auto
  have "blocks_balanced (close_auction E n s3)" using 3 frame_same [OF F, of Blocks] by (simp add: blocks_balanced_def)
  then show ?thesis using s' 1 2 3 by auto
qed

lemma oracle_pay_row: "successful_requests (snd (snd (oracle_pay g n oc b))) = 0"
  by (simp add: oracle_pay_def Let_def)

lemma new_row_ex: "successful_requests oc = 0 \<Longrightarrow> \<exists>oc'. successful_requests oc' = 0 \<and> t_set k oc t = t_set k oc' t"
  by blast

lemma claimrewards_shape:
  assumes "claimrewards E k s0 = Inr s'"
  obtains s v p ors n cs b w r s1 s2 where "share_inflation E s0 = Inr s" "t_get (producers (vs s)) k = Some p"
    "producers v = t_set k (p\<lparr>last_claim_time := current_time E, unpaid_blocks := 0\<rparr>) (producers (vs s))"
    "total_unpaid_blocks (gst v) = u32 (total_unpaid_blocks (gst (vs s)) - unpaid_blocks p)"
    "ors = oracles s \<and> n = total_successful_requests s \<or> (\<exists>oc oc'. t_get (oracles s) k = Some oc \<and> successful_requests oc' = 0 \<and>
       ors = t_set k oc' (oracles s) \<and> n = u32 (total_successful_requests s - successful_requests oc))"
    "pay_from E cs ''eosio.bpay'' k b ''producer block pay'' (s\<lparr>vs := v, oracles := ors, total_successful_requests := n\<rparr>) = Inr s1"
    "pay_from E cs ''eosio.wpay'' k w ''producer witness pay'' s1 = Inr s2"
    "pay_from E cs ''eosio.oracle'' k r ''producer oracle pay'' s2 = Inr s'"
  using assms unfolding claimrewards_def Let_def require_auth_Inr_iff check_Inr_iff rbind_Inr_iff rget_Inr_iff case_prod_beta
  apply (elim exE conjE)
  apply (rule that)
  apply assumption
  apply assumption
  prefer 4
  apply assumption
  prefer 4
  apply assumption
  prefer 4
  apply assumption
  prefer 3
  subgoal premises by (auto split: option.split simp: case_prod_beta intro: new_row_ex oracle_pay_row)
  apply (auto split: prod.splits dest!: votepay_voters witpay_voters)
  done

lemma claimrewards_blocks:
  assumes "claimrewards E k s0 = Inr s'" "blocks_balanced s0"
  shows "blocks_balanced s'"
proof -
  obtain s v p ors n cs b w r s1 s2 where 0: "share_inflation E s0 = Inr s" and p: "t_get (producers (vs s)) k = Some p"
    and v: "producers v = t_set k (p\<lparr>last_claim_time := current_time E, unpaid_blocks := 0\<rparr>) (producers (vs s))"
    "total_unpaid_blocks (gst v) = u32 (total_unpaid_blocks (gst (vs s)) - unpaid_blocks p)"
    and "ors = oracles s \<and> n = total_successful_requests s \<or> (\<exists>oc oc'. t_get (oracles s) k = Some oc \<and> successful_requests oc' = 0 \<and>
       ors = t_set k oc' (oracles s) \<and> n = u32 (total_successful_requests s - successful_requests oc))"
    and 1: "pay_from E cs ''eosio.bpay'' k b ''producer block pay'' (s\<lparr>vs := v, oracles := ors, total_successful_requests := n\<rparr>) = Inr s1"
    and 2: "pay_from E cs ''eosio.wpay'' k w ''producer witness pay'' s1 = Inr s2"
    and 3: "pay_from E cs ''eosio.oracle'' k r ''producer oracle pay'' s2 = Inr s'"
    by (rule claimrewards_shape [OF assms(1)])
  have pay: "vs t' = vs t" if "pay_from E cs f k x m t = Inr t'" for f x m t t'
    using that by (auto simp: pay_from_def res_simps split: if_splits)
  have "frame E UNIV {Bids} s0 s" by (rule ensuresD [OF frame_share_inflation 0]) (simp_all add: pay_may_def)
  then have s: "u32 (blocks_sum (vs s)) = total_unpaid_blocks (gst (vs s))"
    using assms(2) frame_same [of E UNIV "{Bids}" s0 s Blocks] by (simp add: blocks_balanced_def)
  have "blocks_sum v = blocks_sum (vs s) - unpaid_blocks p" using p by (simp add: blocks_sum_def v(1) t_sum_set)
  then have "u32 (blocks_sum v) = total_unpaid_blocks (gst v)"
    using s u32_add(3) [of "blocks_sum (vs s)" "unpaid_blocks p"] v(2) by simp
  then show ?thesis using pay [OF 1] pay [OF 2] pay [OF 3] by (simp add: blocks_balanced_def)
qed

lemma sys_exec_blocks:
  assumes "blocks_balanced s" "sys_exec E a s = Inr s'"
  shows "blocks_balanced s'"
proof (cases "Blocks \<in> sys_writes a")
  case True
  then consider (block) n p where "a = PayAct (Onblock n p)" | (claim) k where "a = PayAct (Claimrewards k)"
  proof (cases a)
    case (PayAct b) then show ?thesis using True that by (cases b) auto
  next
    case (RexAct b) then show ?thesis using True by (cases b) auto
  next
    case (AdminAct b) then show ?thesis using True by (cases b) auto
  next
    case (BwAct b) then show ?thesis using True by (cases b) auto
  next
    case (VoteAct b) then show ?thesis using True by (cases b) auto
  qed simp_all
  then show ?thesis using assms by cases (auto intro: onblock_blocks claimrewards_blocks)
next
  case False
  have F: "frame E UNIV (insert Bids (sys_writes a)) s s'" using assms(2) by (rule sys_exec_frame) auto
  have "same Blocks E s s'" using False by (intro frame_same [OF F]) simp
  then show ?thesis using assms(1) by (simp add: blocks_balanced_def)
qed

interpretation blocks: action_system sys_exec "\<lambda>_. True" blocks_balanced
  by unfold_locales (rule sys_exec_blocks)

text \<open>
  C23. Unpaid blocks: in every reachable state the total of unpaid blocks is the sum over the producers,
  modulo the wrap-around of 32-bit counters, so that block pay is shared out completely and only once.
\<close>

theorem unpaid_blocks_accounted:
  assumes "reachable sys_exec (\<lambda>_. True) s0 s"
    and "total_unpaid_blocks (gst (vs s0)) = u32 (t_sum (\<lambda>_ p. unpaid_blocks p) (producers (vs s0)))"
  shows "total_unpaid_blocks (gst (vs s)) = u32 (t_sum (\<lambda>_ p. unpaid_blocks p) (producers (vs s)))"
  using blocks.reachable_inv [OF assms(1)] assms(2) by (simp add: blocks_balanced_def blocks_sum_def)

definition demo_producing :: sys_state where
  "demo_producing = demo_sys\<lparr>vs := (vs demo_sys)\<lparr>
     gst := (default_gstate demo_params)\<lparr>total_activated_stake := 1000000000000, total_unpaid_blocks := 4\<rparr>,
     producers := t_set 7 \<lparr>p_owner = 7, total_votes = 0, producer_key = [1], is_active = True, url = [], unpaid_blocks = 4,
       unpaid_witness_reward = 0, last_claim_time = 0, location = 0\<rparr> t_empty\<rparr>\<rparr>"

definition demo_produced :: sys_state where
  "demo_produced = (case onblock (sys_ref [99] 0) 0 7 demo_producing of Inr s \<Rightarrow> s | Inl _ \<Rightarrow> demo_producing)"

lemma demo_onblock: "onblock (sys_ref [99] 0) 0 7 demo_producing = Inr demo_produced"
  by (simp add: demo_produced_def onblock_def require_auth_def Let_def split: sum.split)

lemma demo_produced_simps [simp]: "total_unpaid_blocks (gst (vs demo_produced)) = 5"
  by (simp add: demo_produced_def onblock_def require_auth_def Let_def demo_producing_def min_activated_stake_def put_gst_def u32_def
      default_gstate_def)

theorem unpaid_blocks_accounted_witness: "u32 (t_sum (\<lambda>_ p. unpaid_blocks p) (producers (vs demo_produced))) = 5"
proof -
  have r: "reachable sys_exec (\<lambda>_. True) demo_producing demo_produced"
    by (rule reach_step [where exec = sys_exec and e = "sys_ref [99] 0" and a = "PayAct (Onblock 0 7)", OF reach_init])
      (simp_all add: demo_onblock)
  show ?thesis using unpaid_blocks_accounted [OF r] by (simp add: demo_producing_def u32_def t_sum_set)
qed

section \<open>Oracles' pay and punishment\<close>

text \<open>
  C24. The pay of an oracle's producer is cut by the punishment that is due: first the oracle pay, and
  only when that is used up the block pay; neither becomes negative, and what cannot be cut stays due.
  The old pending punishment is added to the remainder a second time.
\<close>

theorem oracle_punished:
  assumes "0 \<le> block_pay" and "block_pay \<le> max_amount" and "0 < total_ok"
    and "0 \<le> pending_punishment oc" and "pending_punishment oc \<le> 2 ^ 60" and "0 \<le> failed_requests oc" and "failed_requests oc < 2 ^ 32"
    and "earned = u32 (oracle_bucket g * successful_requests oc) div total_ok"
    and "due = pending_punishment oc + failed_requests oc * oracle_punishment_rate"
    and "lost = min due (earned + block_pay)"
  shows "\<exists>pay block1. oracle_pay g total_ok oc block_pay = (pay, block1, oc\<lparr>successful_requests := 0, failed_requests := 0,
        pending_punishment := pending_punishment oc + (due - lost)\<rparr>) \<and>
     pay = earned - min earned due \<and> block1 = block_pay - (lost - min earned due) \<and> 0 \<le> pay \<and> 0 \<le> block1 \<and>
     (block1 < block_pay \<longrightarrow> pay = 0)"
proof -
  have e: "0 \<le> earned" "earned < 2 ^ 32"
  proof -
    have "0 \<le> u32 (oracle_bucket g * successful_requests oc)" "u32 (oracle_bucket g * successful_requests oc) < 2 ^ 32"
      by (simp_all add: u32_def)
    then show "0 \<le> earned" "earned < 2 ^ 32"
      using assms(3,8) zdiv_mono2 [of "u32 (oracle_bucket g * successful_requests oc)" 1 total_ok]
      by (simp_all add: pos_imp_zdiv_nonneg_iff)
  qed
  have d: "0 \<le> due" "due \<le> 2 ^ 61" using assms(4-7,9) by (simp_all add: oracle_punishment_rate_def)
  have w: "wrap64 x = x" if "- (2 ^ 63) \<le> x" "x < 2 ^ 63" for x using that by (intro wrap_small) simp_all
  have 1: "wrap64 (pending_punishment oc + wrap64 (failed_requests oc * oracle_punishment_rate)) = due"
    using assms(4-7,9) by (simp add: oracle_punishment_rate_def w)
  have lost: "lost = (if earned < due then earned + min block_pay (due - earned) else due)"
    using assms(1,10) by (auto simp: min_def)
  show ?thesis
    unfolding oracle_pay_def using e d assms(1-5)
    by (simp add: Let_def 1 assms(8) [symmetric] w max_amount_def lost)
qed

definition demo_oracle :: oracle_info where
  "demo_oracle = \<lparr>oracle_producer = 7, oracle_account = 8, pending_requests = 0, successful_requests = 3, failed_requests = 1,
     pending_punishment = 1000\<rparr>"

theorem oracle_punished_witness:
  "oracle_pay ((default_gstate demo_params)\<lparr>oracle_bucket := 10000\<rparr>) 10 demo_oracle 5000 =
     (0, 0, demo_oracle\<lparr>successful_requests := 0, failed_requests := 0, pending_punishment := 4000\<rparr>)"
  using oracle_punished [of 5000 10 demo_oracle 3000 "(default_gstate demo_params)\<lparr>oracle_bucket := 10000\<rparr>" 11000 8000]
  by (simp add: demo_oracle_def max_amount_def u32_def oracle_punishment_rate_def)

section \<open>Claims of voters\<close>

lemma inflate_period:
  assumes "inflate E u s = Inr s'"
  shows "vote_claim_period (gst (vs s')) = vote_claim_period (gst (vs s))"
proof -
  obtain cs xs e s1 b1 b2 b3 b4 b5 b6 where f: "rfold (pay_share E cs) xs (emit e s) = Inr s1"
    and s': "s' = put_gst ((gst (vs s1))\<lparr>perblock_bucket := b1, dapps_per_transfer_rewards_bucket := b2,
       dapps_per_user_rewards_bucket := b3, perwitness_bucket := b4, pervote_bucket := b5, oracle_bucket := b6\<rparr>) s1"
    using assms unfolding inflate_def Let_def rbind_Inr_iff
    by (elim exE conjE) (rule that, assumption, auto)
  have "vs s1 = vs s"
    by (rule rfold_inv [OF f, of "\<lambda>t. vs t = vs s"])
      (auto simp: emit_def pay_share_def res_simps split: prod.splits)
  then show ?thesis by (simp add: s' put_gst_def)
qed

text \<open>Inflation is paid up to the current time: a second call in the same block changes nothing.\<close>

lemma share_inflation_again:
  assumes "share_inflation E s = Inr s1" and "last_pervote_bucket_fill (gst (vs s2)) = last_pervote_bucket_fill (gst (vs s1))"
  shows "share_inflation E s2 = Inr s2" and "vote_claim_period (gst (vs s1)) = vote_claim_period (gst (vs s))"
proof -
  have "s1 = s \<and> (wrap64 (current_time E - last_pervote_bucket_fill (gst (vs s))) \<le> 0 \<or> last_pervote_bucket_fill (gst (vs s)) \<le> 0) \<or>
     last_pervote_bucket_fill (gst (vs s1)) = current_time E \<and> vote_claim_period (gst (vs s1)) = vote_claim_period (gst (vs s))"
    using assms(1) by (auto simp: share_inflation_def Let_def res_simps put_gst_def inflate_period split: if_splits)
  then show "share_inflation E s2 = Inr s2" "vote_claim_period (gst (vs s1)) = vote_claim_period (gst (vs s))"
    using assms(2) wrap_small [of 0] by (auto simp: share_inflation_def Let_def)
qed

lemma claimvoterwd_iff:
  "claimvoterwd E k s0 = Inr s' \<longleftrightarrow> has_auth E k \<and> (\<exists>s v g reward cs q. share_inflation E s0 = Inr s \<and> t_get (voters (vs s)) k = Some v \<and>
     g = gst (vs s) \<and> vote_claim_period g < wrap64 (current_time E - v_last_claim_time v) \<and> total_unpaid_votes g \<noteq> 0 \<and>
     reward = cdiv (wrap64 (unpaid_votes v * pervote_bucket g)) (total_unpaid_votes g) \<and> 0 < reward \<and>
     sys_core s = Inr cs \<and> asset_new E reward cs = Inr q \<and>
     s' = (send_transfer E [lit E ''eosio.vpay''] (lit E ''eosio.vpay'') k q ''Voter reward transfer'' s)
       \<lparr>vs := (put_voter k (v\<lparr>unpaid_votes := 0, v_last_claim_time := current_time E\<rparr>) (vs s))
            \<lparr>gst := g\<lparr>pervote_bucket := wrap64 (pervote_bucket g - reward),
               total_unpaid_votes := wrap64 (total_unpaid_votes g - unpaid_votes v)\<rparr>\<rparr>\<rparr>)"
  unfolding claimvoterwd_def Let_def by (auto simp: res_simps)

definition demo_bucket :: eosio_global_state where
  "demo_bucket = (default_gstate demo_params)\<lparr>pervote_bucket := 1000, total_unpaid_votes := 10\<rparr>"

definition demo_earned :: sys_state where
  "demo_earned = demo_sys\<lparr>vs := (put_voter 7 (new_voter\<lparr>unpaid_votes := 3\<rparr>)
     (put_voter 8 (new_voter\<lparr>unpaid_votes := 7\<rparr>) (vs demo_sys)))\<lparr>gst := demo_bucket\<rparr>\<rparr>"

definition demo_paid :: sys_state where
  "demo_paid = (send_transfer (sys_ref [7] 3000000000000) [ref_lit ''eosio.vpay''] (ref_lit ''eosio.vpay'') 7 (mk_asset 300 core_sym)
       ''Voter reward transfer'' demo_earned)
     \<lparr>vs := (put_voter 7 (new_voter\<lparr>v_last_claim_time := 3000000000000\<rparr>) (vs demo_earned))
       \<lparr>gst := demo_bucket\<lparr>pervote_bucket := 700, total_unpaid_votes := 7\<rparr>\<rparr>\<rparr>"

lemma demo_earned_simps [simp]:
  "share_inflation (sys_ref [7] 3000000000000) demo_earned = Inr demo_earned" "sys_core demo_earned = Inr core_sym"
  "t_get (voters (vs demo_earned)) 7 = Some (new_voter\<lparr>unpaid_votes := 3\<rparr>)" "gst (vs demo_earned) = demo_bucket"
  by (simp_all add: share_inflation_def Let_def demo_earned_def demo_bucket_def default_gstate_def put_voter_def demo_sys_def
      sys_core_def)

lemma demo_claim: "claimvoterwd (sys_ref [7] 3000000000000) 7 demo_earned = Inr demo_paid"
  unfolding claimvoterwd_iff
  by (simp add: demo_paid_def demo_bucket_def default_gstate_def new_voter_def days_def wrap64_def cdiv_def core_sym_def
      max_amount_def check_def)

section \<open>Unpaid votes\<close>

text \<open>The count of unpaid votes against those of the voters; both are 64-bit counters.\<close>

definition votes_balanced :: "sys_state \<Rightarrow> bool" where
  "votes_balanced s \<longleftrightarrow> wrap64 (unpaid_sum (vs s)) = total_unpaid_votes (gst (vs s))"

lemma votes_balanced_same: "same Unpaid E s s' \<Longrightarrow> votes_balanced s' \<longleftrightarrow> votes_balanced s"
  by (simp add: votes_balanced_def)

lemma wrap64_swap: "wrap64 (x + wrap64 y - z) = wrap64 (x + y - z)"
  using wrap64_add(2) [of "x - z" y] by (simp add: algebra_simps)

lemma voteproducer_votes:
  assumes "voteproducer E k prx ps s = Inr s'" "votes_balanced s"
  shows "votes_balanced s'"
proof -
  obtain s1 v2 v where u: "update_rex_stake k s = Inr s1"
    and v2: "update_votes (current_time E) k prx ps True (vs s1) = Inr v2" and v: "t_get (voters v2) k = Some v"
    and s': "vs s' = (put_voter k (v\<lparr>unpaid_votes := wrap64 (unpaid_votes v + min (staked v) (max_vote_power (gst v2)))\<rparr>) v2)
       \<lparr>gst := (gst v2)\<lparr>total_unpaid_votes := wrap64 (total_unpaid_votes (gst v2) + min (staked v) (max_vote_power (gst v2)))\<rparr>\<rparr>"
    using assms(1) by (auto simp: voteproducer_def res_simps Let_def)
  let ?p = "min (staked v) (max_vote_power (gst v2))"
  have F: "frame E UNIV {} s s1" by (rule frame_rex_stake [OF u frame_refl])
  have "votes_balanced s1" using assms(2) frame_same [OF F, of Unpaid] by (simp add: votes_balanced_def)
  moreover have "vote_keeps (vs s1) v2" by (rule update_votes_frame [OF v2])
  ultimately have b: "wrap64 (unpaid_sum v2) = total_unpaid_votes (gst v2)"
    using update_votes_unpaid [OF v2] gst_coreD(5) [of "gst v2" "gst (vs s1)"] by (simp add: votes_balanced_def vote_keeps_def)
  have "wrap64 (unpaid_sum v2 + wrap64 (unpaid_votes v + ?p) - unpaid_votes v) = wrap64 (unpaid_sum v2 + ?p)"
    unfolding wrap64_swap by (simp add: algebra_simps)
  also have "\<dots> = wrap64 (total_unpaid_votes (gst v2) + ?p)" by (simp add: wrap64_add(1) b [symmetric])
  finally show ?thesis using v by (simp add: votes_balanced_def s' unpaid_sum_put)
qed

lemma claimvoterwd_votes:
  assumes "claimvoterwd E k s0 = Inr s'" "votes_balanced s0"
  shows "votes_balanced s'"
proof -
  obtain s v m where 0: "share_inflation E s0 = Inr s" and v: "t_get (voters (vs s)) k = Some v"
    and s': "vs s' = (put_voter k (v\<lparr>unpaid_votes := 0, v_last_claim_time := current_time E\<rparr>) (vs s))
       \<lparr>gst := (gst (vs s))\<lparr>pervote_bucket := m, total_unpaid_votes := wrap64 (total_unpaid_votes (gst (vs s)) - unpaid_votes v)\<rparr>\<rparr>"
    using assms(1) unfolding claimvoterwd_iff by (auto simp: send_transfer_def emit_def)
  have "frame E UNIV {Bids} s0 s" by (rule ensuresD [OF frame_share_inflation 0]) (simp_all add: pay_may_def)
  then have b: "wrap64 (unpaid_sum (vs s)) = total_unpaid_votes (gst (vs s))"
    using assms(2) frame_same [of E UNIV "{Bids}" s0 s Unpaid] by (simp add: votes_balanced_def)
  have "wrap64 (unpaid_sum (vs s) - unpaid_votes v) = wrap64 (total_unpaid_votes (gst (vs s)) - unpaid_votes v)"
    using wrap64_add(1) [of "unpaid_sum (vs s)" "- unpaid_votes v"] b by simp
  then show ?thesis using v by (simp add: votes_balanced_def s' unpaid_sum_put)
qed

lemma sys_exec_votes:
  assumes "votes_balanced s" "sys_exec E a s = Inr s'"
  shows "votes_balanced s'"
proof (cases "Unpaid \<in> sys_writes a")
  case True
  then consider (vote) k prx ps where "a = RexAct (Voteproducer k prx ps)" | (claim) k where "a = PayAct (Claimvoterwd k)"
  proof (cases a)
    case (PayAct b) then show ?thesis using True that by (cases b) auto
  next
    case (RexAct b) then show ?thesis using True that by (cases b) auto
  next
    case (AdminAct b) then show ?thesis using True by (cases b) auto
  next
    case (BwAct b) then show ?thesis using True by (cases b) auto
  next
    case (VoteAct b) then show ?thesis using True by (cases b) auto
  qed simp_all
  then show ?thesis using assms by cases (auto intro: voteproducer_votes claimvoterwd_votes)
next
  case False
  have F: "frame E UNIV (insert Bids (sys_writes a)) s s'" using assms(2) by (rule sys_exec_frame) auto
  have "same Unpaid E s s'" using False by (intro frame_same [OF F]) simp
  then show ?thesis using assms(1) by (simp add: votes_balanced_def)
qed

interpretation votes: action_system sys_exec "\<lambda>_. True" votes_balanced
  by unfold_locales (rule sys_exec_votes)

text \<open>
  C33. Unpaid votes: in every reachable state the total of unpaid votes, by which the voters' bucket is
  shared out, is the sum over the voters, modulo the wrap-around of 64-bit counters. It is so from every
  state where it is so, such as the initial one without voters.
\<close>

theorem unpaid_votes_accounted:
  assumes "reachable sys_exec (\<lambda>_. True) s0 s"
    and "total_unpaid_votes (gst (vs s0)) = wrap64 (t_sum (\<lambda>_ v. unpaid_votes v) (voters (vs s0)))"
  shows "total_unpaid_votes (gst (vs s)) = wrap64 (t_sum (\<lambda>_ v. unpaid_votes v) (voters (vs s)))"
  using votes.reachable_inv [OF assms(1)] assms(2) by (simp add: votes_balanced_def unpaid_sum_def)

theorem unpaid_votes_accounted_witness: "wrap64 (t_sum (\<lambda>_ v. unpaid_votes v) (voters (vs demo_paid))) = 7"
proof -
  have r: "reachable sys_exec (\<lambda>_. True) demo_earned demo_paid"
    by (rule reach_step [where exec = sys_exec and e = "sys_ref [7] 3000000000000" and a = "PayAct (Claimvoterwd 7)", OF reach_init])
      (simp_all add: demo_claim)
  show ?thesis using unpaid_votes_accounted [OF r]
    by (simp add: demo_earned_def demo_paid_def demo_bucket_def new_voter_def put_voter_def t_sum_set wrap64_def)
qed

text \<open>No voter has more unpaid votes than there are, as long as the counters have not overflowed.\<close>

lemma unpaid_le_total:
  assumes "votes_balanced s" "\<forall>j r. t_get (voters (vs s)) j = Some r \<longrightarrow> 0 \<le> unpaid_votes r" "unpaid_sum (vs s) < 2 ^ 63"
    and "t_get (voters (vs s)) k = Some v"
  shows "unpaid_votes v \<le> total_unpaid_votes (gst (vs s))" "total_unpaid_votes (gst (vs s)) = unpaid_sum (vs s)"
proof -
  have d: "unpaid_sum (vs s) = t_sum (\<lambda>_ r. unpaid_votes r) (t_del k (voters (vs s))) + unpaid_votes v"
    using assms(4) by (simp add: unpaid_sum_def t_sum_del)
  moreover have "0 \<le> t_sum (\<lambda>_ r. unpaid_votes r) (t_del k (voters (vs s)))"
    using assms(2) by (intro t_sum_nonneg) (auto split: if_splits)
  ultimately have "unpaid_votes v \<le> unpaid_sum (vs s)" by simp
  moreover have "0 \<le> unpaid_votes v" using assms(2,4) by blast
  ultimately show "unpaid_votes v \<le> total_unpaid_votes (gst (vs s))" "total_unpaid_votes (gst (vs s)) = unpaid_sum (vs s)"
    using assms(1,3) wrap_small [of "unpaid_sum (vs s)"] by (simp_all add: votes_balanced_def)
qed

lemma share_within_bucket:
  assumes "0 \<le> u" "u \<le> t" "t \<noteq> 0" "0 \<le> b" "u * b < 2 ^ 63"
  shows "cdiv (wrap64 (u * b)) t = u * b div t" "u * b div t \<le> b"
proof -
  have "u * b \<le> t * b" using assms(2,4) by (rule mult_right_mono)
  then show "u * b div t \<le> b" using assms(1-3) zdiv_mono1 [of "u * b" "t * b" t] by simp
  show "cdiv (wrap64 (u * b)) t = u * b div t"
    using assms wrap_small [of "u * b"] mult_nonneg_nonneg [OF assms(1,4)] by (simp add: cdiv_nonneg)
qed

text \<open>
  C25. A voter's claim pays the quotient that the code computes with 64-bit integers, of the wrapped
  product of the voter's unpaid votes and the bucket by all unpaid votes, and only when it is positive:
  exactly this amount is sent from the fund's account and leaves the bucket, and the voter's votes are no
  longer unpaid. In a state where the unpaid votes are accounted for, are negative for no voter and add up
  to less than \<open>2 ^ 63\<close>, and the bucket is not negative and the product does not overflow, the
  quotient is the voter's true share, and never more than the bucket holds.
\<close>

theorem voter_claim_pays:
  assumes "claimvoterwd E k s = Inr s'" and "asset_laws E" and "share_inflation E s = Inr s1"
    and "t_get (voters (vs s1)) k = Some v" and "g = gst (vs s1)"
    and "reward = cdiv (wrap64 (unpaid_votes v * pervote_bucket g)) (total_unpaid_votes g)"
  shows "(has_auth E k \<and> vote_claim_period g < wrap64 (current_time E - v_last_claim_time v) \<and>
     total_unpaid_votes g \<noteq> 0 \<and> 0 < reward \<and>
     (\<exists>q. amount q = reward \<and> sys_out s' = sys_out s1 @ [Inline (lit E ''eosio.token'') [at_active E (lit E ''eosio.vpay'')]
        (TokenTransfer (lit E ''eosio.vpay'') k q ''Voter reward transfer'')]) \<and>
     gst (vs s') = g\<lparr>pervote_bucket := wrap64 (pervote_bucket g - reward),
        total_unpaid_votes := wrap64 (total_unpaid_votes g - unpaid_votes v)\<rparr> \<and>
     voters (vs s') = t_set k (v\<lparr>unpaid_votes := 0, v_last_claim_time := current_time E\<rparr>) (voters (vs s1))) \<and>
     (reachable sys_exec (\<lambda>_. True) s0 s \<longrightarrow>
        total_unpaid_votes (gst (vs s0)) = wrap64 (t_sum (\<lambda>_ r. unpaid_votes r) (voters (vs s0))) \<longrightarrow>
        (\<forall>j r. t_get (voters (vs s1)) j = Some r \<longrightarrow> 0 \<le> unpaid_votes r) \<longrightarrow>
        t_sum (\<lambda>_ r. unpaid_votes r) (voters (vs s1)) < 2 ^ 63 \<longrightarrow>
        0 \<le> pervote_bucket g \<longrightarrow> unpaid_votes v * pervote_bucket g < 2 ^ 63 \<longrightarrow>
        reward = unpaid_votes v * pervote_bucket g div t_sum (\<lambda>_ r. unpaid_votes r) (voters (vs s1)) \<and>
        reward \<le> pervote_bucket g)"
    (is "?A \<and> (?r \<longrightarrow> ?i \<longrightarrow> ?n \<longrightarrow> ?b \<longrightarrow> ?p \<longrightarrow> ?o \<longrightarrow> ?C)")
proof -
  obtain cs q where 1: "0 < reward" "total_unpaid_votes g \<noteq> 0" "asset_new E reward cs = Inr q" "has_auth E k"
      "vote_claim_period g < wrap64 (current_time E - v_last_claim_time v)"
    and s': "s' = (send_transfer E [lit E ''eosio.vpay''] (lit E ''eosio.vpay'') k q ''Voter reward transfer'' s1)
       \<lparr>vs := (put_voter k (v\<lparr>unpaid_votes := 0, v_last_claim_time := current_time E\<rparr>) (vs s1))
            \<lparr>gst := g\<lparr>pervote_bucket := wrap64 (pervote_bucket g - reward),
               total_unpaid_votes := wrap64 (total_unpaid_votes g - unpaid_votes v)\<rparr>\<rparr>\<rparr>"
    using assms(1,3,4,6) unfolding claimvoterwd_iff by (auto simp: assms(5) [symmetric])
  have "amount q = reward" using 1(3) by (auto simp: asset_new_iff [OF assms(2)] mk_asset_def)
  then have A: ?A using 1 by (simp add: s' put_voter_def send_transfer_def emit_def)
  have ?C if r: ?r and i: ?i and n: ?n and b: ?b and p: ?p and o: ?o
  proof -
    have "votes_balanced s" using votes.reachable_inv [OF r] i by (simp add: votes_balanced_def unpaid_sum_def)
    moreover have "frame E UNIV {Bids} s s1" by (rule ensuresD [OF frame_share_inflation assms(3)]) (simp_all add: pay_may_def)
    ultimately have "votes_balanced s1"
      using frame_same [of E UNIV "{Bids}" s s1 Unpaid] by (simp add: votes_balanced_def)
    from unpaid_le_total [OF this n b [folded unpaid_sum_def] assms(4)]
    have le: "unpaid_votes v \<le> total_unpaid_votes g" "total_unpaid_votes g = t_sum (\<lambda>_ r. unpaid_votes r) (voters (vs s1))"
      by (simp_all add: assms(5) unpaid_sum_def)
    have "0 \<le> unpaid_votes v" using n assms(4) by blast
    from share_within_bucket [OF this le(1) 1(2) p o] show ?C by (simp add: assms(6) le(2))
  qed
  then show ?thesis using A by blast
qed

lemma demo_earned_votes [simp]: "t_sum (\<lambda>_ r. unpaid_votes r) (voters (vs demo_earned)) = 10"
  "t_get (voters (vs demo_earned)) j = Some r \<Longrightarrow> 0 \<le> unpaid_votes r"
  by (auto simp: demo_earned_def put_voter_def t_sum_set new_voter_def split: if_splits)

theorem voter_claim_pays_witness:
  "gst (vs demo_paid) = demo_bucket\<lparr>pervote_bucket := 700, total_unpaid_votes := 7\<rparr> \<and>
   300 = 3 * pervote_bucket demo_bucket div t_sum (\<lambda>_ r. unpaid_votes r) (voters (vs demo_earned)) \<and> 300 \<le> pervote_bucket demo_bucket"
proof -
  have "reachable sys_exec (\<lambda>_. True) demo_earned demo_earned" by (rule reach_init)
  then show ?thesis
    using voter_claim_pays [OF demo_claim sys_ref_laws, of demo_earned "new_voter\<lparr>unpaid_votes := 3\<rparr>" demo_bucket 300 demo_earned]
    by (simp add: demo_bucket_def default_gstate_def new_voter_def wrap64_def cdiv_def)
qed

text \<open>
  The product overflows within the ordinary ranges: one vote of full power, alone in front of a bucket of
  a hundred million tokens, is refused although the whole bucket is its share.
\<close>

definition demo_rich :: sys_state where
  "demo_rich = demo_sys\<lparr>vs := (put_voter 7 (new_voter\<lparr>unpaid_votes := 10000000\<rparr>) (vs demo_sys))
     \<lparr>gst := (default_gstate demo_params)\<lparr>pervote_bucket := 1000000000000, total_unpaid_votes := 10000000\<rparr>\<rparr>\<rparr>"

lemma claim_overflows: "claimvoterwd (sys_ref [7] 3000000000000) 7 demo_rich = Inl (Assert ''no rewards yet'')"
  by (simp add: claimvoterwd_def share_inflation_def require_auth_def Let_def demo_rich_def default_gstate_def new_voter_def days_def
      wrap64_def cdiv_def check_def guard_res_def put_voter_def)

text \<open>C26. A voter is paid at most once at a time: a second claim in the same block is refused.\<close>

theorem voter_claim_once:
  assumes "claimvoterwd E k s = Inr s'" and "0 \<le> vote_claim_period (gst (vs s))"
  shows "claimvoterwd E k s' = Inl (Assert ''already claimed rewards within past month'')"
proof -
  obtain s1 v where 1: "share_inflation E s = Inr s1" and a: "has_auth E k"
    and v: "t_get (voters (vs s')) k = Some v" "v_last_claim_time v = current_time E"
    and g: "last_pervote_bucket_fill (gst (vs s')) = last_pervote_bucket_fill (gst (vs s1))"
      "vote_claim_period (gst (vs s')) = vote_claim_period (gst (vs s1))"
    using assms(1) unfolding claimvoterwd_iff by (auto simp: put_voter_def)
  have "share_inflation E s' = Inr s'" "\<not> vote_claim_period (gst (vs s')) < 0"
    using share_inflation_again [OF 1 g(1)] assms(2) g(2) by simp_all
  then show ?thesis using a v wrap_small [of 0] by (simp add: claimvoterwd_def require_auth_def check_def Let_def)
qed

theorem voter_claim_once_witness:
  "claimvoterwd (sys_ref [7] 3000000000000) 7 demo_paid = Inl (Assert ''already claimed rewards within past month'')"
  using voter_claim_once [OF demo_claim] by (simp add: demo_bucket_def default_gstate_def days_def wrap64_def)

end
