(* ===== verification/OracleClaims.thy ===== *)
theory OracleClaims
  imports PayClaims VoteClaims
begin

text \<open>
  The properties of the oracles: the choice of the two oracles of a request, who may answer it and
  when, and the counts of successful answers that the oracles' pay is shared out by.
\<close>

section \<open>The choice\<close>

lemma ranges_len [simp]: "length (ranges val tot p os) = length os"
  by (induction val tot p os rule: ranges.induct) (auto simp: Let_def)

text \<open>Every range has a weight of at least 1: the ends grow strictly.\<close>

lemma ranges_grow:
  assumes "1 \<le> val"
  shows "sorted_wrt (<) (tot # ranges val tot p os)"
  using assms
proof (induction val tot p os rule: ranges.induct)
  case (2 val tot prev a n os)
  define w where "w = (if prev > n then val + 1 else val)"
  have w: "1 \<le> w" using "2.prems" by (simp add: w_def)
  have "sorted_wrt (<) ((tot + w) # ranges w (tot + w) n os)"
    using "2.IH" w by (simp add: w_def)
  then show ?case using w by (auto simp: Let_def w_def [symmetric])
qed simp

lemma range_ends_grow: "sorted_wrt (<) (0 # range_ends os)"
proof (cases os)
  case (Cons x rest)
  obtain a n where x: "x = (a, n)" by (cases x)
  have "sorted_wrt (<) (10 # ranges 10 10 n rest)" by (rule ranges_grow) simp
  then show ?thesis by (auto simp: Cons x range_ends_def)
qed (simp add: range_ends_def)

lemma range_ends_len [simp]: "length (range_ends os) = length os"
  by (simp add: range_ends_def split: list.split)

lemma find_range_total:
  assumes "v \<noteq> []" "x < last v"
  shows "\<exists>n < length v. find_range x v = Inr n"
proof -
  have "\<not> length (takeWhile (\<lambda>e. \<not> x < e) v) = length v"
    using assms by (metis last_in_set takeWhile_eq_all_conv takeWhile_eq_take take_all_iff order_refl)
  then have "length (takeWhile (\<lambda>e. \<not> x < e) v) < length v"
    using length_takeWhile_le [of "\<lambda>e. \<not> x < e" v] by linarith
  then show ?thesis by (simp add: find_range_def)
qed

lemma drop_nth_len: "i < length xs \<Longrightarrow> length (drop_nth i xs) = length xs - 1"
  by (simp add: drop_nth_def)

lemma drop_nth_nth: "i < length xs \<Longrightarrow> j < length xs - 1 \<Longrightarrow> drop_nth i xs ! j = xs ! (if j < i then j else Suc j)"
  by (auto simp: drop_nth_def nth_append)

lemma last_drop_nth:
  assumes "i < length xs" "1 < length xs"
  shows "last (drop_nth i xs) = (if Suc i = length xs then xs ! (i - 1) else last xs)"
proof -
  obtain n where n: "length xs = Suc (Suc n)" using assms(2) by (metis One_nat_def less_natE plus_1_eq_Suc add_Suc)
  have "drop_nth i xs \<noteq> []" using drop_nth_len [OF assms(1)] n by auto
  then have "last (drop_nth i xs) = drop_nth i xs ! n" using drop_nth_len [OF assms(1)] n by (simp add: last_conv_nth)
  also have "\<dots> = xs ! (if n < i then n else Suc n)" using assms(1) n by (simp add: drop_nth_nth)
  also have "\<dots> = (if Suc i = length xs then xs ! (i - 1) else last xs)"
  proof (cases "n < i")
    case True
    then have "i = Suc n" using assms(1) n by simp
    then show ?thesis using n by simp
  next
    case False
    have "last xs = xs ! Suc n" using n assms(2) by (subst last_conv_nth) auto
    then show ?thesis using False n by simp
  qed
  finally show ?thesis .
qed

text \<open>
  Whatever the slot, an oracle is chosen for a request, and a standby oracle from another position of
  the list, or none if the list has only one; the search of the ranges never fails.
\<close>

lemma oracle_chosen:
  assumes "os \<noteq> []" and "0 \<le> slot"
  shows "\<exists>i j. i < length os \<and> j < length os \<and> (length os > 1 \<longrightarrow> i \<noteq> j) \<and>
     choose_oracles slot os = Inr (fst (os ! i), if length os > 1 then fst (os ! j) else 0)"
proof -
  define v where "v = range_ends os"
  define tot where "tot = last v"
  have v: "v \<noteq> []" "length v = length os" "sorted_wrt (<) (0 # v)"
    using assms(1) range_ends_grow [of os] range_ends_len [of os] by (auto simp: v_def simp del: range_ends_len) 
  have pos: "0 < v ! i" if "i < length v" for i using v(3) that by auto
  have mono: "v ! a < v ! b" if "a < b" "b < length v" for a b using v(3) that by (simp add: sorted_wrt_nth_less)
  have tot: "tot = v ! (length v - 1)" "0 < tot" using v(1) pos by (simp_all add: tot_def last_conv_nth)
  obtain i where i: "i < length v" "find_range (slot mod tot) v = Inr i"
    using find_range_total [OF v(1), of "slot mod tot"] pos_mod_bound [OF tot(2), of slot] unfolding tot_def by blast
  define tot1 where "tot1 = (if i = 0 then tot - 10 else tot - (v ! i - v ! (i - 1)))"
  show ?thesis
  proof (cases "length os > 1")
    case False
    then have "length os = 1" using assms(1) by (cases os) auto
    moreover have "drop_nth i os = []" using \<open>length os = 1\<close> i(1) v(2) by (simp add: drop_nth_def)
    ultimately show ?thesis
      using i v(2) by (auto simp: choose_oracles_def Let_def v_def [symmetric] tot_def [symmetric])
  next
    case True
    have ne: "drop_nth i v \<noteq> []" "drop_nth i os \<noteq> []" "length (drop_nth i v) = length os - 1"
      using True i(1) v(2) by (auto simp: drop_nth_def)
    have "0 < tot1 \<and> tot1 \<le> last (drop_nth i v)"
    proof (cases "i = 0")
      case True': True
      have "v ! 0 = 10" using assms(1) by (auto simp: v_def range_ends_def split: list.split)
      moreover have "v ! 0 < v ! (length v - 1)" using v(2) True by (intro mono) auto
      ultimately show ?thesis using True True' v(2) tot last_drop_nth [of 0 v] v(1) assms(1) by (auto simp: tot1_def tot_def)
    next
      case False
      have "v ! (i - 1) < v ! i" "0 < v ! (i - 1)" "v ! i \<le> tot"
        using False i(1) tot(1) mono [of "i - 1" i] pos [of "i - 1"] mono [of i "length v - 1"]
        by (cases "i = length v - 1"; fastforce)+
      moreover have "Suc i = length os \<Longrightarrow> length os - Suc 0 = i" by linarith
      ultimately show ?thesis using True False i(1) v(2) tot by (auto simp: tot1_def last_drop_nth tot_def)
    qed
    then obtain j where j: "j < length (drop_nth i v)" "find_range (slot mod tot1) (drop_nth i v) = Inr j"
      using find_range_total [OF ne(1)] pos_mod_bound [of tot1 slot] by (meson less_le_trans)
    let ?j = "if j < i then j else Suc j"
    have "choose_oracles slot os = Inr (fst (os ! i), fst (os ! ?j))"
      unfolding choose_oracles_def Let_def v_def [symmetric] tot_def [symmetric] i(2) rbind.simps tot1_def [symmetric] j(2)
      using i(1) j(1) ne True v(2) by (simp add: drop_nth_nth)
    moreover have "i < length os" "?j < length os" "i \<noteq> ?j" using i(1) j(1) ne(3) v(2) by auto
    ultimately show ?thesis using True by (intro exI [of _ i] exI [of _ ?j]) simp
  qed
qed

lemma in_map_filter: "y \<in> set (List.map_filter f xs) \<longleftrightarrow> (\<exists>x \<in> set xs. f x = Some y)"
  by (induction xs) (auto simp: map_filter_simps split: option.split)

lemma active_oracles_iff:
  "x \<in> set (active_oracles s) \<longleftrightarrow> (\<exists>p \<in> set (elected_rows (vs s)). \<exists>oc. t_get (oracles s) (p_owner p) = Some oc \<and>
     oracle_account oc \<noteq> 0 \<and> x = (oracle_account oc, pending_requests oc))"
  by (auto simp: active_oracles_def in_map_filter split: option.splits if_splits intro!: bexI)

text \<open>The order in which \<open>std::sort\<close> leaves equal elements is open, but it keeps the elements.\<close>

definition sort_law :: "sys_env \<Rightarrow> bool" where
  "sort_law E \<longleftrightarrow> (\<forall>os. mset (sort_pending E os) = mset os)"

text \<open>Two elements of a multiset that a list represents stand at two positions of the list.\<close>

lemma pair_in_mset:
  assumes "i < length xs" "j < length xs" "i \<noteq> j"
  shows "{#xs ! i, xs ! j#} \<subseteq># mset xs"
proof -
  have "mset xs = {#xs ! i#} + mset (drop_nth i xs)"
    using id_take_nth_drop [OF assms(1)] by (simp add: drop_nth_def) (metis mset.simps(2) mset_append union_mset_add_mset_right)
  moreover obtain l where "l < length xs - 1" "j = (if l < i then l else Suc l)"
    using assms by (intro that [of "if j < i then j else j - 1"]) (auto split: if_splits)
  then have "xs ! j \<in> set (drop_nth i xs)"
    using drop_nth_nth [OF assms(1), of l] drop_nth_len [OF assms(1)] by (metis nth_mem)
  ultimately show ?thesis by simp
qed

lemma mset_in_pair:
  assumes "{#a, b#} \<subseteq># mset xs"
  shows "\<exists>m n. m < length xs \<and> n < length xs \<and> m \<noteq> n \<and> xs ! m = a \<and> xs ! n = b"
proof -
  have "a \<in> set xs" using assms by (metis insert_subset_eq_iff set_mset_mset)
  then obtain m where m: "m < length xs" "xs ! m = a" by (auto simp: in_set_conv_nth)
  have "mset xs = {#xs ! m#} + mset (drop_nth m xs)"
    using id_take_nth_drop [OF m(1)] by (simp add: drop_nth_def) (metis mset.simps(2) mset_append union_mset_add_mset_right)
  then have "b \<in> set (drop_nth m xs)" using assms m(2) by simp
  then obtain j where j: "j < length xs - 1" "drop_nth m xs ! j = b" by (auto simp: in_set_conv_nth drop_nth_len [OF m(1)])
  show ?thesis
    by (rule exI [of _ m], rule exI [of _ "if j < m then j else Suc j"]) (use m j drop_nth_nth [OF m(1) j(1)] in auto)
qed

text \<open>The oracle account of a producer, or 0.\<close>

definition oracle_of :: "sys_state \<Rightarrow> producer_info \<Rightarrow> name" where
  "oracle_of s p = (case t_get (oracles s) (p_owner p) of None \<Rightarrow> 0 | Some oc \<Rightarrow> oracle_account oc)"

lemma active_accounts: "map fst (active_oracles s) = filter (\<lambda>a. a \<noteq> 0) (map (oracle_of s) (elected_rows (vs s)))"
proof -
  have "map fst (List.map_filter f xs) = filter (\<lambda>a. a \<noteq> 0) (map (oracle_of s) xs)"
    if "f = (\<lambda>p. case t_get (oracles s) (p_owner p) of None \<Rightarrow> None
         | Some oc \<Rightarrow> if oracle_account oc \<noteq> 0 then Some (oracle_account oc, pending_requests oc) else None)" for f xs
    unfolding that by (induction xs) (auto simp: map_filter_simps oracle_of_def split: option.split)
  then show ?thesis by (simp add: active_oracles_def)
qed

lemma current_oracle_places:
  assumes "sort_law E" "0 \<le> block_slot E (current_time E)" "get_current_oracle E s = Inr (a, b)"
  shows "\<exists>m < length (elected_rows (vs s)). a = oracle_of s (elected_rows (vs s) ! m) \<and> a \<noteq> 0 \<and>
     (if \<exists>n < length (elected_rows (vs s)). n \<noteq> m \<and> oracle_of s (elected_rows (vs s) ! n) \<noteq> 0
      then \<exists>n < length (elected_rows (vs s)). n \<noteq> m \<and> b = oracle_of s (elected_rows (vs s) ! n) \<and> b \<noteq> 0 else b = 0)"
proof -
  let ?os = "sort_pending E (active_oracles s)" and ?el = "elected_rows (vs s)"
  let ?as = "map (oracle_of s) ?el"
  have ne: "active_oracles s \<noteq> []" using assms(3) by (auto simp: get_current_oracle_def check_Inr_iff)
  have m: "mset ?os = mset (active_oracles s)" using assms(1) by (simp add: sort_law_def)
  then have "?os \<noteq> []" using ne by force
  from oracle_chosen [OF this assms(2)] obtain i j where ij: "i < length ?os" "j < length ?os" "length ?os > 1 \<longrightarrow> i \<noteq> j"
    and ab: "a = fst (?os ! i)" "b = (if length ?os > 1 then fst (?os ! j) else 0)"
    using assms(3) ne by (auto simp: get_current_oracle_def check_Inr_iff Let_def)
  have accts: "mset (map fst ?os) = filter_mset (\<lambda>a. a \<noteq> 0) (mset ?as)"
    using arg_cong [OF active_accounts [of s], of mset] m by (metis mset_filter mset_map)
  have "a \<in># mset (map fst ?os)" using ij(1) ab(1) by (metis length_map nth_map nth_mem set_mset_mset)
  then have a: "a \<in> set ?as" "a \<noteq> 0" unfolding accts by simp_all
  show ?thesis
  proof (cases "length ?os > 1")
    case True
    then have "{#a, b#} \<subseteq># mset (map fst ?os)" using pair_in_mset [of i "map fst ?os" j] ij ab by simp
    then have sub: "{#a, b#} \<subseteq># filter_mset (\<lambda>a. a \<noteq> 0) (mset ?as)" unfolding accts .
    have "b \<noteq> 0" using mset_subset_eqD [OF sub, of b] by simp
    moreover have "{#a, b#} \<subseteq># mset ?as" using sub multiset_filter_subset subset_mset.trans by blast
    then obtain m n where "m < length ?el" "n < length ?el" "m \<noteq> n" "?as ! m = a" "?as ! n = b"
      using mset_in_pair [of a b ?as] by auto
    ultimately show ?thesis using a(2) by (intro exI [of _ m]) auto
  next
    case False
    obtain m where m: "m < length ?el" "oracle_of s (?el ! m) = a" using a(1) by (auto simp: in_set_conv_nth)
    have "size (filter_mset (\<lambda>a. a \<noteq> 0) (mset ?as)) \<le> 1" using False unfolding accts [symmetric] by simp
    then have "\<not> (n < length ?el \<and> n \<noteq> m \<and> oracle_of s (?el ! n) \<noteq> 0)" for n
    proof (rule contrapos_pn)
      assume n: "n < length ?el \<and> n \<noteq> m \<and> oracle_of s (?el ! n) \<noteq> 0"
      then have "{#a, oracle_of s (?el ! n)#} \<subseteq># mset ?as" using pair_in_mset [of m ?as n] m by simp
      then have "{#a, oracle_of s (?el ! n)#} \<subseteq># filter_mset (\<lambda>a. a \<noteq> 0) (mset ?as)"
        using multiset_filter_mono [of "{#a, oracle_of s (?el ! n)#}" "mset ?as" "\<lambda>a. a \<noteq> 0"] a(2) n by simp
      from size_mset_mono [OF this] show "\<not> size (filter_mset (\<lambda>a. a \<noteq> 0) (mset ?as)) \<le> 1" by simp
    qed
    then show ?thesis using m a(2) ab(2) False by (intro exI [of _ m]) auto
  qed
qed

lemma current_oracle:
  assumes "sort_law E" "0 \<le> block_slot E (current_time E)" "active_oracles s \<noteq> []"
  obtains a b where "get_current_oracle E s = Inr (a, b)" "a \<in> fst ` set (active_oracles s)"
    "b = 0 \<or> b \<in> fst ` set (active_oracles s)"
proof -
  let ?os = "sort_pending E (active_oracles s)"
  have m: "mset ?os = mset (active_oracles s)" using assms(1) by (simp add: sort_law_def)
  then have os: "set ?os = set (active_oracles s)" "?os \<noteq> []" using assms(3) by (metis set_mset_mset, force)
  obtain i j where ij: "i < length ?os" "j < length ?os"
    "choose_oracles (block_slot E (current_time E)) ?os = Inr (fst (?os ! i), if length ?os > 1 then fst (?os ! j) else 0)"
    using oracle_chosen [OF os(2) assms(2)] by blast
  show ?thesis
    by (rule that [of "fst (?os ! i)" "if length ?os > 1 then fst (?os ! j) else 0"])
      (use ij assms(3) os in \<open>auto simp: get_current_oracle_def Let_def\<close>)
qed

lemma find_oracle_row: "find_oracle a s = Some (k, oc) \<Longrightarrow> t_get (oracles s) k = Some oc"
  by (auto simp: find_oracle_def t_get_iff_list find_Some_iff) (metis nth_mem)

lemma active_acct: "a \<in> fst ` set (active_oracles s) \<Longrightarrow>
    \<exists>p \<in> set (elected_rows (vs s)). \<exists>r. t_get (oracles s) (p_owner p) = Some r \<and> oracle_account r = a"
  by (force simp: active_oracles_iff)

lemma find_oracle_acct: "find_oracle a s = Some (k, oc) \<Longrightarrow> oracle_account oc = a"
  by (auto simp: find_oracle_def find_Some_iff)

lemma find_active: "a \<in> fst ` set (active_oracles s) \<Longrightarrow> \<exists>k oc. find_oracle a s = Some (k, oc)"
proof (cases "find_oracle a s")
  case None
  assume a: "a \<in> fst ` set (active_oracles s)"
  have "\<forall>(k, oc) \<in> set (t_list (oracles s)). oracle_account oc \<noteq> a"
    using None by (auto simp: find_oracle_def find_None_iff)
  then show ?thesis using a by (auto simp: active_oracles_iff t_get_iff_list)
qed auto

lemma check_apis_Inr_iff:
  "check_apis as m = Inr y \<longleftrightarrow> (\<forall>a \<in> set as. take 5 (endpoint a) = ''https'' \<and> json_field a \<noteq> []) \<and> m = Inr y"
  by (induction as) (auto simp: res_simps)

lemma check_apis_ok: "\<forall>a \<in> set as. take 5 (endpoint a) = ''https'' \<and> json_field a \<noteq> [] \<Longrightarrow> check_apis as m = m"
  by (induction as) auto

lemmas request_unfold = addrequest_def require_auth_Inr_iff check_Inr_iff check_apis_Inr_iff check_response_type_def rbind_Inr_iff rget_Inr_iff

text \<open>
  C20. A request is accepted exactly when its caller has signed it, it has at most ten endpoints, all of
  https and with a field to read, its response type is known, its number is new, and one of the elected
  producers has an oracle; the oracle that is chosen is then always found.
\<close>

theorem request_accepted:
  assumes "\<forall>os. mset (sort_pending E os) = mset os" and "0 \<le> block_slot E (current_time E)"
  shows "(\<exists>s'. addrequest E rid caller aps rtype atype pref str s = Inr s') \<longleftrightarrow>
     has_auth E caller \<and> length aps \<le> 10 \<and> (\<forall>a \<in> set aps. take 5 (endpoint a) = ''https'' \<and> json_field a \<noteq> []) \<and>
     0 \<le> rtype \<and> rtype < 4 \<and> t_get (requests s) (caller, rid) = None \<and>
     (\<exists>p \<in> set (elected_rows (vs s)). \<exists>oc. t_get (oracles s) (p_owner p) = Some oc \<and> oracle_account oc \<noteq> 0)"
    (is "?L \<longleftrightarrow> ?R")
proof
  assume ?L
  moreover have "active_oracles s \<noteq> [] \<Longrightarrow> \<exists>p \<in> set (elected_rows (vs s)). \<exists>oc. t_get (oracles s) (p_owner p) = Some oc \<and> oracle_account oc \<noteq> 0"
    using active_oracles_iff [of "hd (active_oracles s)" s] by auto
  ultimately show ?R by (auto simp: request_unfold get_current_oracle_def t_get_None_iff Let_def)
next
  assume r: ?R
  then have n: "active_oracles s \<noteq> []" using active_oracles_iff [of _ s] by fastforce
  have l: "sort_law E" using assms(1) by (simp add: sort_law_def)
  obtain a b where a: "get_current_oracle E s = Inr (a, b)" "a \<in> fst ` set (active_oracles s)"
    by (rule current_oracle [OF l assms(2) n]) (rule that)
  obtain k oc where f: "find_oracle a s = Some (k, oc)" using find_active [OF a(2)] by blast
  have ap: "check_apis aps m = m" for m :: "sys_state res" by (rule check_apis_ok) (rule r [THEN conjunct2, THEN conjunct2, THEN conjunct1])
  have c: "has_auth E caller" "length aps \<le> 10" "0 \<le> rtype" "rtype < 4" "t_get (requests s) (caller, rid) = None"
    "\<not> t_has (requests s) (caller, rid)" using r t_get_None_iff by blast+
  show ?L
    unfolding addrequest_def require_auth_def check_response_type_def ap a(1) rbind.simps prod.case f rget.simps Let_def
    by (simp add: c t_emplace_def put_oracle_def)
qed

text \<open>
  C21. A request is assigned to the oracle of one place of the elected producers; its standby is the oracle
  of another place, or none exactly when no other elected producer has an oracle. Its time is the current
  one, and the only other change is the count of pending requests of the assigned oracle. The two accounts
  differ whenever no two elected producers name the same oracle account.
\<close>

theorem request_assigned:
  assumes "addrequest E rid caller aps rtype atype pref str s = Inr s'"
    and "\<forall>os. mset (sort_pending E os) = mset os" and "0 \<le> block_slot E (current_time E)"
    and "el = elected_rows (vs s)"
  shows "\<exists>q k oc m. s' = s\<lparr>requests := t_set (caller, rid) q (requests s),
       oracles := t_set k (oc\<lparr>pending_requests := u32 (pending_requests oc + 1)\<rparr>) (oracles s)\<rparr> \<and>
     req_time q = current_time E \<and> apis q = aps \<and> t_get (oracles s) k = Some oc \<and> oracle_account oc = assigned_oracle q \<and>
     m < length el \<and> assigned_oracle q = oracle_of s (el ! m) \<and> assigned_oracle q \<noteq> 0 \<and>
     (if \<exists>n < length el. n \<noteq> m \<and> oracle_of s (el ! n) \<noteq> 0
      then \<exists>n < length el. n \<noteq> m \<and> standby_oracle q = oracle_of s (el ! n) \<and> standby_oracle q \<noteq> 0
      else standby_oracle q = 0) \<and>
     (distinct (filter (\<lambda>a. a \<noteq> 0) (map (oracle_of s) el)) \<longrightarrow> standby_oracle q \<noteq> assigned_oracle q)"
proof -
  obtain a b k oc q where 1: "get_current_oracle E s = Inr (a, b)" "find_oracle a s = Some (k, oc)"
    and q: "q = \<lparr>req_time = current_time E, assigned_oracle = a, standby_oracle = b, apis = aps,
               response_type = rtype, aggregation_type = atype, prefered_api = pref, string_to_count = str\<rparr>"
    and s': "s' = s\<lparr>requests := t_set (caller, rid) q (requests s),
       oracles := t_set k (oc\<lparr>pending_requests := u32 (pending_requests oc + 1)\<rparr>) (oracles s)\<rparr>"
    using assms(1) by (auto simp: request_unfold t_emplace_Inr_iff Let_def put_oracle_def)
  have l: "sort_law E" using assms(2) by (simp add: sort_law_def)
  obtain m where m: "m < length el" "a = oracle_of s (el ! m)" "a \<noteq> 0"
    and b: "if \<exists>n < length el. n \<noteq> m \<and> oracle_of s (el ! n) \<noteq> 0
      then \<exists>n < length el. n \<noteq> m \<and> b = oracle_of s (el ! n) \<and> b \<noteq> 0 else b = 0"
    using current_oracle_places [OF l assms(3) 1(1)] unfolding assms(4) by blast
  have "b \<noteq> a" if d: "distinct (filter (\<lambda>a. a \<noteq> 0) (map (oracle_of s) el))"
  proof
    assume "b = a"
    then obtain n where n: "n < length el" "n \<noteq> m" "a = oracle_of s (el ! n)" using b m(3) by (auto split: if_splits)
    then have "{#a, a#} \<subseteq># mset (map (oracle_of s) el)" using pair_in_mset [of m "map (oracle_of s) el" n] m by simp
    then have "{#a, a#} \<subseteq># mset (filter (\<lambda>a. a \<noteq> 0) (map (oracle_of s) el))"
      using multiset_filter_mono [of "{#a, a#}" "mset (map (oracle_of s) el)" "\<lambda>a. a \<noteq> 0"] m(3) by simp
    then show False using mset_in_pair d nth_eq_iff_index_eq by metis
  qed
  then show ?thesis
    unfolding s' using m b find_oracle_row [OF 1(2)] find_oracle_acct [OF 1(2)]
    by (intro exI [of _ q] exI [of _ k] exI [of _ oc] exI [of _ m]) (simp add: q)
qed

definition demo_https :: api where
  "demo_https = \<lparr>endpoint = ''https://x'', request_type = 0, api_response_type = 0, parameters = [], json_field = ''price''\<rparr>"

definition demo_oracles :: sys_state where
  "demo_oracles = demo_sys\<lparr>vs := demo_producers,
     oracles := t_set 1 (demo_oracle\<lparr>oracle_account := 11\<rparr>) (t_set 2 (demo_oracle\<lparr>oracle_account := 12\<rparr>) t_empty)\<rparr>"

lemma demo_oracles_elected: "elected_rows (vs demo_oracles) = [demo_prod 2 20 True, demo_prod 1 10 True]"
  "p_owner (demo_prod n v b) = n" "requests demo_oracles = t_empty"
  "oracles demo_oracles = t_set 1 (demo_oracle\<lparr>oracle_account := 11\<rparr>) (t_set 2 (demo_oracle\<lparr>oracle_account := 12\<rparr>) t_empty)"
  by (simp_all add: demo_oracles_def demo_elected demo_prod_def demo_sys_def sys_init_state_def)

lemma sys_ref_slot: "0 \<le> block_slot (sys_ref as t) u" "\<forall>os. mset (sort_pending (sys_ref as t) os) = mset os"
  by (simp_all add: u32_def)

theorem request_accepted_witness: "\<exists>s'. addrequest (sys_ref [9] 0) 1 9 [demo_https] 0 0 0 [] demo_oracles = Inr s'"
  unfolding request_accepted [OF sys_ref_slot(2) sys_ref_slot(1)]
  by (simp add: demo_oracles_elected demo_https_def demo_oracle_def)

definition demo_requested :: sys_state where
  "demo_requested = demo_oracles\<lparr>requests := t_set (9, 1) \<lparr>req_time = 946684800000000, assigned_oracle = 12, standby_oracle = 11,
       apis = [demo_https], response_type = 0, aggregation_type = 0, prefered_api = 0, string_to_count = []\<rparr> t_empty,
     oracles := t_set 2 (demo_oracle\<lparr>oracle_account := 12, pending_requests := 1\<rparr>) (oracles demo_oracles)\<rparr>"

lemma demo_add: "addrequest (sys_ref [9] 946684800000000) 1 9 [demo_https] 0 0 0 [] demo_oracles = Inr demo_requested"
  by (simp add: addrequest_def get_current_oracle_def active_oracles_def List.map_filter_def demo_oracles_elected demo_https_def demo_oracle_def
      choose_oracles_def range_ends_def find_range_def drop_nth_def find_oracle_def require_auth_def check_response_type_def Let_def
      demo_requested_def put_oracle_def t_emplace_def u32_def cdiv_def t_has_def)

theorem request_assigned_witness:
  "\<exists>q. requests demo_requested = t_set (9, 1) q t_empty \<and> req_time q = 946684800000000 \<and>
     assigned_oracle q \<in> {11, 12} \<and> standby_oracle q \<in> {11, 12} \<and> standby_oracle q \<noteq> assigned_oracle q"
proof -
  let ?el = "[demo_prod 2 20 True, demo_prod 1 10 True]"
  have o: "oracle_of demo_oracles (demo_prod 2 20 True) = 12" "oracle_of demo_oracles (demo_prod 1 10 True) = 11"
    by (simp_all add: oracle_of_def demo_oracles_elected demo_oracle_def)
  obtain q k oc m where r: "demo_requested = demo_oracles\<lparr>requests := t_set (9, 1) q (requests demo_oracles),
       oracles := t_set k (oc\<lparr>pending_requests := u32 (pending_requests oc + 1)\<rparr>) (oracles demo_oracles)\<rparr>"
     and q: "req_time q = 946684800000000" "m < length ?el" "assigned_oracle q = oracle_of demo_oracles (?el ! m)"
     and b: "if \<exists>n < length ?el. n \<noteq> m \<and> oracle_of demo_oracles (?el ! n) \<noteq> 0
      then \<exists>n < length ?el. n \<noteq> m \<and> standby_oracle q = oracle_of demo_oracles (?el ! n) \<and> standby_oracle q \<noteq> 0
      else standby_oracle q = 0"
    using request_assigned [OF demo_add sys_ref_slot(2) sys_ref_slot(1) demo_oracles_elected(1) [symmetric]]
    unfolding sys_ref_simps by blast
  have "requests demo_requested = t_set (9, 1) q t_empty" unfolding r by (simp add: demo_oracles_elected(3))
  moreover have two: "n < length ?el \<longleftrightarrow> n = 0 \<or> n = 1" for n by auto
  moreover have "\<exists>n < length ?el. n \<noteq> m \<and> oracle_of demo_oracles (?el ! n) \<noteq> 0"
    using q(2) o by (cases m) (auto intro!: exI [of _ "1 - m"])
  then obtain n where n: "n < length ?el" "n \<noteq> m" "standby_oracle q = oracle_of demo_oracles (?el ! n)" using b by meson
  have "m = 0 \<and> n = 1 \<or> m = 1 \<and> n = 0" using q(2) n(1,2) by simp linarith
  then have "assigned_oracle q = 12 \<and> standby_oracle q = 11 \<or> assigned_oracle q = 11 \<and> standby_oracle q = 12"
    using n(3) q(3) o by (elim disjE conjE) (simp_all only: nth_Cons_0 nth_Cons_Suc One_nat_def simp_thms)
  ultimately show ?thesis using q(1) by (intro exI [of _ q]) (elim disjE; simp)
qed

section \<open>Replies\<close>

text \<open>How the rows of the two oracles change, and the count of successes.\<close>

lemma reply_shape:
  assumes "reply E c n b s = Inr s'"
  obtains q where "t_get (requests s) (c, n) = Some q" "requests s' = t_del (c, n) (requests s)"
    "sys_out s' = sys_out s @ [Notify c]"
    "wrap64 (current_time E - req_time q) < request_period \<Longrightarrow> has_auth E (assigned_oracle q)"
    "request_period \<le> wrap64 (current_time E - req_time q) \<Longrightarrow> wrap64 (current_time E - req_time q) < 2 * request_period \<Longrightarrow>
       has_auth E (standby_oracle q)"
    "2 * request_period \<le> wrap64 (current_time E - req_time q) \<Longrightarrow> b = []"
proof -
  obtain q where q: "t_get (requests s) (c, n) = Some q" using assms by (auto simp: reply_def res_simps)
  have p: "0 < request_period" by (simp add: request_period_def)
  show ?thesis
    by (rule that [OF q]) (use assms q p in \<open>auto simp: reply_def res_simps Let_def require_auth_Inr_iff put_oracle_def emit_def
      split: if_splits option.splits prod.splits\<close>)
qed

text \<open>
  C19. A request is answered by its assigned oracle within five minutes, by its standby oracle within
  ten, and afterwards only closed with an empty answer; whoever answers, the caller is notified once,
  the request is gone, and a second answer is refused.
\<close>

theorem request_answered_once:
  assumes "reply E caller rid answer s = Inr s'"
  shows "\<exists>q. t_get (requests s) (caller, rid) = Some q \<and>
     (let age = wrap64 (current_time E - req_time q) in
      if age < request_period then has_auth E (assigned_oracle q)
      else if age < 2 * request_period then has_auth E (standby_oracle q)
      else answer = []) \<and>
     sys_out s' = sys_out s @ [Notify caller] \<and> requests s' = t_del (caller, rid) (requests s) \<and>
     reply E' caller rid answer' s' = Inl (NoRow ''request is missing'')"
proof -
  obtain q where "t_get (requests s) (caller, rid) = Some q" "requests s' = t_del (caller, rid) (requests s)"
    "sys_out s' = sys_out s @ [Notify caller]"
    "wrap64 (current_time E - req_time q) < request_period \<Longrightarrow> has_auth E (assigned_oracle q)"
    "request_period \<le> wrap64 (current_time E - req_time q) \<Longrightarrow> wrap64 (current_time E - req_time q) < 2 * request_period \<Longrightarrow>
       has_auth E (standby_oracle q)"
    "2 * request_period \<le> wrap64 (current_time E - req_time q) \<Longrightarrow> answer = []"
    by (rule reply_shape [OF assms]) blast
  then show ?thesis by (intro exI [of _ q]) (simp add: Let_def reply_def)
qed

definition demo_request :: request_info where
  "demo_request = \<lparr>req_time = 0, assigned_oracle = 8, standby_oracle = 0, apis = [], response_type = 0, aggregation_type = 0,
     prefered_api = 0, string_to_count = []\<rparr>"

definition demo_asked :: sys_state where
  "demo_asked = demo_sys\<lparr>requests := t_set (9, 1) demo_request t_empty,
     oracles := t_set 7 (demo_oracle\<lparr>pending_requests := 1\<rparr>) t_empty, total_successful_requests := 3\<rparr>"

definition demo_answered :: sys_state where
  "demo_answered = (emit (Notify 9) demo_asked)\<lparr>requests := t_empty, total_successful_requests := 4,
     oracles := t_set 7 (demo_oracle\<lparr>successful_requests := 4\<rparr>) t_empty\<rparr>"

lemma demo_reply: "reply (sys_ref [8] 60000000) 9 1 [4] demo_asked = Inr demo_answered"
  by (simp add: reply_def demo_asked_def demo_answered_def demo_request_def demo_oracle_def request_period_def find_oracle_def put_oracle_def
      require_auth_def Let_def wrap64_def max_u32_def u32_def emit_def tab.put_put tab.del_put tab.del_absent)

theorem request_answered_once_witness:
  "t_get (requests demo_asked) (9, 1) = Some demo_request \<and> has_auth (sys_ref [8] 60000000) 8 \<and>
     reply (sys_ref [8] 60000000) 9 1 [4] demo_answered = Inl (NoRow ''request is missing'')"
  using request_answered_once [OF demo_reply] by (simp add: demo_asked_def)

section \<open>The count of successes\<close>

definition ok_sum :: "sys_state \<Rightarrow> int" where
  "ok_sum s = t_sum (\<lambda>_ oc. successful_requests oc) (oracles s)"

definition ok_balanced :: "sys_state \<Rightarrow> bool" where
  "ok_balanced s \<longleftrightarrow> u32 (ok_sum s) = total_successful_requests s"

lemma put_oracle_simps [simp]: "total_successful_requests (put_oracle k oc s) = total_successful_requests s"
  by (simp add: put_oracle_def)

lemma ok_put:
  "t_get (oracles s) k = Some oc \<Longrightarrow> ok_sum (put_oracle k oc' s) = ok_sum s - successful_requests oc + successful_requests oc'"
  "t_get (oracles s) k = None \<Longrightarrow> ok_sum (put_oracle k oc' s) = ok_sum s + successful_requests oc'"
  by (simp_all add: ok_sum_def put_oracle_def t_sum_set)

lemma ok_keep:
  "ok_balanced s \<Longrightarrow> t_get (oracles s) k = Some oc \<Longrightarrow> successful_requests oc' = successful_requests oc \<Longrightarrow> ok_balanced (put_oracle k oc' s)"
  by (simp add: ok_balanced_def ok_put)

lemma ok_new:
  "ok_balanced s \<Longrightarrow> t_get (oracles s) k = None \<Longrightarrow> successful_requests oc' = 0 \<Longrightarrow> ok_balanced (put_oracle k oc' s)"
  by (simp add: ok_balanced_def ok_put)

lemma ok_success:
  assumes "ok_balanced s" "t_get (oracles s) k = Some oc" "n = total_successful_requests s"
  shows "ok_balanced ((put_oracle k (oc\<lparr>successful_requests := u32 (successful_requests oc + 1)\<rparr>) s)
     \<lparr>total_successful_requests := u32 (n + 1)\<rparr>)"
proof -
  have "u32 (ok_sum s - successful_requests oc + u32 (successful_requests oc + 1)) = u32 (ok_sum s + 1)"
    using u32_add(2) [of "ok_sum s - successful_requests oc" "successful_requests oc + 1"] by (simp add: algebra_simps)
  also have "\<dots> = u32 (total_successful_requests s + 1)"
    using assms(1) u32_add(1) [of "ok_sum s" 1] by (simp add: ok_balanced_def)
  finally show ?thesis using ok_put(1) [OF assms(2)] by (simp add: ok_balanced_def ok_sum_def assms(3))
qed

lemma ok_frame: "oracles s' = oracles s \<Longrightarrow> total_successful_requests s' = total_successful_requests s \<Longrightarrow> ok_balanced s' = ok_balanced s"
  by (simp add: ok_balanced_def ok_sum_def)

lemma ok_simps [simp]:
  "ok_balanced (s\<lparr>requests := r\<rparr>) = ok_balanced s" "ok_balanced (emit e s) = ok_balanced s"
  by (simp_all add: ok_balanced_def ok_sum_def)

lemma reply_ok:
  assumes "ok_balanced s"
  shows "ensures (reply E c n b s) ok_balanced"
  unfolding reply_def
  apply (rule ensures_intros)+
  apply (use assms in \<open>auto simp: check_Inr_iff split: option.splits if_splits prod.splits dest!: find_oracle_row
     intro!: ok_keep ok_success\<close>)
  done

lemma addrequest_ok:
  assumes "ok_balanced s"
  shows "ensures (addrequest E i k as r ag p t s) ok_balanced"
proof -
  have as: "ensures m P \<Longrightarrow> ensures (check_apis as m) P" for m :: "sys_state res" and P
    by (induction as) (auto intro: ensures_intros)
  show ?thesis
    unfolding addrequest_def check_response_type_def Let_def
    apply (rule ensures_intros as)+
    apply (use assms in \<open>auto simp: rget_Inr_iff dest!: find_oracle_row intro!: ok_keep\<close>)
    done
qed

lemma setoracle_ok: "ok_balanced s \<Longrightarrow> setoracle E p a s = Inr s' \<Longrightarrow> ok_balanced s'"
  by (auto simp: setoracle_def res_simps split: option.splits intro: ok_keep ok_new)

lemma claimrewards_ok:
  assumes "claimrewards E k s0 = Inr s'" "ok_balanced s0"
  shows "ok_balanced s'"
proof -
  obtain s v p ors n cs b w r s1 s2 where 0: "share_inflation E s0 = Inr s"
    and o: "ors = oracles s \<and> n = total_successful_requests s \<or> (\<exists>oc oc'. t_get (oracles s) k = Some oc \<and> successful_requests oc' = 0 \<and>
       ors = t_set k oc' (oracles s) \<and> n = u32 (total_successful_requests s - successful_requests oc))"
    and 1: "pay_from E cs ''eosio.bpay'' k b ''producer block pay'' (s\<lparr>vs := v, oracles := ors, total_successful_requests := n\<rparr>) = Inr s1"
    and 2: "pay_from E cs ''eosio.wpay'' k w ''producer witness pay'' s1 = Inr s2"
    and 3: "pay_from E cs ''eosio.oracle'' k r ''producer oracle pay'' s2 = Inr s'"
    by (rule claimrewards_shape [OF assms(1)])
  have pay: "oracles t' = oracles t \<and> total_successful_requests t' = total_successful_requests t"
    if "pay_from E cs f k x m t = Inr t'" for f x m t t'
    using that by (auto simp: pay_from_def res_simps split: if_splits)
  have "frame E UNIV {Bids} s0 s" by (rule ensuresD [OF frame_share_inflation 0]) (simp_all add: pay_may_def)
  then have s: "u32 (ok_sum s) = total_successful_requests s"
    using assms(2) frame_same [of E UNIV "{Bids}" s0 s Answers] ok_frame [of s s0] by (simp add: ok_balanced_def)
  have "u32 (t_sum (\<lambda>_ oc. successful_requests oc) ors) = n"
    using o
  proof (elim disjE exE conjE)
    fix oc oc' assume "t_get (oracles s) k = Some oc" "successful_requests oc' = 0" "ors = t_set k oc' (oracles s)"
      "n = u32 (total_successful_requests s - successful_requests oc)"
    then show ?thesis using u32_add(3) [of "ok_sum s" "successful_requests oc"] s by (simp add: ok_sum_def t_sum_set)
  qed (use s in \<open>simp add: ok_sum_def\<close>)
  then show ?thesis using pay [OF 1] pay [OF 2] pay [OF 3] by (simp add: ok_balanced_def ok_sum_def)
qed

lemma sys_exec_ok:
  assumes "ok_balanced s" "sys_exec E a s = Inr s'"
  shows "ok_balanced s'"
proof (cases "Answers \<in> sys_writes a")
  case True
  then consider (orc) b where "a = OracleAct b" | (claim) k where "a = PayAct (Claimrewards k)"
  proof (cases a)
    case (PayAct b) then show ?thesis using True that by (cases b) auto
  next
    case (RexAct b) then show ?thesis using True by (cases b) auto
  next
    case (AdminAct b) then show ?thesis using True by (cases b) auto
  next
    case (BwAct b) then show ?thesis using True by (cases b) auto
  next
    case (VoteAct b) then show ?thesis using True by (cases b) auto
  qed simp_all
  then show ?thesis
  proof cases
    case (orc b)
    then show ?thesis using assms
      by (cases b) (auto dest: ensuresD [OF reply_ok] ensuresD [OF addrequest_ok] setoracle_ok)
  next
    case (claim k)
    then show ?thesis using assms by (auto intro: claimrewards_ok)
  qed
next
  case False
  have F: "frame E UNIV (insert Bids (sys_writes a)) s s'" using assms(2) by (rule sys_exec_frame) auto
  have "same Answers E s s'" using False by (intro frame_same [OF F]) simp
  then show ?thesis using assms(1) ok_frame [of s' s] by simp
qed

interpretation answers: action_system sys_exec "\<lambda>_. True" ok_balanced
  by unfold_locales (rule sys_exec_ok)

text \<open>
  C22. Successful requests: in every reachable state the total that the oracles' bucket is shared out by
  is the sum of the successes of the oracles, modulo the wrap-around of 32-bit counters.
\<close>

theorem successes_accounted:
  assumes "reachable sys_exec (\<lambda>_. True) s0 s"
    and "total_successful_requests s0 = u32 (t_sum (\<lambda>_ oc. successful_requests oc) (oracles s0))"
  shows "total_successful_requests s = u32 (t_sum (\<lambda>_ oc. successful_requests oc) (oracles s))"
  using answers.reachable_inv [OF assms(1)] assms(2) by (simp add: ok_balanced_def ok_sum_def)

theorem successes_accounted_witness: "u32 (t_sum (\<lambda>_ oc. successful_requests oc) (oracles demo_answered)) = 4"
proof -
  have r: "reachable sys_exec (\<lambda>_. True) demo_asked demo_answered"
    by (rule reach_step [where exec = sys_exec and e = "sys_ref [8] 60000000" and a = "OracleAct (Reply 9 1 [4])", OF reach_init])
      (simp_all add: demo_reply)
  show ?thesis using successes_accounted [OF r]
    by (simp add: demo_asked_def demo_answered_def demo_oracle_def u32_def t_sum_set)
qed

end
