(* ===== verification/NameClaims.thy ===== *)
theory NameClaims
  imports Elections FundClaims
begin

text \<open>
  The properties of the auction of names: what a bid must offer, which auction closes, and who may
  create an account under a short name.
\<close>

section \<open>The highest bid\<close>

lemma index_sorted: "sorted_wrt (\<lambda>a b. \<not> (f b :: int) < f a) (t_index (\<lambda>a b. f a < f b) t)"
  unfolding t_index_def by (intro sorted_sort_by) (auto simp: weak_order_def)

lemma sorted_dropWhile: "sorted_wrt R xs \<Longrightarrow> sorted_wrt R (dropWhile P xs)"
  by (metis sorted_wrt_append takeWhile_dropWhile_id)

lemma in_dropWhile: "x \<in> set xs \<Longrightarrow> \<not> P x \<Longrightarrow> x \<in> set (dropWhile P xs)"
  by (induction xs) auto

definition bids_in_range :: "sys_state \<Rightarrow> bool" where
  "bids_in_range s \<longleftrightarrow> (\<forall>k r. t_get (namebids s) k = Some r \<longrightarrow> newname r = k \<and> \<bar>high_bid r\<bar> \<le> max_amount)"

text \<open>The key is the negated bid as an unsigned number: open auctions come after the closed ones, the highest bid first.\<close>

lemma by_high_bid_eq: "\<bar>high_bid r\<bar> \<le> max_amount \<Longrightarrow> by_high_bid r = (if 0 < high_bid r then 2 ^ 64 - high_bid r else - high_bid r)"
  using mod_pos_pos_trivial [of "- high_bid r" "2 ^ 64"] mod_pos_pos_trivial [of "high_bid r" "2 ^ 64"]
  by (auto simp: by_high_bid_def u64_def zmod_zminus1_eq_if max_amount_def)

lemma highest_bid_greatest:
  assumes "bids_in_range s" "highest_bid s = Some b" "t_get (namebids s) k = Some r" "0 < high_bid b"
  shows "high_bid r \<le> high_bid b"
proof (cases "0 < high_bid r")
  case True
  let ?xs = "t_index (\<lambda>a b. by_high_bid a < by_high_bid b) (namebids s)"
  have rr: "\<bar>high_bid r\<bar> \<le> max_amount" "\<bar>high_bid b\<bar> \<le> max_amount"
    using assms(1,3) highest_bid_row [OF assms(2)] by (auto simp: bids_in_range_def)
  obtain ys where ys: "dropWhile (\<lambda>b. by_high_bid b < 2 ^ 63 - 1) ?xs = b # ys"
    using assms(2) by (auto simp: highest_bid_def split: list.splits)
  have "r \<in> set (b # ys)"
    unfolding ys [symmetric] using assms(3) True rr(1) by (intro in_dropWhile) (auto simp: set_t_index by_high_bid_eq max_amount_def)
  moreover have "sorted_wrt (\<lambda>a b. \<not> by_high_bid b < by_high_bid a) (b # ys)"
    unfolding ys [symmetric] by (intro sorted_dropWhile index_sorted)
  ultimately have "by_high_bid b \<le> by_high_bid r" by auto
  then show ?thesis using True rr assms(4) by (simp add: by_high_bid_eq)
qed (use assms(4) in simp)

lemma highest_bid_exists:
  assumes "bids_in_range s" "t_get (namebids s) k = Some r" "0 < high_bid r"
  obtains b where "highest_bid s = Some b" "0 < high_bid b"
proof -
  let ?xs = "t_index (\<lambda>a b. by_high_bid a < by_high_bid b) (namebids s)"
  have rr: "\<bar>high_bid r\<bar> \<le> max_amount" using assms(1,2) by (auto simp: bids_in_range_def)
  have "r \<in> set (dropWhile (\<lambda>b. by_high_bid b < 2 ^ 63 - 1) ?xs)"
    using assms(2,3) rr by (intro in_dropWhile) (auto simp: set_t_index by_high_bid_eq max_amount_def)
  then obtain b ys where ys: "dropWhile (\<lambda>b. by_high_bid b < 2 ^ 63 - 1) ?xs = b # ys"
    by (metis list.set_cases)
  then have b: "highest_bid s = Some b" by (simp add: highest_bid_def)
  have "\<not> by_high_bid b < 2 ^ 63 - 1" using ys unfolding dropWhile_eq_Cons_conv by simp
  moreover have "\<bar>high_bid b\<bar> \<le> max_amount" using assms(1) highest_bid_row [OF b] by (auto simp: bids_in_range_def)
  ultimately have "0 < high_bid b" by (auto simp: by_high_bid_eq max_amount_def split: if_splits)
  then show ?thesis by (rule that [OF b])
qed

definition closable :: "sys_env \<Rightarrow> eosio_global_state \<Rightarrow> name_bid \<Rightarrow> bool" where
  "closable E g b \<longleftrightarrow> useconds_per_day < wrap64 (current_time E - last_bid_time b) \<and> 0 < thresh_activated_stake_time g \<and>
     14 * useconds_per_day < wrap64 (current_time E - thresh_activated_stake_time g)"

lemma close_auction_eq:
  "close_auction E slot s = (case highest_bid s of None \<Rightarrow> s | Some b \<Rightarrow>
     if 0 < high_bid b \<and> closable E (gst (vs s)) b
     then put_rx (channel_namebid_to_rex (high_bid b) (rx s)) ((put_gst ((gst (vs s))\<lparr>last_name_close := slot\<rparr>) s)
       \<lparr>namebids := t_set (newname b) (b\<lparr>high_bid := wrap64 (- high_bid b)\<rparr>) (namebids s)\<rparr>)
     else s)"
  unfolding close_auction_def Let_def closable_def by (auto split: option.split)

lemma close_auction_closes:
  assumes "bids_in_range s" "highest_bid s = Some b" "0 < high_bid b" "closable E (gst (vs s)) b"
  shows "t_get (namebids s) (newname b) = Some b"
    and "namebids (close_auction E slot s) = t_set (newname b) (b\<lparr>high_bid := - high_bid b\<rparr>) (namebids s)"
    and "rx (close_auction E slot s) = channel_namebid_to_rex (high_bid b) (rx s)"
proof -
  obtain k where k: "t_get (namebids s) k = Some b" using highest_bid_row [OF assms(2)] by blast
  then show n: "t_get (namebids s) (newname b) = Some b" using assms(1) by (auto simp: bids_in_range_def)
  have "\<bar>high_bid b\<bar> \<le> max_amount" using k assms(1) unfolding bids_in_range_def by blast
  then have w: "wrap64 (- high_bid b) = - high_bid b" using assms(3) by (intro wrap_small) (auto simp: max_amount_def)
  show "namebids (close_auction E slot s) = t_set (newname b) (b\<lparr>high_bid := - high_bid b\<rparr>) (namebids s)"
    "rx (close_auction E slot s) = channel_namebid_to_rex (high_bid b) (rx s)"
    using assms(2-4) w by (simp_all add: close_auction_eq put_rx_def)
qed

text \<open>
  C27. The end of an auction: either nothing happens, or the auction with the highest bid of all closes,
  its last bid being more than a day old and the chain active for more than 14 days, and its bid is
  negated and handed to REX. When every open auction is that old, one of them does close.
\<close>

theorem auction_closes:
  assumes "\<forall>k r. t_get (namebids s) k = Some r \<longrightarrow> newname r = k \<and> \<bar>high_bid r\<bar> \<le> max_amount"
    and "now = current_time E" and "active = thresh_activated_stake_time (gst (vs s))"
  shows "(close_auction E slot s = s \<or>
     (\<exists>n b. t_get (namebids s) n = Some b \<and> 0 < high_bid b \<and> (\<forall>k r. t_get (namebids s) k = Some r \<longrightarrow> high_bid r \<le> high_bid b) \<and>
        useconds_per_day < wrap64 (now - last_bid_time b) \<and> 0 < active \<and> 14 * useconds_per_day < wrap64 (now - active) \<and>
        namebids (close_auction E slot s) = t_set n (b\<lparr>high_bid := - high_bid b\<rparr>) (namebids s) \<and>
        rx (close_auction E slot s) = channel_namebid_to_rex (high_bid b) (rx s))) \<and>
     ((\<exists>k r. t_get (namebids s) k = Some r \<and> 0 < high_bid r) \<and>
      (\<forall>k r. t_get (namebids s) k = Some r \<and> 0 < high_bid r \<longrightarrow> useconds_per_day < wrap64 (now - last_bid_time r)) \<and>
      0 < active \<and> 14 * useconds_per_day < wrap64 (now - active) \<longrightarrow>
      (\<exists>n b. t_get (namebids s) n = Some b \<and> 0 < high_bid b \<and>
         namebids (close_auction E slot s) = t_set n (b\<lparr>high_bid := - high_bid b\<rparr>) (namebids s)))"
proof -
  have r: "bids_in_range s" using assms(1) by (simp add: bids_in_range_def)
  note c = closable_def assms(2,3)
  have 1: "close_auction E slot s = s \<or> (\<exists>b. highest_bid s = Some b \<and> 0 < high_bid b \<and> closable E (gst (vs s)) b)"
    by (auto simp: close_auction_eq split: option.split)
  have 2: "\<exists>n b. t_get (namebids s) n = Some b \<and> 0 < high_bid b \<and>
         namebids (close_auction E slot s) = t_set n (b\<lparr>high_bid := - high_bid b\<rparr>) (namebids s)"
    if kq: "t_get (namebids s) k = Some q" "0 < high_bid q"
      and old: "\<forall>k r. t_get (namebids s) k = Some r \<and> 0 < high_bid r \<longrightarrow> useconds_per_day < wrap64 (now - last_bid_time r)"
      and act: "0 < active" "14 * useconds_per_day < wrap64 (now - active)" for k q
  proof -
    obtain b where b: "highest_bid s = Some b" "0 < high_bid b" by (rule highest_bid_exists [OF r kq])
    have "closable E (gst (vs s)) b" using highest_bid_row [OF b(1)] b(2) old act by (auto simp: c)
    then show ?thesis using close_auction_closes [OF r b] b(2) by blast
  qed
  show ?thesis
  proof (intro conjI impI)
    show "close_auction E slot s = s \<or> (\<exists>n b. t_get (namebids s) n = Some b \<and> 0 < high_bid b \<and>
        (\<forall>k r. t_get (namebids s) k = Some r \<longrightarrow> high_bid r \<le> high_bid b) \<and>
        useconds_per_day < wrap64 (now - last_bid_time b) \<and> 0 < active \<and> 14 * useconds_per_day < wrap64 (now - active) \<and>
        namebids (close_auction E slot s) = t_set n (b\<lparr>high_bid := - high_bid b\<rparr>) (namebids s) \<and>
        rx (close_auction E slot s) = channel_namebid_to_rex (high_bid b) (rx s))"
      using 1
    proof (elim disjE exE conjE)
      fix b assume b: "highest_bid s = Some b" "0 < high_bid b" "closable E (gst (vs s)) b"
      show ?thesis
        using close_auction_closes [OF r b] highest_bid_greatest [OF r b(1) _ b(2)] b(2,3) unfolding c by blast
    qed blast
  qed (use 2 in blast)
qed

definition demo_closing :: sys_state where
  "demo_closing = demo_sys\<lparr>vs := (vs demo_sys)\<lparr>gst := (gst (vs demo_sys))\<lparr>thresh_activated_stake_time := 1\<rparr>\<rparr>,
     namebids := t_set 512 \<lparr>newname = 512, high_bidder = 8, high_bid = 100, last_bid_time = 0\<rparr>
       (t_set 1024 \<lparr>newname = 1024, high_bidder = 7, high_bid = 50, last_bid_time = 0\<rparr> t_empty)\<rparr>"

theorem auction_closes_witness:
  "\<exists>n b. t_get (namebids demo_closing) n = Some b \<and> 0 < high_bid b \<and>
     namebids (close_auction (sys_ref [] 2000000000000) 5 demo_closing) = t_set n (b\<lparr>high_bid := - high_bid b\<rparr>) (namebids demo_closing)"
proof -
  have 1: "\<forall>k r. t_get (namebids demo_closing) k = Some r \<longrightarrow> newname r = k \<and> \<bar>high_bid r\<bar> \<le> max_amount"
    by (auto simp: demo_closing_def max_amount_def split: if_splits)
  have 2: "t_get (namebids demo_closing) 512 = Some \<lparr>newname = 512, high_bidder = 8, high_bid = 100, last_bid_time = 0\<rparr>"
    by (simp add: demo_closing_def)
  have 3: "\<forall>k r. t_get (namebids demo_closing) k = Some r \<and> 0 < high_bid r \<longrightarrow> useconds_per_day < wrap64 (2000000000000 - last_bid_time r)"
    by (auto simp: demo_closing_def useconds_per_day_def wrap64_def split: if_splits)
  have 4: "2000000000000 = current_time (sys_ref [] 2000000000000)" "1 = thresh_activated_stake_time (gst (vs demo_closing))"
    "0 < (1::int)" "14 * useconds_per_day < wrap64 (2000000000000 - 1)" "0 < high_bid \<lparr>newname = 512, high_bidder = 8, high_bid = 100, last_bid_time = 0\<rparr>"
    by (simp_all add: demo_closing_def useconds_per_day_def wrap64_def)
  show ?thesis using auction_closes [OF 1 4(1,2), of 5] 2 3 4(3-) by blast
qed

section \<open>Bids\<close>

text \<open>
  C28. A bid is accepted only for a top-level name that is not an account, with a positive amount of the core
  token that exceeds an earlier bid by more than a tenth and comes from another account; it is then the
  highest bid, its tokens go to \<open>eosio.names\<close>, and the account that was outbid is owed its bid on top of
  what it was owed already.
\<close>

theorem bid_raises:
  assumes "bidname E bidder nm bid s = Inr s'" and "asset_laws E" and "amount bid < 2 ^ 63"
    and "\<forall>k r. t_get (namebids s) k = Some r \<longrightarrow> high_bid r < 2 ^ 63"
  shows "has_auth E bidder \<and> suffix E nm = nm \<and> \<not> is_account E nm \<and> sys_core s = Inr (symb bid) \<and> 0 < amount bid \<and>
     (\<exists>b. t_get (namebids s') nm = Some b \<and> high_bidder b = bidder \<and> high_bid b = amount bid \<and> last_bid_time b = current_time E) \<and>
     (\<exists>es memo. sys_out s' = sys_out s @ Inline (lit E ''eosio.token'') [at_active E bidder]
        (TokenTransfer bidder (lit E ''eosio.names'') bid memo) # es) \<and>
     (\<forall>old. t_get (namebids s) nm = Some old \<longrightarrow> 0 < high_bid old \<and> high_bid old < 10 * (amount bid - high_bid old) \<and>
        high_bidder old \<noteq> bidder \<and>
        (\<exists>due. t_get (bidrefunds s') (nm, high_bidder old) = Some due \<and>
           amount due = high_bid old + (case t_get (bidrefunds s) (nm, high_bidder old) of None \<Rightarrow> 0 | Some q \<Rightarrow> amount q)))"
proof -
  have tenth: "h < 10 * (a - h)" if "cdiv h 10 < wrap64 (a - h)" "0 < h" "0 < a" "a < 2 ^ 63" "h < 2 ^ 63" for a h
  proof -
    have "wrap64 (a - h) = a - h" using that(2-) by (intro wrap_small) auto
    then show ?thesis using that(1,2) by (simp add: cdiv_nonneg)
  qed
  show ?thesis
  proof (cases "t_get (namebids s) nm")
    case None
    then show ?thesis using assms(1) by (auto simp: bidname_def res_simps require_auth_Inr_iff Let_def send_transfer_def emit_def)
  next
    case (Some old)
    obtain cs bk due i d m where f: "has_auth E bidder" "suffix E nm = nm" "\<not> is_account E nm" "sys_core s = Inr cs" "symb bid = cs"
        "0 < amount bid" "0 < high_bid old" "cdiv (high_bid old) 10 < wrap64 (amount bid - high_bid old)" "high_bidder old \<noteq> bidder"
      and q: "asset_new E (high_bid old) cs = Inr bk"
        "(case t_get (bidrefunds s) (nm, high_bidder old) of None \<Rightarrow> Inr bk | Some x \<Rightarrow> asset_plus E x bk) = Inr due"
      and s': "s' = (emit (SendDeferred i bidder 0 d) (emit (CancelDeferred i) ((send_transfer E [bidder] bidder (lit E ''eosio.names'') bid m s)
          \<lparr>bidrefunds := t_set (nm, high_bidder old) due (bidrefunds s)\<rparr>)))
        \<lparr>namebids := t_set nm (old\<lparr>high_bidder := bidder, high_bid := amount bid, last_bid_time := current_time E\<rparr>) (namebids s)\<rparr>"
      using assms(1) Some by (auto simp: bidname_def res_simps require_auth_Inr_iff Let_def)
    have "amount due = high_bid old + (case t_get (bidrefunds s) (nm, high_bidder old) of None \<Rightarrow> 0 | Some x \<Rightarrow> amount x)"
      using q by (auto simp: asset_iffs [OF assms(2)] mk_asset_def split: option.splits)
    moreover have "high_bid old < 10 * (amount bid - high_bid old)"
      using f assms(3,4) Some by (intro tenth) auto
    ultimately show ?thesis using f Some by (simp add: s' send_transfer_def emit_def)
  qed
qed

theorem bid_raises_witness: "high_bid \<lparr>newname = 512, high_bidder = 8, high_bid = 100, last_bid_time = 0\<rparr> = 100 \<and>
    (\<exists>due. t_get (bidrefunds demo_outbid) (512, 8) = Some due \<and> amount due = 100)"
proof -
  have b: "bidname bid_env 7 512 (mk_asset 120 core_sym) demo_auction = Inr demo_outbid" using demo_outbid_runs by simp
  have l: "asset_laws bid_env" using sys_ok_bid by (simp add: sys_ok_def)
  show ?thesis using bid_raises [OF b l] by (auto simp: demo_auction_def)
qed

section \<open>Short names\<close>

text \<open>
  C29. An account with a dot in its name, or shorter than twelve characters, is created only by the system
  account, by the winner of its closed auction, whose row is used up, or by the account it is a sub-name
  of. An account with resources is not created, a new one starts with none of its quotas filled, and
  creating it again at once is refused, whoever does it.
\<close>

theorem newaccount_guards_names:
  assumes "newaccount E creator nm s = Inr s'"
  shows "(creator \<noteq> self_acct E \<and> has_dot nm \<longrightarrow>
       (if suffix E nm = nm
        then \<exists>b. t_get (namebids s) nm = Some b \<and> high_bidder b = creator \<and> high_bid b < 0 \<and> t_get (namebids s') nm = None
        else creator = suffix E nm)) \<and>
     t_get (userres (bw s)) nm = None \<and> limits (bw s') nm = (0, 0, 0) \<and>
     (\<exists>r. t_get (userres (bw s')) nm = Some r \<and> amount (net_weight r) = 0 \<and> amount (cpu_weight r) = 0 \<and> ram_bytes r = 0) \<and>
     (\<forall>s''. newaccount E' creator' nm s' \<noteq> Inr s'')"
  using assms
  by (auto simp: newaccount_def res_simps set_resource_limits_def mk_asset_def split: if_splits)

definition demo_won :: sys_state where
  "demo_won = demo_sys\<lparr>namebids := t_set 512 \<lparr>newname = 512, high_bidder = 7, high_bid = - 100, last_bid_time = 0\<rparr> t_empty\<rparr>"

lemma demo_dot: "has_dot 512"
  by (simp add: has_dot_def upt_rec)

lemma demo_new_runs: "\<exists>s'. newaccount (sys_ref [7] 0) 7 512 demo_won = Inr s'"
  by (simp add: newaccount_def demo_won_def demo_dot sys_core_def t_emplace_def)

theorem newaccount_guards_names_witness:
  "\<exists>s'. newaccount (sys_ref [7] 0) 7 512 demo_won = Inr s' \<and> t_get (namebids s') 512 = None \<and> limits (bw s') 512 = (0, 0, 0)"
proof -
  obtain s' where s': "newaccount (sys_ref [7] 0) 7 512 demo_won = Inr s'" using demo_new_runs by blast
  show ?thesis using newaccount_guards_names [OF s'] s' demo_dot by (auto split: if_splits)
qed

end
