(* ===== verification/RegistryClaims.thy ===== *)
theory RegistryClaims
  imports DappRegistry
begin

text \<open>
  The properties of the registry of DApps: a linked account always has a DApp to send its transfers to,
  and the totals that the rewards are shared out by cover what the DApps have earned.
\<close>

section \<open>Linked accounts\<close>

definition links_ok :: "registry_state \<Rightarrow> bool" where
  "links_ok s \<longleftrightarrow> (\<forall>a d. t_get (dapp_accounts s) a = Some d \<longrightarrow> t_has (dapps s) d)"

lemma remove_links:
  assumes "links_ok s" "remove_dapp E d s = Inr s'"
  shows "links_ok s'"
proof -
  have "\<forall>x \<in> snd ` set (t_list (dapp_accounts s)). x \<noteq> d" and s': "s' = s\<lparr>dapps := t_del d (dapps s)\<rparr>"
    using assms(2) by (simp_all add: remove_dapp_def res_simps require_auth_Inr_iff)
  then have "t_get (dapp_accounts s) a \<noteq> Some d" for a by (force simp: t_get_iff_list)
  then show ?thesis using assms(1) by (auto simp: links_ok_def s')
qed

lemma linkacc_Inr_iff:
  "linkacc E d a s = Inr s' \<longleftrightarrow> has_auth E (self_acct E) \<and> t_has (dapps s) d \<and> t_get (dapp_accounts s) a = None \<and>
     s' = s\<lparr>dapp_accounts := t_set a d (dapp_accounts s)\<rparr>"
  by (auto simp: linkacc_def res_simps require_auth_Inr_iff t_has_def)

lemma add_Inr_iff:
  "add_dapp E ow d p s = Inr s' \<longleftrightarrow> has_auth E (self_acct E) \<and> 0 \<le> p \<and> p < pref_MaxVal \<and> t_get (dapps s) d = None \<and>
     t_get (dapp_accounts s) ow = None \<and>
     s' = s\<lparr>dapps := t_set d \<lparr>dapp_owner = ow, preference = p, users = {}, incoming_transfers_volume = 0, total_earned = 0,
              d_last_claim_time = current_time E\<rparr> (dapps s),
            dapp_accounts := t_set ow d (dapp_accounts s)\<rparr>"
  by (auto simp: add_dapp_def check_preference_def linkacc_Inr_iff res_simps require_auth_Inr_iff t_has_def)

lemma registry_links: "links_ok s \<Longrightarrow> registry_exec E a s = Inr s' \<Longrightarrow> links_ok s'"
proof (cases a)
  case (Remove d)
  then show "links_ok s \<Longrightarrow> registry_exec E a s = Inr s' \<Longrightarrow> links_ok s'" by (auto intro: remove_links)
qed (auto simp: links_ok_def linkacc_Inr_iff add_Inr_iff unlinkacc_def reg_transfer_def ontransfer_def claim_def setrewrate_def setclaimprd_def
    Let_def res_simps require_auth_Inr_iff split: if_splits)

interpretation links: action_system registry_exec "\<lambda>_. True" links_ok
  by unfold_locales (rule registry_links)

text \<open>
  C30. Links of the registry: from the empty registry on, every linked account belongs to a registered
  DApp, so that a token transfer to a linked account is always recorded for this DApp and never refused.
\<close>

theorem links_never_dangle:
  assumes "reachable registry_exec (\<lambda>_. True) registry_init s" and "t_get (dapp_accounts s) acct = Some dapp"
  shows "\<exists>d s'. t_get (dapps s) dapp = Some d \<and> reg_transfer E sender acct q memo s = Inr s' \<and>
     (sender \<noteq> self_acct E \<and> acct \<noteq> self_acct E \<and> sender \<noteq> lit E ''eosio.dpay'' \<longrightarrow>
        reg_out s' = reg_out s @ [Inline (self_acct E) [at_perm E (dapp_owner d) ''custom'', at_active E (self_acct E)]
          (RegistryOntransfer dapp sender q)])"
proof -
  have "links_ok s" by (rule links.reachable_inv [OF assms(1)]) (simp add: links_ok_def registry_init_def)
  then obtain d where "t_get (dapps s) dapp = Some d" using assms(2) by (auto simp: links_ok_def t_has_def)
  then show ?thesis using assms(2) by (auto simp: reg_transfer_def)
qed

definition demo_dapp :: dapp_info where
  "demo_dapp = \<lparr>dapp_owner = 7, preference = 0, users = {}, incoming_transfers_volume = 0, total_earned = 0, d_last_claim_time = 0\<rparr>"

definition demo_registered :: registry_state where
  "demo_registered = registry_init\<lparr>dapps := t_set 100 demo_dapp t_empty, dapp_accounts := t_set 7 100 t_empty\<rparr>"

lemma demo_add_dapp: "registry_exec (ref_env 50 [50, 7] 0) (Add 7 100 0) registry_init = Inr demo_registered"
  by (simp add: add_Inr_iff demo_registered_def demo_dapp_def registry_init_def pref_MaxVal_def)

theorem links_never_dangle_witness:
  "\<exists>d s'. t_get (dapps demo_registered) 100 = Some d \<and>
     reg_transfer (ref_env 50 [] 0) 9 7 (mk_asset 5 \<lparr>sym_code = 5, sym_precision = 4\<rparr>) [] demo_registered = Inr s' \<and> length (reg_out s') = 1"
proof -
  have r: "reachable registry_exec (\<lambda>_. True) registry_init demo_registered"
    by (rule reach_step [where exec = registry_exec and e = "ref_env 50 [50, 7] 0" and a = "Add 7 100 0", OF reach_init])
      (simp_all add: demo_add_dapp del: registry_exec.simps)
  have a: "t_get (dapp_accounts demo_registered) 7 = Some 100" by (simp add: demo_registered_def)
  obtain d s' where l: "t_get (dapps demo_registered) 100 = Some d"
    "reg_transfer (ref_env 50 [] 0) 9 7 (mk_asset 5 \<lparr>sym_code = 5, sym_precision = 4\<rparr>) [] demo_registered = Inr s'"
    and o: "9 \<noteq> self_acct (ref_env 50 [] 0) \<and> 7 \<noteq> self_acct (ref_env 50 [] 0) \<and> 9 \<noteq> lit (ref_env 50 [] 0) ''eosio.dpay'' \<longrightarrow>
      reg_out s' = reg_out demo_registered @ [Inline (self_acct (ref_env 50 [] 0))
        [at_perm (ref_env 50 [] 0) (dapp_owner d) ''custom'', at_active (ref_env 50 [] 0) (self_acct (ref_env 50 [] 0))]
        (RegistryOntransfer 100 9 (mk_asset 5 \<lparr>sym_code = 5, sym_precision = 4\<rparr>))]"
    using links_never_dangle [OF r a, where sender = 9 and E = "ref_env 50 [] 0"] by blast
  have "length (reg_out s') = 1" using o by (simp add: demo_registered_def registry_init_def)
  then show ?thesis using l by blast
qed

section \<open>Totals\<close>

text \<open>
  The calls of the registry within the range of its 64-bit counters: a transfer of tokens has an amount
  that is not negative, and the totals do not overflow.
\<close>

definition registry_step :: "env \<Rightarrow> registry_action \<Rightarrow> registry_state \<Rightarrow> registry_state res" where
  "registry_step E a s =
     check (case a of Ontransfer d u q \<Rightarrow> 0 \<le> amount q \<and> total_unpaid_transactions (config s) + amount q < 2 ^ 63 \<and>
              total_unpaid_users (config s) + 1 < 2 ^ 63 | _ \<Rightarrow> True) ''range'' (registry_exec E a s)"

definition volume :: "dapp_info \<Rightarrow> int" where
  "volume d = (if preference d = TokenCirculation then incoming_transfers_volume d else 0)"

definition user_count :: "dapp_info \<Rightarrow> int" where
  "user_count d = (if preference d = UniqueUsers then int (card (users d)) else 0)"

definition covered_totals :: "registry_state \<Rightarrow> bool" where
  "covered_totals s \<longleftrightarrow> t_sum (\<lambda>_ d. volume d) (dapps s) \<le> total_unpaid_transactions (config s) \<and>
     t_sum (\<lambda>_ d. user_count d) (dapps s) \<le> total_unpaid_users (config s) \<and>
     total_unpaid_transactions (config s) < 2 ^ 63 \<and> total_unpaid_users (config s) < 2 ^ 63 \<and>
     (\<forall>k d. t_get (dapps s) k = Some d \<longrightarrow> 0 \<le> incoming_transfers_volume d)"

lemma covered_row:
  assumes "covered_totals s" "t_get (dapps s) k = Some d"
  shows "0 \<le> volume d" "volume d \<le> total_unpaid_transactions (config s)" "0 \<le> user_count d" "user_count d \<le> total_unpaid_users (config s)"
proof -
  have v: "0 \<le> volume q" if "t_get (dapps s) j = Some q" for j q
    using assms(1) that by (auto simp: covered_totals_def volume_def)
  show "0 \<le> volume d" "0 \<le> user_count d" using v [OF assms(2)] by (simp_all add: user_count_def)
  have "volume d \<le> t_sum (\<lambda>_ d. volume d) (dapps s)" by (rule tab.total_le_row [OF _ assms(2)]) (rule v)
  moreover have "user_count d \<le> t_sum (\<lambda>_ d. user_count d) (dapps s)"
    by (rule tab.total_le_row [OF _ assms(2)]) (simp add: user_count_def)
  ultimately show "volume d \<le> total_unpaid_transactions (config s)" "user_count d \<le> total_unpaid_users (config s)"
    using assms(1) by (simp_all add: covered_totals_def)
qed

text \<open>A row is changed and the totals with it.\<close>

lemma covered_put:
  assumes "covered_totals s" "t_get (dapps s) k = Some d"
    and "total_unpaid_transactions c' = total_unpaid_transactions (config s) + volume d' - volume d"
    and "total_unpaid_users c' = total_unpaid_users (config s) + user_count d' - user_count d"
    and "total_unpaid_transactions c' < 2 ^ 63" "total_unpaid_users c' < 2 ^ 63"
    and "0 \<le> incoming_transfers_volume d'"
  shows "covered_totals (s\<lparr>dapps := t_set k d' (dapps s), config := c'\<rparr>)"
  using assms by (auto simp: covered_totals_def t_sum_set)

lemma covered_config:
  "covered_totals s \<Longrightarrow> dapps s' = dapps s \<Longrightarrow> total_unpaid_transactions (config s') = total_unpaid_transactions (config s) \<Longrightarrow>
   total_unpaid_users (config s') = total_unpaid_users (config s) \<Longrightarrow> covered_totals s'"
  by (simp add: covered_totals_def)

lemma ontransfer_covered:
  assumes "covered_totals s" "ontransfer E k u q s = Inr s'" "0 \<le> amount q"
    "total_unpaid_transactions (config s) + amount q < 2 ^ 63" "total_unpaid_users (config s) + 1 < 2 ^ 63"
  shows "covered_totals s'"
proof -
  let ?c = "config s"
  obtain d where d: "t_get (dapps s) k = Some d" and s': "s' = (if preference d = TokenCirculation
       then s\<lparr>dapps := t_set k (d\<lparr>incoming_transfers_volume := wrap64 (incoming_transfers_volume d + amount q)\<rparr>) (dapps s),
              config := ?c\<lparr>total_unpaid_transactions := wrap64 (total_unpaid_transactions ?c + amount q)\<rparr>\<rparr>
       else if preference d = UniqueUsers
       then s\<lparr>dapps := t_set k (d\<lparr>users := insert u (users d)\<rparr>) (dapps s),
              config := ?c\<lparr>total_unpaid_users := wrap64 (total_unpaid_users ?c + (if u \<in> users d then 0 else 1))\<rparr>\<rparr>
       else s)"
    using assms(2) by (auto simp: ontransfer_def res_simps require_auth_Inr_iff Let_def)
  note row = covered_row [OF assms(1) d]
  have r: "0 \<le> incoming_transfers_volume d" using assms(1) d by (simp add: covered_totals_def)
  have p: "UniqueUsers \<noteq> TokenCirculation" by (simp add: UniqueUsers_def TokenCirculation_def)
  consider (vol) "preference d = TokenCirculation" | (usr) "preference d = UniqueUsers" "preference d \<noteq> TokenCirculation"
    | (none) "s' = s" using s' by argo
  then show ?thesis
  proof cases
    case vol
    then have v: "volume d = incoming_transfers_volume d" by (simp add: volume_def)
    have w: "wrap64 (incoming_transfers_volume d + amount q) = incoming_transfers_volume d + amount q"
      "wrap64 (total_unpaid_transactions ?c + amount q) = total_unpaid_transactions ?c + amount q"
      using row(1,2) assms(3,4) unfolding v by (auto intro!: wrap_small)
    show ?thesis
      using vol covered_put [OF assms(1) d, of "?c\<lparr>total_unpaid_transactions := total_unpaid_transactions ?c + amount q\<rparr>"
          "d\<lparr>incoming_transfers_volume := incoming_transfers_volume d + amount q\<rparr>"] assms(1,3,4) r
      by (simp add: s' w volume_def user_count_def covered_totals_def p)
  next
    case usr
    define n where "n = (if u \<in> users d then 0 else 1 :: int)"
    have "wrap64 (total_unpaid_users ?c + n) = total_unpaid_users ?c + n"
      using row(3,4) assms(5) by (intro wrap_small) (auto simp: n_def)
    moreover have "int (card (insert u (users d))) = int (card (users d)) + n"
      by (simp add: n_def insert_absorb)
    ultimately show ?thesis
      using usr covered_put [OF assms(1) d, of "?c\<lparr>total_unpaid_users := total_unpaid_users ?c + n\<rparr>"
          "d\<lparr>users := insert u (users d)\<rparr>"] assms(1,5) r
      by (simp add: s' n_def [symmetric] volume_def user_count_def covered_totals_def) (simp add: n_def)
  qed (use assms(1) in simp)
qed

lemma claim_covered:
  assumes "covered_totals s" "claim E ow k n s = Inr s'"
  shows "covered_totals s'"
proof -
  let ?c = "config s"
  obtain d te t where d: "t_get (dapps s) k = Some d" and s': "s' = (let d1 = d\<lparr>total_earned := te, d_last_claim_time := t\<rparr> in
       if preference d = TokenCirculation
       then s\<lparr>dapps := t_set k (d1\<lparr>incoming_transfers_volume := 0\<rparr>) (dapps s),
              config := ?c\<lparr>total_unpaid_transactions := wrap64 (total_unpaid_transactions ?c - incoming_transfers_volume d)\<rparr>\<rparr>
       else if preference d = UniqueUsers
       then s\<lparr>dapps := t_set k (d1\<lparr>users := {}\<rparr>) (dapps s),
              config := ?c\<lparr>total_unpaid_users := wrap64 (total_unpaid_users ?c - int (card (users d)))\<rparr>\<rparr>
       else s\<lparr>dapps := t_set k d1 (dapps s)\<rparr>)"
    using assms(2) by (auto simp: claim_def res_simps require_auth_Inr_iff Let_def)
  note row = covered_row [OF assms(1) d]
  have c: "0 \<le> incoming_transfers_volume d" "total_unpaid_transactions ?c < 2 ^ 63" "total_unpaid_users ?c < 2 ^ 63"
    using assms(1) d by (auto simp: covered_totals_def)
  have w: "wrap64 (total_unpaid_transactions ?c - volume d) = total_unpaid_transactions ?c - volume d"
    "wrap64 (total_unpaid_users ?c - user_count d) = total_unpaid_users ?c - user_count d"
    using row c(2,3) by (auto intro!: wrap_small)
  have "covered_totals (s\<lparr>dapps := t_set k d' (dapps s), config := ?c\<lparr>total_unpaid_transactions := total_unpaid_transactions ?c + volume d' - volume d,
       total_unpaid_users := total_unpaid_users ?c + user_count d' - user_count d\<rparr>\<rparr>)"
    if "volume d' \<le> volume d" "user_count d' \<le> user_count d" "0 \<le> incoming_transfers_volume d'" for d'
    using that c by (intro covered_put [OF assms(1) d]) auto
  from this [of "if preference d = TokenCirculation then d\<lparr>total_earned := te, d_last_claim_time := t, incoming_transfers_volume := 0\<rparr>
     else if preference d = UniqueUsers then d\<lparr>total_earned := te, d_last_claim_time := t, users := {}\<rparr>
     else d\<lparr>total_earned := te, d_last_claim_time := t\<rparr>"]
  show ?thesis using c(1) row w unfolding s' Let_def
    by (cases "preference d = TokenCirculation"; cases "preference d = UniqueUsers")
      (simp_all add: volume_def user_count_def TokenCirculation_def UniqueUsers_def)
qed

lemma registry_step_covered:
  assumes "covered_totals s" "registry_step E a s = Inr s'"
  shows "covered_totals s'"
proof (cases a)
  case (Add ow k p)
  then show ?thesis using assms
    by (auto simp: registry_step_def add_Inr_iff res_simps covered_totals_def t_sum_set volume_def user_count_def)
next
  case (Remove k)
  obtain d where d: "t_get (dapps s) k = Some d" and s': "s' = s\<lparr>dapps := t_del k (dapps s)\<rparr>"
    using assms(2) Remove by (auto simp: registry_step_def remove_dapp_def res_simps require_auth_Inr_iff)
  then show ?thesis using covered_row [OF assms(1) d] assms(1) by (auto simp: s' covered_totals_def t_sum_del)
next
  case (Ontransfer k u q)
  then show ?thesis using assms by (auto simp: registry_step_def res_simps intro: ontransfer_covered)
next
  case (Claim ow k n)
  then show ?thesis using assms by (auto simp: registry_step_def res_simps intro: claim_covered)
qed (use assms in \<open>auto simp: registry_step_def linkacc_Inr_iff unlinkacc_def reg_transfer_def setrewrate_def setclaimprd_def
    res_simps require_auth_Inr_iff split: if_splits intro: covered_config\<close>)

interpretation totals: action_system registry_step "\<lambda>_. True" covered_totals
  by unfold_locales (rule registry_step_covered)

text \<open>
  C31. Totals of the registry: as long as its 64-bit counters do not overflow, the volume of a DApp that is
  paid by circulation, and the users of one that is paid by users, are at most the total they are divided
  by: no share of the rewards exceeds the whole, and the totals never become negative.
\<close>

theorem registry_totals_cover:
  assumes "reachable registry_step (\<lambda>_. True) registry_init s"
  shows "t_sum (\<lambda>_ d. if preference d = TokenCirculation then incoming_transfers_volume d else 0) (dapps s)
        \<le> total_unpaid_transactions (config s) \<and>
     t_sum (\<lambda>_ d. if preference d = UniqueUsers then int (card (users d)) else 0) (dapps s) \<le> total_unpaid_users (config s) \<and>
     (\<forall>k d. t_get (dapps s) k = Some d \<and> preference d = TokenCirculation \<longrightarrow>
        0 \<le> incoming_transfers_volume d \<and> incoming_transfers_volume d \<le> total_unpaid_transactions (config s)) \<and>
     (\<forall>k d. t_get (dapps s) k = Some d \<and> preference d = UniqueUsers \<longrightarrow> int (card (users d)) \<le> total_unpaid_users (config s))"
proof -
  have c: "covered_totals s"
    by (rule totals.reachable_inv [OF assms]) (simp add: covered_totals_def registry_init_def)
  then show ?thesis
    using covered_row [OF c] by (auto simp: covered_totals_def volume_def [abs_def] user_count_def [abs_def] split: if_splits) force+
qed

definition demo_counted :: registry_state where
  "demo_counted = demo_registered\<lparr>dapps := t_set 100 (demo_dapp\<lparr>incoming_transfers_volume := 5\<rparr>) (dapps demo_registered),
     config := (config demo_registered)\<lparr>total_unpaid_transactions := 5\<rparr>\<rparr>"

lemma demo_count:
  "registry_step (ref_env 50 [50, 7] 0) (Ontransfer 100 9 \<lparr>amount = 5, symb = \<lparr>sym_code = 5, sym_precision = 4\<rparr>\<rparr>) demo_registered =
     Inr demo_counted"
  by (simp add: registry_step_def ontransfer_def require_auth_def demo_counted_def demo_registered_def demo_dapp_def registry_init_def
      TokenCirculation_def wrap64_def Let_def)

theorem registry_totals_cover_witness: "t_get (dapps demo_counted) 100 = Some (demo_dapp\<lparr>incoming_transfers_volume := 5\<rparr>) \<and>
     5 \<le> total_unpaid_transactions (config demo_counted)"
proof -
  have "reachable registry_step (\<lambda>_. True) registry_init demo_registered"
    by (rule reach_step [where exec = registry_step and e = "ref_env 50 [50, 7] 0" and a = "Add 7 100 0", OF reach_init])
      (simp_all add: registry_step_def demo_add_dapp del: registry_exec.simps)
  then have r: "reachable registry_step (\<lambda>_. True) registry_init demo_counted"
    by (rule reach_step) (simp, rule demo_count)
  have "t_get (dapps demo_counted) 100 = Some (demo_dapp\<lparr>incoming_transfers_volume := 5\<rparr>)" by (simp add: demo_counted_def)
  then show ?thesis using registry_totals_cover [OF r] by (fastforce simp: demo_dapp_def TokenCirculation_def)
qed

end
