(* ===== verification/Delivery.thy ===== *)
theory Delivery
  imports TokenProps RexSys
begin

text \<open>
  What the actions of the token contract, and the inline actions of an outbox that it executes, do to the
  balance of an account: a transfer moves it as the outbox says, and an account that did not sign a direct
  call does not lose tokens.
\<close>

section \<open>What an action of the token contract does to a balance\<close>

lemma transfer_bal:
  assumes "asset_laws E" "token_inv s" "transfer E f t q m s = Inr s'"
  shows "bal_of c s' a = bal_of c s a + (if sym_code (symb q) = c then (if t = a then amount q else 0) - (if f = a then amount q else 0) else 0)"
    and "f \<noteq> t" "0 < amount q" "stats s' = stats s"
proof -
  show f: "f \<noteq> t" "0 < amount q" using assms(3) by (auto elim: transfer_Inr)
  note T = transfer_spec [OF assms]
  show "stats s' = stats s" by (rule T(5))
  show "bal_of c s' a = bal_of c s a + (if sym_code (symb q) = c then (if t = a then amount q else 0) - (if f = a then amount q else 0) else 0)"
  proof (cases "sym_code (symb q) = c")
    case True
    then show ?thesis using T(2) f(1) by auto
  next
    case False
    then show ?thesis using T(6) [of c a] by (simp add: bal_of_def)
  qed
qed

text \<open>The token \<open>c\<close> exists, was created by \<open>i\<close> and its maximum supply is at most \<open>m\<close>.\<close>

definition stat_is :: "64 word \<Rightarrow> name \<Rightarrow> int \<Rightarrow> token_state \<Rightarrow> bool" where
  "stat_is c i m s \<longleftrightarrow> (\<exists>st. t_get (stats s) c = Some st \<and> st_issuer st = i \<and> amount (st_max_supply st) \<le> m)"

lemma issue_bal:
  assumes "asset_laws E" "token_inv s" "issue E to q m s = Inr s'"
  obtains i n where "stat_is (sym_code (symb q)) i n s" "has_auth E i"
    "bal_of c s' a = bal_of c s a + (if sym_code (symb q) = c \<and> a = i then amount q else 0)" "0 < amount q"
    "stat_is c j m0 s \<Longrightarrow> stat_is c j m0 s'"
    "tok_out s' = tok_out s \<or> (\<exists>code ps. tok_out s' = tok_out s @ [Inline code ps (TokenTransfer i to q m)])"
proof -
  let ?c = "sym_code (symb q)"
  obtain st s1 where st: "t_get (stats s) ?c = Some st" "has_auth E (st_issuer st)" "0 < amount q"
    and add: "add_balance E (st_issuer st) q (st_issuer st) (s\<lparr>stats := t_set ?c
         (st\<lparr>st_supply := mk_asset (amount (st_supply st) + amount q) (symb q)\<rparr>) (stats s)\<rparr>) = Inr s1"
    and y: "symb q = symb (st_supply st)"
    and s': "s' = (if to \<noteq> st_issuer st
           then tok_emit (Inline (self_acct E) [at_active E (st_issuer st)] (TokenTransfer (st_issuer st) to q m)) s1 else s1)"
    using assms by (rule issue_Inr)
  have "acct_inv (symb q) (s\<lparr>stats := t_set ?c (st\<lparr>st_supply := mk_asset (amount (st_supply st) + amount q) (symb q)\<rparr>) (stats s)\<rparr>)"
    using token_invD(2) [OF assms(2) st(1)] y by simp
  note A = add_balance_spec [OF assms(1) this st(3) add]
  show ?thesis
  proof (rule that [of "st_issuer st"])
    show "bal_of c s' a = bal_of c s a + (if ?c = c \<and> a = st_issuer st then amount q else 0)"
    proof (cases "?c = c")
      case True
      then show ?thesis using A(1) by (auto simp: s')
    next
      case False
      then show ?thesis using A(5) [of c a] by (simp add: s' bal_of_def tok_emit_def)
    qed
    show "stat_is c j m0 s \<Longrightarrow> stat_is c j m0 s'" using st(1) by (auto simp: stat_is_def s' A(4) split: if_splits)
    show "stat_is ?c (st_issuer st) (amount (st_max_supply st)) s" using st(1) by (simp add: stat_is_def)
  qed (use st in \<open>auto simp: s' A(7) tok_emit_def\<close>)
qed

text \<open>An inline action moves the balance of an account that is not the issuer as the outbox says.\<close>

definition of_token :: "64 word \<Rightarrow> effect list \<Rightarrow> bool" where
  "of_token c es \<longleftrightarrow> (\<forall>e \<in> set es. case effect_transfer e of None \<Rightarrow> True | Some (f, t, q) \<Rightarrow> sym_code (symb q) = c)"

lemma effect_other [simp]: "effect_transfer (Inline code ps (TokenIssue t q m)) = None" "effect_transfer (Inline code ps (TokenOpen ow y p)) = None"
  by (simp_all add: effect_transfer_def)

lemma inline_bal:
  assumes "asset_laws T" "token_inv s" "token_inline T e s = Inr s'" "of_token c [e]" "stat_is c i n s" "a \<noteq> i"
  shows "bal_of c s' a = bal_of c s a + moved_in a [e] - moved_out a [e]" "transfers_ok [e]" "stat_is c i n s'"
proof -
  consider (tr) code ps f t q m where "e = Inline code ps (TokenTransfer f t q m)"
    | (iss) code ps t q m where "e = Inline code ps (TokenIssue t q m)"
    | (opn) code ps ow y p where "e = Inline code ps (TokenOpen ow y p)"
    | (other) "effect_transfer e = None" "s' = s"
    using assms(3) by (cases e; cases "case e of Inline _ _ x \<Rightarrow> x | _ \<Rightarrow> TokenOpen 0 undefined 0") (auto simp: effect_transfer_def)
  then have "bal_of c s' a = bal_of c s a + moved_in a [e] - moved_out a [e] \<and> transfers_ok [e] \<and> stat_is c i n s'"
  proof cases
    case tr
    then have t: "transfer (inline_env T ps) f t q m s = Inr s'" and "sym_code (symb q) = c"
      using assms(3,4) by (auto simp: of_token_def)
    then show ?thesis
      using transfer_bal [OF _ assms(2) t] assms(1,5) tr by (simp add: moved_one transfers_ok_one stat_is_def)
  next
    case iss
    then have t: "issue (inline_env T ps) t q m s = Inr s'" using assms(3) by simp
    obtain j k where j: "stat_is (sym_code (symb q)) j k s"
      "bal_of c s' a = bal_of c s a + (if sym_code (symb q) = c \<and> a = j then amount q else 0)"
      "stat_is c i n s \<Longrightarrow> stat_is c i n s'"
      by (rule issue_bal [OF _ assms(2) t, where c = c and a = a and j = i and ?m0.0 = n]) (use assms(1) in auto)
    have "\<not> (sym_code (symb q) = c \<and> a = j)" using j(1) assms(5,6) by (auto simp: stat_is_def)
    then show ?thesis using j(2,3) assms(5) iss by (auto simp: moved_one transfers_ok_one)
  next
    case opn
    then show ?thesis using assms(3,5) open_close_bal(1) [of "inline_env T ps" ow y p s s' c]
      by (simp add: moved_one transfers_ok_one stat_is_def)
  qed (use assms(5) in \<open>simp add: moved_one transfers_ok_one\<close>)
  then show "bal_of c s' a = bal_of c s a + moved_in a [e] - moved_out a [e]" "transfers_ok [e]" "stat_is c i n s'" by auto
qed

lemma outbox_bal:
  assumes "asset_laws T" "rfold (token_inline T) es s = Inr s'" "token_inv s" "of_token c es" "stat_is c i n s" "a \<noteq> i"
  shows "bal_of c s' a = bal_of c s a + moved_in a es - moved_out a es \<and> transfers_ok es \<and> stat_is c i n s' \<and> token_inv s'"
  using assms(2-)
proof (induction es arbitrary: s)
  case (Cons e es)
  obtain s1 where 1: "token_inline T e s = Inr s1" "rfold (token_inline T) es s1 = Inr s'"
    using Cons.prems(1) by (auto simp: res_simps)
  have o: "of_token c [e]" "of_token c es" using Cons.prems(3) by (simp_all add: of_token_def)
  note I = inline_bal [OF assms(1) Cons.prems(2) 1(1) o(1) Cons.prems(4,5)]
  have "token_inv s1" by (rule token_inline_inv [OF assms(1) Cons.prems(2) 1(1)])
  note R = Cons.IH [OF 1(2) this o(2) I(3) Cons.prems(5)]
  show ?case
    using I R moved_append(1) [of a "[e]" es] moved_append(2) [of a "[e]" es] transfers_ok_append(1) [of "[e]" es] by auto
qed simp

section \<open>Direct calls\<close>

text \<open>Whoever calls the token contract, an account that did not sign does not lose tokens.\<close>

lemma inline_keeps:
  assumes "asset_laws T" "token_inv s" "token_inline T e s = Inr s'" "stat_is c i n s"
  shows "stat_is c i n s' \<and> ((\<forall>f t q. effect_transfer e = Some (f, t, q) \<longrightarrow> f \<noteq> a) \<longrightarrow> bal_of c s a \<le> bal_of c s' a)"
proof -
  consider (tr) code ps f t q m where "e = Inline code ps (TokenTransfer f t q m)"
    | (iss) code ps t q m where "e = Inline code ps (TokenIssue t q m)"
    | (opn) code ps ow y p where "e = Inline code ps (TokenOpen ow y p)"
    | (other) "s' = s"
    using assms(3) by (cases e; cases "case e of Inline _ _ x \<Rightarrow> x | _ \<Rightarrow> TokenOpen 0 undefined 0") auto
  then show ?thesis
  proof cases
    case tr
    then have t: "transfer (inline_env T ps) f t q m s = Inr s'" using assms(3) by simp
    then show ?thesis
      using transfer_bal(1) [OF _ assms(2) t, of c a] transfer_bal(3,4) [OF _ assms(2) t] assms(1,4) tr by (auto simp: stat_is_def)
  next
    case iss
    then have t: "issue (inline_env T ps) t q m s = Inr s'" using assms(3) by simp
    show ?thesis
      by (rule issue_bal [OF _ assms(2) t, where c = c and a = a and j = i and ?m0.0 = n]) (use assms(1,4) in \<open>auto split: if_splits\<close>)
  next
    case opn
    then show ?thesis using assms(3,4) open_close_bal(1) [of "inline_env T ps" ow y p s s' c] by (simp add: stat_is_def)
  qed (use assms(4) in simp)
qed

lemma debit_keeps:
  assumes "asset_laws T" "token_inv s" "t_get (stats s) (sym_code (symb q)) = Some st" "has_auth T (st_issuer st)"
    "0 < amount q" "symb q = symb (st_supply st)"
    "sub_balance T (st_issuer st) q (s\<lparr>stats := t_set (sym_code (symb q)) st' (stats s)\<rparr>) = Inr s'"
    "st_issuer st' = st_issuer st" "amount (st_max_supply st') \<le> amount (st_max_supply st)" "stat_is c i n s"
  shows "stat_is c i n s' \<and> (\<not> has_auth T a \<longrightarrow> bal_of c s a \<le> bal_of c s' a) \<and> tok_out s' = tok_out s"
proof -
  have "acct_inv (symb q) (s\<lparr>stats := t_set (sym_code (symb q)) st' (stats s)\<rparr>)"
    using token_invD(2) [OF assms(2,3)] assms(6) by simp
  note S = sub_balance_spec [OF assms(1) this assms(5,7)]
  have "bal_of c s' a = bal_of c s a" if "\<not> has_auth T a"
  proof (cases "sym_code (symb q) = c")
    case True
    then show ?thesis using S(2) assms(4) that by auto
  next
    case False
    then show ?thesis using S(6) [of c a] by (simp add: bal_of_def)
  qed
  then show ?thesis using S(5,8) assms(3,8-10) by (auto simp: stat_is_def)
qed

lemma token_exec_keeps:
  assumes "asset_laws T" "token_inv s" "token_exec T x s = Inr s'" "stat_is c i n s"
  shows "stat_is c i n s' \<and> (\<not> has_auth T a \<longrightarrow> bal_of c s a \<le> bal_of c s' a \<and>
    (\<exists>es. tok_out s' = tok_out s @ es \<and> (\<forall>e \<in> set es. \<forall>f t q. effect_transfer e = Some (f, t, q) \<longrightarrow> f \<noteq> a)))"
proof (cases x)
  case (Create j q)
  then show ?thesis using assms(3,4) by (auto simp: create_def Let_def res_simps require_auth_Inr_iff stat_is_def bal_of_def)
next
  case (Issue to q m)
  then have t: "issue T to q m s = Inr s'" using assms(3) by simp
  show ?thesis
    by (rule issue_bal [OF assms(1,2) t, where c = c and a = a and j = i and ?m0.0 = n]) (use assms(4) in \<open>auto split: if_splits\<close>)
next
  case (Transfer f t q m)
  then have t: "transfer T f t q m s = Inr s'" using assms(3) by simp
  have "has_auth T f" using t by (auto elim: transfer_Inr)
  moreover have "tok_out s' = tok_out s @ [Notify f, Notify t]" by (rule transfer_spec [OF assms(1,2) t])
  ultimately show ?thesis using transfer_bal(1) [OF assms(1,2) t, of c a] transfer_bal(3,4) [OF assms(1,2) t] assms(4)
    by (auto simp: stat_is_def)
next
  case (Retire q m)
  then have t: "retire T q m s = Inr s'" using assms(3) by simp
  obtain st where st: "t_get (stats s) (sym_code (symb q)) = Some st" "has_auth T (st_issuer st)" "0 < amount q" "symb q = symb (st_supply st)"
    and sub: "sub_balance T (st_issuer st) q (s\<lparr>stats := t_set (sym_code (symb q))
        (st\<lparr>st_supply := mk_asset (amount (st_supply st) - amount q) (symb q)\<rparr>) (stats s)\<rparr>) = Inr s'"
    by (rule retire_Inr [OF assms(1) t])
  show ?thesis using debit_keeps [OF assms(1,2) st sub _ _ assms(4)] st(3) by simp
next
  case (Burn q m)
  then have t: "burn T q m s = Inr s'" using assms(3) by simp
  obtain st where st: "t_get (stats s) (sym_code (symb q)) = Some st" "has_auth T (st_issuer st)" "0 < amount q" "symb q = symb (st_supply st)"
    and sub: "sub_balance T (st_issuer st) q (s\<lparr>stats := t_set (sym_code (symb q))
        (st\<lparr>st_max_supply := mk_asset (amount (st_max_supply st) - amount q) (symb q)\<rparr>) (stats s)\<rparr>) = Inr s'"
    by (rule burn_Inr [OF assms(1,2) t])
  show ?thesis using debit_keeps [OF assms(1,2) st sub _ _ assms(4)] st(3) by simp
next
  case (Open ow y p)
  then have t: "open_acct T ow y p s = Inr s'" using assms(3) by simp
  then have "tok_out s' = tok_out s" by (auto elim!: open_acct_Inr)
  then show ?thesis using open_close_bal(1) [OF t] assms(4) by (simp add: stat_is_def)
next
  case (Close ow y)
  then have t: "close_acct T ow y s = Inr s'" using assms(3) by simp
  then have "tok_out s' = tok_out s" by (auto elim!: close_acct_Inr)
  then show ?thesis using open_close_bal(2) [OF t] assms(4) by (simp add: stat_is_def)
qed

end
