(* ===== verification/ChainClaims.thy ===== *)
theory ChainClaims
  imports Delivery RexCustody FundClaims
begin

text \<open>
  The system contract and the token contract together: an action of the system contract is followed by
  the inline actions it sent, which the token contract executes; anyone may also call the token contract
  directly. The accounts of stakes, names, RAM and REX then really hold the tokens owed there, from the
  deployment of both contracts on.
\<close>

section \<open>The two contracts together\<close>

text \<open>
  A transaction is an action of the system contract, which reads the supply of tokens in the tables of the
  token contract and has its outbox delivered there, or a direct call of the token contract with the inline
  transfer it may send. The first check says that the amounts in an action's data are 64-bit integers.
\<close>

datatype chain_action = SysCall sys_action | TokenCall token_action

definition funds :: "string list" where
  "funds = [''eosio.stake'', ''eosio.names'', ''eosio.ram'', ''eosio.rex'']"

definition token_tx :: "env \<Rightarrow> token_action \<Rightarrow> token_state \<Rightarrow> token_state res" where
  "token_tx T x ts = rbind (token_exec T x (ts\<lparr>tok_out := []\<rparr>)) (\<lambda>ts1. rfold (token_inline T) (tok_out ts1) (ts1\<lparr>tok_out := []\<rparr>))"

fun chain_step :: "sys_env \<times> env \<Rightarrow> chain_action \<Rightarrow> sys_state \<times> token_state \<Rightarrow> (sys_state \<times> token_state) res" where
  "chain_step (E, T) (SysCall a) (s, ts) =
     check (sys_args_ok a) ''action data'' (
     rbind (sys_exec (E\<lparr>token_of := ts\<rparr>) a (s\<lparr>sys_out := []\<rparr>)) (\<lambda>s'.
     rbind (rfold (token_inline T) (sys_out s') ts) (\<lambda>ts'. Inr (s', ts'))))"
| "chain_step (E, T) (TokenCall x) (s, ts) = rbind (token_tx T x ts) (\<lambda>ts'. Inr (s, ts'))"

text \<open>Names mean the same in every block, and the funds sign nothing by themselves.\<close>

definition chain_ok :: "(string \<Rightarrow> name) \<Rightarrow> sys_env \<times> env \<Rightarrow> bool" where
  "chain_ok L e \<longleftrightarrow> (case e of (E, T) \<Rightarrow> sys_ok E \<and> lit E = L \<and> asset_laws T \<and> (\<forall>f \<in> set funds. \<not> has_auth T (L f)))"

lemma sys_ok_token [simp]: "sys_ok (E\<lparr>token_of := ts\<rparr>) \<longleftrightarrow> sys_ok E"
  by (simp add: sys_ok_def apart_def asset_laws_def)

definition chain_inv :: "64 word \<Rightarrow> name \<Rightarrow> int \<Rightarrow> token_state \<Rightarrow> bool" where
  "chain_inv c i m ts \<longleftrightarrow> token_inv ts \<and> stat_is c i m ts"

lemma bal_le_max: "chain_inv c i m ts \<Longrightarrow> 0 \<le> bal_of c ts a \<and> bal_of c ts a \<le> m"
proof -
  assume inv: "chain_inv c i m ts"
  then obtain st where st: "t_get (stats ts) c = Some st" "token_inv ts" "amount (st_max_supply st) \<le> m"
    by (auto simp: chain_inv_def stat_is_def)
  note D = token_invD [OF st(2,1)]
  have "sym_code (symb (st_supply st)) = c" using D(1) by (simp add: stat_ok_def)
  then show ?thesis
    using st(3) D acct_inv_nonneg [OF D(2), of a] acct_inv_le_circ [OF D(2), of a] by (auto simp: stat_ok_def)
qed

lemma outbox_keeps:
  assumes "asset_laws T" "rfold (token_inline T) es ts = Inr ts'"
  shows "token_inv ts \<Longrightarrow> token_inv ts'" "chain_inv c i m ts \<Longrightarrow> chain_inv c i m ts'"
proof -
  show "token_inv ts'" if "token_inv ts"
    by (rule rfold_inv [OF assms(2), of token_inv]) (use that token_inline_inv [OF assms(1)] in auto)
  show "chain_inv c i m ts'" if "chain_inv c i m ts"
    by (rule rfold_inv [OF assms(2), of "chain_inv c i m"])
      (use that inline_keeps [OF assms(1)] token_inline_inv [OF assms(1)] in \<open>auto simp: chain_inv_def\<close>)
qed

lemma token_tx_keeps:
  assumes "asset_laws T" "token_tx T x ts = Inr ts'"
  shows "token_inv ts \<Longrightarrow> token_inv ts'" "chain_inv c i m ts \<Longrightarrow> chain_inv c i m ts'"
    "chain_inv c i m ts \<Longrightarrow> \<not> has_auth T a \<Longrightarrow> bal_of c ts a \<le> bal_of c ts' a"
proof -
  let ?ts = "ts\<lparr>tok_out := []\<rparr>"
  obtain ts1 where 1: "token_exec T x ?ts = Inr ts1" and 2: "rfold (token_inline T) (tok_out ts1) (ts1\<lparr>tok_out := []\<rparr>) = Inr ts'"
    using assms(2) by (auto simp: token_tx_def res_simps)
  have inv1: "token_inv ts \<Longrightarrow> token_inv (ts1\<lparr>tok_out := []\<rparr>)" using token_exec_inv [OF assms(1) _ 1] by simp
  then show "token_inv ts \<Longrightarrow> token_inv ts'" using outbox_keeps(1) [OF assms(1) 2] by simp
  have K: "stat_is c i m ts1 \<and> (\<not> has_auth T a \<longrightarrow> bal_of c ts a \<le> bal_of c ts1 a \<and>
    (\<exists>es. tok_out ts1 = es \<and> (\<forall>e \<in> set es. \<forall>f t q. effect_transfer e = Some (f, t, q) \<longrightarrow> f \<noteq> a)))"
    if "chain_inv c i m ts" for a
    using token_exec_keeps [OF assms(1) _ 1, of c i m a] that by (simp add: chain_inv_def stat_is_def)
  have c1: "chain_inv c i m (ts1\<lparr>tok_out := []\<rparr>)" if "chain_inv c i m ts"
    using inv1 K [OF that] that by (simp add: chain_inv_def stat_is_def)
  then show "chain_inv c i m ts \<Longrightarrow> chain_inv c i m ts'" using outbox_keeps(2) [OF assms(1) 2] by blast
  show "bal_of c ts a \<le> bal_of c ts' a" if c: "chain_inv c i m ts" "\<not> has_auth T a"
  proof -
    have es: "f \<noteq> a" if "e \<in> set (tok_out ts1)" "effect_transfer e = Some (f, t, q)" for e f t q
      using K [OF c(1), of a] c(2) that by auto
    have "chain_inv c i m ts' \<and> bal_of c ts a \<le> bal_of c ts' a"
    proof (rule rfold_inv [OF 2, of "\<lambda>s. chain_inv c i m s \<and> bal_of c ts a \<le> bal_of c s a"])
      show "chain_inv c i m (ts1\<lparr>tok_out := []\<rparr>) \<and> bal_of c ts a \<le> bal_of c (ts1\<lparr>tok_out := []\<rparr>) a"
        using c1 [OF c(1)] K [OF c(1), of a] c(2) by simp
      show "chain_inv c i m s' \<and> bal_of c ts a \<le> bal_of c s' a"
        if "e \<in> set (tok_out ts1)" "chain_inv c i m s \<and> bal_of c ts a \<le> bal_of c s a" "token_inline T e s = Inr s'" for e s s'
        using that es [OF that(1)] inline_keeps [OF assms(1) _ that(3), of c i m a] token_inline_inv [OF assms(1) _ that(3)]
        by (fastforce simp: chain_inv_def)
    qed
    then show ?thesis by simp
  qed
qed

text \<open>
  A fund, that is, what the custody of an account promises, seen from the token contract. Before \<open>init\<close>
  nothing is owed; afterwards the balance in the core token, if that is \<open>c\<close>, covers what is owed.
\<close>

lemma conf_of_token: "conf cs b s \<Longrightarrow> of_token (sym_code cs) (sys_out s)"
  by (auto simp: conf_def of_token_def list_all_iff effect_transfer_def split: effect.splits call.splits)

context custody
begin

definition unlaunched :: "sys_state \<times> token_state \<Rightarrow> bool" where
  "unlaunched x \<longleftrightarrow> (case x of (s, ts) \<Rightarrow> token_inv ts \<and> well_typed s \<and> (rammarket s = None \<longrightarrow> inv s \<and> due s = 0))"

definition backed :: "(string \<Rightarrow> name) \<Rightarrow> 64 word \<Rightarrow> name \<Rightarrow> sys_state \<times> token_state \<Rightarrow> bool" where
  "backed L c i x \<longleftrightarrow> unlaunched x \<and> (case x of (s, ts) \<Rightarrow> chain_inv c i cap ts \<and>
     (\<forall>cs. sys_core s = Inr cs \<longrightarrow> sym_code cs = c \<longrightarrow> inv s \<and> due s \<le> bal_of c ts (L acct)))"

lemma idle_step:
  assumes "sys_ok E" "sys_args_ok a" "sys_exec E a (s\<lparr>sys_out := []\<rparr>) = Inr s'" "well_typed s" "rammarket s = None"
    "inv s" "due s = 0"
  shows "inv s' \<and> due s' = 0"
proof -
  have silent: "\<forall>e \<in> set (sys_out s'). effect_transfer e = None"
    using launch_silent [OF sys_okD(1) [OF assms(1)] assms(3) well_typed_out [OF assms(4)]] assms(5) by simp
  then have t: "transfers_ok (sys_out s')" by (auto simp: transfers_ok_def)
  have "income (lit E acct) s' = 0" "outgo (lit E acct) s' = 0"
    using moved_silent [OF silent] by (simp_all add: income_def outgo_def)
  then have "inv s' \<and> due s' \<le> 0"
    using step [OF assms(1,2) inv_out [OF assms(6)] _ assms(3) t] assms(7) cap_nonneg by (simp add: due_out)
  then show ?thesis using due_nonneg [of s'] by auto
qed

lemma unlaunched_step:
  assumes "chain_ok L e" "unlaunched x" "chain_step e a x = Inr x'"
  shows "unlaunched x'"
proof -
  obtain E T s ts where x: "e = (E, T)" "x = (s, ts)" by (cases e, cases x)
  have ok: "sys_ok E" "asset_laws T" using assms(1) by (auto simp: chain_ok_def x)
  have b: "token_inv ts" "well_typed s" "rammarket s = None \<Longrightarrow> inv s \<and> due s = 0" using assms(2) by (simp_all add: unlaunched_def x)
  show ?thesis
  proof (cases a)
    case (TokenCall y)
    then show ?thesis using assms(3) b token_tx_keeps(1) [OF ok(2)] by (auto simp: x res_simps unlaunched_def)
  next
    case (SysCall y)
    let ?E = "E\<lparr>token_of := ts\<rparr>" and ?s = "s\<lparr>sys_out := []\<rparr>"
    obtain s' ts' where 1: "sys_args_ok y" "sys_exec ?E y ?s = Inr s'" "rfold (token_inline T) (sys_out s') ts = Inr ts'" "x' = (s', ts')"
      using assms(3) by (auto simp: x SysCall res_simps)
    have E: "sys_ok ?E" using ok(1) by simp
    have w: "well_typed s'" by (rule sys_exec_typed [OF sys_okD(1) [OF E] 1(2) well_typed_out [OF b(2)]])
    have "inv s' \<and> due s' = 0" if n: "rammarket s' = None"
    proof (cases "rammarket s = None")
      case True
      then show ?thesis using idle_step [OF E 1(1,2) b(2) True] b(3) by blast
    next
      case False
      then obtain cs where "conf cs True ?s" using well_typed_out [OF b(2)] by (auto simp: well_typed_conf)
      then have "sys_core s' = Inr cs"
        using core_kept [OF reach_one [where exec = sys_exec and ok = asset_laws, OF 1(2) sys_okD(1) [OF E]] well_typed_out [OF b(2)]]
          conf_core by blast
      then show ?thesis using n by (simp add: sys_core_def core_symbol_Inr_iff)
    qed
    then show ?thesis using w outbox_keeps(1) [OF ok(2) 1(3) b(1)] by (simp add: unlaunched_def 1(4))
  qed
qed

lemma backed_step:
  assumes "acct \<in> set funds" "chain_ok L e" "L acct \<noteq> i" "backed L c i x" "chain_step e a x = Inr x'"
  shows "backed L c i x'"
proof -
  obtain E T s ts where x: "e = (E, T)" "x = (s, ts)" by (cases e, cases x)
  have ok: "sys_ok E" "lit E = L" "asset_laws T" "\<not> has_auth T (L acct)" using assms(1,2) by (auto simp: chain_ok_def x)
  have u: "unlaunched (s, ts)" and ci: "chain_inv c i cap ts"
    and b: "\<And>cs. sys_core s = Inr cs \<Longrightarrow> sym_code cs = c \<Longrightarrow> inv s \<and> due s \<le> bal_of c ts (L acct)"
    using assms(4) by (simp_all add: backed_def x)
  have w: "well_typed (s\<lparr>sys_out := []\<rparr>)" using u by (auto simp: unlaunched_def intro: well_typed_out)
  have u': "unlaunched x'" by (rule unlaunched_step [OF assms(2) _ assms(5)]) (use u x in simp)
  show ?thesis
  proof (cases a)
    case (TokenCall y)
    then obtain ts' where t: "token_tx T y ts = Inr ts'" "x' = (s, ts')" using assms(5) by (auto simp: x res_simps)
    then show ?thesis
      using token_tx_keeps(2) [OF ok(3) t(1) ci] token_tx_keeps(3) [OF ok(3) t(1) ci ok(4)] b u' by (fastforce simp: backed_def)
  next
    case (SysCall y)
    let ?E = "E\<lparr>token_of := ts\<rparr>" and ?s = "s\<lparr>sys_out := []\<rparr>"
    obtain s' ts' where 1: "sys_args_ok y" "sys_exec ?E y ?s = Inr s'" "rfold (token_inline T) (sys_out s') ts = Inr ts'" "x' = (s', ts')"
      using assms(5) by (auto simp: x SysCall res_simps)
    have E: "sys_ok ?E" "lit ?E = L" using ok by simp_all
    have ci': "chain_inv c i cap ts'" by (rule outbox_keeps(2) [OF ok(3) 1(3) ci])
    have "inv s' \<and> due s' \<le> bal_of c ts' (L acct)" if cs: "sys_core s' = Inr cs" "sym_code cs = c" for cs
    proof (cases "rammarket s = None")
      case True
      then have "inv s' \<and> due s' = 0" using idle_step [OF E(1) 1(1,2)] u by (simp add: unlaunched_def)
      then show ?thesis using bal_le_max [OF ci'] by simp
    next
      case False
      then obtain z where z: "conf z True ?s" using w by (auto simp: well_typed_conf)
      have "sys_core s' = Inr z" "conf z True s'"
        using core_kept [OF reach_one [where exec = sys_exec and ok = asset_laws, OF 1(2) sys_okD(1) [OF E(1)]] w conf_core [OF z]] by auto
      then have c: "of_token c (sys_out s')" "sys_core s = Inr cs" using cs conf_core [OF z] conf_of_token [of z True s'] by (auto simp: sys_core_def)
      have B: "bal_of c ts' (L acct) = bal_of c ts (L acct) + income (L acct) s' - outgo (L acct) s' \<and> transfers_ok (sys_out s')"
        using outbox_bal [OF ok(3) 1(3) _ c(1) _ assms(3)] ci by (auto simp: chain_inv_def income_def outgo_def)
      have "sys_txn acct cap ?E y (s, bal_of c ts (L acct)) = Inr (s', bal_of c ts' (L acct))"
        using 1 B E(2) bal_le_max [OF ci', of "L acct"] by (simp add: sys_txn_def)
      moreover have "solvent due inv cap (s, bal_of c ts (L acct))" using b [OF c(2) cs(2)] bal_le_max [OF ci] by (simp add: solvent_def)
      ultimately have "solvent due inv cap (s', bal_of c ts' (L acct))" using txn_solvent [OF E(1)] by blast
      then show ?thesis by (simp add: solvent_def)
    qed
    then show ?thesis using u' ci' 1(4) by (simp add: backed_def)
  qed
qed

text \<open>From the deployment of both contracts, and from the creation of the core token before \<open>init\<close>.\<close>

lemma chain_backed:
  assumes "reachable chain_step (chain_ok L) (sys_init_state p, token_init) (s1, ts1)" "inv (sys_init_state p)" "due (sys_init_state p) = 0"
    and "rammarket s1 = None" "stat_is c i cap ts1" "acct \<in> set funds" "L acct \<noteq> i"
    and "reachable chain_step (chain_ok L) (s1, ts1) (s, ts)" "sys_core s = Inr cs" "sym_code cs = c"
  shows "0 \<le> due s \<and> due s \<le> bal_of c ts (L acct)"
proof -
  have "unlaunched (s1, ts1)" using assms(1)
  proof (induction rule: reachable.induct)
    case (reach_step x e a x')
    show ?case by (rule unlaunched_step [OF reach_step.hyps(2) reach_step.IH reach_step.hyps(3)])
  qed (use assms(2,3) init_state_typed [of p] token_init_inv in \<open>simp add: unlaunched_def\<close>)
  then have 1: "backed L c i (s1, ts1)"
    using assms(4,5) by (auto simp: backed_def unlaunched_def chain_inv_def sys_core_def core_symbol_Inr_iff)
  have "backed L c i (s, ts)" using assms(8)
  proof (induction rule: reachable.induct)
    case (reach_step x e a x')
    show ?case by (rule backed_step [OF assms(6) reach_step.hyps(2) assms(7) reach_step.IH reach_step.hyps(3)])
  qed (rule 1)
  then show ?thesis using assms(9,10) due_nonneg by (simp add: backed_def)
qed

end

text \<open>Nothing is owed at deployment.\<close>

lemma stake_launch: "stake_inv (sys_init_state p)" "stake_due (sys_init_state p) = 0"
  by (simp_all add: sys_init_state_def stake_inv_def stake_due_def delegated_def pending_def)

lemma names_launch: "names_inv (sys_init_state p)" "names_due (sys_init_state p) = 0"
  by (simp_all add: sys_init_state_def names_inv_def names_due_def open_bids_def bid_refunds_def proceeds_of_def)

lemma ram_launch: "ram_inv (sys_init_state p)" "ram_due (sys_init_state p) = 0"
  by (simp_all add: sys_init_state_def ram_inv_def ram_due_def default_gstate_def)

lemma rex_launch: "rex_held (sys_init_state p)" "rex_due (sys_init_state p) = 0"
proof -
  have m: "rammarket (sys_init_state p) = None" by (simp add: sys_init_state_def)
  show "rex_due (sys_init_state p) = 0" using idle_rex(1) [OF init_state_typed m] by (simp add: rex_due_def)
  show "rex_held (sys_init_state p)"
    using well_typed_out [OF init_state_typed, of p] m by (simp add: rex_held_def sys_core_def core_symbol_Inr_iff)
qed

lemma chain_token_inv:
  assumes "reachable chain_step (chain_ok L) (s0, token_init) (s, ts)"
  shows "token_inv ts"
proof -
  have "token_inv (snd (s, ts))" using assms
  proof (induction rule: reachable.induct)
    case (reach_step x e a x')
    obtain E T z tz where x: "e = (E, T)" "x = (z, tz)" by (cases e, cases x)
    have "asset_laws T" using reach_step.hyps(2) by (simp add: chain_ok_def x)
    then show ?case
      using reach_step.hyps(3) reach_step.IH outbox_keeps(1) token_tx_keeps(1) by (cases a) (auto simp: x res_simps)
  qed (simp add: token_init_inv)
  then show ?thesis by simp
qed

lemma token_inv_max: "token_inv ts \<Longrightarrow> t_get (stats ts) c = Some st \<Longrightarrow> stat_is c (st_issuer st) max_amount ts"
  by (auto simp: stat_is_def stat_ok_def dest!: token_invD(1))

text \<open>
  C1. The tokens are there: from the deployment of system and token contract on, with every action's inline
  transfers executed by the token contract and anyone calling the token contract in between, the token
  balances of \<open>eosio.stake\<close>, \<open>eosio.names\<close> and \<open>eosio.ram\<close> always cover the delegations and refunds, the bids
  and their refunds, and the stake of the RAM market, and that of \<open>eosio.rex\<close> covers what REX owes, if the
  maximum supply of the core token is at most \<open>rex_cap\<close>. The core token is created before \<open>init\<close> chooses it,
  by an account that is not one of these, and the funds themselves sign nothing (\<open>chain_ok\<close>).
\<close>

theorem funds_hold_tokens:
  assumes "reachable chain_step (chain_ok L) (sys_init_state p, token_init) (s1, ts1)" and "rammarket s1 = None"
    and "t_get (stats ts1) (sym_code cs) = Some st" and "st_issuer st \<notin> L ` set funds"
    and "reachable chain_step (chain_ok L) (s1, ts1) (s, ts)" and "sys_core s = Inr cs"
  shows "0 \<le> stake_due s \<and> stake_due s \<le> bal_of (sym_code cs) ts (L ''eosio.stake'') \<and>
     0 \<le> names_due s \<and> names_due s \<le> bal_of (sym_code cs) ts (L ''eosio.names'') \<and>
     0 \<le> total_ram_stake (gst (vs s)) \<and> total_ram_stake (gst (vs s)) \<le> bal_of (sym_code cs) ts (L ''eosio.ram'') \<and>
     (amount (st_max_supply st) \<le> rex_cap \<longrightarrow> 0 \<le> liab (rx s) \<and> liab (rx s) \<le> bal_of (sym_code cs) ts (L ''eosio.rex''))"
proof -
  let ?c = "sym_code cs" and ?i = "st_issuer st"
  have f: "''eosio.stake'' \<in> set funds" "''eosio.names'' \<in> set funds" "''eosio.ram'' \<in> set funds" "''eosio.rex'' \<in> set funds"
    by (simp_all add: funds_def)
  have n: "L f \<noteq> ?i" if "f \<in> set funds" for f using assms(4) that by (metis imageI)
  have m: "stat_is ?c ?i max_amount ts1" "amount (st_max_supply st) \<le> rex_cap \<Longrightarrow> stat_is ?c ?i rex_cap ts1"
    using token_inv_max [OF chain_token_inv [OF assms(1)] assms(3)] assms(3) by (simp_all add: stat_is_def)
  have "0 \<le> stake_due s \<and> stake_due s \<le> bal_of ?c ts (L ''eosio.stake'')"
    by (rule stake.chain_backed [OF assms(1) _ _ assms(2) m(1) f(1) n [OF f(1)] assms(5,6) refl]) (simp_all add: stake_launch)
  moreover have "0 \<le> names_due s \<and> names_due s \<le> bal_of ?c ts (L ''eosio.names'')"
    by (rule names.chain_backed [OF assms(1) _ _ assms(2) m(1) f(2) n [OF f(2)] assms(5,6) refl]) (simp_all add: names_launch)
  moreover have "0 \<le> ram_due s \<and> ram_due s \<le> bal_of ?c ts (L ''eosio.ram'')"
    by (rule ram.chain_backed [OF assms(1) _ _ assms(2) m(1) f(3) n [OF f(3)] assms(5,6) refl]) (simp_all add: ram_launch)
  moreover have "0 \<le> rex_due s \<and> rex_due s \<le> bal_of ?c ts (L ''eosio.rex'')" if "amount (st_max_supply st) \<le> rex_cap"
    by (rule rex.chain_backed [OF assms(1) _ _ assms(2) m(2) [OF that] f(4) n [OF f(4)] assms(5,6) refl]) (simp_all add: rex_launch)
  ultimately show ?thesis by (simp add: ram_due_def rex_due_def)
qed

text \<open>A run from the deployment on: the token is created and issued, the contract initialised, a name bid for.\<close>

abbreviation token_acct :: name where
  "token_acct \<equiv> ref_lit ''eosio.token''"

definition core_stat :: "int \<Rightarrow> currency_stats" where
  "core_stat n = \<lparr>st_supply = mk_asset n core_sym, st_max_supply = mk_asset 5000 core_sym, st_issuer = 1\<rparr>"

definition demo_created :: token_state where
  "demo_created = token_init\<lparr>stats := t_set 5 (core_stat 0) t_empty\<rparr>"

definition demo_issued_core :: token_state where
  "demo_issued_core = token_init\<lparr>stats := t_set 5 (core_stat 1000) t_empty,
     accounts := t_set (1, 5) \<lparr>balance = mk_asset 1000 core_sym, payer = 1\<rparr> t_empty\<rparr>"

lemma chain_demo_names: "ref_lit ''eosio.rex'' \<notin> {0, 1, 7}" "ref_lit ''eosio.names'' \<notin> {0, 1, 7, ref_lit ''eosio.rex''}" "1 \<notin> ref_lit ` set funds"
  "\<forall>f \<in> set funds. ref_lit f \<notin> {1, 99, token_acct}"
  by code_simp+

lemma chain_demo_create: "token_tx (ref_env token_acct [token_acct] 0) (Create 1 (mk_asset 5000 core_sym)) token_init = Inr demo_created"
  by (simp add: token_tx_def token_init_def create_def token_eval core_sym_def core_stat_def demo_created_def t_emplace_def del: ref_lit.simps)

lemma chain_demo_issue: "token_tx (ref_env token_acct [1] 0) (Issue 1 (mk_asset 1000 core_sym) []) demo_created = Inr demo_issued_core"
  by (simp add: token_tx_def token_init_def token_eval core_sym_def core_stat_def demo_created_def demo_issued_core_def max_amount_def
      tab.put_put del: ref_lit.simps)

lemma chain_demo_init:
  "\<exists>s ts. chain_step (sys_ref [99] 0, ref_env token_acct [] 0) (SysCall (AdminAct (Init 0 core_sym))) (sys_init_state demo_params, demo_issued_core)
     = Inr (s, ts) \<and> sys_core s = Inr core_sym \<and> namebids s = t_empty \<and> bidrefunds s = t_empty \<and> rx s = rx (sys_init_state demo_params) \<and>
     stats ts = stats demo_issued_core \<and> (\<forall>n \<in> {1, 7, ref_lit ''eosio.names''}. t_get (accounts ts) (n, 5) = t_get (accounts demo_issued_core) (n, 5))"
proof -
  let ?E = "(sys_ref [99] 0)\<lparr>token_of := demo_issued_core\<rparr>" and ?s = "sys_init_state demo_params"
  have out: "?s\<lparr>sys_out := []\<rparr> = ?s" by (simp add: sys_init_state_def)
  obtain s ps i where x: "sys_exec ?E (AdminAct (Init 0 core_sym)) ?s = Inr s" and c: "sys_core s = Inr core_sym"
    "namebids s = t_empty" "bidrefunds s = t_empty" "rx s = rx ?s"
    "sys_out s = [Inline token_acct [at_active ?E 99] (TokenOpen (ref_lit ''eosio.rex'') core_sym 99)]"
    by (simp add: init_def require_auth_def Let_def sys_core_def get_supply_def demo_issued_core_def core_stat_def token_init_def)
      (simp add: core_sym_def sys_init_state_def emit_def conn.simps del: conn_simps)
  obtain ts where "rfold (token_inline (ref_env token_acct [] 0)) (sys_out s) demo_issued_core = Inr ts"
    "stats ts = stats demo_issued_core" "\<forall>n \<in> {1, 7, ref_lit ''eosio.names''}. t_get (accounts ts) (n, 5) = t_get (accounts demo_issued_core) (n, 5)"
    using chain_demo_names(1,2)
    by (simp add: c open_acct_def token_eval inline_env_def at_active_def at_perm_def demo_issued_core_def core_stat_def token_init_def
        core_sym_def t_emplace_def del: ref_lit.simps)
  then show ?thesis using x c by (simp add: out sys_args_ok_def del: sys_exec.simps ref_lit.simps)
qed

lemma chain_demo_transfer:
  assumes "stats ts = stats demo_issued_core" "\<forall>n \<in> {1, 7, ref_lit ''eosio.names''}. t_get (accounts ts) (n, 5) = t_get (accounts demo_issued_core) (n, 5)"
  shows "\<exists>ts'. token_tx (ref_env token_acct [1] 0) (Transfer 1 7 (mk_asset 500 core_sym) []) ts = Inr ts' \<and>
    stats ts' = stats demo_issued_core \<and> t_get (accounts ts') (7, 5) = Some \<lparr>balance = mk_asset 500 core_sym, payer = 1\<rparr> \<and>
    t_get (accounts ts') (ref_lit ''eosio.names'', 5) = None"
  using assms chain_demo_names(2)
  by (simp add: token_tx_def token_eval demo_issued_core_def core_stat_def token_init_def core_sym_def max_amount_def wrap64_def
      del: ref_lit.simps)

lemma chain_demo_bid:
  assumes "sys_core s = Inr core_sym" "namebids s = t_empty" "bidrefunds s = t_empty" "rx s = rx (sys_init_state demo_params)"
    and "stats ts = stats demo_issued_core" "t_get (accounts ts) (7, 5) = Some \<lparr>balance = mk_asset 500 core_sym, payer = 1\<rparr>"
    and "t_get (accounts ts) (ref_lit ''eosio.names'', 5) = None"
  shows "\<exists>s' ts'. chain_step (bid_env, ref_env token_acct [] 0) (SysCall (AdminAct (Bidname 7 512 (mk_asset 120 core_sym)))) (s, ts)
     = Inr (s', ts') \<and> sys_core s' = Inr core_sym \<and> names_due s' = 120"
proof -
  let ?E = "bid_env\<lparr>token_of := ts\<rparr>" and ?s = "s\<lparr>sys_out := []\<rparr>"
  obtain s' where x: "sys_exec ?E (AdminAct (Bidname 7 512 (mk_asset 120 core_sym))) ?s = Inr s'" and c: "sys_core s' = Inr core_sym"
    "names_due s' = 120"
    "sys_out s' = [Inline token_acct [at_active bid_env 7] (TokenTransfer 7 (ref_lit ''eosio.names'') (mk_asset 120 core_sym) (''bid name '' @ name_str bid_env 512))]"
    using assms(1-4)
    by (simp add: bidname_def require_auth_def bid_env_def name_set_def Let_def sys_core_def check_def)
      (simp add: names_due_def open_bids_def bid_refunds_def proceeds_of_def sys_init_state_def t_sum_set send_transfer_def emit_def at_active_def at_perm_def)
  obtain ts' where "rfold (token_inline (ref_env token_acct [] 0)) (sys_out s') ts = Inr ts'"
    using chain_demo_names(2) assms(5-7)
    by (simp add: c token_eval inline_env_def at_active_def at_perm_def demo_issued_core_def core_stat_def token_init_def
        core_sym_def max_amount_def wrap64_def bid_env_def del: ref_lit.simps)
  then show ?thesis using x c by (simp add: sys_args_ok_def in64_def del: sys_exec.simps ref_lit.simps)
qed

lemma chain_okI: "sys_ok E \<Longrightarrow> lit E = ref_lit \<Longrightarrow> \<forall>f \<in> set funds. ref_lit f \<notin> set as \<Longrightarrow> chain_ok ref_lit (E, ref_env token_acct as 0)"
  by (simp add: chain_ok_def)

lemma sys_ok_99: "sys_ok (sys_ref [99] t)"
  by (rule sys_ok_ref) code_simp

theorem funds_hold_tokens_witness: "\<exists>s0 s ts. reachable chain_step (chain_ok ref_lit) s0 (s, ts) \<and>
    names_due s = 120 \<and> 120 \<le> bal_of (sym_code core_sym) ts (ref_lit ''eosio.names'')"
proof -
  let ?s = "sys_init_state demo_params" and ?T = "\<lambda>as. ref_env token_acct as 0"
  obtain s1 t1 where 1: "chain_step (sys_ref [99] 0, ?T []) (SysCall (AdminAct (Init 0 core_sym))) (?s, demo_issued_core) = Inr (s1, t1)"
    and s1: "sys_core s1 = Inr core_sym" "namebids s1 = t_empty" "bidrefunds s1 = t_empty" "rx s1 = rx ?s"
    and t1: "stats t1 = stats demo_issued_core"
      "\<forall>n \<in> {1, 7, ref_lit ''eosio.names''}. t_get (accounts t1) (n, 5) = t_get (accounts demo_issued_core) (n, 5)"
    using chain_demo_init by blast
  obtain t2 where 2: "token_tx (?T [1]) (Transfer 1 7 (mk_asset 500 core_sym) []) t1 = Inr t2"
    and t2: "stats t2 = stats demo_issued_core" "t_get (accounts t2) (7, 5) = Some \<lparr>balance = mk_asset 500 core_sym, payer = 1\<rparr>"
      "t_get (accounts t2) (ref_lit ''eosio.names'', 5) = None"
    using chain_demo_transfer [OF t1] by blast
  obtain s3 t3 where 3: "chain_step (bid_env, ?T []) (SysCall (AdminAct (Bidname 7 512 (mk_asset 120 core_sym)))) (s1, t2) = Inr (s3, t3)"
    and s3: "sys_core s3 = Inr core_sym" "names_due s3 = 120"
    using chain_demo_bid [OF s1 t2] by blast
  note step = reach_step [where exec = chain_step and ok = "chain_ok ref_lit"]
  have ok: "chain_ok ref_lit (sys_ref [99] 0, ?T bs)" if "\<forall>f \<in> set funds. ref_lit f \<notin> set bs" for bs
    using that by (intro chain_okI sys_ok_99) simp_all
  have okb: "chain_ok ref_lit (bid_env, ?T [])" by (rule chain_okI [OF sys_ok_bid]) (simp_all add: bid_env_def)
  have r1: "reachable chain_step (chain_ok ref_lit) (?s, token_init) (?s, demo_created)"
    by (rule step [OF reach_init ok, where a = "TokenCall (Create 1 (mk_asset 5000 core_sym))"])
      (use chain_demo_create chain_demo_names(4) in \<open>auto simp: res_simps\<close>)
  have "reachable chain_step (chain_ok ref_lit) (?s, demo_created) (?s, demo_issued_core)"
    by (rule step [OF reach_init ok, where a = "TokenCall (Issue 1 (mk_asset 1000 core_sym) [])"])
      (use chain_demo_issue chain_demo_names(4) in \<open>auto simp: res_simps\<close>)
  then have "reachable chain_step (chain_ok ref_lit) (?s, demo_created) (s1, t1)"
    by (rule step [OF _ ok 1]) simp
  then have "reachable chain_step (chain_ok ref_lit) (?s, demo_created) (s1, t2)"
    by (rule step [OF _ ok, where a = "TokenCall (Transfer 1 7 (mk_asset 500 core_sym) [])"])
      (use 2 chain_demo_names(4) in \<open>auto simp: res_simps\<close>)
  then have r2: "reachable chain_step (chain_ok ref_lit) (?s, demo_created) (s3, t3)" by (rule step [OF _ okb 3])
  have st: "t_get (stats demo_created) (sym_code core_sym) = Some (core_stat 0)" by (simp add: demo_created_def core_sym_def)
  have "names_due s3 \<le> bal_of (sym_code core_sym) t3 (ref_lit ''eosio.names'')"
    using funds_hold_tokens [OF r1 _ st _ r2 s3(1)] chain_demo_names(3) by (simp add: sys_init_state_def core_stat_def)
  then show ?thesis using r2 s3 by auto
qed

end
