(* ===== verification/Spec2Isabelle.thy ===== *)
theory Spec2Isabelle
  imports TokenProps Domain Msig RexClaims Bios FundClaims VoteClaims OracleClaims NameClaims RegistryClaims ChainClaims
begin

text \<open>
  The Aladin contracts 1.6 (\<open>src/contracts\<close>): a model of the smart contracts of an EOSIO chain, and the
  theorems that make them correct.

  \<^bold>\<open>The program.\<close> Eleven contracts run on accounts of their own. \<open>eosio.system\<close> is the core: it elects the
  block producers by token-weighted votes (\<open>voting.cpp\<close>), delegates bandwidth and trades RAM
  (\<open>delegate_bandwidth.cpp\<close>, \<open>exchange_state.cpp\<close>), lends bandwidth through REX (\<open>rex.cpp\<close>), issues and pays
  out inflation (\<open>producer_pay.cpp\<close>), assigns requests to oracles (\<open>oracle.cpp\<close>), and auctions short names
  and manages accounts (\<open>eosio.system.cpp\<close>). \<open>eosio.token\<close> keeps all token balances; the system contract
  moves tokens by inline transfers to and from fund accounts (\<open>eosio.stake\<close>, \<open>eosio.ram\<close>, \<open>eosio.names\<close>,
  \<open>eosio.rex\<close>, the pay accounts). \<open>dapp_registry\<close> counts what the DApps earn and is read by
  \<open>claimdapprwd\<close>; \<open>transfer_notifier\<close> and \<open>dummy_app\<close> forward transfers to it. \<open>eosio.msig\<close> executes
  transactions approved by several accounts, \<open>eosio.wrap\<close> those of privileged ones, \<open>eosio.bios\<close> and
  \<open>rex.results\<close> are thin, \<open>domain\<close> and \<open>subdomain\<close> store one record per account.

  \<^bold>\<open>How code is modelled.\<close> An action is a function from an environment, its arguments and the contract's
  state to a result: \<open>Inr\<close> the new state or \<open>Inl\<close> the error of the first failed check, table lookup or
  authorisation, with the message of the source. The tables are sorted lists of rows (\<open>Tables\<close>, with the
  laws of \<open>multi_index\<close> as a locale), \<open>int64_t\<close> and the unsigned types integers with every wrap-around
  written out, \<open>double\<close> IEEE binary64 with rounding (\<open>Binary64\<close>), names and bit fields words. What an action
  sends (notifications, inline actions, deferred transactions) is appended to an outbox. A step that C++
  leaves undefined, such as dereferencing an end iterator, is the error \<open>Undefined\<close>. The host and the eosio
  library are the records \<open>env\<close> and \<open>sys_env\<close>: what the contracts rely on is stated as \<open>asset_laws\<close>
  (arithmetic of \<open>asset\<close>) and as hypotheses of the properties that need more, and \<open>ref_env\<close> and
  \<open>sys_ref\<close> are instances in which the witnesses are evaluated.

  \<^bold>\<open>Theories and sources.\<close>
  \<^item> \<open>Prelude\<close>, \<open>Chain\<close>, \<open>Tables\<close>, \<open>Binary64\<close>, \<open>Ledgers\<close>: results and integers, environment and runs
    (\<open>action_system\<close>, \<open>reachable\<close>), tables, doubles, the interface of balances.
  \<^item> \<open>Token\<close>, \<open>TokenLaws\<close>, \<open>TokenProps\<close>: \<open>eosio.token\<close>, its invariant, its refinement of an abstract ledger.
  \<^item> \<open>Msig\<close>: \<open>eosio.msig\<close>. \<open>Domain\<close>: both domain contracts. \<open>Bios\<close>: \<open>eosio.bios\<close>, \<open>eosio.wrap\<close>, \<open>rex.results\<close>.
  \<^item> \<open>DappRegistry\<close>, \<open>RegistryClaims\<close>: the registry and its forwarders; links and totals.
  \<^item> \<open>SysState\<close> (\<open>eosio.system.hpp\<close>), \<open>Votes\<close> (\<open>voting.cpp\<close>), \<open>Exchange\<close>, \<open>RexPool\<close> and \<open>Rex\<close> (\<open>rex.cpp\<close>),
    \<open>Bandwidth\<close>, \<open>Pay\<close>, \<open>Oracle\<close>, \<open>Admin\<close> with the dispatch table \<open>sys_exec\<close>: the operations of the system contract.
  \<^item> \<open>RexRows\<close>, \<open>RexLaws\<close>, \<open>RexSys\<close>, \<open>RexMoves\<close>, \<open>RexProps\<close>, \<open>RexActs\<close>, \<open>RexClaims\<close>: conservation of tokens by
    REX, its bookkeeping and the fairness of its price.
  \<^item> \<open>Proxies\<close>, \<open>VoteFrames\<close>, \<open>WriteSets\<close>, \<open>BwFrames\<close>, \<open>RexFrames\<close>, \<open>SysFrames\<close>: which part of the state an
    action writes and whose tokens it sends; an invariant of a part then needs only the actions that write it.
  \<^item> \<open>Conform\<close>, \<open>Typing\<close>: which symbol every amount in the tables and in the sent calls carries, and that every
    action keeps this typing.
  \<^item> \<open>Custody\<close>, \<open>StakeCustody\<close>, \<open>NamesCustody\<close>, \<open>RexCustody\<close>, \<open>FundClaims\<close>: the locale \<open>custody\<close> of an account
    that holds tokens owed by the contract, its interpretations for RAM, stakes, names and REX against every
    action of the system contract, and their solvency.
  \<^item> \<open>Delivery\<close>, \<open>ChainClaims\<close>: what inline transfers do to token balances, and system and token contract
    together from their deployment on, with the inline transfers executed.
  \<^item> \<open>VoteLaws\<close>, \<open>Elections\<close>, \<open>Ends\<close>, \<open>SysEnds\<close>, \<open>VoteClaims\<close>: proxies, votes, election, and the end of every action.
  \<^item> \<open>PayClaims\<close>, \<open>OracleClaims\<close>, \<open>NameClaims\<close>: pay and punishment, requests and replies, the auction of names.
  \<^item> \<open>SysDemo\<close>: the concrete environment and state of the witnesses.

  \<^bold>\<open>What the theorems show.\<close> Every fund account holds what is owed from it (stakes, names, RAM, REX):
  against a single balance, from any state in which it does, and against the token contract itself, in
  every state that the two contracts reach together from their deployment. The core symbol is chosen once, and
  no amount is ever in a symbol that is not its column's. Balances never exceed the supply; no action moves tokens of an account that did not sign it or is not its component's.
  Proxies never form a cycle, so every action ends; a vote is recorded and accounted for; the elected are the
  first of the index by votes, which are the producers with the most votes unless an inactive producer with
  negative votes stands before them (the code can leave one behind, \<open>demo_negative\<close>). REX conserves tokens and its price does not fall. A refund waits three days and
  is then always paid. Requests are assigned to the oracles of two different elected producers, and answered by
  the right one, in time and once. The counts that pay is shared out by (blocks, votes, answers) are the sums
  they should be; a voter is paid the share that 64-bit arithmetic gives, the true one while the product of
  votes and bucket does not overflow (\<open>claim_overflows\<close> is a case where it does). No fund account signs an
  action in these runs (\<open>sys_ok\<close>, \<open>chain_ok\<close>). Proposals run once and only with live approvals.

  \<^bold>\<open>Fuel and bounds.\<close> Two recursions of the source have no structural measure. \<open>propagate_weight_change\<close> follows
  the chain of proxies with \<open>vote_fuel\<close>, one more than the number of voters: the chain is no longer because the
  proxies form no cycle. \<open>convert\<close> calls itself at most once; two rounds are given. \<open>every_action_ends\<close> states
  that no action of a reachable state runs out of either. \<open>rex_cap\<close> (4 * 10^14, far above the supply of the
  core token) and \<open>max_amount\<close> (2^62 - 1, the limit of \<open>asset\<close>) bound the supply of the core token for which REX
  and the other funds are followed; \<open>registry_step\<close> states the range in which its counters do not overflow.

  \<^bold>\<open>Not modelled.\<close> The billing of RAM to the payer of a row and the host's resource accounting; the binary
  interface (unpacking of action data, \<open>EOSLIB_SERIALIZE\<close>, the dispatch macro) and the declarations of the
  headers; printed text; the data of \<open>native.hpp\<close> that the contracts ignore (authorities, block headers beyond
  time and producer). Hashes, \<open>std::pow\<close>, \<open>std::sort\<close> among equal elements, name literals and suffixes, the
  host's producer schedule and authorisation check are parameters. Deferred transactions are recorded, not run.
\<close>

end
